(* ===== verification/Prelude.thy ===== *)
theory Prelude
  imports Complex_Main "HOL-Library.Sublist" "HOL-Library.Char_ord" "HOL-Library.List_Lexorder"
begin

text \<open>
  What every component of the development shares: the exceptions of
  \<^verbatim>\<open>app/core/exceptions.py\<close> and the Python exceptions the services raise, JSON values,
  the monad of a Python coroutine that may raise and mutates a session (a function from
  the state to an error or a value, and the new state: an exception keeps the writes that
  came before it), the preservation calculus for state invariants, row operations on
  tables, and generic lemmas on lists.
\<close>

section \<open>Exceptions\<close>

text \<open>
  The subclasses of \<^verbatim>\<open>AppError\<close>; the argument is the message. No service passes the
  keyword \<^verbatim>\<open>details\<close>, which therefore stays \<^verbatim>\<open>None\<close>.
\<close>

datatype app_error =
    NotFound string
  | BadRequest string
  | Conflict string
  | Unauthorized string
  | Forbidden string
  | InvalidState string
  | DependencyUnavailable string
  | RateLimited string

text \<open>\<^verbatim>\<open>AppError.code\<close>, \<^verbatim>\<open>AppError.message\<close> and \<^verbatim>\<open>AppError.status_code\<close>.\<close>

fun err_code :: "app_error \<Rightarrow> string" where
  "err_code (NotFound m) = ''not_found''"
| "err_code (BadRequest m) = ''bad_request''"
| "err_code (Conflict m) = ''conflict''"
| "err_code (Unauthorized m) = ''unauthorized''"
| "err_code (Forbidden m) = ''forbidden''"
| "err_code (InvalidState m) = ''invalid_state''"
| "err_code (DependencyUnavailable m) = ''dependency_unavailable''"
| "err_code (RateLimited m) = ''rate_limited''"

fun err_message :: "app_error \<Rightarrow> string" where
  "err_message (NotFound m) = m"
| "err_message (BadRequest m) = m"
| "err_message (Conflict m) = m"
| "err_message (Unauthorized m) = m"
| "err_message (Forbidden m) = m"
| "err_message (InvalidState m) = m"
| "err_message (DependencyUnavailable m) = m"
| "err_message (RateLimited m) = m"

fun err_status :: "app_error \<Rightarrow> nat" where
  "err_status (NotFound m) = 404"
| "err_status (BadRequest m) = 400"
| "err_status (Conflict m) = 409"
| "err_status (Unauthorized m) = 401"
| "err_status (Forbidden m) = 403"
| "err_status (InvalidState m) = 409"
| "err_status (DependencyUnavailable m) = 503"
| "err_status (RateLimited m) = 429"

text \<open>The default argument of each constructor.\<close>

abbreviation not_found :: app_error where
  "not_found \<equiv> NotFound ''Resource not found''"

text \<open>
  Everything a modelled function can raise. \<^verbatim>\<open>IngestionInputError\<close> is a subclass of
  \<^verbatim>\<open>ValueError\<close>; \<^verbatim>\<open>CloneFailureError\<close> carries a code and a summary;
  \<^verbatim>\<open>IntegrityError\<close> and \<^verbatim>\<open>MultipleResultsFound\<close> are what the database session raises
  for a violated constraint and for \<^verbatim>\<open>scalar_one_or_none\<close> on several rows.
\<close>

datatype exn =
    AppErr app_error
  | IngestionInputError string
  | CloneFailureError string string
  | TimeoutExpired
  | ValueError string
  | IndexError string
  | ZeroDivisionError
  | RuntimeError string
  | NameError string
  | SyntaxErr string
  | TypeError string
  | HTTPStatusError nat
  | HttpTimeout
  | HttpNetworkError
  | OSError string
  | IntegrityError string
  | MultipleResultsFound

fun is_app_error :: "exn \<Rightarrow> bool" where
  "is_app_error (AppErr e) = True"
| "is_app_error _ = False"

section \<open>JSON values\<close>

text \<open>The values of JSON columns and payloads; an object keeps its insertion order.\<close>

datatype json =
    JNull
  | JBool bool
  | JInt int
  | JFloat rat
  | JStr string
  | JArr "json list"
  | JObj "(string \<times> json) list"

section \<open>Coroutines over a session\<close>

text \<open>
  A Python coroutine: from a state to an exception (\<open>Inl\<close>) or a value (\<open>Inr\<close>), and the
  state after it. Raising does not undo the writes done before.
\<close>

type_synonym ('s, 'a) py = "'s \<Rightarrow> (exn + 'a) \<times> 's"

definition ret :: "'a \<Rightarrow> ('s, 'a) py" where
  "ret x = (\<lambda>s. (Inr x, s))"

definition raise :: "exn \<Rightarrow> ('s, 'a) py" where
  "raise e = (\<lambda>s. (Inl e, s))"

definition bindp :: "('s, 'a) py \<Rightarrow> ('a \<Rightarrow> ('s, 'b) py) \<Rightarrow> ('s, 'b) py" where
  "bindp m f = (\<lambda>s. case m s of (Inl e, s') \<Rightarrow> (Inl e, s') | (Inr x, s') \<Rightarrow> f x s')"

definition thenp :: "('s, 'a) py \<Rightarrow> ('s, 'b) py \<Rightarrow> ('s, 'b) py" where
  "thenp m n = bindp m (\<lambda>_. n)"

definition gets :: "('s \<Rightarrow> 'a) \<Rightarrow> ('s, 'a) py" where
  "gets f = (\<lambda>s. (Inr (f s), s))"

definition modify :: "('s \<Rightarrow> 's) \<Rightarrow> ('s, unit) py" where
  "modify f = (\<lambda>s. (Inr (), f s))"

text \<open>A pure computation that may raise, run inside a coroutine.\<close>

definition lift_res :: "exn + 'a \<Rightarrow> ('s, 'a) py" where
  "lift_res r = (\<lambda>s. (r, s))"

text \<open>Sequencing pure computations that may raise.\<close>

definition bindr :: "exn + 'a \<Rightarrow> ('a \<Rightarrow> exn + 'b) \<Rightarrow> exn + 'b" where
  "bindr r f = (case r of Inl e \<Rightarrow> Inl e | Inr x \<Rightarrow> f x)"

text \<open>\<^verbatim>\<open>try: m except h\<close>: the handler runs in the state the exception left.\<close>

definition catch :: "('s, 'a) py \<Rightarrow> (exn \<Rightarrow> ('s, 'a) py) \<Rightarrow> ('s, 'a) py" where
  "catch m h = (\<lambda>s. case m s of (Inl e, s') \<Rightarrow> h e s' | (Inr x, s') \<Rightarrow> (Inr x, s'))"

text \<open>\<^verbatim>\<open>try: m finally: f\<close>, and a call whose exception is inspected by the caller.\<close>

definition finallyp :: "('s, 'a) py \<Rightarrow> ('s, unit) py \<Rightarrow> ('s, 'a) py" where
  "finallyp m f = (\<lambda>s. case m s of (r, t) \<Rightarrow>
     (case f t of (Inl e, u) \<Rightarrow> (Inl e, u) | (Inr _, u) \<Rightarrow> (r, u)))"

definition attempt :: "('s, 'a) py \<Rightarrow> ('s, exn + 'a) py" where
  "attempt m = (\<lambda>s. case m s of (r, t) \<Rightarrow> (Inr r, t))"

definition whenp :: "bool \<Rightarrow> ('s, unit) py \<Rightarrow> ('s, unit) py" where
  "whenp b m = (if b then m else ret ())"

fun mapp :: "('a \<Rightarrow> ('s, 'b) py) \<Rightarrow> 'a list \<Rightarrow> ('s, 'b list) py" where
  "mapp f [] = ret []"
| "mapp f (x # xs) = bindp (f x) (\<lambda>y. bindp (mapp f xs) (\<lambda>ys. ret (y # ys)))"

text \<open>A loop that stops at the first exception, the state passed through.\<close>

fun forp :: "'a list \<Rightarrow> ('a \<Rightarrow> ('s, unit) py) \<Rightarrow> ('s, unit) py" where
  "forp [] f = ret ()"
| "forp (x # xs) f = thenp (f x) (forp xs f)"

lemma bindr_simps [simp]: "bindr (Inl e) f = Inl e" "bindr (Inr x) f = f x"
  by (simp_all add: bindr_def)

lemma bindr_eq_Inr: "bindr r f = Inr y \<longleftrightarrow> (\<exists>x. r = Inr x \<and> f x = Inr y)"
  by (cases r) simp_all

lemma ret_app [simp]: "ret x s = (Inr x, s)"
  by (simp add: ret_def)

lemma raise_app [simp]: "raise e s = (Inl e, s)"
  by (simp add: raise_def)

lemma gets_app [simp]: "gets f s = (Inr (f s), s)"
  by (simp add: gets_def)

lemma modify_app [simp]: "modify f s = (Inr (), f s)"
  by (simp add: modify_def)

lemma lift_res_app [simp]: "lift_res r s = (r, s)"
  by (simp add: lift_res_def)

lemma bindp_Inr [simp]: "m s = (Inr x, s') \<Longrightarrow> bindp m f s = f x s'"
  by (simp add: bindp_def)

lemma bindp_Inl [simp]: "m s = (Inl e, s') \<Longrightarrow> bindp m f s = (Inl e, s')"
  by (simp add: bindp_def)

lemma thenp_Inr [simp]: "m s = (Inr x, s') \<Longrightarrow> thenp m n s = n s'"
  by (simp add: thenp_def)

lemma thenp_Inl [simp]: "m s = (Inl e, s') \<Longrightarrow> thenp m n s = (Inl e, s')"
  by (simp add: thenp_def)

lemma bindp_ret: "bindp (ret x) f = f x"
  by (rule ext) simp

lemma bindp_ret_right: "bindp m ret = m"
  by (rule ext) (simp add: bindp_def split: prod.splits sum.splits)

lemma bindp_assoc: "bindp (bindp m f) g = bindp m (\<lambda>x. bindp (f x) g)"
  by (rule ext) (simp add: bindp_def split: prod.splits sum.splits)

lemma bindp_eq_Inr:
  "bindp m f s = (Inr y, t) \<longleftrightarrow> (\<exists>x u. m s = (Inr x, u) \<and> f x u = (Inr y, t))"
  by (auto simp: bindp_def split: prod.splits sum.splits)

lemma thenp_eq_Inr:
  "thenp m n s = (Inr y, t) \<longleftrightarrow> (\<exists>x u. m s = (Inr x, u) \<and> n u = (Inr y, t))"
  by (simp add: thenp_def bindp_eq_Inr)

lemma mapp_eq_Inr:
  "mapp f xs s = (Inr ys, t) \<Longrightarrow> list_all2 (\<lambda>x y. \<exists>u v. f x u = (Inr y, v)) xs ys"
proof (induction xs arbitrary: ys s)
  case (Cons x xs)
  then show ?case by (auto simp: bindp_eq_Inr)
qed simp

lemma catch_Inr [simp]: "m s = (Inr x, s') \<Longrightarrow> catch m h s = (Inr x, s')"
  by (simp add: catch_def)

lemma catch_Inl [simp]: "m s = (Inl e, s') \<Longrightarrow> catch m h s = h e s'"
  by (simp add: catch_def)

lemma attempt_app: "m s = (r, t) \<Longrightarrow> attempt m s = (Inr r, t)"
  by (simp add: attempt_def)

text \<open>Congruences that keep \<open>simp\<close> out of the continuations, for evaluating a concrete run.\<close>

lemma weak_congs:
  "m = m' \<Longrightarrow> bindp m f = bindp m' f"
  "m = m' \<Longrightarrow> thenp m n = thenp m' n"
  "m = m' \<Longrightarrow> catch m h = catch m' h"
  by simp_all

section \<open>Preservation of state properties\<close>

text \<open>
  \<open>preserves I m\<close>: whatever \<open>m\<close> returns or raises, \<open>I\<close> holds after it when it held before.
  One rule per combinator, collected in \<open>pres\<close>, so that an invariant of a service follows
  from the invariants of the row operations it calls.
\<close>

named_theorems pres

definition preserves :: "('s \<Rightarrow> bool) \<Rightarrow> ('s, 'a) py \<Rightarrow> bool" where
  "preserves I m \<longleftrightarrow> (\<forall>s. I s \<longrightarrow> I (snd (m s)))"

lemma preservesI: "(\<And>s. I s \<Longrightarrow> I (snd (m s))) \<Longrightarrow> preserves I m"
  by (simp add: preserves_def)

lemma preservesD: "preserves I m \<Longrightarrow> I s \<Longrightarrow> m s = (r, t) \<Longrightarrow> I t"
  unfolding preserves_def by (metis snd_conv)

lemma presD: "preserves I m \<Longrightarrow> I s \<Longrightarrow> I (snd (m s))"
  by (simp add: preserves_def)

lemma preserves_ret [pres]: "preserves I (ret x)"
  by (simp add: preserves_def)

lemma preserves_raise [pres]: "preserves I (raise e)"
  by (simp add: preserves_def)

lemma preserves_gets [pres]: "preserves I (gets f)"
  by (simp add: preserves_def)

lemma preserves_lift_res [pres]: "preserves I (lift_res r)"
  by (simp add: preserves_def)

lemma preserves_modify [pres]: "(\<And>s. I s \<Longrightarrow> I (f s)) \<Longrightarrow> preserves I (modify f)"
  by (simp add: preserves_def)

lemma preserves_bindp [pres]:
  "preserves I m \<Longrightarrow> (\<And>x. preserves I (f x)) \<Longrightarrow> preserves I (bindp m f)"
  unfolding preserves_def bindp_def by (fastforce split: prod.splits sum.splits dest: spec)

lemma preserves_thenp [pres]:
  "preserves I m \<Longrightarrow> preserves I n \<Longrightarrow> preserves I (thenp m n)"
  unfolding thenp_def by (rule preserves_bindp)

lemma preserves_whenp [pres]: "(b \<Longrightarrow> preserves I m) \<Longrightarrow> preserves I (whenp b m)"
  by (simp add: whenp_def preserves_ret)

lemma preserves_catch [pres]:
  "preserves I m \<Longrightarrow> (\<And>e. preserves I (h e)) \<Longrightarrow> preserves I (catch m h)"
  unfolding preserves_def catch_def by (fastforce split: prod.splits sum.splits dest: spec)

lemma preserves_forp [pres]: "(\<And>x. x \<in> set xs \<Longrightarrow> preserves I (f x)) \<Longrightarrow> preserves I (forp xs f)"
  by (induction xs) (auto intro!: preserves_ret preserves_thenp)

lemma preserves_mapp [pres]: "(\<And>x. x \<in> set xs \<Longrightarrow> preserves I (f x)) \<Longrightarrow> preserves I (mapp f xs)"
  by (induction xs) (auto intro!: preserves_ret preserves_bindp)

lemma preserves_if [pres]:
  "(b \<Longrightarrow> preserves I m) \<Longrightarrow> (\<not> b \<Longrightarrow> preserves I n) \<Longrightarrow> preserves I (if b then m else n)"
  by simp

lemma preserves_case_option [pres]:
  "(x = None \<Longrightarrow> preserves I m) \<Longrightarrow> (\<And>y. x = Some y \<Longrightarrow> preserves I (f y)) \<Longrightarrow>
   preserves I (case x of None \<Rightarrow> m | Some y \<Rightarrow> f y)"
  by (cases x) auto

lemma preserves_case_prod [pres]:
  "(\<And>x y. p = (x, y) \<Longrightarrow> preserves I (f x y)) \<Longrightarrow> preserves I (case p of (x, y) \<Rightarrow> f x y)"
  by (cases p) auto

lemma preserves_attempt [pres]: "preserves I m \<Longrightarrow> preserves I (attempt m)"
  by (simp add: preserves_def attempt_def split: prod.splits) (metis snd_conv)

lemma preserves_finallyp [pres]: "preserves I m \<Longrightarrow> preserves I f \<Longrightarrow> preserves I (finallyp m f)"
  unfolding preserves_def finallyp_def by (fastforce split: prod.splits sum.splits dest: spec)

lemma preserves_case_sum [pres]:
  "(\<And>e. x = Inl e \<Longrightarrow> preserves I (f e)) \<Longrightarrow> (\<And>y. x = Inr y \<Longrightarrow> preserves I (g y)) \<Longrightarrow>
   preserves I (case x of Inl e \<Rightarrow> f e | Inr y \<Rightarrow> g y)"
  by (cases x) auto

lemma preserves_conj: "preserves I m \<Longrightarrow> preserves J m \<Longrightarrow> preserves (\<lambda>s. I s \<and> J s) m"
  by (simp add: preserves_def)

section \<open>Which exceptions\<close>

text \<open>\<open>raises_only E m\<close>: every exception \<open>m\<close> ends with is in \<open>E\<close>. The rules are in \<open>exns\<close>.\<close>

named_theorems exns

definition raises_only :: "exn set \<Rightarrow> ('s, 'a) py \<Rightarrow> bool" where
  "raises_only E m \<longleftrightarrow> (\<forall>s e t. m s = (Inl e, t) \<longrightarrow> e \<in> E)"

lemma raises_onlyD: "raises_only E m \<Longrightarrow> m s = (Inl e, t) \<Longrightarrow> e \<in> E"
  by (auto simp: raises_only_def)

lemma raises_only_basic [exns]:
  "raises_only E (ret x)" "raises_only E (gets f)" "raises_only E (modify g)"
  by (simp_all add: raises_only_def)

lemma raises_only_raise [exns]: "e \<in> E \<Longrightarrow> raises_only E (raise e)"
  by (simp add: raises_only_def)

lemma raises_only_bindp [exns]:
  "raises_only E m \<Longrightarrow> (\<And>x. raises_only E (f x)) \<Longrightarrow> raises_only E (bindp m f)"
  unfolding raises_only_def bindp_def by (fastforce split: prod.splits sum.splits)

lemma raises_only_thenp [exns]: "raises_only E m \<Longrightarrow> raises_only E n \<Longrightarrow> raises_only E (thenp m n)"
  unfolding thenp_def by (rule raises_only_bindp)

lemma raises_only_if [exns]:
  "(b \<Longrightarrow> raises_only E m) \<Longrightarrow> (\<not> b \<Longrightarrow> raises_only E n) \<Longrightarrow> raises_only E (if b then m else n)"
  by simp

lemma raises_only_case_prod [exns]:
  "(\<And>x y. p = (x, y) \<Longrightarrow> raises_only E (f x y)) \<Longrightarrow> raises_only E (case p of (x, y) \<Rightarrow> f x y)"
  by (cases p) auto

lemma raises_only_case_option [exns]:
  "(x = None \<Longrightarrow> raises_only E m) \<Longrightarrow> (\<And>y. x = Some y \<Longrightarrow> raises_only E (f y)) \<Longrightarrow>
   raises_only E (case x of None \<Rightarrow> m | Some y \<Rightarrow> f y)"
  by (cases x) auto

lemma raises_only_mono: "raises_only E m \<Longrightarrow> E \<subseteq> F \<Longrightarrow> raises_only F m"
  by (auto simp: raises_only_def)

section \<open>What holds on return\<close>

text \<open>\<open>returns Q m\<close>: when \<open>m\<close> returns normally, \<open>Q\<close> holds in the state it leaves.\<close>

named_theorems rets

definition returns :: "('s \<Rightarrow> bool) \<Rightarrow> ('s, 'a) py \<Rightarrow> bool" where
  "returns Q m \<longleftrightarrow> (\<forall>s x t. m s = (Inr x, t) \<longrightarrow> Q t)"

lemma returnsD: "returns Q m \<Longrightarrow> m s = (Inr x, t) \<Longrightarrow> Q t"
  by (auto simp: returns_def)

lemma returns_raise [rets]: "returns Q (raise e)"
  by (simp add: returns_def)

lemma returns_bindp [rets]: "(\<And>x. returns Q (f x)) \<Longrightarrow> returns Q (bindp m f)"
  by (auto simp: returns_def bindp_eq_Inr)

lemma returns_thenp [rets]: "returns Q n \<Longrightarrow> returns Q (thenp m n)"
  by (auto simp: returns_def thenp_eq_Inr)

lemma returns_catch [rets]: "returns Q m \<Longrightarrow> (\<And>e. returns Q (h e)) \<Longrightarrow> returns Q (catch m h)"
  unfolding returns_def catch_def by (auto split: prod.splits sum.splits)

lemma returns_if [rets]:
  "(b \<Longrightarrow> returns Q m) \<Longrightarrow> (\<not> b \<Longrightarrow> returns Q n) \<Longrightarrow> returns Q (if b then m else n)"
  by simp

lemma returns_case_option [rets]:
  "(x = None \<Longrightarrow> returns Q m) \<Longrightarrow> (\<And>y. x = Some y \<Longrightarrow> returns Q (f y)) \<Longrightarrow>
   returns Q (case x of None \<Rightarrow> m | Some y \<Rightarrow> f y)"
  by (cases x) auto

lemma returns_case_prod [rets]:
  "(\<And>x y. p = (x, y) \<Longrightarrow> returns Q (f x y)) \<Longrightarrow> returns Q (case p of (x, y) \<Rightarrow> f x y)"
  by (cases p) auto

lemma returns_case_sum [rets]:
  "(\<And>e. x = Inl e \<Longrightarrow> returns Q (f e)) \<Longrightarrow> (\<And>y. x = Inr y \<Longrightarrow> returns Q (g y)) \<Longrightarrow>
   returns Q (case x of Inl e \<Rightarrow> f e | Inr y \<Rightarrow> g y)"
  by (cases x) auto

section \<open>Pre- and postconditions\<close>

text \<open>\<open>ensures P Q m\<close>: from a state with \<open>P\<close>, the outcome and the state after satisfy \<open>Q\<close>.\<close>

definition ensures :: "('s \<Rightarrow> bool) \<Rightarrow> (exn + 'a \<Rightarrow> 's \<Rightarrow> bool) \<Rightarrow> ('s, 'a) py \<Rightarrow> bool" where
  "ensures P Q m \<longleftrightarrow> (\<forall>s. P s \<longrightarrow> Q (fst (m s)) (snd (m s)))"

lemma ensuresD: "ensures P Q m \<Longrightarrow> P s \<Longrightarrow> m s = (r, t) \<Longrightarrow> Q r t"
  unfolding ensures_def by (metis fst_conv snd_conv)

lemma ensuresI: "(\<And>s. P s \<Longrightarrow> Q (fst (m s)) (snd (m s))) \<Longrightarrow> ensures P Q m"
  by (simp add: ensures_def)

lemma ensures_bindp_pres:
  assumes "preserves P m" "\<And>e s. P s \<Longrightarrow> Q (Inl e) s" "\<And>x. ensures P Q (f x)"
  shows "ensures P Q (bindp m f)"
proof (rule ensuresI)
  fix s assume P: "P s"
  obtain r t where rt: "m s = (r, t)" by fastforce
  have t: "P t" using preservesD [OF assms(1) P rt] .
  show "Q (fst (bindp m f s)) (snd (bindp m f s))"
    using rt t assms(2,3) by (cases r) (simp_all add: ensures_def)
qed

lemma ensures_thenp_pres:
  assumes "preserves P m" "\<And>e s. P s \<Longrightarrow> Q (Inl e) s" "ensures P Q n"
  shows "ensures P Q (thenp m n)"
  unfolding thenp_def using assms by (rule ensures_bindp_pres)

lemma ensures_pres: "preserves P m \<Longrightarrow> (\<And>r s. P s \<Longrightarrow> Q r s) \<Longrightarrow> ensures P Q m"
  by (simp add: ensures_def preserves_def)

section \<open>Transition systems\<close>

text \<open>
  The contract between a state machine and its safety proofs: an initial condition, a step
  relation and a predicate that holds at the start and is kept by each step. What follows,
  once, is that the predicate holds after every run.
\<close>

inductive reaches :: "('s \<Rightarrow> 's \<Rightarrow> bool) \<Rightarrow> 's \<Rightarrow> 's \<Rightarrow> bool" for step where
  reaches_refl: "reaches step s s"
| reaches_step: "reaches step s t \<Longrightarrow> step t u \<Longrightarrow> reaches step s u"

lemma reaches_trans: "reaches step t u \<Longrightarrow> reaches step s t \<Longrightarrow> reaches step s u"
  by (induction rule: reaches.induct) (auto intro: reaches.intros)

lemma reaches_stuck: "reaches step s t \<Longrightarrow> (\<And>u. \<not> step s u) \<Longrightarrow> t = s"
  by (induction rule: reaches.induct) auto

lemma reaches_one: "step s t \<Longrightarrow> reaches step s t"
  by (rule reaches_step [OF reaches_refl])

locale invariant_system =
  fixes init :: "'s \<Rightarrow> bool"
    and step :: "'s \<Rightarrow> 's \<Rightarrow> bool"
    and inv :: "'s \<Rightarrow> bool"
  assumes inv_init: "init s \<Longrightarrow> inv s"
    and inv_step: "inv s \<Longrightarrow> step s t \<Longrightarrow> inv t"
begin

lemma inv_reaches: "reaches step s t \<Longrightarrow> inv s \<Longrightarrow> inv t"
  by (induction rule: reaches.induct) (auto intro: inv_step)

lemma safe: "init s \<Longrightarrow> reaches step s t \<Longrightarrow> inv t"
  by (blast intro: inv_init inv_reaches)

end

section \<open>Rows of a table\<close>

text \<open>
  A table is the list of its rows in insertion order. \<open>update_where\<close> is
  \<^verbatim>\<open>UPDATE ... WHERE\<close> (and an attribute assignment on one loaded row);
  \<open>scalar_one_or_none\<close> and \<open>scalars_first\<close> are the result accessors of the same names.
\<close>

definition update_where :: "('r \<Rightarrow> bool) \<Rightarrow> ('r \<Rightarrow> 'r) \<Rightarrow> 'r list \<Rightarrow> 'r list" where
  "update_where P f rows = map (\<lambda>r. if P r then f r else r) rows"

fun scalar_one_or_none :: "'r list \<Rightarrow> exn + 'r option" where
  "scalar_one_or_none [] = Inr None"
| "scalar_one_or_none [r] = Inr (Some r)"
| "scalar_one_or_none (r # q # rs) = Inl MultipleResultsFound"

fun scalars_first :: "'r list \<Rightarrow> 'r option" where
  "scalars_first [] = None"
| "scalars_first (r # rs) = Some r"

lemma update_where_Nil [simp]: "update_where P f [] = []"
  by (simp add: update_where_def)

lemma update_where_Cons [simp]:
  "update_where P f (r # rs) = (if P r then f r else r) # update_where P f rs"
  by (simp add: update_where_def)

lemma update_where_append [simp]:
  "update_where P f (xs @ ys) = update_where P f xs @ update_where P f ys"
  by (simp add: update_where_def)

lemma length_update_where [simp]: "length (update_where P f rows) = length rows"
  by (simp add: update_where_def)

lemma in_update_where:
  "r \<in> set (update_where P f rows) \<longleftrightarrow> (\<exists>q \<in> set rows. r = (if P q then f q else q))"
  by (auto simp: update_where_def)

lemma map_update_where:
  "(\<And>r. P r \<Longrightarrow> g (f r) = g r) \<Longrightarrow> map g (update_where P f rows) = map g rows"
  by (induction rows) auto

lemma update_where_none:
  "(\<And>r. r \<in> set rows \<Longrightarrow> \<not> P r) \<Longrightarrow> update_where P f rows = rows"
  by (induction rows) auto

lemma scalar_one_or_none_Some: "scalar_one_or_none rows = Inr (Some r) \<longleftrightarrow> rows = [r]"
  by (cases rows rule: scalar_one_or_none.cases) auto

lemma scalar_one_or_none_None: "scalar_one_or_none rows = Inr None \<longleftrightarrow> rows = []"
  by (cases rows rule: scalar_one_or_none.cases) auto

lemma scalar_one_or_none_Inl:
  "scalar_one_or_none rows = Inl e \<longleftrightarrow> e = MultipleResultsFound \<and> 2 \<le> length rows"
  by (cases rows rule: scalar_one_or_none.cases) auto

lemma scalars_first_in: "scalars_first rows = Some r \<Longrightarrow> r \<in> set rows"
  by (cases rows) auto

lemma scalars_first_None: "scalars_first rows = None \<longleftrightarrow> rows = []"
  by (cases rows) auto

text \<open>Rows selected by the value of a unique column: at most one.\<close>

lemma filter_unique_column:
  assumes "distinct (map k rows)" and "r \<in> set rows"
  shows "filter (\<lambda>q. k q = k r) rows = [r]"
  using assms by (induction rows) (auto simp: filter_empty_conv image_iff)

lemma filter_unique_column_cases:
  assumes "distinct (map k rows)"
  obtains "filter (\<lambda>q. k q = v) rows = []" | r where "r \<in> set rows" "k r = v" "filter (\<lambda>q. k q = v) rows = [r]"
proof (cases "\<exists>r \<in> set rows. k r = v")
  case True
  then obtain r where "r \<in> set rows" "k r = v" by blast
  with filter_unique_column [OF assms, of r] that(2) show ?thesis by auto
next
  case False
  then have "filter (\<lambda>q. k q = v) rows = []" by (auto simp: filter_empty_conv)
  with that(1) show ?thesis by blast
qed

lemma distinct_map_eqD: "distinct (map f xs) \<Longrightarrow> x \<in> set xs \<Longrightarrow> y \<in> set xs \<Longrightarrow> f x = f y \<Longrightarrow> x = y"
  by (auto simp: distinct_map dest: inj_onD)

lemma list_all2_memberE:
  assumes "list_all2 P xs ys" "y \<in> set ys"
  obtains x where "x \<in> set xs" "P x y"
  using assms by (induction rule: list_all2_induct) auto

end
