(* ===== verification/PyStr.thy ===== *)
theory PyStr
  imports Prelude
begin

text \<open>
  The methods of Python's \<^verbatim>\<open>str\<close> that the sources call. A Python string is a sequence of
  code points; the model has the code points below 256 (one \<open>char\<close> each), and the
  character classes below are those of Python 3.11 on that range. One code point of the
  range leaves it under \<^verbatim>\<open>casefold\<close> (U+00B5, the micro sign, folds to U+03BC) and is
  kept as it is; no string the sources compare a folded string with contains it.
\<close>

section \<open>Character classes\<close>

definition code :: "char \<Rightarrow> nat" where
  "code c = of_char c"

definition is_space :: "char \<Rightarrow> bool" where
  "is_space c = (let n = code c in (9 \<le> n \<and> n \<le> 13) \<or> (28 \<le> n \<and> n \<le> 32) \<or> n = 133 \<or> n = 160)"

definition is_ascii :: "char \<Rightarrow> bool" where
  "is_ascii c = (code c < 128)"

definition is_digit :: "char \<Rightarrow> bool" where
  "is_digit c = (48 \<le> code c \<and> code c \<le> 57)"

definition is_upper_ascii :: "char \<Rightarrow> bool" where
  "is_upper_ascii c = (65 \<le> code c \<and> code c \<le> 90)"

definition is_lower_ascii :: "char \<Rightarrow> bool" where
  "is_lower_ascii c = (97 \<le> code c \<and> code c \<le> 122)"

definition is_alpha_ascii :: "char \<Rightarrow> bool" where
  "is_alpha_ascii c = (is_upper_ascii c \<or> is_lower_ascii c)"

text \<open>\<^verbatim>\<open>str.isalnum\<close> of one character: letters, digits and numeric characters.\<close>

definition is_alnum :: "char \<Rightarrow> bool" where
  "is_alnum c = (is_digit c \<or> is_alpha_ascii c
     \<or> code c \<in> {170, 178, 179, 181, 185, 186, 188, 189, 190}
     \<or> (192 \<le> code c \<and> code c \<noteq> 215 \<and> code c \<noteq> 247))"

text \<open>\<^verbatim>\<open>str.isupper\<close> looks at cased characters only.\<close>

definition is_upper_char :: "char \<Rightarrow> bool" where
  "is_upper_char c = (is_upper_ascii c \<or> (192 \<le> code c \<and> code c \<le> 222 \<and> code c \<noteq> 215))"

definition is_lower_char :: "char \<Rightarrow> bool" where
  "is_lower_char c = (is_lower_ascii c \<or> code c \<in> {170, 181, 186}
     \<or> (223 \<le> code c \<and> code c \<noteq> 247))"

definition lower_char :: "char \<Rightarrow> char" where
  "lower_char c = (if is_upper_char c then char_of (code c + 32) else c)"

definition lower :: "string \<Rightarrow> string" where
  "lower s = map lower_char s"

definition isupper :: "string \<Rightarrow> bool" where
  "isupper s = (list_ex is_upper_char s \<and> \<not> list_ex is_lower_char s)"

text \<open>\<^verbatim>\<open>str.casefold\<close>: as \<^verbatim>\<open>lower\<close>, and the sharp s (U+00DF) becomes \<^verbatim>\<open>ss\<close>.\<close>

definition fold_char :: "char \<Rightarrow> string" where
  "fold_char c = (if code c = 223 then ''ss'' else [lower_char c])"

definition casefold :: "string \<Rightarrow> string" where
  "casefold s = concat (map fold_char s)"

section \<open>Stripping, prefixes, search\<close>

definition lstrip_by :: "(char \<Rightarrow> bool) \<Rightarrow> string \<Rightarrow> string" where
  "lstrip_by p s = dropWhile p s"

definition rstrip_by :: "(char \<Rightarrow> bool) \<Rightarrow> string \<Rightarrow> string" where
  "rstrip_by p s = rev (dropWhile p (rev s))"

definition strip_by :: "(char \<Rightarrow> bool) \<Rightarrow> string \<Rightarrow> string" where
  "strip_by p s = rstrip_by p (lstrip_by p s)"

definition strip :: "string \<Rightarrow> string" where
  "strip s = strip_by is_space s"

definition startswith :: "string \<Rightarrow> string \<Rightarrow> bool" where
  "startswith s p = prefix p s"

definition endswith :: "string \<Rightarrow> string \<Rightarrow> bool" where
  "endswith s p = suffix p s"

text \<open>\<^verbatim>\<open>needle in s\<close>.\<close>

fun contains :: "string \<Rightarrow> string \<Rightarrow> bool" where
  "contains needle [] = (needle = [])"
| "contains needle (c # cs) = (prefix needle (c # cs) \<or> contains needle cs)"

text \<open>\<^verbatim>\<open>s.split(c)\<close> and \<^verbatim>\<open>c.join(xs)\<close>.\<close>

fun split_on :: "char \<Rightarrow> string \<Rightarrow> string list" where
  "split_on d [] = [[]]"
| "split_on d (c # cs) =
     (if c = d then [] # split_on d cs
      else (case split_on d cs of [] \<Rightarrow> [[c]] | w # ws \<Rightarrow> (c # w) # ws))"

fun join :: "string \<Rightarrow> string list \<Rightarrow> string" where
  "join sep [] = []"
| "join sep [w] = w"
| "join sep (w # v # ws) = w @ sep @ join sep (v # ws)"

text \<open>\<^verbatim>\<open>s.partition(c)\<close> without its middle component: the separator is present or not.\<close>

definition partition_on :: "char \<Rightarrow> string \<Rightarrow> string \<times> bool \<times> string" where
  "partition_on d s =
     (takeWhile (\<lambda>c. c \<noteq> d) s, d \<in> set s, drop 1 (dropWhile (\<lambda>c. c \<noteq> d) s))"

text \<open>\<^verbatim>\<open>s.rpartition(c)\<close>: the whole string is the last component when \<^verbatim>\<open>c\<close> is absent.\<close>

definition rpartition_on :: "char \<Rightarrow> string \<Rightarrow> string \<times> bool \<times> string" where
  "rpartition_on d s =
     (if d \<in> set s
      then (rev (drop 1 (dropWhile (\<lambda>c. c \<noteq> d) (rev s))), True,
            rev (takeWhile (\<lambda>c. c \<noteq> d) (rev s)))
      else ([], False, s))"

text \<open>
  \<^verbatim>\<open>str.splitlines\<close>: \<^verbatim>\<open>\r\n\<close> is one boundary, and a final boundary adds no line.
  A character that is no boundary starts the first line of what follows it, which is empty
  when a boundary comes next.
\<close>

definition is_linebreak :: "char \<Rightarrow> bool" where
  "is_linebreak c = (let n = code c in (10 \<le> n \<and> n \<le> 13) \<or> (28 \<le> n \<and> n \<le> 30) \<or> n = 133)"

fun splitlines :: "string \<Rightarrow> string list" where
  "splitlines [] = []"
| "splitlines (c # cs) =
     (if is_linebreak c
      then [] # splitlines (if code c = 13 \<and> cs \<noteq> [] \<and> code (hd cs) = 10 then tl cs else cs)
      else (case splitlines cs of
              [] \<Rightarrow> [[c]]
            | w # ws \<Rightarrow> (c # w) # ws))"

text \<open>A slice \<^verbatim>\<open>xs[a:b]\<close> with Python's treatment of negative and large bounds.\<close>

definition clamp_index :: "nat \<Rightarrow> int \<Rightarrow> nat" where
  "clamp_index n i = nat (min (int n) (if i < 0 then max 0 (i + int n) else i))"

definition slice :: "'a list \<Rightarrow> int \<Rightarrow> int \<Rightarrow> 'a list" where
  "slice xs a b =
     (let i = clamp_index (length xs) a; j = clamp_index (length xs) b
      in take (j - i) (drop i xs))"

section \<open>Paths\<close>

text \<open>
  \<^verbatim>\<open>pathlib.PurePosixPath\<close> on the relative paths the scanner stores: components that
  are not empty, separated by single slashes.
\<close>

definition path_name :: "string \<Rightarrow> string" where
  "path_name p = last (split_on (CHR ''/'') p)"

definition path_parts :: "string \<Rightarrow> string list" where
  "path_parts p = split_on (CHR ''/'') p"

text \<open>\<^verbatim>\<open>PurePath.suffix\<close>: from the last dot, unless it starts or ends the name.\<close>

definition path_suffix :: "string \<Rightarrow> string" where
  "path_suffix p = (case rpartition_on (CHR ''.'') (path_name p) of
     (stem, found, ext) \<Rightarrow> if found \<and> stem \<noteq> [] \<and> ext \<noteq> [] then ''.'' @ ext else [])"

definition child_path :: "string \<Rightarrow> string \<Rightarrow> string" where
  "child_path pre name = (if pre = [] then name else pre @ ''/'' @ name)"

text \<open>\<^verbatim>\<open>PurePath.stem\<close>: the name without its suffix.\<close>

definition path_stem :: "string \<Rightarrow> string" where
  "path_stem p = take (length (path_name p) - length (path_suffix p)) (path_name p)"

section \<open>Decimal and hexadecimal numerals\<close>

definition digit_char :: "nat \<Rightarrow> char" where
  "digit_char d = (if d < 10 then char_of (48 + d) else char_of (87 + d))"

fun nat_str :: "nat \<Rightarrow> string" where
  "nat_str n = (if n < 10 then [digit_char n] else nat_str (n div 10) @ [digit_char (n mod 10)])"

declare nat_str.simps [simp del]

text \<open>\<^verbatim>\<open>str(i)\<close> of an \<^verbatim>\<open>int\<close>.\<close>

definition int_str :: "int \<Rightarrow> string" where
  "int_str i = (if i < 0 then ''-'' @ nat_str (nat (- i)) else nat_str (nat i))"

fun parse_nat :: "nat \<Rightarrow> string \<Rightarrow> nat" where
  "parse_nat acc [] = acc"
| "parse_nat acc (c # cs) = parse_nat (10 * acc + (code c - 48)) cs"

section \<open>Lemmas on characters\<close>

lemma code_less_256: "code c < 256"
  by (simp add: code_def)

lemma code_inject: "code c = code d \<longleftrightarrow> c = d"
  by (simp add: code_def of_char_eq_iff)

lemma code_char_of: "n < 256 \<Longrightarrow> code (char_of n) = n"
  by (simp add: code_def)

lemma lower_char_idem [simp]: "lower_char (lower_char c) = lower_char c"
proof (cases "is_upper_char c")
  case True
  then have "\<not> is_upper_char (char_of (code c + 32))"
    using code_less_256 [of c]
    by (auto simp: is_upper_char_def is_upper_ascii_def code_char_of)
  then show ?thesis using True by (simp add: lower_char_def)
next
  case False
  then show ?thesis by (simp add: lower_char_def)
qed

lemma code_lower_char:
  "code (lower_char c) = (if is_upper_char c then code c + 32 else code c)"
  by (auto simp: lower_char_def is_upper_char_def is_upper_ascii_def code_char_of)

lemma lower_char_not_upper: "\<not> is_upper_char (lower_char c)"
  using lower_char_idem [of c] code_lower_char [of "lower_char c"]
  by (auto split: if_splits)

lemma code_lower_char_223: "code (lower_char c) = 223 \<Longrightarrow> code c = 223"
  by (auto simp: code_lower_char is_upper_char_def is_upper_ascii_def split: if_splits)

lemma fold_char_idem: "concat (map fold_char (fold_char c)) = fold_char c"
proof (cases "code c = 223")
  case True
  have "fold_char (CHR ''s'') = ''s''"
    by (simp add: fold_char_def lower_char_def is_upper_char_def is_upper_ascii_def code_def)
  with True show ?thesis by (simp add: fold_char_def)
next
  case False
  then have "code (lower_char c) \<noteq> 223" using code_lower_char_223 by blast
  with False show ?thesis by (simp add: fold_char_def)
qed

lemma casefold_Nil [simp]: "casefold [] = []"
  by (simp add: casefold_def)

lemma casefold_Cons: "casefold (c # s) = fold_char c @ casefold s"
  by (simp add: casefold_def)

lemma casefold_append: "casefold (s @ t) = casefold s @ casefold t"
  by (simp add: casefold_def)

lemma casefold_idem [simp]: "casefold (casefold s) = casefold s"
  by (induction s) (simp_all add: casefold_Cons casefold_append casefold_def fold_char_idem)

lemma lower_idem [simp]: "lower (lower s) = lower s"
  by (simp add: lower_def)

section \<open>Lemmas on strings\<close>

lemma contains_sublist: "contains needle s = sublist needle s"
  by (induction s) (auto simp: sublist_Cons_right)

lemma contains_char: "contains [c] s \<longleftrightarrow> c \<in> set s"
  by (induction s) auto

lemma split_on_nonempty [simp]: "split_on d s \<noteq> []"
  by (cases s) (auto split: list.splits)

lemma split_on_no_sep: "d \<notin> set s \<Longrightarrow> split_on d s = [s]"
  by (induction s) auto

lemma split_on_parts: "w \<in> set (split_on d s) \<Longrightarrow> d \<notin> set w"
proof (induction s arbitrary: w)
  case (Cons c s)
  then show ?case by (auto split: if_splits list.splits)
qed simp

lemma split_on_append: "split_on d (s @ d # t) = split_on d s @ split_on d t"
  by (induction s) (auto split: list.splits)

lemma join_split_on: "join [d] (split_on d s) = s"
proof (induction s)
  case (Cons c s)
  obtain w ws where "split_on d s = w # ws" by (cases "split_on d s") auto
  then show ?case using Cons by (cases ws) auto
qed simp

lemma set_join: "set (join sep ws) \<subseteq> set sep \<union> (\<Union>w \<in> set ws. set w)"
  by (induction sep ws rule: join.induct) auto

lemma split_on_join:
  "ws \<noteq> [] \<Longrightarrow> (\<And>w. w \<in> set ws \<Longrightarrow> d \<notin> set w) \<Longrightarrow> split_on d (join [d] ws) = ws"
proof (induction "[d]" ws rule: join.induct)
  case (3 w v ws)
  then show ?case by (simp add: split_on_append split_on_no_sep)
qed (simp_all add: split_on_no_sep)

lemma split_on_set: "w \<in> set (split_on d s) \<Longrightarrow> set w \<subseteq> set s"
proof (induction s arbitrary: w)
  case (Cons c s)
  obtain v vs where v: "split_on d s = v # vs" by (cases "split_on d s") auto
  show ?case using Cons.prems Cons.IH [of v] Cons.IH [of w] v
    by (auto split: if_splits)
qed simp

lemma dropWhile_idem_iff: "dropWhile p s = s \<longleftrightarrow> (s = [] \<or> \<not> p (hd s))"
proof (cases s)
  case (Cons c t)
  have "length (dropWhile p t) \<le> length t" by (rule length_dropWhile_le)
  then have "dropWhile p t \<noteq> c # t" by auto
  with Cons show ?thesis by simp
qed simp

lemma rstrip_by_eq: "rstrip_by p s = s \<longleftrightarrow> (s = [] \<or> \<not> p (last s))"
  unfolding rstrip_by_def by (metis dropWhile_idem_iff hd_rev rev_is_Nil_conv rev_rev_ident)

lemma rstrip_by_last: "rstrip_by p s \<noteq> [] \<Longrightarrow> \<not> p (last (rstrip_by p s))"
  unfolding rstrip_by_def by (metis hd_dropWhile last_rev rev.simps(1))

lemma rstrip_by_prefix: "prefix (rstrip_by p s) s"
  unfolding rstrip_by_def by (metis suffix_dropWhile suffix_to_prefix rev_rev_ident)

lemma strip_by_eq:
  "s = [] \<or> (\<not> p (hd s) \<and> \<not> p (last s)) \<Longrightarrow> strip_by p s = s"
proof -
  assume a: "s = [] \<or> (\<not> p (hd s) \<and> \<not> p (last s))"
  then have "dropWhile p s = s" by (auto simp: dropWhile_idem_iff)
  with a show ?thesis by (auto simp: strip_by_def lstrip_by_def rstrip_by_eq)
qed

lemma strip_by_hd_last:
  assumes "strip_by p s \<noteq> []"
  shows "\<not> p (hd (strip_by p s))" and "\<not> p (last (strip_by p s))"
proof -
  let ?t = "lstrip_by p s"
  have pre: "prefix (strip_by p s) ?t" by (simp add: strip_by_def rstrip_by_prefix)
  with assms have "hd (strip_by p s) = hd ?t" and "?t \<noteq> []"
    by (auto simp: prefix_def hd_append)
  then show "\<not> p (hd (strip_by p s))" by (simp add: lstrip_by_def hd_dropWhile)
  show "\<not> p (last (strip_by p s))" using assms unfolding strip_by_def by (rule rstrip_by_last)
qed

lemma strip_by_idem [simp]: "strip_by p (strip_by p s) = strip_by p s"
  by (rule strip_by_eq) (metis strip_by_hd_last)

lemma strip_idem [simp]: "strip (strip s) = strip s"
  by (simp add: strip_def)

lemma set_strip: "set (strip s) \<subseteq> set s"
  unfolding strip_def strip_by_def lstrip_by_def
  by (meson rstrip_by_prefix set_dropWhileD set_mono_prefix subsetI subset_trans)

lemma strip_no_space: "(\<And>c. c \<in> set s \<Longrightarrow> \<not> is_space c) \<Longrightarrow> strip s = s"
  unfolding strip_def by (rule strip_by_eq) (metis hd_in_set last_in_set)

lemma clamp_index_nat: "clamp_index n (int i) = min i n"
  by (auto simp: clamp_index_def)

lemma slice_nat: "slice xs (int i) (int j) = take (min j (length xs) - min i (length xs)) (drop (min i (length xs)) xs)"
  by (simp add: slice_def clamp_index_nat Let_def)

end
