(* ===== verification/RemoteUrl.thy ===== *)
theory RemoteUrl
  imports PyStr
begin

text \<open>
  The input validation of \<^verbatim>\<open>app/services/ingestion.py\<close>: repository URLs
  (\<^verbatim>\<open>validate_github_url\<close>), git refs (\<^verbatim>\<open>validate_git_ref\<close>) and the argument
  vectors of the git processes built from them (\<^verbatim>\<open>build_clone_commands\<close>).
  \<^verbatim>\<open>urllib.parse.urlparse\<close> is modelled as Python 3.11 implements it; the test of a
  bracketed host by the \<^verbatim>\<open>ipaddress\<close> module is the parameter \<open>bracket_ok\<close>.
\<close>

section \<open>urllib.parse\<close>

record url_parts =
  u_scheme :: string
  u_netloc :: string
  u_path :: string
  u_query :: string
  u_fragment :: string

definition is_c0_or_space :: "char \<Rightarrow> bool" where
  "is_c0_or_space c = (code c \<le> 32)"

definition is_unsafe_url_char :: "char \<Rightarrow> bool" where
  "is_unsafe_url_char c = (code c \<in> {9, 10, 13})"

definition is_scheme_char :: "char \<Rightarrow> bool" where
  "is_scheme_char c = (is_alpha_ascii c \<or> is_digit c \<or> c \<in> set ''+-.'')"

definition split_scheme :: "string \<Rightarrow> string \<times> string" where
  "split_scheme url =
     (let (s, have, rest) = partition_on CHR '':'' url
      in if have \<and> s \<noteq> [] \<and> is_alpha_ascii (hd s) \<and> list_all is_scheme_char s
         then (lower s, rest) else ([], url))"

definition split_netloc :: "string \<Rightarrow> string \<times> string" where
  "split_netloc url =
     (takeWhile (\<lambda>c. c \<notin> set ''/?#'') url, dropWhile (\<lambda>c. c \<notin> set ''/?#'') url)"

text \<open>\<^verbatim>\<open>_splitparams\<close>: the first \<^verbatim>\<open>;\<close> after the last \<^verbatim>\<open>/\<close> starts the parameters.\<close>

definition split_params :: "string \<Rightarrow> string" where
  "split_params path =
     (let (front, slash, seg) = rpartition_on CHR ''/'' path
      in (if slash then front @ ''/'' else []) @ fst (partition_on CHR '';'' seg))"

definition uses_params :: "string list" where
  "uses_params = ['''', ''ftp'', ''hdl'', ''prospero'', ''http'', ''imap'', ''https'', ''shttp'',
     ''rtsp'', ''rtsps'', ''rtspu'', ''sip'', ''sips'', ''mms'', ''sftp'', ''tel'']"

definition bracketed_host :: "string \<Rightarrow> string" where
  "bracketed_host netloc =
     fst (partition_on CHR '']'' (snd (snd (partition_on CHR ''['' netloc))))"

definition urlparse :: "(string \<Rightarrow> bool) \<Rightarrow> string \<Rightarrow> exn + url_parts" where
  "urlparse bracket_ok raw =
     (let url = filter (\<lambda>c. \<not> is_unsafe_url_char c) (lstrip_by is_c0_or_space raw);
          (scheme, url1) = split_scheme url;
          have_netloc = startswith url1 ''//'';
          (netloc, url2) = (if have_netloc then split_netloc (drop 2 url1) else ([], url1));
          opens = (CHR ''['' \<in> set netloc);
          closes = (CHR '']'' \<in> set netloc);
          (url3, _, fragment) = partition_on CHR ''#'' url2;
          (url4, _, query) = partition_on CHR ''?'' url3;
          path = (if scheme \<in> set uses_params then split_params url4 else url4)
      in if opens \<noteq> closes then Inl (ValueError ''Invalid IPv6 URL'')
         else if opens \<and> closes \<and> \<not> bracket_ok (bracketed_host netloc)
              then Inl (ValueError ''invalid bracketed host'')
         else Inr \<lparr>u_scheme = scheme, u_netloc = netloc, u_path = path,
                   u_query = query, u_fragment = fragment\<rparr>)"

definition userinfo :: "string \<Rightarrow> string option \<times> string option" where
  "userinfo netloc =
     (let (info, have, _) = rpartition_on CHR ''@'' netloc;
          (user, have_password, password) = partition_on CHR '':'' info
      in if have then (Some user, if have_password then Some password else None)
         else (None, None))"

definition hostinfo :: "string \<Rightarrow> string \<times> string option" where
  "hostinfo netloc =
     (let (_, _, host) = rpartition_on CHR ''@'' netloc;
          (_, have_open_br, bracketed) = partition_on CHR ''['' host;
          (bhost, _, brest) = partition_on CHR '']'' bracketed;
          (_, _, bport) = partition_on CHR '':'' brest;
          (phost, _, pport) = partition_on CHR '':'' host;
          (hostname, port) = (if have_open_br then (bhost, bport) else (phost, pport))
      in (hostname, if port = [] then None else Some port))"

definition url_hostname :: "url_parts \<Rightarrow> string option" where
  "url_hostname p =
     (let hostname = fst (hostinfo (u_netloc p));
          (name, percent, zone) = partition_on CHR ''%'' hostname
      in if hostname = [] then None
         else Some (lower name @ (if percent then ''%'' else []) @ zone))"

definition url_port :: "url_parts \<Rightarrow> exn + nat option" where
  "url_port p =
     (case snd (hostinfo (u_netloc p)) of
        None \<Rightarrow> Inr None
      | Some port \<Rightarrow>
          if \<not> list_all is_digit port
          then Inl (ValueError ''Port could not be cast to integer value'')
          else if 65535 < parse_nat 0 port then Inl (ValueError ''Port out of range 0-65535'')
          else Inr (Some (parse_nat 0 port)))"

section \<open>Repository URLs\<close>

record normalized_repository_url =
  nu_owner :: string
  nu_name :: string
  nu_clone_url :: string

definition safe_github_component :: "string \<Rightarrow> bool" where
  "safe_github_component v =
     (if v = [] \<or> startswith v ''.'' \<or> endswith v ''.'' then False
      else list_all (\<lambda>c. is_alnum c \<or> c \<in> {CHR ''-'', CHR ''_'', CHR ''.''}) v)"

text \<open>\<^verbatim>\<open>x or y\<close> of two optional strings in a condition: \<^verbatim>\<open>None\<close> and the empty string are false.\<close>

definition truthy :: "string option \<Rightarrow> bool" where
  "truthy v = (case v of None \<Rightarrow> False | Some s \<Rightarrow> s \<noteq> [])"

definition github_url :: "string \<Rightarrow> string \<Rightarrow> string" where
  "github_url own repo = ''https://github.com/'' @ own @ ''/'' @ repo"

definition validate_github_path :: "string \<Rightarrow> exn + normalized_repository_url" where
  "validate_github_path path =
     (case filter (\<lambda>part. part \<noteq> []) (split_on CHR ''/'' path) of
        [own, repo0] \<Rightarrow>
          let repo = (if endswith repo0 ''.git'' then take (length repo0 - 4) repo0 else repo0)
          in if \<not> safe_github_component own \<or> \<not> safe_github_component repo
             then Inl (IngestionInputError
                    ''Repository owner or name contains unsupported characters'')
             else Inr \<lparr>nu_owner = own, nu_name = repo, nu_clone_url = github_url own repo\<rparr>
      | _ \<Rightarrow> Inl (IngestionInputError
               ''Repository URL must look like https://github.com/owner/repo''))"

definition validate_github_url ::
    "(string \<Rightarrow> bool) \<Rightarrow> string \<Rightarrow> exn + normalized_repository_url" where
  "validate_github_url bracket_ok raw_url =
     (case urlparse bracket_ok (strip raw_url) of
        Inl e \<Rightarrow> Inl e
      | Inr parsed \<Rightarrow>
          if u_scheme parsed \<noteq> ''https''
          then Inl (IngestionInputError ''Only public GitHub HTTPS repository URLs are supported'')
          else if url_hostname parsed \<noteq> Some ''github.com''
          then Inl (IngestionInputError ''Only github.com repository URLs are supported'')
          else (case url_port parsed of
            Inl e \<Rightarrow> Inl e
          | Inr (Some _) \<Rightarrow>
              Inl (IngestionInputError ''GitHub repository URLs must not include a port'')
          | Inr None \<Rightarrow>
              if truthy (fst (userinfo (u_netloc parsed)))
                 \<or> truthy (snd (userinfo (u_netloc parsed)))
              then Inl (IngestionInputError ''Repository URLs must not include credentials'')
              else if u_query parsed \<noteq> [] \<or> u_fragment parsed \<noteq> []
              then Inl (IngestionInputError
                     ''Repository URLs must not include query strings or fragments'')
              else validate_github_path (u_path parsed)))"

section \<open>Git refs\<close>

definition blocked_ref_items :: "string list" where
  "blocked_ref_items =
     [[char_of (0::nat)], [char_of (92::nat)], ''..'', [CHR ''@'', CHR ''{''], ''//'', '' '', ''~'', ''^'', '':'',
      ''?'', ''*'', ''['']"

definition ref_error :: exn where
  "ref_error = IngestionInputError ''Git ref is not supported''"

definition validate_git_ref :: "string option \<Rightarrow> exn + string option" where
  "validate_git_ref ref =
     (case ref of
        None \<Rightarrow> Inr None
      | Some r \<Rightarrow>
          let cleaned = strip r
          in if cleaned = [] then Inr None
             else if length cleaned > 255 \<or> startswith cleaned ''-'' then Inl ref_error
             else if list_ex (\<lambda>item. contains item cleaned) blocked_ref_items then Inl ref_error
             else if list_ex (\<lambda>c. code c < 32 \<or> code c = 127) cleaned then Inl ref_error
             else if endswith cleaned ''/'' \<or> endswith cleaned ''.'' \<or> endswith cleaned ''.lock''
             then Inl ref_error
             else if list_ex (\<lambda>part. part \<in> {[], ''.'', ''..''} \<or> endswith part ''.lock'')
                       (split_on CHR ''/'' cleaned)
             then Inl ref_error
             else Inr (Some cleaned))"

section \<open>Clone commands\<close>

definition looks_like_commit_sha :: "string \<Rightarrow> bool" where
  "looks_like_commit_sha ref =
     (7 \<le> length ref \<and> length ref \<le> 64
      \<and> list_all (\<lambda>c. c \<in> set ''0123456789abcdefABCDEF'') ref)"

record clone_command =
  cc_command :: "string list"
  cc_cwd :: "string option"

definition clone_base :: "string list" where
  "clone_base =
     [''git'', ''clone'', ''--depth'', ''1'', ''--no-tags'', ''--single-branch'',
      ''--config'', ''credential.helper='']"

definition build_clone_commands ::
    "string \<Rightarrow> string option \<Rightarrow> string \<Rightarrow> clone_command list" where
  "build_clone_commands url ref destination =
     (let r = (case ref of None \<Rightarrow> [] | Some r \<Rightarrow> r);
          branch = (if r \<noteq> [] \<and> \<not> looks_like_commit_sha r then [''--branch'', r] else []);
          base = clone_base @ branch @ [''--'', url, destination]
      in \<lparr>cc_command = base, cc_cwd = None\<rparr> #
         (if r \<noteq> [] \<and> looks_like_commit_sha r
          then [\<lparr>cc_command = [''git'', ''fetch'', ''--depth'', ''1'', ''origin'', r],
                 cc_cwd = Some destination\<rparr>,
                \<lparr>cc_command = [''git'', ''checkout'', ''--detach'', r],
                 cc_cwd = Some destination\<rparr>]
          else []))"

section \<open>Lemmas on URLs\<close>

lemma strip_no_space_all: "list_all (\<lambda>c. \<not> is_space c) s \<Longrightarrow> strip s = s"
  by (rule strip_no_space) (simp add: list_all_iff)

lemma partition_on_absent: "d \<notin> set s \<Longrightarrow> partition_on d s = (s, False, [])"
proof -
  assume d: "d \<notin> set s"
  then have "takeWhile (\<lambda>c. c \<noteq> d) s = s" "dropWhile (\<lambda>c. c \<noteq> d) s = []"
    by (simp_all only: takeWhile_eq_all_conv dropWhile_eq_Nil_conv) blast+
  with d show ?thesis
    by (simp add: partition_on_def del: dropWhile_eq_Nil_conv takeWhile_eq_all_conv)
qed

lemma partition_on_append:
  "d \<notin> set s \<Longrightarrow> partition_on d (s @ d # t) = (s, True, t)"
proof -
  assume "d \<notin> set s"
  then have all: "\<forall>c \<in> set s. c \<noteq> d" by blast
  then have "takeWhile (\<lambda>c. c \<noteq> d) (s @ d # t) = s" by (subst takeWhile_append2) auto
  moreover have "dropWhile (\<lambda>c. c \<noteq> d) (s @ d # t) = d # t"
    using all by (subst dropWhile_append2) auto
  ultimately show ?thesis by (simp add: partition_on_def)
qed

lemma rpartition_on_append:
  "d \<in> set s \<Longrightarrow> (case rpartition_on d s of (front, have, back) \<Rightarrow> have \<and> front @ d # back = s)"
proof -
  assume d: "d \<in> set s"
  let ?P = "\<lambda>c. c \<noteq> d"
  have ne: "dropWhile ?P (rev s) \<noteq> []" using d by (auto simp: dropWhile_eq_Nil_conv)
  then have "hd (dropWhile ?P (rev s)) = d" using hd_dropWhile by blast
  with ne have "rev s = takeWhile ?P (rev s) @ d # drop 1 (dropWhile ?P (rev s))"
    by (metis One_nat_def drop0 drop_Suc hd_Cons_tl takeWhile_dropWhile_id)
  then have "s = rev (drop 1 (dropWhile ?P (rev s))) @ d # rev (takeWhile ?P (rev s))"
    by (metis append.assoc append_Cons append_Nil rev.simps(2) rev_append rev_rev_ident)
  with d show ?thesis by (simp add: rpartition_on_def)
qed

lemma split_params_absent: "CHR '';'' \<notin> set path \<Longrightarrow> split_params path = path"
proof (cases "CHR ''/'' \<in> set path")
  case True
  assume no: "CHR '';'' \<notin> set path"
  obtain f hv b where r: "rpartition_on CHR ''/'' path = (f, hv, b)"
    by (cases "rpartition_on CHR ''/'' path") auto
  with rpartition_on_append [OF True] have h: "hv" "f @ CHR ''/'' # b = path" by auto
  with no have "CHR '';'' \<notin> set b" by auto
  with r h show ?thesis by (auto simp: split_params_def partition_on_absent)
next
  case False
  assume "CHR '';'' \<notin> set path"
  with False show ?thesis by (simp add: split_params_def rpartition_on_def partition_on_absent)
qed

text \<open>A character that a path keeps: neither control nor blank, and no delimiter.\<close>

definition path_char :: "char \<Rightarrow> bool" where
  "path_char c = (32 < code c \<and> c \<noteq> CHR ''#'' \<and> c \<noteq> CHR ''?'' \<and> c \<noteq> CHR '';'')"

lemma urlparse_steps:
  assumes "filter (\<lambda>c. \<not> is_unsafe_url_char c) (lstrip_by is_c0_or_space raw) = url"
    and "split_scheme url = (''https'', ''//'' @ url1)"
    and "split_netloc url1 = (netloc, url2)"
    and "CHR ''['' \<notin> set netloc" and "CHR '']'' \<notin> set netloc"
    and "partition_on CHR ''#'' url2 = (url3, h, fragment)"
    and "partition_on CHR ''?'' url3 = (url4, h', query)"
    and "split_params url4 = path"
  shows "urlparse bracket_ok raw = Inr \<lparr>u_scheme = ''https'', u_netloc = netloc, u_path = path,
      u_query = query, u_fragment = fragment\<rparr>"
  using assms by (simp add: urlparse_def startswith_def uses_params_def)

lemma urlparse_github:
  assumes "\<And>c. c \<in> set rest \<Longrightarrow> path_char c"
  shows "urlparse bracket_ok (''https://github.com/'' @ rest) =
    Inr \<lparr>u_scheme = ''https'', u_netloc = ''github.com'', u_path = ''/'' @ rest,
         u_query = [], u_fragment = []\<rparr>"
proof -
  let ?url = "''https://github.com/'' @ rest"
  have no: "c \<notin> set rest" if "\<not> path_char c" for c using that assms by blast
  have keep: "filter (\<lambda>c. \<not> is_unsafe_url_char c) (lstrip_by is_c0_or_space ?url) = ?url"
    using assms by (force simp: lstrip_by_def is_c0_or_space_def is_unsafe_url_char_def code_def
        path_char_def intro!: filter_True)
  have scheme: "split_scheme ?url = (''https'', ''//github.com/'' @ rest)"
    by (simp add: split_scheme_def partition_on_def is_scheme_char_def is_alpha_ascii_def
        is_upper_ascii_def is_lower_ascii_def code_def lower_def lower_char_def is_upper_char_def)
  have netloc: "split_netloc (''github.com/'' @ rest) = (''github.com'', ''/'' @ rest)"
    by (simp add: split_netloc_def)
  have "CHR ''#'' \<notin> set rest" "CHR ''?'' \<notin> set rest" "CHR '';'' \<notin> set rest"
    by (rule no, simp add: path_char_def)+
  then have "partition_on CHR ''#'' (''/'' @ rest) = (''/'' @ rest, False, [])"
    "partition_on CHR ''?'' (''/'' @ rest) = (''/'' @ rest, False, [])"
    "split_params (''/'' @ rest) = ''/'' @ rest"
    by (auto intro!: partition_on_absent split_params_absent)
  with netloc scheme keep show ?thesis by (intro urlparse_steps) auto
qed

lemma hostname_github:
  "fst (hostinfo (u_netloc p)) = ''github.com'' \<Longrightarrow> url_hostname p = Some ''github.com''"
  by (simp add: url_hostname_def partition_on_def lower_def lower_char_def is_upper_char_def
      is_upper_ascii_def code_def)

lemma github_hostname:
  "url_hostname \<lparr>u_scheme = s, u_netloc = ''github.com'', u_path = p, u_query = q, u_fragment = f\<rparr>
     = Some ''github.com''"
  by (rule hostname_github) (simp add: hostinfo_def rpartition_on_def partition_on_def)

lemma github_port:
  "url_port \<lparr>u_scheme = s, u_netloc = ''github.com'', u_path = p, u_query = q, u_fragment = f\<rparr>
     = Inr None"
  by (simp add: url_port_def hostinfo_def rpartition_on_def partition_on_def)

lemma github_userinfo: "userinfo ''github.com'' = (None, None)"
  by (simp add: userinfo_def rpartition_on_def partition_on_def)

lemma safe_github_component_iff:
  "safe_github_component v \<longleftrightarrow> v \<noteq> [] \<and> hd v \<noteq> CHR ''.'' \<and> last v \<noteq> CHR ''.''
     \<and> (\<forall>c \<in> set v. is_alnum c \<or> c \<in> {CHR ''-'', CHR ''_'', CHR ''.''})"
proof (cases v rule: rev_cases)
  case (snoc w c)
  have "startswith v ''.'' \<longleftrightarrow> hd v = CHR ''.''"
    unfolding startswith_def using snoc by (metis append_is_Nil_conv list.collapse list.distinct(1)
        list.sel(1) prefix_code(3) Nil_prefix prefix_def append_Cons)
  moreover have "endswith v ''.'' \<longleftrightarrow> last v = CHR ''.''"
    using snoc by (auto simp: endswith_def suffix_def)
  ultimately show ?thesis using snoc by (auto simp: safe_github_component_def list_all_iff)
qed (simp add: safe_github_component_def)

lemma is_alnum_path_char: "is_alnum c \<Longrightarrow> path_char c \<and> c \<noteq> CHR ''/'' \<and> \<not> is_space c"
  by (auto simp: is_alnum_def path_char_def is_digit_def is_alpha_ascii_def is_upper_ascii_def
      is_lower_ascii_def is_space_def Let_def code_def)

lemma safe_component_char:
  assumes "safe_github_component v" and "c \<in> set v"
  shows "path_char c" and "c \<noteq> CHR ''/''" and "\<not> is_space c"
  using assms is_alnum_path_char [of c]
  by (auto simp: safe_github_component_iff path_char_def is_space_def Let_def code_def)

lemma suffix_append_self [simp]: "suffix t (s @ t)"
  by (simp add: suffix_def)

text \<open>The path of a canonical URL, and the variants of it that the code normalises.\<close>

definition repo_suffixes :: "string list" where
  "repo_suffixes = [[], ''/'', ''.git'', ''.git/'']"

lemma validate_github_path_canonical:
  assumes own: "safe_github_component own" and repo: "safe_github_component repo"
    and git: "\<not> endswith repo ''.git''" and suf: "suf \<in> set repo_suffixes"
  shows "validate_github_path (''/'' @ own @ ''/'' @ repo @ suf) =
    Inr \<lparr>nu_owner = own, nu_name = repo, nu_clone_url = github_url own repo\<rparr>"
proof -
  have no: "CHR ''/'' \<notin> set own" "CHR ''/'' \<notin> set repo"
    using safe_component_char(2) own repo by blast+
  have ne: "own \<noteq> []" "repo \<noteq> []" using own repo by (auto simp: safe_github_component_iff)
  have split: "split_on CHR ''/'' (''/'' @ own @ ''/'' @ t) = [] # own # split_on CHR ''/'' t" for t
    using no by (simp add: split_on_append split_on_no_sep)
  consider "suf = []" | "suf = ''/''" | "suf = ''.git''" | "suf = ''.git/''"
    using suf by (auto simp: repo_suffixes_def)
  then show ?thesis
  proof cases
    case 1
    then show ?thesis using split [of repo] own repo git no ne
      by (simp add: validate_github_path_def split_on_no_sep)
  next
    case 2
    then show ?thesis using split [of "repo @ ''/''"] own repo git no ne
      by (simp add: validate_github_path_def split_on_no_sep split_on_append)
  next
    case 3
    then have "split_on CHR ''/'' (repo @ suf) = [repo @ ''.git'']"
      using no by (intro split_on_no_sep [THEN trans]) auto
    then show ?thesis using split [of "repo @ suf"] own repo ne
      by (simp add: validate_github_path_def endswith_def)
  next
    case 4
    then have "split_on CHR ''/'' (repo @ suf) = [repo @ ''.git'', []]"
      using no split_on_append [of "CHR ''/''" "repo @ ''.git''" "[]"]
      by (simp add: split_on_no_sep)
    then show ?thesis using split [of "repo @ suf"] own repo ne
      by (simp add: validate_github_path_def endswith_def)
  qed
qed

section \<open>Lemmas on refs\<close>

text \<open>
  What an accepted ref is, stated on its characters and its \<^verbatim>\<open>/\<close>-separated components.
\<close>

definition blocked_ref_chars :: "char list" where
  "blocked_ref_chars =
     [char_of (0::nat), char_of (92::nat), CHR '' '', CHR ''~'', CHR ''^'', CHR '':'', CHR ''?'',
      CHR ''*'', CHR ''['']"

definition ref_char :: "char \<Rightarrow> bool" where
  "ref_char c = (32 \<le> code c \<and> code c \<noteq> 127 \<and> c \<notin> set blocked_ref_chars)"

definition safe_ref_part :: "string \<Rightarrow> bool" where
  "safe_ref_part part = (part \<noteq> [] \<and> part \<noteq> ''.'' \<and> \<not> suffix ''.lock'' part)"

definition safe_ref :: "string \<Rightarrow> bool" where
  "safe_ref r =
     (r \<noteq> [] \<and> length r \<le> 255 \<and> hd r \<noteq> CHR ''-'' \<and> last r \<noteq> CHR ''.''
      \<and> list_all ref_char r \<and> \<not> sublist ''..'' r \<and> \<not> sublist [CHR ''@'', CHR ''{''] r
      \<and> list_all safe_ref_part (split_on CHR ''/'' r))"

lemma startswith_char: "startswith s [c] \<longleftrightarrow> s \<noteq> [] \<and> hd s = c"
  by (cases s) (auto simp: startswith_def)

lemma endswith_char: "endswith s [c] \<longleftrightarrow> s \<noteq> [] \<and> last s = c"
  by (cases s rule: rev_cases) (auto simp: endswith_def)

lemma split_on_last: "last (split_on d (s @ [d])) = []"
  by (simp add: split_on_append)

lemma split_on_double: "[] \<in> set (split_on d (s @ d # d # t))"
  by (simp add: split_on_append)

lemma part_sublist: "part \<in> set (split_on d s) \<Longrightarrow> sublist part s"
proof (induction s arbitrary: part)
  case (Cons c s)
  obtain w ws where w: "split_on d s = w # ws" by (cases "split_on d s") auto
  have "prefix w s" if "split_on d s = w # ws" for w ws
    using that by (metis join.simps(2,3) join_split_on list.exhaust prefix_def prefix_order.refl)
  with w have "prefix w s" by blast
  with Cons w show ?case
    by (auto simp: sublist_Cons_right split: if_splits)
qed simp

lemma no_empty_part_imp:
  assumes "[] \<notin> set (split_on d s)"
  shows "\<not> sublist [d, d] s" and "s = [] \<or> last s \<noteq> d"
proof -
  show "\<not> sublist [d, d] s"
  proof
    assume "sublist [d, d] s"
    then obtain a b where "s = a @ d # d # b" by (auto simp: sublist_def)
    with assms split_on_double show False by metis
  qed
  show "s = [] \<or> last s \<noteq> d"
  proof (cases s rule: rev_cases)
    case (snoc a c)
    then show ?thesis using assms split_on_last [of d a] last_in_set [of "split_on d s"]
      by (cases "c = d") auto
  qed simp
qed

lemma whole_suffix_part:
  assumes "suffix p s" and "d \<notin> set p"
  shows "\<exists>part \<in> set (split_on d s). suffix p part"
  using assms(1)
proof (induction s)
  case (Cons c s)
  obtain w ws where w: "split_on d s = w # ws" by (cases "split_on d s") auto
  show ?case
  proof (cases "suffix p s")
    case True
    then obtain part where "part \<in> set (split_on d s)" "suffix p part" using Cons.IH by blast
    with w show ?thesis by (auto simp: suffix_ConsI)
  next
    case False
    with Cons.prems have "p = c # s" by (simp add: suffix_Cons)
    with assms(2) show ?thesis by (simp add: split_on_no_sep del: split_on.simps)
  qed
qed (auto simp: assms)

lemma bex_in_Cons: "(\<exists>c \<in> A. c \<in> set (x # xs)) \<longleftrightarrow> x \<in> A \<or> (\<exists>c \<in> A. c \<in> set xs)"
  by auto

lemma bex_in_Nil: "(\<exists>c \<in> A. c \<in> set []) \<longleftrightarrow> False"
  by simp

lemma blocked_reorder:
  "(a \<or> b \<or> x \<or> y \<or> z \<or> c \<or> d \<or> e \<or> f \<or> g \<or> h \<or> i \<or> False) \<longleftrightarrow>
   ((a \<or> b \<or> c \<or> d \<or> e \<or> f \<or> g \<or> h \<or> i \<or> False) \<or> x \<or> y \<or> z)"
  by blast

lemma blocked_chars:
  "list_ex (\<lambda>item. contains item s) blocked_ref_items \<longleftrightarrow>
     (\<exists>c \<in> set s. c \<in> set blocked_ref_chars)
     \<or> sublist ''..'' s \<or> sublist [CHR ''@'', CHR ''{''] s \<or> sublist ''//'' s"
  unfolding blocked_ref_items_def blocked_ref_chars_def list_ex_Nil_iff list_ex_Cons_iff
    contains_char bex_in_Cons bex_in_Nil
  unfolding contains_sublist
  by (rule blocked_reorder)

lemma ref_chars_checks:
  "\<not> list_ex (\<lambda>item. contains item r) blocked_ref_items
     \<and> \<not> list_ex (\<lambda>c. code c < 32 \<or> code c = 127) r \<longleftrightarrow>
   list_all ref_char r \<and> \<not> sublist ''..'' r \<and> \<not> sublist [CHR ''@'', CHR ''{''] r \<and> \<not> sublist ''//'' r"
proof -
  have "\<not> list_ex (\<lambda>c. code c < 32 \<or> code c = 127) r \<and> \<not> (\<exists>c \<in> set r. c \<in> set blocked_ref_chars)
      \<longleftrightarrow> list_all ref_char r"
    unfolding list_all_iff list_ex_iff ref_char_def not_less [symmetric] by blast
  then show ?thesis unfolding blocked_chars by argo
qed

lemma ref_parts_checks:
  "list_all safe_ref_part parts \<and> ''..'' \<notin> set parts \<longleftrightarrow>
     \<not> list_ex (\<lambda>part. part \<in> {[], ''.'', ''..''} \<or> endswith part ''.lock'') parts"
  unfolding safe_ref_part_def endswith_def list_all_iff list_ex_iff by blast

lemma safe_ref_checks:
  assumes ne: "r \<noteq> []"
  shows "safe_ref r \<longleftrightarrow>
     \<not> (length r > 255 \<or> startswith r ''-'')
     \<and> \<not> list_ex (\<lambda>item. contains item r) blocked_ref_items
     \<and> \<not> list_ex (\<lambda>c. code c < 32 \<or> code c = 127) r
     \<and> \<not> (endswith r ''/'' \<or> endswith r ''.'' \<or> endswith r ''.lock'')
     \<and> \<not> list_ex (\<lambda>part. part \<in> {[], ''.'', ''..''} \<or> endswith part ''.lock'')
           (split_on CHR ''/'' r)"
proof -
  let ?parts = "split_on CHR ''/'' r"
  have no_empty: "[] \<notin> set ?parts" if "list_all safe_ref_part ?parts"
    using that by (auto simp: safe_ref_part_def list_all_iff)
  have lock: "\<not> suffix ''.lock'' r" if "list_all safe_ref_part ?parts"
    using that whole_suffix_part [of "''.lock''" r "CHR ''/''"]
    by (auto simp: safe_ref_part_def list_all_iff)
  have dd: "''..'' \<notin> set ?parts" if "\<not> sublist ''..'' r"
    using that part_sublist by blast
  show ?thesis
    unfolding ref_parts_checks [symmetric] startswith_char endswith_char safe_ref_def
    using ref_chars_checks [of r] ne no_empty lock dd no_empty_part_imp [of "CHR ''/''" r]
    unfolding endswith_def by (metis (no_types, lifting) not_less)
qed

text \<open>The arguments of a git process that it would read as options.\<close>

definition fixed_git_options :: "string list" where
  "fixed_git_options =
     [''--depth'', ''--no-tags'', ''--single-branch'', ''--config'', ''--branch'', ''--'', ''--detach'']"

lemma option_args_fixed:
  assumes "\<not> startswith url ''-''" and "\<not> startswith dest ''-''"
    and "\<And>r. ref = Some r \<Longrightarrow> \<not> startswith r ''-''"
    and "c \<in> set (build_clone_commands url ref dest)" and "arg \<in> set (cc_command c)"
    and "startswith arg ''-''"
  shows "arg \<in> set fixed_git_options"
proof -
  define ok where "ok = (\<lambda>a. startswith a ''-'' \<longrightarrow> a \<in> set fixed_git_options)"
  have fixed: "list_all ok clone_base" "ok ''--branch''" "ok ''--''"
    "list_all ok [''git'', ''fetch'', ''--depth'', ''1'', ''origin'']"
    "list_all ok [''git'', ''checkout'', ''--detach'']"
    unfolding ok_def by code_simp+
  have user: "ok url" "ok dest" using assms(1,2) by (auto simp: ok_def)
  define r where "r = (case ref of None \<Rightarrow> [] | Some r \<Rightarrow> r)"
  have r: "ok r" using assms(3) by (cases ref) (auto simp: r_def ok_def startswith_char)
  have "list_all ok (cc_command c)"
    using assms(4) fixed user r
    unfolding build_clone_commands_def r_def [symmetric] by (auto simp: Let_def split: if_splits)
  then show ?thesis using assms(5,6) by (auto simp: list_all_iff ok_def)
qed

section \<open>Properties\<close>

text \<open>
  C21: an accepted repository URL names a host, owner and repository that are exactly
  \<^verbatim>\<open>https://github.com/owner/name\<close> with no port and no credentials, whatever the raw text
  was; owner and name are non-empty, hold only alphanumerics, dash, underscore and dot,
  and neither start nor end with a dot (so neither is a relative path component).
\<close>

theorem github_url_sound:
  assumes "validate_github_url bracket_ok raw = Inr u"
  shows "nu_clone_url u = github_url (nu_owner u) (nu_name u)
    \<and> safe_github_component (nu_owner u) \<and> safe_github_component (nu_name u)
    \<and> CHR ''/'' \<notin> set (nu_owner u) \<and> CHR ''/'' \<notin> set (nu_name u)
    \<and> (\<exists>p. urlparse bracket_ok (strip raw) = Inr p \<and> u_scheme p = ''https''
         \<and> url_hostname p = Some ''github.com'' \<and> url_port p = Inr None
         \<and> u_query p = [] \<and> u_fragment p = []
         \<and> \<not> truthy (fst (userinfo (u_netloc p))) \<and> \<not> truthy (snd (userinfo (u_netloc p))))"
proof -
  from assms obtain p where p: "urlparse bracket_ok (strip raw) = Inr p" "u_scheme p = ''https''"
    "url_hostname p = Some ''github.com''" "url_port p = Inr None" "u_query p = []"
    "u_fragment p = []" "\<not> truthy (fst (userinfo (u_netloc p)))"
    "\<not> truthy (snd (userinfo (u_netloc p)))" "validate_github_path (u_path p) = Inr u"
    by (auto simp: validate_github_url_def split: sum.splits option.splits if_splits)
  from p(9) have "nu_clone_url u = github_url (nu_owner u) (nu_name u)"
    "safe_github_component (nu_owner u)" "safe_github_component (nu_name u)"
    by (auto simp: validate_github_path_def Let_def split: list.splits if_splits)
  with p safe_component_char(2) show ?thesis by blast
qed

theorem github_url_sound_witness:
  "safe_github_component ''Owner''
   \<and> nu_clone_url \<lparr>nu_owner = ''Owner'', nu_name = ''repo'', nu_clone_url = ''https://github.com/Owner/repo''\<rparr>
      = github_url ''Owner'' ''repo''"
proof -
  have v: "validate_github_url (\<lambda>_. False) '' https://github.com/Owner/repo.git/ '' =
    Inr \<lparr>nu_owner = ''Owner'', nu_name = ''repo'', nu_clone_url = ''https://github.com/Owner/repo''\<rparr>"
    by code_simp
  show ?thesis using github_url_sound [OF v] by simp
qed

text \<open>
  Normalisation is canonical: the URL built from a safe owner and name (one that does
  not end in \<^verbatim>\<open>.git\<close>) is accepted and gives back that owner, name and URL, and so do
  its variants with a trailing slash, a \<^verbatim>\<open>.git\<close> ending, or both, and with blanks around.
\<close>

theorem github_url_canonical:
  assumes "safe_github_component own" and "safe_github_component repo"
    and "\<not> endswith repo ''.git''" and "suf \<in> set repo_suffixes"
  shows "validate_github_url bracket_ok (github_url own repo @ suf) =
    Inr \<lparr>nu_owner = own, nu_name = repo, nu_clone_url = github_url own repo\<rparr>"
proof -
  let ?rest = "own @ ''/'' @ repo @ suf"
  have suf_chars: "c \<in> set suf \<Longrightarrow> path_char c \<and> \<not> is_space c" for c
    using assms(4) by (auto simp: repo_suffixes_def path_char_def is_space_def code_def)
  have rest: "path_char c \<and> \<not> is_space c" if "c \<in> set ?rest" for c
    using that suf_chars safe_component_char(1,3) assms(1,2)
    by (auto simp: path_char_def is_space_def code_def)
  have "list_all (\<lambda>c. \<not> is_space c) ''https://github.com/''" by code_simp
  moreover have "list_all (\<lambda>c. \<not> is_space c) ?rest" unfolding list_all_iff using rest by blast
  ultimately have "list_all (\<lambda>c. \<not> is_space c) (''https://github.com/'' @ ?rest)"
    unfolding list_all_append by blast
  then have "strip (github_url own repo @ suf) = github_url own repo @ suf"
    unfolding github_url_def append_assoc by (rule strip_no_space_all)
  then have "urlparse bracket_ok (strip (github_url own repo @ suf)) =
    Inr \<lparr>u_scheme = ''https'', u_netloc = ''github.com'', u_path = ''/'' @ ?rest,
         u_query = [], u_fragment = []\<rparr>"
    using urlparse_github [of ?rest] rest by (simp add: github_url_def)
  then show ?thesis
    using validate_github_path_canonical [OF assms]
    by (simp add: validate_github_url_def github_hostname github_port github_userinfo truthy_def)
qed

theorem github_url_canonical_witness:
  "validate_github_url (\<lambda>_. True) (github_url ''octo'' ''hello.world'' @ ''.git/'') =
    Inr \<lparr>nu_owner = ''octo'', nu_name = ''hello.world'',
         nu_clone_url = ''https://github.com/octo/hello.world''\<rparr>"
proof -
  have "safe_github_component ''octo''" "safe_github_component ''hello.world''"
    "\<not> endswith ''hello.world'' ''.git''" "''.git/'' \<in> set repo_suffixes"
    by code_simp+
  from github_url_canonical [OF this, of "\<lambda>_. True"] show ?thesis by (simp add: github_url_def)
qed

text \<open>
  Git refs are accepted exactly when, blanks stripped, they satisfy \<open>safe_ref\<close> (at most
  255 characters, no leading dash, no control or shell and revision metacharacter, no
  \<^verbatim>\<open>..\<close> or at-brace, every path component non-empty, not a dot, not ending in
  \<^verbatim>\<open>.lock\<close>); the stripped ref is returned, an empty one means no ref, and any other text
  raises the one input error.
\<close>

theorem git_ref_spec:
  "validate_git_ref (Some s) =
    (if strip s = [] then Inr None
     else if safe_ref (strip s) then Inr (Some (strip s))
     else Inl (IngestionInputError ''Git ref is not supported''))"
  using safe_ref_checks [of "strip s"]
  by (auto simp: validate_git_ref_def ref_error_def Let_def)

text \<open>
  C20: no option injection: whatever ref and URL a user sends, once both validators accept
  them, every argument of every git command line that starts with a dash is one of the
  fixed options the code itself writes.
\<close>

theorem clone_no_option_injection:
  assumes "validate_github_url bracket_ok raw_url = Inr u" and "validate_git_ref raw_ref = Inr ref"
    and "\<not> startswith dest ''-''"
    and "c \<in> set (build_clone_commands (nu_clone_url u) ref dest)"
    and "arg \<in> set (cc_command c)" and "startswith arg ''-''"
  shows "arg \<in> set fixed_git_options"
proof (rule option_args_fixed [OF _ assms(3) _ assms(4-6)])
  have "nu_clone_url u = github_url (nu_owner u) (nu_name u)"
    using assms(1) by (auto simp: validate_github_url_def validate_github_path_def Let_def
        split: sum.splits option.splits if_splits list.splits)
  then show "\<not> startswith (nu_clone_url u) ''-''" by (simp add: github_url_def startswith_def)
next
  fix r assume "ref = Some r"
  with assms(2) show "\<not> startswith r ''-''"
    by (auto simp: validate_git_ref_def Let_def split: option.splits if_splits)
qed

theorem clone_no_option_injection_witness: "''--detach'' \<in> set fixed_git_options"
proof -
  have u: "validate_github_url (\<lambda>_. True) ''https://github.com/o/r'' =
      Inr \<lparr>nu_owner = ''o'', nu_name = ''r'', nu_clone_url = ''https://github.com/o/r''\<rparr>"
    and r: "validate_git_ref (Some ''deadbeef'') = Inr (Some ''deadbeef'')"
    and d: "\<not> startswith ''/w'' ''-''"
    and c: "\<lparr>cc_command = [''git'', ''checkout'', ''--detach'', ''deadbeef''], cc_cwd = Some ''/w''\<rparr>
      \<in> set (build_clone_commands (nu_clone_url \<lparr>nu_owner = ''o'', nu_name = ''r'',
           nu_clone_url = ''https://github.com/o/r''\<rparr>) (Some ''deadbeef'') ''/w'')"
    by code_simp+
  show ?thesis
    by (rule clone_no_option_injection [OF u r d c]) (simp_all add: startswith_def)
qed

text \<open>
  A repository URL with a port outside 0-65535 does not raise the input error that the
  API turns into a 400 response, but a bare \<^verbatim>\<open>ValueError\<close> from the port property.
\<close>

theorem github_url_port_escapes:
  "validate_github_url bracket_ok ''https://github.com:99999/owner/repo'' =
    Inl (ValueError ''Port out of range 0-65535'')"
proof -
  let ?url = "''https://github.com:99999/owner/repo''"
  let ?p = "\<lparr>u_scheme = ''https'', u_netloc = ''github.com:99999'', u_path = ''/owner/repo'',
         u_query = [], u_fragment = []\<rparr>"
  have strip: "strip ?url = ?url" by code_simp
  have keep: "filter (\<lambda>c. \<not> is_unsafe_url_char c) (lstrip_by is_c0_or_space ?url) = ?url"
    by code_simp
  have scheme: "split_scheme ?url = (''https'', ''//github.com:99999/owner/repo'')" by code_simp
  have netloc: "split_netloc ''github.com:99999/owner/repo'' = (''github.com:99999'', ''/owner/repo'')"
    by code_simp
  have path: "split_params ''/owner/repo'' = ''/owner/repo''" by code_simp
  have parts: "partition_on CHR ''#'' ''/owner/repo'' = (''/owner/repo'', False, [])"
    "partition_on CHR ''?'' ''/owner/repo'' = (''/owner/repo'', False, [])" by code_simp+
  have scheme': "split_scheme ?url = (''https'', ''//'' @ ''github.com:99999/owner/repo'')"
    unfolding scheme by simp
  have nobr: "CHR ''['' \<notin> set ''github.com:99999''" "CHR '']'' \<notin> set ''github.com:99999''"
    by code_simp+
  note parsed = urlparse_steps [OF keep scheme' netloc nobr parts path, of bracket_ok]
  have info: "hostinfo ''github.com:99999'' = (''github.com'', Some ''99999'')" by code_simp
  then have name: "url_hostname ?p = Some ''github.com''" by (intro hostname_github) simp
  have "url_port ?p = Inl (ValueError ''Port out of range 0-65535'')"
    by (simp add: url_port_def info is_digit_def code_def)
  then show ?thesis
    unfolding validate_github_url_def strip parsed using name by simp
qed

end
