(* ===== verification/Domain.thy ===== *)
theory Domain
  imports PyStr
begin

text \<open>
  The durable state: the rows of \<^verbatim>\<open>app/models/domain.py\<close> as records (a column
  \<^verbatim>\<open>Mapped[T | None]\<close> is an option), the database as the lists of its rows in insertion
  order, and the database session's effects the services rely on: inserting a row under the
  primary keys, unique, check and foreign key constraints the models declare, reading the
  clock and drawing a fresh UUID. The column \<^verbatim>\<open>updated_at\<close> is never read and is left out;
  \<^verbatim>\<open>created_at\<close> is kept where a query sorts by it.
\<close>

section \<open>Column types\<close>

text \<open>A UUID is its integer value; a timestamp counts microseconds.\<close>

type_synonym uuid = nat
type_synonym timestamp = int
type_synonym json_object = "(string \<times> json) list"

text \<open>\<^verbatim>\<open>str(uuid)\<close>: 32 hexadecimal digits in groups of 8, 4, 4, 4 and 12.\<close>

definition hex_digit :: "nat \<Rightarrow> char" where
  "hex_digit n = (''0123456789abcdef'' ! (n mod 16))"

fun hex_width :: "nat \<Rightarrow> nat \<Rightarrow> string" where
  "hex_width 0 n = []"
| "hex_width (Suc w) n = hex_width w (n div 16) @ [hex_digit n]"

definition uuid_str :: "uuid \<Rightarrow> string" where
  "uuid_str u = (let h = hex_width 32 u in
     take 8 h @ ''-'' @ take 4 (drop 8 h) @ ''-'' @ take 4 (drop 12 h) @ ''-''
       @ take 4 (drop 16 h) @ ''-'' @ drop 20 h)"

definition seconds :: "int \<Rightarrow> int" where
  "seconds n = n * 1000000"

text \<open>\<^verbatim>\<open>RepositoryState\<close>, with the column default \<^verbatim>\<open>pending\<close>; revisions use the same words.\<close>

datatype repo_state =
    Pending | Queued | Cloning | Scanning | ReadyForIndexing | Indexing | Ready | Failed
  | Deleting | Deleted

datatype run_state = RunQueued | RunRunning | RunSucceeded | RunFailed

datatype snapshot_status = SnapQueued | SnapIndexing | SnapReady

section \<open>Rows\<close>

record user =
  user_id :: uuid
  user_email :: string
  user_password_hash :: string
  user_display_name :: string
  user_role :: string
  user_is_active :: bool
  user_email_verified :: bool
  user_failed_login_count :: int
  user_last_failed_login_at :: "timestamp option"
  user_last_login_at :: "timestamp option"

record refresh_token =
  tok_id :: uuid
  tok_user_id :: uuid
  tok_token_hash :: string
  tok_family_id :: uuid
  tok_expires_at :: timestamp
  tok_revoked_at :: "timestamp option"
  tok_replaced_by_id :: "uuid option"
  tok_user_agent_hash :: "string option"

record repository =
  repo_id :: uuid
  repo_owner_id :: uuid
  repo_name :: string
  repo_normalized_clone_url :: string
  repo_default_branch :: "string option"
  repo_status :: repo_state
  repo_latest_revision_id :: "uuid option"
  repo_latest_indexed_revision_id :: "uuid option"
  repo_indexing_config :: json_object
  repo_deleted_at :: "timestamp option"
  repo_deleted_by_id :: "uuid option"
  repo_created_at :: timestamp

record repository_revision =
  rev_id :: uuid
  rev_repository_id :: uuid
  rev_commit_sha :: string
  rev_ref :: "string option"
  rev_status :: repo_state
  rev_cloned_at :: "timestamp option"
  rev_indexed_at :: "timestamp option"
  rev_file_count :: int
  rev_total_bytes :: int
  rev_error_code :: "string option"
  rev_error_summary :: "string option"
  rev_created_at :: timestamp

record repository_file =
  file_id :: uuid
  file_revision_id :: uuid
  file_normalized_path :: string
  file_language :: "string option"
  file_size :: int
  file_content_hash :: string
  file_line_count :: int
  file_indexing_status :: string
  file_excluded_reason :: "string option"
  file_content :: "string option"

record code_symbol =
  sym_id :: uuid
  sym_file_id :: uuid
  sym_symbol_type :: string
  sym_name :: string
  sym_qualified_name :: string
  sym_start_line :: int
  sym_end_line :: int
  sym_signature :: "string option"
  sym_parent_symbol_id :: "uuid option"
  sym_symbol_metadata :: json_object

record index_snapshot =
  snap_id :: uuid
  snap_owner_id :: uuid
  snap_repository_id :: uuid
  snap_revision_id :: uuid
  snap_commit_sha :: string
  snap_status :: snapshot_status
  snap_parser_name :: string
  snap_embedding_provider :: string
  snap_embedding_model :: string
  snap_embedding_dimensions :: int
  snap_embedding_config :: json_object
  snap_statistics :: json_object
  snap_error_code :: "string option"
  snap_error_summary :: "string option"
  snap_indexed_at :: "timestamp option"
  snap_created_at :: timestamp

record code_chunk =
  chunk_id :: uuid
  chunk_snapshot_id :: uuid
  chunk_owner_id :: uuid
  chunk_repository_id :: uuid
  chunk_revision_id :: uuid
  chunk_file_id :: uuid
  chunk_commit_sha :: string
  chunk_normalized_path :: string
  chunk_language :: "string option"
  chunk_symbol_name :: "string option"
  chunk_qualified_name :: "string option"
  chunk_symbol_type :: string
  chunk_start_line :: int
  chunk_end_line :: int
  chunk_part_number :: int
  chunk_part_count :: int
  chunk_content_hash :: string
  chunk_exact_content :: string
  chunk_search_text :: string
  chunk_dense_embedding :: "real list option"
  chunk_metadata :: json_object

record agent_run =
  run_id :: uuid
  run_owner_id :: uuid
  run_repository_id :: uuid
  run_revision_id :: "uuid option"
  run_run_type :: string
  run_status :: run_state
  run_input_summary :: string
  run_model_provider :: string
  run_model_identifier :: string
  run_prompt_version :: string
  run_started_at :: "timestamp option"
  run_completed_at :: "timestamp option"
  run_cancellation_metadata :: "json_object option"
  run_error_code :: "string option"
  run_error_message :: "string option"
  run_input_units :: "int option"
  run_output_units :: "int option"
  run_created_at :: timestamp

record agent_run_event =
  event_id :: uuid
  event_run_id :: uuid
  event_sequence :: int
  event_event_type :: string
  event_public_message :: string
  event_private_metadata :: json_object
  event_created_at :: timestamp

record artifact =
  art_id :: uuid
  art_run_id :: uuid
  art_artifact_type :: string
  art_storage_path :: "string option"
  art_content_reference :: "string option"
  art_media_type :: string
  art_size :: int
  art_checksum :: string
  art_artifact_metadata :: json_object

record patch =
  patch_id :: uuid
  patch_run_id :: uuid
  patch_status :: string
  patch_base_commit_sha :: string
  patch_unified_diff :: string
  patch_diff_checksum :: string
  patch_affected_file_count :: int
  patch_approval_metadata :: "json_object option"
  patch_validation_metadata :: "json_object option"
  patch_applied_at :: "timestamp option"
  patch_reverted_at :: "timestamp option"

record test_execution =
  te_id :: uuid
  te_run_id :: uuid
  te_patch_id :: "uuid option"
  te_status :: string
  te_command_identifier :: string
  te_exit_code :: "int option"
  te_duration_ms :: "int option"
  te_stdout :: "string option"
  te_stderr :: "string option"
  te_resource_summary :: "json_object option"

record audit_log =
  audit_id :: uuid
  audit_actor_user_id :: "uuid option"
  audit_action :: string
  audit_resource_type :: string
  audit_resource_id :: "uuid option"
  audit_result :: string
  audit_correlation_id :: string
  audit_ip_hash :: "string option"
  audit_details :: json_object

section \<open>The database\<close>

text \<open>
  Beside the rows the state holds what the processes have used and made: \<open>next_uuid\<close> is the next value \<^verbatim>\<open>uuid4()\<close> gives: the model keeps of it that no value
  comes twice. \<open>ticks\<close> counts the readings of the clock and \<open>secrets_drawn\<close> those of the
  \<^verbatim>\<open>secrets\<close> module, \<open>procs_run\<close> the subprocesses started; \<open>workspaces\<close> are the clone
  directories present on disk.
\<close>

record db =
  users :: "user list"
  refresh_tokens :: "refresh_token list"
  repositories :: "repository list"
  revisions :: "repository_revision list"
  files :: "repository_file list"
  symbols :: "code_symbol list"
  snapshots :: "index_snapshot list"
  chunks :: "code_chunk list"
  runs :: "agent_run list"
  events :: "agent_run_event list"
  artifacts :: "artifact list"
  patches :: "patch list"
  test_executions :: "test_execution list"
  audit_logs :: "audit_log list"
  next_uuid :: nat
  ticks :: nat
  secrets_drawn :: nat
  procs_run :: nat
  workspaces :: "string list"

definition empty_db :: db where
  "empty_db = \<lparr>users = [], refresh_tokens = [], repositories = [], revisions = [], files = [],
     symbols = [], snapshots = [], chunks = [], runs = [], events = [], artifacts = [],
     patches = [], test_executions = [], audit_logs = [], next_uuid = 0, ticks = 0,
     secrets_drawn = 0, procs_run = 0, workspaces = []\<rparr>"

type_synonym 'a session = "(db, 'a) py"

text \<open>\<^verbatim>\<open>datetime.now(UTC)\<close>: the next reading of the clock, whose readings are a parameter.\<close>

definition utcnow :: "(nat \<Rightarrow> timestamp) \<Rightarrow> timestamp session" where
  "utcnow clock = (\<lambda>s. (Inr (clock (ticks s)), s\<lparr>ticks := Suc (ticks s)\<rparr>))"

definition uuid4 :: "uuid session" where
  "uuid4 = (\<lambda>s. (Inr (next_uuid s), s\<lparr>next_uuid := Suc (next_uuid s)\<rparr>))"

definition draw_secret :: "(nat \<Rightarrow> string) \<Rightarrow> string session" where
  "draw_secret secret = (\<lambda>s. (Inr (secret (secrets_drawn s)), s\<lparr>secrets_drawn := Suc (secrets_drawn s)\<rparr>))"

text \<open>\<^verbatim>\<open>session.add\<close> and the flush that writes the row: refused when a constraint fails.\<close>

definition add_row :: "(db \<Rightarrow> bool) \<Rightarrow> string \<Rightarrow> (db \<Rightarrow> db) \<Rightarrow> unit session" where
  "add_row ok table write =
     (\<lambda>s. if ok s then (Inr (), write s) else (Inl (IntegrityError table), s))"

text \<open>
  A transaction that ends in \<^verbatim>\<open>rollback()\<close> restores the rows it began with; UUIDs, clock
  readings, secrets and processes of it stay used, and the disk is as it is.
\<close>

definition rollback :: "db \<Rightarrow> db \<Rightarrow> db" where
  "rollback begun s = begun\<lparr>next_uuid := next_uuid s, ticks := ticks s, secrets_drawn := secrets_drawn s,
                procs_run := procs_run s, workspaces := workspaces s\<rparr>"

text \<open>A request or task in one transaction: committed when it returns, else rolled back.\<close>

definition commit_or_rollback :: "'a session \<Rightarrow> 'a session" where
  "commit_or_rollback operation =
     (\<lambda>s. case operation s of (Inr x, t) \<Rightarrow> (Inr x, t) | (Inl e, t) \<Rightarrow> (Inl e, rollback s t))"

definition exists_user :: "db \<Rightarrow> uuid \<Rightarrow> bool" where
  "exists_user s uid = (uid \<in> user_id ` set (users s))"

definition exists_run :: "db \<Rightarrow> uuid \<Rightarrow> bool" where
  "exists_run s rid = (rid \<in> run_id ` set (runs s))"

definition opt_ref :: "(uuid \<Rightarrow> bool) \<Rightarrow> uuid option \<Rightarrow> bool" where
  "opt_ref ok r = (case r of None \<Rightarrow> True | Some i \<Rightarrow> ok i)"

definition insert_user :: "user \<Rightarrow> unit session" where
  "insert_user u = add_row
     (\<lambda>s. user_id u \<notin> user_id ` set (users s) \<and> user_email u \<notin> user_email ` set (users s))
     ''users'' (\<lambda>s. s\<lparr>users := users s @ [u]\<rparr>)"

definition insert_refresh_token :: "refresh_token \<Rightarrow> unit session" where
  "insert_refresh_token t = add_row
     (\<lambda>s. tok_id t \<notin> tok_id ` set (refresh_tokens s)
        \<and> tok_token_hash t \<notin> tok_token_hash ` set (refresh_tokens s)
        \<and> exists_user s (tok_user_id t)
        \<and> opt_ref (\<lambda>i. i \<in> tok_id ` set (refresh_tokens s)) (tok_replaced_by_id t))
     ''refresh_tokens'' (\<lambda>s. s\<lparr>refresh_tokens := refresh_tokens s @ [t]\<rparr>)"

definition insert_repository :: "repository \<Rightarrow> unit session" where
  "insert_repository r = add_row
     (\<lambda>s. repo_id r \<notin> repo_id ` set (repositories s)
        \<and> (repo_owner_id r, repo_normalized_clone_url r)
            \<notin> (\<lambda>q. (repo_owner_id q, repo_normalized_clone_url q)) ` set (repositories s)
        \<and> exists_user s (repo_owner_id r))
     ''repositories'' (\<lambda>s. s\<lparr>repositories := repositories s @ [r]\<rparr>)"

definition insert_revision :: "repository_revision \<Rightarrow> unit session" where
  "insert_revision r = add_row
     (\<lambda>s. rev_id r \<notin> rev_id ` set (revisions s)
        \<and> (rev_repository_id r, rev_commit_sha r)
            \<notin> (\<lambda>q. (rev_repository_id q, rev_commit_sha q)) ` set (revisions s)
        \<and> 0 \<le> rev_file_count r \<and> 0 \<le> rev_total_bytes r
        \<and> rev_repository_id r \<in> repo_id ` set (repositories s))
     ''repository_revisions'' (\<lambda>s. s\<lparr>revisions := revisions s @ [r]\<rparr>)"

definition insert_file :: "repository_file \<Rightarrow> unit session" where
  "insert_file f = add_row
     (\<lambda>s. file_id f \<notin> file_id ` set (files s)
        \<and> (file_revision_id f, file_normalized_path f)
            \<notin> (\<lambda>q. (file_revision_id q, file_normalized_path q)) ` set (files s)
        \<and> 0 \<le> file_size f \<and> 0 \<le> file_line_count f
        \<and> file_revision_id f \<in> rev_id ` set (revisions s))
     ''repository_files'' (\<lambda>s. s\<lparr>files := files s @ [f]\<rparr>)"

definition insert_symbol :: "code_symbol \<Rightarrow> unit session" where
  "insert_symbol c = add_row
     (\<lambda>s. sym_id c \<notin> sym_id ` set (symbols s)
        \<and> 0 < sym_start_line c \<and> sym_start_line c \<le> sym_end_line c
        \<and> sym_file_id c \<in> file_id ` set (files s)
        \<and> opt_ref (\<lambda>i. i \<in> sym_id ` set (symbols s)) (sym_parent_symbol_id c))
     ''code_symbols'' (\<lambda>s. s\<lparr>symbols := symbols s @ [c]\<rparr>)"

definition insert_snapshot :: "index_snapshot \<Rightarrow> unit session" where
  "insert_snapshot n = add_row
     (\<lambda>s. snap_id n \<notin> snap_id ` set (snapshots s)
        \<and> (snap_repository_id n, snap_revision_id n, snap_embedding_model n, snap_embedding_dimensions n)
            \<notin> (\<lambda>q. (snap_repository_id q, snap_revision_id q, snap_embedding_model q,
                     snap_embedding_dimensions q)) ` set (snapshots s)
        \<and> exists_user s (snap_owner_id n)
        \<and> snap_repository_id n \<in> repo_id ` set (repositories s)
        \<and> snap_revision_id n \<in> rev_id ` set (revisions s))
     ''repository_index_snapshots'' (\<lambda>s. s\<lparr>snapshots := snapshots s @ [n]\<rparr>)"

definition insert_chunk :: "code_chunk \<Rightarrow> unit session" where
  "insert_chunk c = add_row
     (\<lambda>s. chunk_id c \<notin> chunk_id ` set (chunks s)
        \<and> chunk_snapshot_id c \<in> snap_id ` set (snapshots s)
        \<and> exists_user s (chunk_owner_id c)
        \<and> chunk_repository_id c \<in> repo_id ` set (repositories s)
        \<and> chunk_revision_id c \<in> rev_id ` set (revisions s)
        \<and> chunk_file_id c \<in> file_id ` set (files s))
     ''code_chunks'' (\<lambda>s. s\<lparr>chunks := chunks s @ [c]\<rparr>)"

definition insert_run :: "agent_run \<Rightarrow> unit session" where
  "insert_run r = add_row
     (\<lambda>s. run_id r \<notin> run_id ` set (runs s)
        \<and> exists_user s (run_owner_id r)
        \<and> run_repository_id r \<in> repo_id ` set (repositories s)
        \<and> opt_ref (\<lambda>i. i \<in> rev_id ` set (revisions s)) (run_revision_id r))
     ''agent_runs'' (\<lambda>s. s\<lparr>runs := runs s @ [r]\<rparr>)"

definition insert_event :: "agent_run_event \<Rightarrow> unit session" where
  "insert_event e = add_row
     (\<lambda>s. event_id e \<notin> event_id ` set (events s)
        \<and> (event_run_id e, event_sequence e)
            \<notin> (\<lambda>q. (event_run_id q, event_sequence q)) ` set (events s)
        \<and> exists_run s (event_run_id e))
     ''agent_run_events'' (\<lambda>s. s\<lparr>events := events s @ [e]\<rparr>)"

definition insert_audit_log :: "audit_log \<Rightarrow> unit session" where
  "insert_audit_log a = add_row
     (\<lambda>s. audit_id a \<notin> audit_id ` set (audit_logs s)
        \<and> opt_ref (exists_user s) (audit_actor_user_id a))
     ''audit_logs'' (\<lambda>s. s\<lparr>audit_logs := audit_logs s @ [a]\<rparr>)"

text \<open>
  Deleting file rows takes the symbols and chunks of those files with them: the foreign keys
  \<^verbatim>\<open>code_symbols.file_id\<close> and \<^verbatim>\<open>code_chunks.file_id\<close> are declared
  \<^verbatim>\<open>ondelete="CASCADE"\<close>, and a symbol whose parent goes is kept with no parent
  (\<^verbatim>\<open>ondelete="SET NULL"\<close>). Deleting snapshots takes their chunks.
\<close>

definition drop_symbol_parent :: "uuid set \<Rightarrow> code_symbol \<Rightarrow> code_symbol" where
  "drop_symbol_parent gone c =
     (case sym_parent_symbol_id c of
        None \<Rightarrow> c
      | Some p \<Rightarrow> if p \<in> gone then c\<lparr>sym_parent_symbol_id := None\<rparr> else c)"

definition delete_symbols :: "(code_symbol \<Rightarrow> bool) \<Rightarrow> db \<Rightarrow> db" where
  "delete_symbols P s =
     (let gone = sym_id ` set (filter P (symbols s))
      in s\<lparr>symbols := map (drop_symbol_parent gone) (filter (\<lambda>c. \<not> P c) (symbols s))\<rparr>)"

definition delete_chunks :: "(code_chunk \<Rightarrow> bool) \<Rightarrow> db \<Rightarrow> db" where
  "delete_chunks P s = s\<lparr>chunks := filter (\<lambda>c. \<not> P c) (chunks s)\<rparr>"

definition delete_files :: "(repository_file \<Rightarrow> bool) \<Rightarrow> db \<Rightarrow> db" where
  "delete_files P s =
     (let gone = file_id ` set (filter P (files s));
          s1 = s\<lparr>files := filter (\<lambda>f. \<not> P f) (files s)\<rparr>;
          s2 = delete_symbols (\<lambda>c. sym_file_id c \<in> gone) s1
      in delete_chunks (\<lambda>c. chunk_file_id c \<in> gone) s2)"

definition delete_snapshots :: "(index_snapshot \<Rightarrow> bool) \<Rightarrow> db \<Rightarrow> db" where
  "delete_snapshots P s =
     (let gone = snap_id ` set (filter P (snapshots s))
      in delete_chunks (\<lambda>c. chunk_snapshot_id c \<in> gone)
           (s\<lparr>snapshots := filter (\<lambda>n. \<not> P n) (snapshots s)\<rparr>))"

section \<open>Hashed metadata\<close>

text \<open>\<^verbatim>\<open>str.encode\<close> as UTF-8, on the characters of the model (code points below 256).\<close>

definition utf8 :: "string \<Rightarrow> string" where
  "utf8 t = concat (map (\<lambda>c. if code c < 128 then [c]
     else [char_of (192 + code c div 64), char_of (128 + code c mod 64)]) t)"

text \<open>\<^verbatim>\<open>hash_metadata(value, secret_key)\<close>; SHA-256 is a parameter.\<close>

definition hash_metadata :: "(string \<Rightarrow> string) \<Rightarrow> string \<Rightarrow> string \<Rightarrow> string" where
  "hash_metadata sha v key = sha (utf8 (key @ '':'' @ v))"

section \<open>JSON objects\<close>

definition dict_get :: "json_object \<Rightarrow> string \<Rightarrow> json option" where
  "dict_get d k = map_of d k"

text \<open>\<^verbatim>\<open>{**d, k: v}\<close>: an existing key keeps its place.\<close>

fun dict_set :: "json_object \<Rightarrow> string \<Rightarrow> json \<Rightarrow> json_object" where
  "dict_set [] k v = [(k, v)]"
| "dict_set ((k', v') # d) k v = (if k' = k then (k, v) # d else (k', v') # dict_set d k v)"

lemma dict_get_set: "dict_get (dict_set d k v) k' = (if k' = k then Some v else dict_get d k')"
  by (induction d k v rule: dict_set.induct) (auto simp: dict_get_def)

section \<open>Characteristic equations\<close>

lemma utcnow_app [simp]: "utcnow clock s = (Inr (clock (ticks s)), s\<lparr>ticks := Suc (ticks s)\<rparr>)"
  by (simp add: utcnow_def)

lemma uuid4_app [simp]: "uuid4 s = (Inr (next_uuid s), s\<lparr>next_uuid := Suc (next_uuid s)\<rparr>)"
  by (simp add: uuid4_def)

lemma draw_secret_app [simp]:
  "draw_secret f s = (Inr (f (secrets_drawn s)), s\<lparr>secrets_drawn := Suc (secrets_drawn s)\<rparr>)"
  by (simp add: draw_secret_def)

lemma add_row_app:
  "add_row ok table write s = (if ok s then (Inr (), write s) else (Inl (IntegrityError table), s))"
  by (simp add: add_row_def)

lemma preserves_utcnow [pres]: "(\<And>s n. I s \<Longrightarrow> I (s\<lparr>ticks := n\<rparr>)) \<Longrightarrow> preserves I (utcnow clock)"
  by (simp add: preserves_def)

lemma preserves_uuid4 [pres]:
  "(\<And>s. I s \<Longrightarrow> I (s\<lparr>next_uuid := Suc (next_uuid s)\<rparr>)) \<Longrightarrow> preserves I uuid4"
  by (simp add: preserves_def)

lemma preserves_draw_secret [pres]:
  "(\<And>s n. I s \<Longrightarrow> I (s\<lparr>secrets_drawn := n\<rparr>)) \<Longrightarrow> preserves I (draw_secret f)"
  by (simp add: preserves_def)

lemma preserves_add_row [pres]:
  "(\<And>s. I s \<Longrightarrow> ok s \<Longrightarrow> I (write s)) \<Longrightarrow> preserves I (add_row ok table write)"
  by (simp add: preserves_def add_row_def)

section \<open>What a state says about the rows\<close>

definition rows_of :: "db \<Rightarrow> db" where
  "rows_of s = s\<lparr>next_uuid := 0, ticks := 0, secrets_drawn := 0, procs_run := 0, workspaces := []\<rparr>"

definition same_rows :: "db \<Rightarrow> db \<Rightarrow> bool" where
  "same_rows s t \<longleftrightarrow> rows_of t = rows_of s \<and> next_uuid s \<le> next_uuid t"

lemma rows_of_updates [simp]:
  "rows_of (s\<lparr>next_uuid := n\<rparr>) = rows_of s" "rows_of (s\<lparr>ticks := n\<rparr>) = rows_of s"
  "rows_of (s\<lparr>secrets_drawn := n\<rparr>) = rows_of s" "rows_of (s\<lparr>procs_run := n\<rparr>) = rows_of s"
  "rows_of (s\<lparr>workspaces := w\<rparr>) = rows_of s"
  by (simp_all add: rows_of_def)

lemma rows_of_fields:
  assumes "rows_of t = rows_of s"
  shows "users t = users s" "refresh_tokens t = refresh_tokens s" "repositories t = repositories s"
    "revisions t = revisions s" "files t = files s" "symbols t = symbols s"
    "snapshots t = snapshots s" "chunks t = chunks s" "runs t = runs s" "events t = events s"
    "artifacts t = artifacts s" "patches t = patches s" "test_executions t = test_executions s"
    "audit_logs t = audit_logs s"
  using assms by (simp_all add: rows_of_def db.ext_inject [symmetric])
    (metis (no_types, lifting) db.select_convs db.surjective db.update_convs)+

lemma same_rows_refl [simp]: "same_rows s s"
  by (simp add: same_rows_def)

lemma same_rows_trans: "same_rows s t \<Longrightarrow> same_rows t u \<Longrightarrow> same_rows s u"
  by (simp add: same_rows_def)

lemma rows_of_rollback [simp]: "rows_of (rollback s t) = rows_of s"
  by (simp add: rollback_def)

end
