(* ===== verification/Queries.thy ===== *)
theory Queries
  imports Domain
begin

text \<open>
  The database access of \<^verbatim>\<open>app/repositories/domain.py\<close>: each query is a selection over the
  rows, in the order the query asks for (\<open>sort_key\<close> is stable; rows the \<^verbatim>\<open>ORDER BY\<close>
  does not separate keep their insertion order), and read with the same accessor as the
  code: \<^verbatim>\<open>scalar_one_or_none\<close> raises when several rows remain. The contract of the
  owner-scoped lookups is the locale \<open>owner_scoped\<close>.
\<close>

section \<open>Reading rows\<close>

definition query_one :: "(db \<Rightarrow> 'r list) \<Rightarrow> 'r option session" where
  "query_one q = (\<lambda>s. (scalar_one_or_none (q s), s))"

definition query_first :: "(db \<Rightarrow> 'r list) \<Rightarrow> 'r option session" where
  "query_first q = gets (\<lambda>s. scalars_first (q s))"

definition desc_by :: "('r \<Rightarrow> int) \<Rightarrow> 'r list \<Rightarrow> 'r list" where
  "desc_by k rows = sort_key (\<lambda>r. - k r) rows"

lemma query_one_app [simp]: "query_one q s = (scalar_one_or_none (q s), s)"
  by (simp add: query_one_def)

lemma query_first_app [simp]: "query_first q s = (Inr (scalars_first (q s)), s)"
  by (simp add: query_first_def)

lemma preserves_query_one [pres]: "preserves I (query_one q)"
  by (simp add: preserves_def)

lemma preserves_query_first [pres]: "preserves I (query_first q)"
  by (simp add: preserves_def)

lemma set_desc_by [simp]: "set (desc_by k rows) = set rows"
  by (simp add: desc_by_def)

text \<open>
  The SQL pattern match behind \<^verbatim>\<open>ilike\<close>: percent stands for any text, underscore for any
  character, a backslash takes the next character literally; case is folded.
\<close>

function like :: "string \<Rightarrow> string \<Rightarrow> bool" where
  "like [] t = (t = [])"
| "like (p # ps) t =
     (if p = CHR ''%'' then (like ps t \<or> (if t = [] then False else like (p # ps) (tl t)))
      else if t = [] then False
      else if p = CHR ''_'' then like ps (tl t)
      else if code p = 92 \<and> ps \<noteq> [] then hd t = hd ps \<and> like (tl ps) (tl t)
      else hd t = p \<and> like ps (tl t))"
  by pat_completeness auto
termination
  by (relation "measure (\<lambda>(p, t). length p + length t)") auto

definition ilike :: "string \<Rightarrow> string \<Rightarrow> bool" where
  "ilike t pattern = like (lower pattern) (lower t)"

section \<open>Users and refresh tokens\<close>

definition user_by_email :: "string \<Rightarrow> user option session" where
  "user_by_email email = query_one (\<lambda>s. filter (\<lambda>u. user_email u = email) (users s))"

definition user_by_id :: "uuid \<Rightarrow> user option session" where
  "user_by_id uid = query_first (\<lambda>s. filter (\<lambda>u. user_id u = uid) (users s))"

definition token_by_hash_for_update :: "string \<Rightarrow> refresh_token option session" where
  "token_by_hash_for_update h =
     query_one (\<lambda>s. filter (\<lambda>t. tok_token_hash t = h) (refresh_tokens s))"

definition revoke_where :: "(refresh_token \<Rightarrow> bool) \<Rightarrow> timestamp \<Rightarrow> db \<Rightarrow> db" where
  "revoke_where P stamp s =
     s\<lparr>refresh_tokens := update_where (\<lambda>t. P t \<and> tok_revoked_at t = None)
         (\<lambda>t. t\<lparr>tok_revoked_at := Some stamp\<rparr>) (refresh_tokens s)\<rparr>"

definition revoke_family :: "uuid \<Rightarrow> timestamp \<Rightarrow> unit session" where
  "revoke_family fam stamp = modify (revoke_where (\<lambda>t. tok_family_id t = fam) stamp)"

definition revoke_all :: "uuid \<Rightarrow> timestamp \<Rightarrow> unit session" where
  "revoke_all uid stamp = modify (revoke_where (\<lambda>t. tok_user_id t = uid) stamp)"

section \<open>Repositories, runs, revisions\<close>

definition repositories_for_owner :: "uuid \<Rightarrow> repository list session" where
  "repositories_for_owner owner_id = gets (\<lambda>s. desc_by repo_created_at
     (filter (\<lambda>r. repo_owner_id r = owner_id \<and> repo_deleted_at r = None) (repositories s)))"

definition repository_by_owner_url :: "uuid \<Rightarrow> string \<Rightarrow> repository option session" where
  "repository_by_owner_url owner_id url = query_one (\<lambda>s.
     filter (\<lambda>r. repo_owner_id r = owner_id \<and> repo_normalized_clone_url r = url
                 \<and> repo_deleted_at r = None) (repositories s))"

definition repository_owned_by_id :: "uuid \<Rightarrow> uuid \<Rightarrow> repository option session" where
  "repository_owned_by_id owner_id repository_id = query_one (\<lambda>s.
     filter (\<lambda>r. repo_id r = repository_id \<and> repo_owner_id r = owner_id
                 \<and> repo_deleted_at r = None) (repositories s))"

definition get_repository_row :: "uuid \<Rightarrow> repository option session" where
  "get_repository_row i = query_first (\<lambda>s. filter (\<lambda>r. repo_id r = i) (repositories s))"

definition runs_for_repository :: "uuid \<Rightarrow> uuid \<Rightarrow> agent_run list session" where
  "runs_for_repository owner_id repository_id = gets (\<lambda>s. desc_by run_created_at
     (filter (\<lambda>r. run_owner_id r = owner_id \<and> run_repository_id r = repository_id) (runs s)))"

definition active_for_repository :: "uuid \<Rightarrow> string option \<Rightarrow> agent_run option session" where
  "active_for_repository repository_id run_type = query_first (\<lambda>s. desc_by run_created_at
     (filter (\<lambda>r. run_repository_id r = repository_id
                 \<and> run_status r \<in> {RunQueued, RunRunning}
                 \<and> (case run_type of None \<Rightarrow> True | Some t \<Rightarrow> run_run_type r = t)) (runs s)))"

definition run_owned_by_id :: "uuid \<Rightarrow> uuid \<Rightarrow> agent_run option session" where
  "run_owned_by_id owner_id rid = query_one (\<lambda>s.
     filter (\<lambda>r. run_id r = rid \<and> run_owner_id r = owner_id) (runs s))"

definition get_run_row :: "uuid \<Rightarrow> agent_run option session" where
  "get_run_row i = query_first (\<lambda>s. filter (\<lambda>r. run_id r = i) (runs s))"

definition latest_revision :: "uuid \<Rightarrow> repository_revision option session" where
  "latest_revision repository_id = query_first (\<lambda>s. desc_by rev_created_at
     (filter (\<lambda>r. rev_repository_id r = repository_id) (revisions s)))"

definition revision_by_repository_commit :: "uuid \<Rightarrow> string \<Rightarrow> repository_revision option session" where
  "revision_by_repository_commit repository_id sha = query_one (\<lambda>s.
     filter (\<lambda>r. rev_repository_id r = repository_id \<and> rev_commit_sha r = sha) (revisions s))"

definition revisions_for_repository :: "uuid \<Rightarrow> repository_revision list session" where
  "revisions_for_repository repository_id =
     gets (\<lambda>s. filter (\<lambda>r. rev_repository_id r = repository_id) (revisions s))"

definition get_revision_row :: "uuid \<Rightarrow> repository_revision option session" where
  "get_revision_row i = query_first (\<lambda>s. filter (\<lambda>r. rev_id r = i) (revisions s))"

section \<open>Files and symbols\<close>

definition files_for_revision :: "uuid \<Rightarrow> repository_file list session" where
  "files_for_revision revision_id = gets (\<lambda>s. sort_key file_normalized_path
     (filter (\<lambda>f. file_revision_id f = revision_id) (files s)))"

definition accepted_for_revision :: "uuid \<Rightarrow> repository_file list session" where
  "accepted_for_revision revision_id = gets (\<lambda>s. sort_key file_normalized_path
     (filter (\<lambda>f. file_revision_id f = revision_id \<and> file_indexing_status f = ''accepted'') (files s)))"

definition file_by_revision_path :: "uuid \<Rightarrow> string \<Rightarrow> repository_file option session" where
  "file_by_revision_path revision_id path = query_one (\<lambda>s.
     filter (\<lambda>f. file_revision_id f = revision_id \<and> file_normalized_path f = path) (files s))"

definition symbols_for_file :: "uuid \<Rightarrow> code_symbol list session" where
  "symbols_for_file fid = gets (\<lambda>s. filter (\<lambda>c. sym_file_id c = fid) (symbols s))"

definition delete_symbols_for_file_ids :: "uuid list \<Rightarrow> unit session" where
  "delete_symbols_for_file_ids fids =
     (if fids = [] then ret () else modify (delete_symbols (\<lambda>c. sym_file_id c \<in> set fids)))"

definition opt_eq :: "'a option \<Rightarrow> 'a \<Rightarrow> bool" where
  "opt_eq want x = (case want of None \<Rightarrow> True | Some y \<Rightarrow> x = y)"

definition symbols_for_repository_revision ::
    "uuid \<Rightarrow> uuid \<Rightarrow> string option \<Rightarrow> string option \<Rightarrow> string option \<Rightarrow> nat option \<Rightarrow> nat \<Rightarrow>
     (code_symbol \<times> repository_file) list session" where
  "symbols_for_repository_revision repository_id revision_id symbol_type name_query path limit offset =
     gets (\<lambda>s.
       let rows = [(c, f). c \<leftarrow> symbols s, f \<leftarrow> files s, r \<leftarrow> revisions s,
                     sym_file_id c = file_id f \<and> file_revision_id f = rev_id r
                     \<and> file_revision_id f = revision_id \<and> rev_repository_id r = repository_id];
           rows1 = filter (\<lambda>(c, f). opt_eq symbol_type (sym_symbol_type c)) rows;
           rows2 = filter (\<lambda>(c, f). case name_query of None \<Rightarrow> True
                             | Some q \<Rightarrow> ilike (sym_name c) (''%'' @ q @ ''%'')) rows1;
           rows3 = filter (\<lambda>(c, f). opt_eq path (file_normalized_path f)) rows2;
           ordered = sort_key (\<lambda>(c, f). file_normalized_path f)
                       (sort_key (\<lambda>(c, f). sym_start_line c) rows3);
           page = drop offset ordered
       in case limit of None \<Rightarrow> page | Some n \<Rightarrow> take n page)"

section \<open>Events, artifacts, audit\<close>

definition next_sequence :: "uuid \<Rightarrow> int session" where
  "next_sequence rid = gets (\<lambda>s.
     (case map event_sequence (filter (\<lambda>e. event_run_id e = rid) (events s)) of
        [] \<Rightarrow> 0
      | n # ns \<Rightarrow> fold max ns n) + 1)"

definition events_for_run :: "uuid \<Rightarrow> agent_run_event list session" where
  "events_for_run rid = gets (\<lambda>s. sort_key event_sequence
     (filter (\<lambda>e. event_run_id e = rid) (events s)))"

definition artifact_owned_by_id :: "uuid \<Rightarrow> uuid \<Rightarrow> artifact option session" where
  "artifact_owned_by_id owner_id aid = query_one (\<lambda>s.
     [a. a \<leftarrow> artifacts s, r \<leftarrow> runs s, art_run_id a = run_id r \<and> art_id a = aid \<and> run_owner_id r = owner_id])"

definition patch_owned_by_id :: "uuid \<Rightarrow> uuid \<Rightarrow> patch option session" where
  "patch_owned_by_id owner_id pid = query_one (\<lambda>s.
     [p. p \<leftarrow> patches s, r \<leftarrow> runs s, patch_run_id p = run_id r \<and> patch_id p = pid \<and> run_owner_id r = owner_id])"

definition test_execution_owned_by_id :: "uuid \<Rightarrow> uuid \<Rightarrow> test_execution option session" where
  "test_execution_owned_by_id owner_id eid = query_one (\<lambda>s.
     [t. t \<leftarrow> test_executions s, r \<leftarrow> runs s, te_run_id t = run_id r \<and> te_id t = eid \<and> run_owner_id r = owner_id])"

section \<open>Snapshots and chunks\<close>

definition latest_snapshot :: "uuid \<Rightarrow> index_snapshot option session" where
  "latest_snapshot repository_id = query_one (\<lambda>s. desc_by snap_created_at
     (filter (\<lambda>n. snap_repository_id n = repository_id) (snapshots s)))"

text \<open>\<^verbatim>\<open>ORDER BY indexed_at DESC NULLS LAST\<close>.\<close>

definition desc_nullslast :: "('r \<Rightarrow> int option) \<Rightarrow> 'r list \<Rightarrow> 'r list" where
  "desc_nullslast k rows =
     desc_by (\<lambda>r. the (k r)) (filter (\<lambda>r. k r \<noteq> None) rows) @ filter (\<lambda>r. k r = None) rows"

definition latest_ready_snapshot :: "uuid \<Rightarrow> index_snapshot option session" where
  "latest_ready_snapshot repository_id = query_one (\<lambda>s. desc_nullslast snap_indexed_at
     (filter (\<lambda>n. snap_repository_id n = repository_id \<and> snap_status n = SnapReady) (snapshots s)))"

definition snapshot_by_revision :: "uuid \<Rightarrow> uuid \<Rightarrow> index_snapshot option session" where
  "snapshot_by_revision repository_id revision_id = query_one (\<lambda>s.
     filter (\<lambda>n. snap_repository_id n = repository_id \<and> snap_revision_id n = revision_id) (snapshots s))"

definition order_chunks :: "code_chunk list \<Rightarrow> code_chunk list" where
  "order_chunks rows = sort_key chunk_normalized_path
     (sort_key chunk_start_line (sort_key chunk_part_number rows))"

definition chunks_for_snapshot :: "uuid \<Rightarrow> code_chunk list session" where
  "chunks_for_snapshot sid = gets (\<lambda>s. order_chunks
     (filter (\<lambda>c. chunk_snapshot_id c = sid) (chunks s)))"

definition chunk_selected ::
    "uuid \<Rightarrow> uuid \<Rightarrow> string option \<Rightarrow> string option \<Rightarrow> code_chunk \<Rightarrow> bool" where
  "chunk_selected repository_id revision_id path_prefix language c =
     (chunk_repository_id c = repository_id \<and> chunk_revision_id c = revision_id
      \<and> (case path_prefix of None \<Rightarrow> True
         | Some p \<Rightarrow> ilike (chunk_normalized_path c) (p @ ''%''))
      \<and> (case language of None \<Rightarrow> True | Some l \<Rightarrow> chunk_language c = Some l))"

definition chunks_for_repository_revision ::
    "uuid \<Rightarrow> uuid \<Rightarrow> string option \<Rightarrow> string option \<Rightarrow> code_chunk list session" where
  "chunks_for_repository_revision repository_id revision_id path_prefix language =
     gets (\<lambda>s. order_chunks
       (filter (chunk_selected repository_id revision_id path_prefix language) (chunks s)))"

definition add_chunks :: "code_chunk list \<Rightarrow> unit session" where
  "add_chunks cs = forp cs insert_chunk"

definition delete_chunks_for_repository :: "uuid \<Rightarrow> unit session" where
  "delete_chunks_for_repository repository_id =
     modify (delete_chunks (\<lambda>c. chunk_repository_id c = repository_id))"

definition delete_chunks_for_snapshot :: "uuid \<Rightarrow> unit session" where
  "delete_chunks_for_snapshot sid = modify (delete_chunks (\<lambda>c. chunk_snapshot_id c = sid))"

section \<open>Row assignments\<close>

text \<open>Assigning attributes of a loaded row: the row of that primary key changes.\<close>

definition set_user :: "uuid \<Rightarrow> (user \<Rightarrow> user) \<Rightarrow> unit session" where
  "set_user i f = modify (\<lambda>s. s\<lparr>users := update_where (\<lambda>u. user_id u = i) f (users s)\<rparr>)"

definition set_token :: "uuid \<Rightarrow> (refresh_token \<Rightarrow> refresh_token) \<Rightarrow> unit session" where
  "set_token i f =
     modify (\<lambda>s. s\<lparr>refresh_tokens := update_where (\<lambda>t. tok_id t = i) f (refresh_tokens s)\<rparr>)"

definition set_repository :: "uuid \<Rightarrow> (repository \<Rightarrow> repository) \<Rightarrow> unit session" where
  "set_repository i f =
     modify (\<lambda>s. s\<lparr>repositories := update_where (\<lambda>r. repo_id r = i) f (repositories s)\<rparr>)"

definition set_revision :: "uuid \<Rightarrow> (repository_revision \<Rightarrow> repository_revision) \<Rightarrow> unit session" where
  "set_revision i f =
     modify (\<lambda>s. s\<lparr>revisions := update_where (\<lambda>r. rev_id r = i) f (revisions s)\<rparr>)"

definition set_run :: "uuid \<Rightarrow> (agent_run \<Rightarrow> agent_run) \<Rightarrow> unit session" where
  "set_run i f = modify (\<lambda>s. s\<lparr>runs := update_where (\<lambda>r. run_id r = i) f (runs s)\<rparr>)"

definition set_snapshot :: "uuid \<Rightarrow> (index_snapshot \<Rightarrow> index_snapshot) \<Rightarrow> unit session" where
  "set_snapshot i f =
     modify (\<lambda>s. s\<lparr>snapshots := update_where (\<lambda>n. snap_id n = i) f (snapshots s)\<rparr>)"

section \<open>Owner-scoped lookups\<close>

text \<open>
  The contract of every \<^verbatim>\<open>owned_by_id\<close> method: a read-only query whose result, if any,
  has the requested id and belongs to the requesting owner. \<open>require\<close> is the shape of
  \<^verbatim>\<open>AuthorizationService.require_*\<close>: an absent row raises \<^verbatim>\<open>NotFound\<close>.
\<close>

definition require :: "('r option) session \<Rightarrow> 'r session" where
  "require lookup = bindp lookup (\<lambda>r. case r of None \<Rightarrow> raise (AppErr not_found) | Some x \<Rightarrow> ret x)"

locale owner_scoped =
  fixes lookup :: "uuid \<Rightarrow> uuid \<Rightarrow> ('r option) session"
    and row_id :: "'r \<Rightarrow> uuid"
    and owned :: "db \<Rightarrow> uuid \<Rightarrow> 'r \<Rightarrow> bool"
  assumes read_only: "snd (lookup own i s) = s"
    and lookup_sound: "fst (lookup own i s) = Inr (Some r) \<Longrightarrow> row_id r = i \<and> owned s own r"
begin

lemma require_read_only: "snd (require (lookup own i) s) = s"
  using read_only [of own i s]
  by (auto simp: require_def bindp_def split: prod.splits sum.splits option.splits)

lemma require_sound:
  "require (lookup own i) s = (Inr r, t) \<Longrightarrow> row_id r = i \<and> owned s own r \<and> t = s"
  using lookup_sound [of own i s r] read_only [of own i s]
  by (auto simp: require_def bindp_def split: prod.splits sum.splits option.splits)

lemma require_foreign:
  assumes "\<And>r. row_id r = i \<Longrightarrow> \<not> owned s own r"
  shows "\<exists>e. fst (require (lookup own i) s) = Inl e"
proof (cases "fst (require (lookup own i) s)")
  case (Inr r)
  then have "row_id r = i \<and> owned s own r" using require_sound by (metis prod.collapse)
  with assms show ?thesis by blast
qed simp

end

definition owns_repository :: "db \<Rightarrow> uuid \<Rightarrow> repository \<Rightarrow> bool" where
  "owns_repository s own r =
     (r \<in> set (repositories s) \<and> repo_owner_id r = own \<and> repo_deleted_at r = None)"

definition owns_run :: "db \<Rightarrow> uuid \<Rightarrow> agent_run \<Rightarrow> bool" where
  "owns_run s own r = (r \<in> set (runs s) \<and> run_owner_id r = own)"

text \<open>Artifacts, patches and test executions belong to the owner of their run.\<close>

definition owns_via_run :: "uuid \<Rightarrow> db \<Rightarrow> uuid \<Rightarrow> bool" where
  "owns_via_run rid s own = (\<exists>r \<in> set (runs s). run_id r = rid \<and> run_owner_id r = own)"

definition owns_artifact :: "db \<Rightarrow> uuid \<Rightarrow> artifact \<Rightarrow> bool" where
  "owns_artifact s own a = (a \<in> set (artifacts s) \<and> owns_via_run (art_run_id a) s own)"

definition owns_patch :: "db \<Rightarrow> uuid \<Rightarrow> patch \<Rightarrow> bool" where
  "owns_patch s own p = (p \<in> set (patches s) \<and> owns_via_run (patch_run_id p) s own)"

definition owns_test_execution :: "db \<Rightarrow> uuid \<Rightarrow> test_execution \<Rightarrow> bool" where
  "owns_test_execution s own t = (t \<in> set (test_executions s) \<and> owns_via_run (te_run_id t) s own)"

interpretation repo_lookup: owner_scoped repository_owned_by_id repo_id owns_repository
  by unfold_locales
    (auto simp: repository_owned_by_id_def owns_repository_def scalar_one_or_none_Some
      filter_eq_Cons_iff)

interpretation run_lookup: owner_scoped run_owned_by_id run_id owns_run
  by unfold_locales
    (auto simp: run_owned_by_id_def owns_run_def scalar_one_or_none_Some filter_eq_Cons_iff)

lemma owns_via_runI: "r \<in> set (runs s) \<Longrightarrow> owns_via_run (run_id r) s (run_owner_id r)"
  by (auto simp: owns_via_run_def)

lemma single_in: "xs = [x] \<Longrightarrow> x \<in> set xs"
  by simp

interpretation artifact_lookup: owner_scoped artifact_owned_by_id art_id owns_artifact
  by unfold_locales
    (auto simp: artifact_owned_by_id_def owns_artifact_def
      scalar_one_or_none_Some dest!: single_in simp: owns_via_runI split: if_splits)

interpretation patch_lookup: owner_scoped patch_owned_by_id patch_id owns_patch
  by unfold_locales
    (auto simp: patch_owned_by_id_def owns_patch_def
      scalar_one_or_none_Some dest!: single_in simp: owns_via_runI split: if_splits)

interpretation execution_lookup: owner_scoped test_execution_owned_by_id te_id owns_test_execution
  by unfold_locales
    (auto simp: test_execution_owned_by_id_def owns_test_execution_def
      scalar_one_or_none_Some dest!: single_in simp: owns_via_runI split: if_splits)

section \<open>The authorization service\<close>

definition require_repository :: "uuid \<Rightarrow> uuid \<Rightarrow> repository session" where
  "require_repository owner_id repository_id = require (repository_owned_by_id owner_id repository_id)"

definition require_run :: "uuid \<Rightarrow> uuid \<Rightarrow> agent_run session" where
  "require_run owner_id rid = require (run_owned_by_id owner_id rid)"

lemma preserves_require [pres]: "preserves I lookup \<Longrightarrow> preserves I (require lookup)"
  unfolding require_def by (intro pres) auto

text \<open>
  A repository is returned exactly to its owner and only while it is not deleted; for
  every other caller, and for an id that does not exist, the answer is the same NotFound
  error, and the lookup changes nothing.
\<close>

theorem require_repository_spec:
  assumes "distinct (map repo_id (repositories s))"
  shows "require_repository own i s =
    (case filter (\<lambda>r. repo_id r = i) (repositories s) of
       [] \<Rightarrow> (Inl (AppErr not_found), s)
     | r # _ \<Rightarrow> if repo_owner_id r = own \<and> repo_deleted_at r = None then (Inr r, s)
               else (Inl (AppErr not_found), s))"
proof (cases rule: filter_unique_column_cases [OF assms, of i])
  case 1
  then have "filter (\<lambda>r. repo_id r = i \<and> repo_owner_id r = own \<and> repo_deleted_at r = None) (repositories s) = []"
    by (auto simp: filter_empty_conv)
  with 1 show ?thesis
    by (simp add: require_repository_def require_def repository_owned_by_id_def bindp_def)
next
  case (2 r)
  have "filter (\<lambda>r. repo_id r = i \<and> repo_owner_id r = own \<and> repo_deleted_at r = None) (repositories s)
      = filter (\<lambda>r. repo_owner_id r = own \<and> repo_deleted_at r = None) (filter (\<lambda>r. repo_id r = i) (repositories s))"
    by (simp add: conj_commute conj_left_commute)
  with 2 show ?thesis
    by (simp add: require_repository_def require_def repository_owned_by_id_def bindp_def)
qed


definition sample_user :: user where
  "sample_user = \<lparr>user_id = 0, user_email = ''a@b.io'', user_password_hash = ''pw'',
     user_display_name = ''A'', user_role = ''user'', user_is_active = True,
     user_email_verified = False, user_failed_login_count = 2,
     user_last_failed_login_at = None, user_last_login_at = None\<rparr>"

definition sample_repository :: "uuid \<Rightarrow> uuid \<Rightarrow> repository" where
  "sample_repository i own = \<lparr>repo_id = i, repo_owner_id = own, repo_name = ''demo'',
     repo_normalized_clone_url = ''u'', repo_default_branch = None, repo_status = Pending,
     repo_latest_revision_id = None, repo_latest_indexed_revision_id = None,
     repo_indexing_config = [], repo_deleted_at = None, repo_deleted_by_id = None,
     repo_created_at = 0\<rparr>"

lemma require_repository_spec_witness:
  "let s = empty_db\<lparr>repositories := [sample_repository 5 1, sample_repository 6 2]\<rparr>
   in require_repository 1 5 s = (Inr (sample_repository 5 1), s)
    \<and> require_repository 1 6 s = (Inl (AppErr not_found), s)
    \<and> require_repository 1 7 s = (Inl (AppErr not_found), s)"
  using require_repository_spec [of "empty_db\<lparr>repositories := [sample_repository 5 1, sample_repository 6 2]\<rparr>" 1 5]
    require_repository_spec [of "empty_db\<lparr>repositories := [sample_repository 5 1, sample_repository 6 2]\<rparr>" 1 6]
    require_repository_spec [of "empty_db\<lparr>repositories := [sample_repository 5 1, sample_repository 6 2]\<rparr>" 1 7]
  by (simp add: sample_repository_def)

end
