(* ===== verification/Auth.thy ===== *)
theory Auth
  imports Queries
begin

text \<open>
  Accounts and sessions: \<^verbatim>\<open>app/services/auth.py\<close> with the helpers of
  \<^verbatim>\<open>app/security/tokens.py\<close> and \<^verbatim>\<open>app/security/passwords.py\<close> it calls, and the
  transaction wrapper \<^verbatim>\<open>_commit_auth_operation\<close> of \<^verbatim>\<open>app/api/v1/auth.py\<close>. What the
  code takes from outside is in the record \<open>auth_env\<close>: the readings of the clock, the
  values \<^verbatim>\<open>secrets.token_urlsafe\<close> draws, SHA-256, the Argon2 hasher and the JWT encoder.
  The invariant \<open>sessions_ok\<close> says that tokens and accounts are well formed and that a
  token family (one login) never has two usable refresh tokens.
\<close>

section \<open>Parameters\<close>

record access_payload =
  pay_sub :: string
  pay_role :: string
  pay_type :: string
  pay_iat :: timestamp
  pay_exp :: timestamp
  pay_jti :: string

text \<open>
  \<open>ph_verify\<close> and \<open>ph_needs_rehash\<close> give \<open>None\<close> where Argon2 raises one of the errors the
  code catches; the salt of \<open>ph_hash\<close> is a drawn secret.
\<close>

record auth_env =
  env_clock :: "nat \<Rightarrow> timestamp"
  env_secret :: "nat \<Rightarrow> string"
  sha256 :: "string \<Rightarrow> string"
  ph_hash :: "string \<Rightarrow> string \<Rightarrow> string"
  ph_verify :: "string \<Rightarrow> string \<Rightarrow> bool option"
  ph_needs_rehash :: "string \<Rightarrow> bool option"
  jwt_encode :: "access_payload \<Rightarrow> string \<Rightarrow> string \<Rightarrow> string"
  secret_key :: string
  access_token_algorithm :: string
  access_token_ttl_seconds :: int
  refresh_token_ttl_seconds :: int

section \<open>Passwords and tokens\<close>

definition hash_password :: "auth_env \<Rightarrow> string \<Rightarrow> string session" where
  "hash_password env password =
     bindp (draw_secret (env_secret env)) (\<lambda>salt. ret (ph_hash env salt password))"

definition verify_password :: "auth_env \<Rightarrow> string \<Rightarrow> string \<Rightarrow> bool" where
  "verify_password env password_hash password =
     (case ph_verify env password_hash password of None \<Rightarrow> False | Some b \<Rightarrow> b)"

definition password_needs_rehash :: "auth_env \<Rightarrow> string \<Rightarrow> bool" where
  "password_needs_rehash env password_hash =
     (case ph_needs_rehash env password_hash of None \<Rightarrow> True | Some b \<Rightarrow> b)"

definition hash_refresh_token :: "auth_env \<Rightarrow> string \<Rightarrow> string" where
  "hash_refresh_token env token = sha256 env (utf8 token)"

definition generate_refresh_token :: "auth_env \<Rightarrow> string session" where
  "generate_refresh_token env = draw_secret (env_secret env)"

definition create_access_token :: "auth_env \<Rightarrow> uuid \<Rightarrow> string \<Rightarrow> (string \<times> timestamp) session" where
  "create_access_token env uid role =
     bindp (utcnow (env_clock env)) (\<lambda>now.
     bindp uuid4 (\<lambda>jti.
       let expires_at = now + seconds (access_token_ttl_seconds env);
           payload = \<lparr>pay_sub = uuid_str uid, pay_role = role, pay_type = ''access'',
                      pay_iat = now, pay_exp = expires_at, pay_jti = uuid_str jti\<rparr>
       in ret (jwt_encode env payload (secret_key env) (access_token_algorithm env), expires_at)))"

section \<open>The service\<close>

record auth_result =
  res_user :: user
  res_access_token :: string
  res_access_expires_at :: timestamp
  res_refresh_token :: string

definition generic_login_error :: string where
  "generic_login_error = ''Invalid email or password''"

definition normalize_email :: "string \<Rightarrow> string" where
  "normalize_email email = casefold (strip email)"

definition audit ::
    "auth_env \<Rightarrow> string \<Rightarrow> string \<Rightarrow> string \<Rightarrow> string \<Rightarrow> uuid option \<Rightarrow> json_object \<Rightarrow> unit session" where
  "audit env action result correlation_id ip actor details =
     bindp uuid4 (\<lambda>i. insert_audit_log
       \<lparr>audit_id = i, audit_actor_user_id = actor, audit_action = action,
        audit_resource_type = ''authentication'', audit_resource_id = actor,
        audit_result = result, audit_correlation_id = take 128 correlation_id,
        audit_ip_hash = Some (hash_metadata (sha256 env) ip (secret_key env)), audit_details = details\<rparr>)"

definition new_session :: "auth_env \<Rightarrow> user \<Rightarrow> string \<Rightarrow> auth_result session" where
  "new_session env u user_agent =
     bindp (generate_refresh_token env) (\<lambda>raw_refresh.
     bindp (utcnow (env_clock env)) (\<lambda>now.
     bindp uuid4 (\<lambda>family_id.
     bindp uuid4 (\<lambda>tid.
     thenp (insert_refresh_token
       \<lparr>tok_id = tid, tok_user_id = user_id u,
        tok_token_hash = hash_refresh_token env raw_refresh, tok_family_id = family_id,
        tok_expires_at = now + seconds (refresh_token_ttl_seconds env),
        tok_revoked_at = None, tok_replaced_by_id = None,
        tok_user_agent_hash = Some (hash_metadata (sha256 env) user_agent (secret_key env))\<rparr>)
     (bindp (create_access_token env (user_id u) (user_role u)) (\<lambda>(access, expires).
       ret \<lparr>res_user = u, res_access_token = access, res_access_expires_at = expires,
            res_refresh_token = raw_refresh\<rparr>))))))"

definition register ::
    "auth_env \<Rightarrow> string \<Rightarrow> string \<Rightarrow> string \<Rightarrow> string \<Rightarrow> string \<Rightarrow> string \<Rightarrow> auth_result session" where
  "register env email password display_name correlation_id ip user_agent =
     (let normalized = normalize_email email in
      bindp (user_by_email normalized) (\<lambda>found.
      case found of
        Some _ \<Rightarrow> raise (AppErr (Conflict ''An account with this email already exists''))
      | None \<Rightarrow>
          bindp (hash_password env password) (\<lambda>h.
          bindp uuid4 (\<lambda>uid.
          let u = \<lparr>user_id = uid, user_email = normalized, user_password_hash = h,
                   user_display_name = display_name, user_role = ''user'',
                   user_is_active = True, user_email_verified = False,
                   user_failed_login_count = 0, user_last_failed_login_at = None,
                   user_last_login_at = None\<rparr>
          in thenp (insert_user u)
            (thenp (audit env ''auth.register'' ''success'' correlation_id ip (Some uid) [])
            (new_session env u user_agent))))))"

text \<open>
  The state left by \<^verbatim>\<open>verify_password(DUMMY_PASSWORD_HASH, password)\<close>, whose result the
  code drops, is the state before it.
\<close>

definition login ::
    "auth_env \<Rightarrow> string \<Rightarrow> string \<Rightarrow> string \<Rightarrow> string \<Rightarrow> string \<Rightarrow> auth_result session" where
  "login env email password correlation_id ip user_agent =
     bindp (user_by_email (normalize_email email)) (\<lambda>found.
     case found of
       None \<Rightarrow>
         thenp (audit env ''auth.login'' ''failure'' correlation_id ip None [])
         (raise (AppErr (Unauthorized generic_login_error)))
     | Some u \<Rightarrow>
         if \<not> verify_password env (user_password_hash u) password then
           bindp (utcnow (env_clock env)) (\<lambda>now.
           thenp (set_user (user_id u) (\<lambda>v. v\<lparr>user_failed_login_count := user_failed_login_count u + 1,
                                            user_last_failed_login_at := Some now\<rparr>))
           (thenp (audit env ''auth.login'' ''failure'' correlation_id ip (Some (user_id u)) [])
           (raise (AppErr (Unauthorized generic_login_error)))))
         else if \<not> user_is_active u then
           thenp (audit env ''auth.login'' ''failure'' correlation_id ip (Some (user_id u)) [])
           (raise (AppErr (Unauthorized generic_login_error)))
         else
           bindp (if password_needs_rehash env (user_password_hash u)
                  then hash_password env password else ret (user_password_hash u)) (\<lambda>h.
           bindp (utcnow (env_clock env)) (\<lambda>now.
           let change = (\<lambda>v. v\<lparr>user_password_hash := h, user_failed_login_count := 0,
                               user_last_login_at := Some now\<rparr>)
           in thenp (set_user (user_id u) change)
             (thenp (audit env ''auth.login'' ''success'' correlation_id ip (Some (user_id u)) [])
             (new_session env (change u) user_agent)))))"

text \<open>The last part of \<^verbatim>\<open>rotate\<close>: the presented token is exchanged for a new one.\<close>

definition exchange_token ::
    "auth_env \<Rightarrow> timestamp \<Rightarrow> refresh_token \<Rightarrow> user \<Rightarrow> string \<Rightarrow> string \<Rightarrow> string \<Rightarrow> auth_result session" where
  "exchange_token env now current u correlation_id ip user_agent =
     bindp (generate_refresh_token env) (\<lambda>raw_refresh.
     bindp uuid4 (\<lambda>rid.
     thenp (insert_refresh_token
       \<lparr>tok_id = rid, tok_user_id = user_id u,
        tok_token_hash = hash_refresh_token env raw_refresh,
        tok_family_id = tok_family_id current,
        tok_expires_at = now + seconds (refresh_token_ttl_seconds env),
        tok_revoked_at = None, tok_replaced_by_id = None,
        tok_user_agent_hash = Some (hash_metadata (sha256 env) user_agent (secret_key env))\<rparr>)
     (thenp (set_token (tok_id current)
               (\<lambda>t. t\<lparr>tok_revoked_at := Some now, tok_replaced_by_id := Some rid\<rparr>))
     (bindp (create_access_token env (user_id u) (user_role u)) (\<lambda>(access, expires).
     thenp (audit env ''auth.refresh'' ''success'' correlation_id ip (Some (user_id u)) [])
       (ret \<lparr>res_user = u, res_access_token = access, res_access_expires_at = expires,
             res_refresh_token = raw_refresh\<rparr>))))))"

definition invalid_session :: exn where
  "invalid_session = AppErr (Unauthorized ''Invalid session'')"

definition rotate_token :: "auth_env \<Rightarrow> string \<Rightarrow> string \<Rightarrow> string \<Rightarrow> string \<Rightarrow> auth_result session" where
  "rotate_token env raw_token correlation_id ip user_agent =
     bindp (utcnow (env_clock env)) (\<lambda>now.
     bindp (token_by_hash_for_update (hash_refresh_token env raw_token)) (\<lambda>found.
     case found of
       None \<Rightarrow>
         thenp (audit env ''auth.refresh'' ''failure'' correlation_id ip None [])
         (raise invalid_session)
     | Some current \<Rightarrow>
         if tok_revoked_at current \<noteq> None then
           thenp (revoke_family (tok_family_id current) now)
           (thenp (audit env ''auth.refresh_reuse'' ''blocked'' correlation_id ip
                     (Some (tok_user_id current)) [(''family_revoked'', JBool True)])
           (raise invalid_session))
         else if tok_expires_at current \<le> now then
           thenp (set_token (tok_id current) (\<lambda>t. t\<lparr>tok_revoked_at := Some now\<rparr>))
           (thenp (audit env ''auth.refresh'' ''failure'' correlation_id ip
                     (Some (tok_user_id current)) [])
           (raise invalid_session))
         else
           bindp (user_by_id (tok_user_id current)) (\<lambda>found_user.
           case found_user of
             None \<Rightarrow> thenp (revoke_family (tok_family_id current) now) (raise invalid_session)
           | Some u \<Rightarrow>
               if \<not> user_is_active u then
                 thenp (revoke_family (tok_family_id current) now) (raise invalid_session)
               else exchange_token env now current u correlation_id ip user_agent)))"

definition logout :: "auth_env \<Rightarrow> string \<Rightarrow> string \<Rightarrow> string \<Rightarrow> unit session" where
  "logout env raw_token correlation_id ip =
     bindp (token_by_hash_for_update (hash_refresh_token env raw_token)) (\<lambda>found.
     case found of
       Some current \<Rightarrow>
         if tok_revoked_at current = None then
           bindp (utcnow (env_clock env)) (\<lambda>now.
           thenp (set_token (tok_id current) (\<lambda>t. t\<lparr>tok_revoked_at := Some now\<rparr>))
           (audit env ''auth.logout'' ''success'' correlation_id ip (Some (tok_user_id current)) []))
         else audit env ''auth.logout'' ''success'' correlation_id ip None []
     | None \<Rightarrow> audit env ''auth.logout'' ''success'' correlation_id ip None [])"

definition logout_all :: "auth_env \<Rightarrow> uuid \<Rightarrow> string \<Rightarrow> string \<Rightarrow> unit session" where
  "logout_all env uid correlation_id ip =
     bindp (utcnow (env_clock env)) (\<lambda>now.
     thenp (revoke_all uid now)
     (audit env ''auth.logout_all'' ''success'' correlation_id ip (Some uid) []))"

section \<open>Transactions\<close>

text \<open>
  A refused login or refresh is committed with its audit row and the revocations it made;
  any other exception rolls back.
\<close>

definition commit_auth_operation :: "'a session \<Rightarrow> 'a session" where
  "commit_auth_operation operation =
     (\<lambda>s. case operation s of
            (Inr x, t) \<Rightarrow> (Inr x, t)
          | (Inl e, t) \<Rightarrow> (Inl e, if is_app_error e then t else rollback s t))"

section \<open>The invariant of accounts and sessions\<close>

definition family_ids :: "refresh_token list \<Rightarrow> uuid \<Rightarrow> uuid list" where
  "family_ids ts fam = map tok_id (filter (\<lambda>t. tok_family_id t = fam) ts)"

definition link_ok :: "refresh_token list \<Rightarrow> refresh_token \<Rightarrow> bool" where
  "link_ok ts t = (case tok_replaced_by_id t of None \<Rightarrow> True
     | Some j \<Rightarrow> tok_revoked_at t \<noteq> None \<and> j \<in> set (family_ids ts (tok_family_id t)))"

definition one_active :: "refresh_token list \<Rightarrow> bool" where
  "one_active ts = (\<forall>t \<in> set ts. \<forall>q \<in> set ts. tok_family_id t = tok_family_id q \<longrightarrow>
     tok_user_id t = tok_user_id q
     \<and> (tok_revoked_at t = None \<longrightarrow> tok_revoked_at q = None \<longrightarrow> tok_id t = tok_id q))"

definition tokens_ok :: "nat \<Rightarrow> uuid set \<Rightarrow> refresh_token list \<Rightarrow> bool" where
  "tokens_ok n us ts \<longleftrightarrow>
     distinct (map tok_id ts) \<and> distinct (map tok_token_hash ts)
     \<and> (\<forall>t \<in> set ts. tok_id t < n \<and> tok_family_id t < n \<and> tok_user_id t \<in> us \<and> link_ok ts t)
     \<and> one_active ts"

definition users_ok :: "nat \<Rightarrow> user list \<Rightarrow> bool" where
  "users_ok n us \<longleftrightarrow> distinct (map user_id us) \<and> distinct (map user_email us)
     \<and> (\<forall>u \<in> set us. user_id u < n)"

definition sessions_ok :: "db \<Rightarrow> bool" where
  "sessions_ok s \<longleftrightarrow>
     users_ok (next_uuid s) (users s)
     \<and> tokens_ok (next_uuid s) (user_id ` set (users s)) (refresh_tokens s)
     \<and> (\<forall>a \<in> set (audit_logs s). audit_id a < next_uuid s)"

lemma tokens_ok_mono: "tokens_ok n us ts \<Longrightarrow> n \<le> m \<Longrightarrow> us \<subseteq> vs \<Longrightarrow> tokens_ok m vs ts"
  unfolding tokens_ok_def by (meson order_less_le_trans subsetD)

lemma users_ok_mono: "users_ok n us \<Longrightarrow> n \<le> m \<Longrightarrow> users_ok m us"
  unfolding users_ok_def by (meson order_less_le_trans)

lemma users_ok_update:
  assumes "users_ok n us" "\<And>u. user_id (f u) = user_id u" "\<And>u. user_email (f u) = user_email u"
  shows "users_ok n (update_where P f us)"
  using assms by (auto simp: users_ok_def map_update_where in_update_where)

text \<open>Revocation: an update that can only set \<open>revoked_at\<close>.\<close>

definition revokes :: "(refresh_token \<Rightarrow> refresh_token) \<Rightarrow> bool" where
  "revokes f \<longleftrightarrow> (\<forall>t. tok_id (f t) = tok_id t \<and> tok_token_hash (f t) = tok_token_hash t
     \<and> tok_family_id (f t) = tok_family_id t \<and> tok_user_id (f t) = tok_user_id t
     \<and> tok_replaced_by_id (f t) = tok_replaced_by_id t \<and> tok_revoked_at (f t) \<noteq> None)"

lemma revokes_stamp [simp]: "revokes (\<lambda>t. t\<lparr>tok_revoked_at := Some now\<rparr>)"
  by (simp add: revokes_def)

lemma family_ids_update:
  "(\<And>t. tok_id (f t) = tok_id t) \<Longrightarrow> (\<And>t. tok_family_id (f t) = tok_family_id t) \<Longrightarrow>
   family_ids (update_where P f ts) fam = family_ids ts fam"
  by (induction ts) (auto simp: family_ids_def)

lemma family_ids_append: "family_ids (ts @ us) fam = family_ids ts fam @ family_ids us fam"
  by (simp add: family_ids_def)

lemma in_family_ids: "i \<in> set (family_ids ts fam) \<longleftrightarrow> (\<exists>t \<in> set ts. tok_id t = i \<and> tok_family_id t = fam)"
  by (auto simp: family_ids_def)

lemma one_activeD:
  "one_active ts \<Longrightarrow> t \<in> set ts \<Longrightarrow> q \<in> set ts \<Longrightarrow> tok_family_id t = tok_family_id q \<Longrightarrow>
   tok_user_id t = tok_user_id q
   \<and> (tok_revoked_at t = None \<longrightarrow> tok_revoked_at q = None \<longrightarrow> tok_id t = tok_id q)"
  unfolding one_active_def by blast

lemma one_active_revoke:
  assumes one: "one_active ts" and f: "revokes f"
  shows "one_active (update_where P f ts)"
  unfolding one_active_def
proof (intro ballI impI)
  fix t q assume t: "t \<in> set (update_where P f ts)" and q: "q \<in> set (update_where P f ts)"
    and same: "tok_family_id t = tok_family_id q"
  have pre: "\<exists>y \<in> set ts. x = y \<or> x = f y" if "x \<in> set (update_where P f ts)" for x
    using that unfolding in_update_where by (elim bexE) (auto split: if_splits)
  obtain t' where t': "t' \<in> set ts" "t = t' \<or> t = f t'" using pre [OF t] by (elim bexE)
  obtain q' where q': "q' \<in> set ts" "q = q' \<or> q = f q'" using pre [OF q] by (elim bexE)
  note F = f [unfolded revokes_def, rule_format]
  show "tok_user_id t = tok_user_id q \<and>
      (tok_revoked_at t = None \<longrightarrow> tok_revoked_at q = None \<longrightarrow> tok_id t = tok_id q)"
    using one_activeD [OF one t'(1) q'(1)] same t'(2) q'(2) F [of t'] F [of q']
    by (elim disjE) auto
qed

lemma one_active_new_family:
  assumes "one_active ts" and "tok_family_id q \<notin> tok_family_id ` set ts"
  shows "one_active (ts @ [q])"
  unfolding one_active_def
proof (intro ballI impI)
  fix x y assume "x \<in> set (ts @ [q])" "y \<in> set (ts @ [q])" "tok_family_id x = tok_family_id y"
  moreover have "tok_family_id z \<noteq> tok_family_id q" if "z \<in> set ts" for z
    using that assms(2) by (metis imageI)
  ultimately show "tok_user_id x = tok_user_id y \<and>
      (tok_revoked_at x = None \<longrightarrow> tok_revoked_at y = None \<longrightarrow> tok_id x = tok_id y)"
    using one_activeD [OF assms(1), of x y] unfolding set_append by (elim UnE) auto
qed

lemma tokens_ok_revoke:
  assumes ok: "tokens_ok n us ts" and f: "revokes f"
  shows "tokens_ok n us (update_where P f ts)"
proof -
  note [simp] = f [unfolded revokes_def, rule_format]
  have link: "link_ok (update_where P f ts) t" if t: "t \<in> set (update_where P f ts)" for t
  proof -
    obtain q where q: "q \<in> set ts" "t = (if P q then f q else q)"
      using t by (auto simp: in_update_where)
    have "link_ok ts q" using ok q(1) by (auto simp: tokens_ok_def)
    then show ?thesis using q(2)
      by (auto simp: link_ok_def family_ids_update split: option.splits if_splits)
  qed
  have one: "one_active (update_where P f ts)"
    using ok f by (simp add: tokens_ok_def one_active_revoke)
  have ids: "distinct (map tok_id (update_where P f ts))" "distinct (map tok_token_hash (update_where P f ts))"
    using ok by (simp_all add: tokens_ok_def map_update_where)
  have bounds: "tok_id t < n \<and> tok_family_id t < n \<and> tok_user_id t \<in> us"
    if "t \<in> set (update_where P f ts)" for t
    using that ok by (auto simp: tokens_ok_def in_update_where)
  show ?thesis unfolding tokens_ok_def using ids bounds link one by blast
qed

lemma link_ok_snoc: "link_ok ts t \<Longrightarrow> link_ok (ts @ [q]) t"
  by (auto simp: link_ok_def family_ids_append split: option.splits)

text \<open>A login opens a family of its own.\<close>

lemma tokens_ok_new_family:
  assumes ok: "tokens_ok n us ts"
    and new: "n \<le> tok_id q" "tok_id q < m" "n \<le> tok_family_id q" "tok_family_id q < m"
      "tok_token_hash q \<notin> tok_token_hash ` set ts" "tok_user_id q \<in> us" "tok_replaced_by_id q = None"
  shows "tokens_ok m us (ts @ [q])"
proof -
  have nm: "n \<le> m" using new by linarith
  have less: "tok_id t < n \<and> tok_family_id t < n \<and> tok_user_id t \<in> us \<and> link_ok ts t" if "t \<in> set ts" for t
    using ok that by (simp add: tokens_ok_def)
  then have fresh: "tok_id q \<notin> tok_id ` set ts" "tok_family_id q \<notin> tok_family_id ` set ts"
    using new by fastforce+
  have "distinct (map tok_id (ts @ [q]))" "distinct (map tok_token_hash (ts @ [q]))"
    using ok new(5) fresh(1) by (simp_all add: tokens_ok_def)
  moreover have "one_active (ts @ [q])"
    using ok fresh(2) by (simp add: tokens_ok_def one_active_new_family)
  moreover have "link_ok (ts @ [q]) q" using new(7) by (simp add: link_ok_def)
  then have "tok_id t < m \<and> tok_family_id t < m \<and> tok_user_id t \<in> us \<and> link_ok (ts @ [q]) t"
    if "t \<in> set (ts @ [q])" for t
    using that new nm less [of t] link_ok_snoc [of ts t q] by auto
  ultimately show ?thesis unfolding tokens_ok_def by blast
qed

text \<open>A rotation moves the family's one usable token to a new row.\<close>

lemma tokens_ok_exchange:
  assumes ok: "tokens_ok n us ts"
    and cur: "c \<in> set ts" "tok_revoked_at c = None"
    and new: "n \<le> tok_id q" "tok_id q < m" "tok_family_id q = tok_family_id c"
      "tok_token_hash q \<notin> tok_token_hash ` set ts" "tok_user_id q = tok_user_id c"
      "tok_replaced_by_id q = None"
  shows "tokens_ok m us (update_where (\<lambda>t. tok_id t = tok_id c)
           (\<lambda>t. t\<lparr>tok_revoked_at := Some now, tok_replaced_by_id := Some (tok_id q)\<rparr>) (ts @ [q]))"
    (is "tokens_ok m us ?ts")
proof -
  let ?f = "\<lambda>t. t\<lparr>tok_revoked_at := Some now, tok_replaced_by_id := Some (tok_id q)\<rparr>"
  have less: "tok_id t < n \<and> tok_family_id t < n \<and> tok_user_id t \<in> us \<and> link_ok ts t" if "t \<in> set ts" for t
    using ok that by (auto simp: tokens_ok_def)
  then have nm: "n \<le> m" and qc: "tok_id q \<noteq> tok_id c" using new cur by (auto dest!: less)
  have c_only: "t = c" if "t \<in> set ts" "tok_id t = tok_id c" for t
    using that cur ok by (auto simp: tokens_ok_def dest: distinct_map_eqD)
  have in_ts: "t = q \<or> t = ?f c \<or> (t \<in> set ts \<and> tok_id t \<noteq> tok_id c)" if "t \<in> set ?ts" for t
    using that c_only qc unfolding in_update_where set_append by (elim bexE UnE) auto
  have d: "distinct (map tok_id ?ts)" "distinct (map tok_token_hash ?ts)"
  proof -
    have "tok_id q \<notin> tok_id ` set ts" using less new by fastforce
    then show "distinct (map tok_id ?ts)" "distinct (map tok_token_hash ?ts)"
      using ok new(4) by (simp_all add: map_update_where tokens_ok_def del: update_where_append)
  qed
  have fam: "family_ids ?ts g = family_ids (ts @ [q]) g" for g
    by (rule family_ids_update) simp_all
  have link: "link_ok ?ts t" if t: "t \<in> set ?ts" for t
    using in_ts [OF t]
  proof (elim disjE conjE)
    assume "t = q" then show ?thesis using new(6) by (simp add: link_ok_def)
  next
    assume "t = ?f c" then show ?thesis
      using new(3) unfolding link_ok_def fam by (simp add: in_family_ids)
  next
    assume "t \<in> set ts"
    then have "link_ok (ts @ [q]) t" using less link_ok_snoc by blast
    then show ?thesis unfolding link_ok_def fam .
  qed
  have one: "one_active ?ts"
    unfolding one_active_def
  proof (intro ballI impI)
    fix t r assume tr: "t \<in> set ?ts" "r \<in> set ?ts" and same: "tok_family_id t = tok_family_id r"
    have old: "tok_user_id x = tok_user_id c \<and> tok_revoked_at x \<noteq> None"
      if "x \<in> set ts" "tok_id x \<noteq> tok_id c" "tok_family_id x = tok_family_id c" for x
      using that ok cur unfolding tokens_ok_def one_active_def by metis
    have both: "tok_user_id x = tok_user_id y \<and>
        (tok_revoked_at x = None \<longrightarrow> tok_revoked_at y = None \<longrightarrow> tok_id x = tok_id y)"
      if "x \<in> set ts" "y \<in> set ts" "tok_family_id x = tok_family_id y" for x y
      using that ok unfolding tokens_ok_def one_active_def by blast
    show "tok_user_id t = tok_user_id r \<and>
        (tok_revoked_at t = None \<longrightarrow> tok_revoked_at r = None \<longrightarrow> tok_id t = tok_id r)"
      using in_ts [OF tr(1)] in_ts [OF tr(2)] same new(3,5) old [of t] old [of r] both [of t r]
      by (elim disjE) auto
  qed
  have "tok_id t < m \<and> tok_family_id t < m \<and> tok_user_id t \<in> us" if "t \<in> set ?ts" for t
    using in_ts [OF that] less [OF cur(1)] less [of t] new nm by (elim disjE) auto
  with d link one show ?thesis unfolding tokens_ok_def by blast
qed

section \<open>Every operation keeps the invariant\<close>

text \<open>
  \<open>evolves ts us\<close>: every token of the table \<open>ts\<close> is still in \<open>us\<close>, under the same keys, and
  what was revoked has kept its revocation. \<open>kept ts s\<close> adds the invariant; an operation that
  preserves \<open>kept ts\<close> for every \<open>ts\<close> preserves the invariant and never revives a token.
\<close>

definition evolves :: "refresh_token list \<Rightarrow> refresh_token list \<Rightarrow> bool" where
  "evolves ts us \<longleftrightarrow> (\<forall>r \<in> set ts. \<exists>q \<in> set us. tok_id q = tok_id r
     \<and> tok_token_hash q = tok_token_hash r \<and> tok_family_id q = tok_family_id r
     \<and> tok_user_id q = tok_user_id r
     \<and> (tok_revoked_at r \<noteq> None \<longrightarrow> tok_revoked_at q = tok_revoked_at r))"

definition kept :: "refresh_token list \<Rightarrow> db \<Rightarrow> bool" where
  "kept ts s \<longleftrightarrow> sessions_ok s \<and> evolves ts (refresh_tokens s)"

lemma evolves_refl: "evolves ts ts"
  unfolding evolves_def by blast

lemma evolves_trans: "evolves ts us \<Longrightarrow> evolves us vs \<Longrightarrow> evolves ts vs"
  unfolding evolves_def by (metis (no_types, lifting))

lemma evolves_append: "evolves ts us \<Longrightarrow> evolves ts (us @ vs)"
  unfolding evolves_def set_append by blast

lemma evolves_update:
  assumes "\<And>t. t \<in> set ts \<Longrightarrow> P t \<Longrightarrow> tok_revoked_at t = None"
    and f: "\<And>t. tok_id (f t) = tok_id t \<and> tok_token_hash (f t) = tok_token_hash t
      \<and> tok_family_id (f t) = tok_family_id t \<and> tok_user_id (f t) = tok_user_id t"
  shows "evolves ts (update_where P f ts)"
  unfolding evolves_def
proof
  fix r assume r: "r \<in> set ts"
  let ?q = "if P r then f r else r"
  have "?q \<in> set (update_where P f ts)" using r by (auto simp: in_update_where)
  moreover have "tok_id ?q = tok_id r \<and> tok_token_hash ?q = tok_token_hash r \<and> tok_family_id ?q = tok_family_id r
     \<and> tok_user_id ?q = tok_user_id r \<and> (tok_revoked_at r \<noteq> None \<longrightarrow> tok_revoked_at ?q = tok_revoked_at r)"
    using f [of r] assms(1) [OF r] by auto
  ultimately show "\<exists>q \<in> set (update_where P f ts). tok_id q = tok_id r
     \<and> tok_token_hash q = tok_token_hash r \<and> tok_family_id q = tok_family_id r
     \<and> tok_user_id q = tok_user_id r
     \<and> (tok_revoked_at r \<noteq> None \<longrightarrow> tok_revoked_at q = tok_revoked_at r)"
    by blast
qed

lemma kept_self: "sessions_ok s \<Longrightarrow> kept (refresh_tokens s) s"
  by (simp add: kept_def evolves_refl)

text \<open>Steps that touch neither accounts nor tokens, up to audit rows and counters.\<close>

definition auth_same :: "db \<Rightarrow> db \<Rightarrow> bool" where
  "auth_same s t \<longleftrightarrow> users t = users s \<and> refresh_tokens t = refresh_tokens s
     \<and> next_uuid s \<le> next_uuid t
     \<and> (\<forall>a \<in> set (audit_logs t). a \<in> set (audit_logs s) \<or> audit_id a < next_uuid t)"

definition auth_closed :: "(db \<Rightarrow> bool) \<Rightarrow> bool" where
  "auth_closed I \<longleftrightarrow> (\<forall>s t. I s \<longrightarrow> auth_same s t \<longrightarrow> I t)"

definition acct :: "refresh_token list \<Rightarrow> uuid \<Rightarrow> db \<Rightarrow> bool" where
  "acct ts uid s \<longleftrightarrow> kept ts s \<and> uid \<in> user_id ` set (users s)"

lemma sessions_ok_same: "sessions_ok s \<Longrightarrow> auth_same s t \<Longrightarrow> sessions_ok t"
  unfolding sessions_ok_def auth_same_def
  by (metis order_less_le_trans order_refl tokens_ok_mono users_ok_mono)

lemma auth_closed_kept [simp]: "auth_closed (kept ts)"
  unfolding auth_closed_def kept_def by (metis auth_same_def sessions_ok_same)

lemma auth_closed_acct [simp]: "auth_closed (acct ts uid)"
  unfolding auth_closed_def acct_def kept_def by (metis auth_same_def sessions_ok_same)

lemma kept_same: "kept ts s \<Longrightarrow> auth_same s t \<Longrightarrow> kept ts t"
  using auth_closed_kept unfolding auth_closed_def by blast

lemma preserves_same:
  "auth_closed I \<Longrightarrow> (\<And>s. auth_same s (snd (m s))) \<Longrightarrow> preserves I m"
  unfolding auth_closed_def preserves_def by blast

lemma audit_state:
  "audit env action result cid ip actor details s =
     (let row = \<lparr>audit_id = next_uuid s, audit_actor_user_id = actor, audit_action = action,
                 audit_resource_type = ''authentication'', audit_resource_id = actor,
                 audit_result = result, audit_correlation_id = take 128 cid,
                 audit_ip_hash = Some (hash_metadata (sha256 env) ip (secret_key env)), audit_details = details\<rparr>;
          s1 = s\<lparr>next_uuid := Suc (next_uuid s)\<rparr>
      in if next_uuid s \<notin> audit_id ` set (audit_logs s) \<and> opt_ref (exists_user s) actor
         then (Inr (), s1\<lparr>audit_logs := audit_logs s @ [row]\<rparr>)
         else (Inl (IntegrityError ''audit_logs''), s1))"
  by (simp add: audit_def insert_audit_log_def add_row_app bindp_def Let_def opt_ref_def
      exists_user_def cong: option.case_cong)

lemma audit_same: "auth_same s (snd (audit env action result cid ip actor details s))"
  by (auto simp: audit_state auth_same_def Let_def)

lemma create_access_token_same: "auth_same s (snd (create_access_token env uid role s))"
  by (simp add: create_access_token_def bindp_def auth_same_def Let_def)

lemma preserves_auth_closed [pres]:
  assumes "auth_closed I"
  shows "preserves I (audit env action result cid ip actor details)"
    and "preserves I (create_access_token env uid role)"
    and "preserves I (hash_password env password)"
    and "preserves I (generate_refresh_token env)"
    and "preserves I (utcnow clock)"
    and "preserves I uuid4"
  by (rule preserves_same [OF assms], rule audit_same)
    (rule preserves_same [OF assms], rule create_access_token_same,
     (rule preserves_same [OF assms],
      simp add: auth_same_def hash_password_def generate_refresh_token_def bindp_def)+)

lemma sessions_ok_revoke:
  "sessions_ok s \<Longrightarrow> revokes f \<Longrightarrow>
   sessions_ok (s\<lparr>refresh_tokens := update_where P f (refresh_tokens s)\<rparr>)"
  by (simp add: sessions_ok_def tokens_ok_revoke)

lemma kept_revoke:
  assumes k: "kept ts s" and P: "\<And>t. t \<in> set (refresh_tokens s) \<Longrightarrow> P t \<Longrightarrow> tok_revoked_at t = None"
  shows "kept ts (s\<lparr>refresh_tokens := update_where P (\<lambda>t. t\<lparr>tok_revoked_at := Some now\<rparr>) (refresh_tokens s)\<rparr>)"
proof -
  have "evolves (refresh_tokens s) (update_where P (\<lambda>t. t\<lparr>tok_revoked_at := Some now\<rparr>) (refresh_tokens s))"
    using P by (rule evolves_update) simp_all
  then show ?thesis using k by (auto simp: kept_def sessions_ok_revoke intro: evolves_trans)
qed

lemma preserves_revoke [pres]:
  "preserves (kept ts) (revoke_family fam now)"
  "preserves (kept ts) (revoke_all uid now)"
  by (auto intro!: preserves_modify kept_revoke simp: revoke_family_def revoke_all_def revoke_where_def)

lemma sessions_ok_row:
  "sessions_ok s \<Longrightarrow> c \<in> set (refresh_tokens s) \<Longrightarrow> t \<in> set (refresh_tokens s) \<Longrightarrow>
   tok_id t = tok_id c \<Longrightarrow> t = c"
  by (auto simp: sessions_ok_def tokens_ok_def dest: distinct_map_eqD)

lemma kept_set_token:
  assumes k: "kept ts s" and c: "c \<in> set (refresh_tokens s)" "tok_revoked_at c = None"
  shows "kept ts (snd (set_token (tok_id c) (\<lambda>t. t\<lparr>tok_revoked_at := Some now\<rparr>) s))"
proof -
  have "t = c" if "t \<in> set (refresh_tokens s)" "tok_id t = tok_id c" for t
    using sessions_ok_row [OF _ c(1) that] k by (simp add: kept_def)
  then show ?thesis using c(2) by (auto simp: set_token_def intro!: kept_revoke [OF k])
qed

lemma acct_set_user:
  assumes "acct ts uid s" "\<And>u. user_id (f u) = user_id u" "\<And>u. user_email (f u) = user_email u"
  shows "acct ts uid (s\<lparr>users := update_where P f (users s)\<rparr>)"
proof -
  have "map user_id (update_where P f (users s)) = map user_id (users s)"
    by (rule map_update_where) (rule assms(2))
  then have "user_id ` set (update_where P f (users s)) = user_id ` set (users s)"
    by (metis set_map)
  with assms show ?thesis
    by (simp add: acct_def kept_def sessions_ok_def users_ok_update)
qed

lemma preserves_set_user [pres]:
  "(\<And>u. user_id (f u) = user_id u) \<Longrightarrow> (\<And>u. user_email (f u) = user_email u) \<Longrightarrow>
   preserves (acct ts uid) (set_user i f)"
  by (auto intro!: preserves_modify acct_set_user simp: set_user_def)

text \<open>What a new session leaves behind.\<close>

lemma new_session_acct: "acct ts (user_id u) s \<Longrightarrow> acct ts (user_id u) (snd (new_session env u ua s))"
proof -
  assume a: "acct ts (user_id u) s"
  let ?t = "\<lparr>tok_id = Suc (next_uuid s), tok_user_id = user_id u,
        tok_token_hash = hash_refresh_token env (env_secret env (secrets_drawn s)),
        tok_family_id = next_uuid s,
        tok_expires_at = env_clock env (ticks s) + seconds (refresh_token_ttl_seconds env),
        tok_revoked_at = None, tok_replaced_by_id = None,
        tok_user_agent_hash = Some (hash_metadata (sha256 env) ua (secret_key env))\<rparr>"
  let ?s1 = "s\<lparr>secrets_drawn := Suc (secrets_drawn s), ticks := Suc (ticks s),
               next_uuid := Suc (Suc (next_uuid s))\<rparr>"
  have s1: "acct ts (user_id u) ?s1"
    using a auth_closed_acct [of ts "user_id u"] unfolding auth_closed_def
    by (auto simp: auth_same_def)
  have "new_session env u ua s =
     (thenp (insert_refresh_token ?t) (bindp (create_access_token env (user_id u) (user_role u))
        (\<lambda>(access, expires). ret \<lparr>res_user = u, res_access_token = access,
            res_access_expires_at = expires, res_refresh_token = env_secret env (secrets_drawn s)\<rparr>))) ?s1"
    by (simp add: new_session_def generate_refresh_token_def bindp_def)
  moreover have "acct ts (user_id u) (snd (insert_refresh_token ?t ?s1))"
  proof (cases "insert_refresh_token ?t ?s1")
    case (Pair r t)
    show ?thesis
    proof (cases r)
      case (Inl e)
      with Pair have "t = ?s1" by (auto simp: insert_refresh_token_def add_row_app split: if_splits)
      with Pair s1 show ?thesis by simp
    next
      case (Inr x)
      with Pair have t: "t = ?s1\<lparr>refresh_tokens := refresh_tokens s @ [?t]\<rparr>"
        and h: "tok_token_hash ?t \<notin> tok_token_hash ` set (refresh_tokens s)"
        by (auto simp: insert_refresh_token_def add_row_app split: if_splits)
      have "tokens_ok (Suc (Suc (next_uuid s))) (user_id ` set (users s)) (refresh_tokens s @ [?t])"
        using a h by (intro tokens_ok_new_family [of "next_uuid s"]) (simp_all add: acct_def kept_def sessions_ok_def)
      with a Pair t s1 show ?thesis by (simp add: acct_def kept_def sessions_ok_def evolves_append)
    qed
  qed
  moreover have "preserves (acct ts (user_id u)) (bindp (create_access_token env (user_id u) (user_role u))
        (\<lambda>(access, expires). ret \<lparr>res_user = u, res_access_token = access,
            res_access_expires_at = expires, res_refresh_token = env_secret env (secrets_drawn s)\<rparr>))"
    by (intro pres) simp_all
  ultimately show ?thesis
    unfolding preserves_def thenp_def bindp_def [of "insert_refresh_token _"]
    by (simp split: prod.splits sum.splits)
qed

definition exchange_row ::
    "auth_env \<Rightarrow> timestamp \<Rightarrow> refresh_token \<Rightarrow> user \<Rightarrow> string \<Rightarrow> db \<Rightarrow> refresh_token" where
  "exchange_row env now current u user_agent s =
     \<lparr>tok_id = next_uuid s, tok_user_id = user_id u,
      tok_token_hash = hash_refresh_token env (env_secret env (secrets_drawn s)),
      tok_family_id = tok_family_id current,
      tok_expires_at = now + seconds (refresh_token_ttl_seconds env),
      tok_revoked_at = None, tok_replaced_by_id = None,
      tok_user_agent_hash = Some (hash_metadata (sha256 env) user_agent (secret_key env))\<rparr>"

definition exchange_state ::
    "auth_env \<Rightarrow> timestamp \<Rightarrow> refresh_token \<Rightarrow> user \<Rightarrow> string \<Rightarrow> db \<Rightarrow> db" where
  "exchange_state env now current u user_agent s =
     s\<lparr>secrets_drawn := Suc (secrets_drawn s), next_uuid := Suc (next_uuid s),
       refresh_tokens := update_where (\<lambda>t. tok_id t = tok_id current)
         (\<lambda>t. t\<lparr>tok_revoked_at := Some now, tok_replaced_by_id := Some (next_uuid s)\<rparr>)
         (refresh_tokens s @ [exchange_row env now current u user_agent s])\<rparr>"

definition exchange_fresh :: "auth_env \<Rightarrow> user \<Rightarrow> db \<Rightarrow> bool" where
  "exchange_fresh env u s =
     (next_uuid s \<notin> tok_id ` set (refresh_tokens s)
      \<and> hash_refresh_token env (env_secret env (secrets_drawn s)) \<notin> tok_token_hash ` set (refresh_tokens s)
      \<and> user_id u \<in> user_id ` set (users s))"

lemma exchange_token_eq:
  "exchange_token env now c u cid ip ua s =
     (if exchange_fresh env u s
      then bindp (create_access_token env (user_id u) (user_role u)) (\<lambda>(access, expires).
             thenp (audit env ''auth.refresh'' ''success'' cid ip (Some (user_id u)) [])
               (ret \<lparr>res_user = u, res_access_token = access, res_access_expires_at = expires,
                     res_refresh_token = env_secret env (secrets_drawn s)\<rparr>))
             (exchange_state env now c u ua s)
      else (Inl (IntegrityError ''refresh_tokens''),
            s\<lparr>secrets_drawn := Suc (secrets_drawn s), next_uuid := Suc (next_uuid s)\<rparr>))"
  by (simp add: exchange_token_def generate_refresh_token_def insert_refresh_token_def add_row_app
      set_token_def exchange_fresh_def exchange_state_def exchange_row_def exists_user_def opt_ref_def
      bindp_def [of "draw_secret _"] bindp_def [of uuid4] thenp_def [of "add_row _ _ _"]
      thenp_def [of "modify _"] bindp_def [of "add_row _ _ _"] bindp_def [of "modify _"])

lemma exchange_state_ok:
  assumes ok: "sessions_ok s" and c: "c \<in> set (refresh_tokens s)" "tok_revoked_at c = None"
    and u: "user_id u = tok_user_id c" and fresh: "exchange_fresh env u s"
  shows "sessions_ok (exchange_state env now c u ua s)"
proof -
  have "tokens_ok (Suc (next_uuid s)) (user_id ` set (users s))
      (refresh_tokens (exchange_state env now c u ua s))"
    using tokens_ok_exchange [where q = "exchange_row env now c u ua s" and n = "next_uuid s"
        and m = "Suc (next_uuid s)" and c = c and ts = "refresh_tokens s"
        and us = "user_id ` set (users s)" and now = now] assms
    by (simp add: sessions_ok_def exchange_state_def exchange_row_def exchange_fresh_def)
  then show ?thesis using ok
    by (auto simp: sessions_ok_def exchange_state_def intro: users_ok_mono less_SucI)
qed

lemma kept_exchange:
  assumes k: "kept ts s" and c: "c \<in> set (refresh_tokens s)" "tok_revoked_at c = None"
    and u: "user_id u = tok_user_id c"
  shows "kept ts (snd (exchange_token env now c u cid ip ua s))"
proof (cases "exchange_fresh env u s")
  case True
  let ?rest = "bindp (create_access_token env (user_id u) (user_role u)) (\<lambda>(access, expires).
             thenp (audit env ''auth.refresh'' ''success'' cid ip (Some (user_id u)) [])
               (ret \<lparr>res_user = u, res_access_token = access, res_access_expires_at = expires,
                     res_refresh_token = env_secret env (secrets_drawn s)\<rparr>))"
  have ok: "sessions_ok s" using k by (simp add: kept_def)
  let ?f = "\<lambda>t. t\<lparr>tok_revoked_at := Some now, tok_replaced_by_id := Some (next_uuid s)\<rparr>"
  let ?q = "exchange_row env now c u ua s"
  have "tok_id ?q \<noteq> tok_id c"
    using ok c by (auto simp: exchange_row_def sessions_ok_def tokens_ok_def)
  then have "tok_revoked_at t = None" if "t \<in> set (refresh_tokens s @ [?q])" "tok_id t = tok_id c" for t
    using that sessions_ok_row [OF ok c(1)] c(2) by auto
  then have "evolves (refresh_tokens s @ [?q]) (update_where (\<lambda>t. tok_id t = tok_id c) ?f (refresh_tokens s @ [?q]))"
    by (rule evolves_update) simp_all
  then have "evolves ts (refresh_tokens (exchange_state env now c u ua s))"
    using k by (auto simp: kept_def exchange_state_def intro: evolves_trans evolves_append)
  then have "kept ts (exchange_state env now c u ua s)"
    using exchange_state_ok [OF ok c u True] by (simp add: kept_def)
  moreover have "preserves (kept ts) ?rest" by (intro pres) simp_all
  ultimately show ?thesis using True unfolding preserves_def exchange_token_eq by simp
next
  case False
  then show ?thesis using kept_same [OF k] by (simp add: exchange_token_eq auth_same_def)
qed

lemma found_by_hash:
  "token_by_hash_for_update h s = (Inr (Some c), t) \<Longrightarrow>
   t = s \<and> c \<in> set (refresh_tokens s) \<and> tok_token_hash c = h"
  by (auto simp: token_by_hash_for_update_def scalar_one_or_none_Some dest!: single_in)

lemma found_by_id: "user_by_id i s = (Inr (Some u), t) \<Longrightarrow> t = s \<and> u \<in> set (users s) \<and> user_id u = i"
  by (auto simp: user_by_id_def dest!: scalars_first_in)

lemma found_by_email:
  "user_by_email e s = (Inr (Some u), t) \<Longrightarrow> t = s \<and> u \<in> set (users s) \<and> user_email u = e"
  by (auto simp: user_by_email_def scalar_one_or_none_Some dest!: single_in)

lemma snd_bind_query:
  assumes "I s" "snd (m s) = s" "\<And>x. m s = (Inr x, s) \<Longrightarrow> I (snd (f x s))"
  shows "I (snd (bindp m f s))"
proof (cases "m s")
  case (Pair r t)
  then show ?thesis using assms by (cases r) simp_all
qed

lemma query_state [simp]:
  "snd (token_by_hash_for_update h s) = s"
  "snd (user_by_id i s) = s"
  "snd (user_by_email e s) = s"
  by (simp_all add: token_by_hash_for_update_def user_by_id_def user_by_email_def)

lemma preserves_user_by_id [pres]: "preserves I (user_by_id i)"
  by (simp add: preserves_def)

lemma preserves_token_by_hash [pres]: "preserves I (token_by_hash_for_update h)"
  by (simp add: preserves_def)

lemma preserves_user_by_email [pres]: "preserves I (user_by_email e)"
  by (simp add: preserves_def)

text \<open>The lookups under the invariant: nothing, or the one row with that hash, id or address.\<close>

lemma token_lookup_cases:
  assumes "sessions_ok s"
  obtains (none) "token_by_hash_for_update h s = (Inr None, s)" "h \<notin> tok_token_hash ` set (refresh_tokens s)"
    | (found) c where "c \<in> set (refresh_tokens s)" "tok_token_hash c = h"
        "token_by_hash_for_update h s = (Inr (Some c), s)"
proof -
  have "distinct (map tok_token_hash (refresh_tokens s))"
    using assms by (simp add: sessions_ok_def tokens_ok_def)
  then show ?thesis
  proof (cases rule: filter_unique_column_cases [where v = h])
    case 1
    then have "h \<notin> tok_token_hash ` set (refresh_tokens s)" by (auto simp: filter_empty_conv)
    with 1 show ?thesis using none by (simp add: token_by_hash_for_update_def)
  next
    case (2 r)
    then show ?thesis using found [of r] by (simp add: token_by_hash_for_update_def)
  qed
qed

lemma user_by_id_found:
  assumes "sessions_ok s" "u \<in> set (users s)"
  shows "user_by_id (user_id u) s = (Inr (Some u), s)"
  using assms filter_unique_column [of user_id "users s" u]
  by (simp add: user_by_id_def sessions_ok_def users_ok_def)

lemma user_by_email_found:
  assumes "sessions_ok s" "u \<in> set (users s)"
  shows "user_by_email (user_email u) s = (Inr (Some u), s)"
  using assms filter_unique_column [of user_email "users s" u]
  by (simp add: user_by_email_def sessions_ok_def users_ok_def)

lemma token_lookup_found:
  assumes "sessions_ok s" "c \<in> set (refresh_tokens s)"
  shows "token_by_hash_for_update (tok_token_hash c) s = (Inr (Some c), s)"
  using assms filter_unique_column [of tok_token_hash "refresh_tokens s" c]
  by (simp add: token_by_hash_for_update_def sessions_ok_def tokens_ok_def)

definition tick :: "db \<Rightarrow> db" where
  "tick s = s\<lparr>ticks := Suc (ticks s)\<rparr>"

lemma tick_simps [simp]:
  "refresh_tokens (tick s) = refresh_tokens s" "users (tick s) = users s"
  "audit_logs (tick s) = audit_logs s" "next_uuid (tick s) = next_uuid s"
  "secrets_drawn (tick s) = secrets_drawn s"
  by (simp_all add: tick_def)

lemma sessions_ok_tick [simp]: "sessions_ok (tick s) = sessions_ok s"
  by (simp add: sessions_ok_def)

lemma kept_tick [simp]: "kept ts (tick s) = kept ts s"
  by (simp add: kept_def)

section \<open>Rotation, branch by branch\<close>

lemma lookup_tick:
  "token_by_hash_for_update h s = (r, s) \<Longrightarrow> token_by_hash_for_update h (tick s) = (r, tick s)"
  by (simp add: token_by_hash_for_update_def)

lemma rotate_unknown:
  assumes "token_by_hash_for_update (hash_refresh_token env tok) s = (Inr None, s)"
  shows "rotate_token env tok cid ip ua s =
    thenp (audit env ''auth.refresh'' ''failure'' cid ip None []) (raise invalid_session) (tick s)"
  using lookup_tick [OF assms] by (simp add: rotate_token_def tick_def)

lemma rotate_reused:
  assumes "token_by_hash_for_update (hash_refresh_token env tok) s = (Inr (Some c), s)"
    and "tok_revoked_at c \<noteq> None"
  shows "rotate_token env tok cid ip ua s =
    thenp (revoke_family (tok_family_id c) (env_clock env (ticks s)))
      (thenp (audit env ''auth.refresh_reuse'' ''blocked'' cid ip
                (Some (tok_user_id c)) [(''family_revoked'', JBool True)])
        (raise invalid_session)) (tick s)"
  using lookup_tick [OF assms(1)] assms(2) by (simp add: rotate_token_def tick_def)

lemma rotate_expired:
  assumes "token_by_hash_for_update (hash_refresh_token env tok) s = (Inr (Some c), s)"
    and "tok_revoked_at c = None" "tok_expires_at c \<le> env_clock env (ticks s)"
  shows "rotate_token env tok cid ip ua s =
    thenp (set_token (tok_id c) (\<lambda>t. t\<lparr>tok_revoked_at := Some (env_clock env (ticks s))\<rparr>))
      (thenp (audit env ''auth.refresh'' ''failure'' cid ip (Some (tok_user_id c)) [])
        (raise invalid_session)) (tick s)"
  using lookup_tick [OF assms(1)] assms(2,3) by (simp add: rotate_token_def tick_def)

lemma rotate_live:
  assumes "token_by_hash_for_update (hash_refresh_token env tok) s = (Inr (Some c), s)"
    and "tok_revoked_at c = None" "env_clock env (ticks s) < tok_expires_at c"
    and "user_by_id (tok_user_id c) (tick s) = (Inr found, tick s)"
  shows "rotate_token env tok cid ip ua s =
    (case found of
       None \<Rightarrow> thenp (revoke_family (tok_family_id c) (env_clock env (ticks s))) (raise invalid_session)
     | Some u \<Rightarrow>
         if \<not> user_is_active u
         then thenp (revoke_family (tok_family_id c) (env_clock env (ticks s))) (raise invalid_session)
         else exchange_token env (env_clock env (ticks s)) c u cid ip ua) (tick s)"
  using lookup_tick [OF assms(1)] assms(2-4) by (simp add: rotate_token_def tick_def not_le)

lemma kept_rotate [pres]: "preserves (kept ts) (rotate_token env tok cid ip ua)"
proof (rule preservesI)
  fix s assume k: "kept ts s"
  let ?now = "env_clock env (ticks s)"
  have ok: "sessions_ok s" and k1: "kept ts (tick s)" using k by (simp_all add: kept_def)
  show "kept ts (snd (rotate_token env tok cid ip ua s))"
  proof (cases rule: token_lookup_cases [OF ok, where h = "hash_refresh_token env tok",
      case_names none found])
    case none
    show ?thesis unfolding rotate_unknown [OF none(1)]
      by (rule presD [where I = "kept ts", OF _ k1], (intro pres; simp))
  next
    case (found c)
    note c = found(1)
    consider "tok_revoked_at c \<noteq> None" | "tok_revoked_at c = None" "tok_expires_at c \<le> ?now"
      | "tok_revoked_at c = None" "?now < tok_expires_at c" by fastforce
    then show ?thesis
    proof cases
      case 1
      show ?thesis unfolding rotate_reused [OF found(3) 1]
        by (rule presD [where I = "kept ts", OF _ k1], (intro pres; simp))
    next
      case 2
      have "kept ts (snd (set_token (tok_id c) (\<lambda>t. t\<lparr>tok_revoked_at := Some ?now\<rparr>) (tick s)))"
        using c 2 by (intro kept_set_token [OF k1]) simp_all
      moreover have "preserves (kept ts)
          (thenp (audit env ''auth.refresh'' ''failure'' cid ip (Some (tok_user_id c)) [])
            (raise invalid_session :: auth_result session))"
        by (intro pres; simp)
      ultimately show ?thesis unfolding rotate_expired [OF found(3) 2]
        by (simp add: set_token_def preserves_def)
    next
      case 3
      obtain fu where fu: "user_by_id (tok_user_id c) (tick s) = (Inr fu, tick s)"
        by (simp add: user_by_id_def)
      have dead: "kept ts (snd (thenp (revoke_family (tok_family_id c) ?now)
          (raise invalid_session :: auth_result session) (tick s)))"
        by (rule presD [where I = "kept ts", OF _ k1], intro pres)
      have live: "kept ts (snd (exchange_token env ?now c u cid ip ua (tick s)))" if "fu = Some u" for u
        using c 3 that found_by_id fu by (intro kept_exchange [OF k1]) auto
      show ?thesis unfolding rotate_live [OF found(3) 3 fu]
        using dead live by (cases fu) simp_all
    qed
  qed
qed

lemma kept_logout [pres]: "preserves (kept ts) (logout env tok cid ip)"
proof (rule preservesI)
  fix s assume k: "kept ts s"
  have ok: "sessions_ok s" using k by (simp add: kept_def)
  have quiet: "kept ts (snd (audit env ''auth.logout'' ''success'' cid ip None [] s))"
    by (rule presD [where I = "kept ts", OF _ k], (intro pres; simp))
  show "kept ts (snd (logout env tok cid ip s))"
  proof (cases rule: token_lookup_cases [OF ok, where h = "hash_refresh_token env tok",
      case_names none found])
    case none
    with quiet show ?thesis by (simp add: logout_def)
  next
    case (found c)
    show ?thesis
    proof (cases "tok_revoked_at c")
      case (Some x)
      with found quiet show ?thesis by (simp add: logout_def)
    next
      case None
      let ?m = "set_token (tok_id c) (\<lambda>t. t\<lparr>tok_revoked_at := Some (env_clock env (ticks s))\<rparr>)"
      have "kept ts (snd (?m (tick s)))"
        using found None k by (intro kept_set_token) simp_all
      moreover have "preserves (kept ts) (audit env ''auth.logout'' ''success'' cid ip (Some (tok_user_id c)) [])"
        by (intro pres; simp)
      ultimately show ?thesis using found None
        by (simp add: logout_def set_token_def preserves_def tick_def)
    qed
  qed
qed

lemma kept_logout_all [pres]: "preserves (kept ts) (logout_all env uid cid ip)"
  unfolding logout_all_def by (intro pres) simp_all

lemma preserves_new_session [pres]: "user_id u = uid \<Longrightarrow> preserves (acct ts uid) (new_session env u ua)"
  by (auto intro: preservesI new_session_acct)

lemma acct_kept: "acct ts uid s \<Longrightarrow> kept ts s"
  by (simp add: acct_def)

lemma insert_user_acct:
  assumes k: "kept ts s" and u: "user_id u = next_uuid s"
  shows "case insert_user u (s\<lparr>secrets_drawn := n, next_uuid := Suc (next_uuid s)\<rparr>) of
           (Inl e, t) \<Rightarrow> kept ts t | (Inr _, t) \<Rightarrow> acct ts (user_id u) t"
proof -
  have ok: "sessions_ok s" using k by (simp add: kept_def)
  then have less: "\<forall>v \<in> set (users s). user_id v < next_uuid s" by (auto simp: sessions_ok_def users_ok_def)
  have same: "kept ts (s\<lparr>secrets_drawn := n, next_uuid := Suc (next_uuid s)\<rparr>)"
    by (rule kept_same [OF k]) (simp add: auth_same_def)
  have "users_ok (Suc (next_uuid s)) (users s @ [u])" if "user_email u \<notin> user_email ` set (users s)"
    using ok less u that by (fastforce simp: sessions_ok_def users_ok_def)
  moreover have "tokens_ok (Suc (next_uuid s)) (insert (user_id u) (user_id ` set (users s))) (refresh_tokens s)"
    using ok by (auto simp: sessions_ok_def intro: tokens_ok_mono)
  ultimately show ?thesis using same k u
    by (auto simp: insert_user_def add_row_app acct_def kept_def sessions_ok_def)
qed

lemma kept_register [pres]: "preserves (kept ts) (register env email password name cid ip ua)"
proof (rule preservesI)
  fix s assume k: "kept ts s"
  show "kept ts (snd (register env email password name cid ip ua s))"
    unfolding register_def Let_def
  proof (rule snd_bind_query [where I = "kept ts", OF k], simp, goal_cases)
    case (1 found)
    show ?case
    proof (cases found)
      case (Some v)
      then show ?thesis using k by simp
    next
      case None
      let ?h = "ph_hash env (env_secret env (secrets_drawn s)) password"
      let ?u = "\<lparr>user_id = next_uuid s, user_email = normalize_email email, user_password_hash = ?h,
                   user_display_name = name, user_role = ''user'',
                   user_is_active = True, user_email_verified = False,
                   user_failed_login_count = 0, user_last_failed_login_at = None,
                   user_last_login_at = None\<rparr>"
      let ?s = "s\<lparr>secrets_drawn := Suc (secrets_drawn s), next_uuid := Suc (next_uuid s)\<rparr>"
      have "preserves (acct ts (next_uuid s))
          (thenp (audit env ''auth.register'' ''success'' cid ip (Some (next_uuid s)) [])
            (new_session env ?u ua))"
        by (intro pres) simp_all
      then have "kept ts (snd (thenp (insert_user ?u)
          (thenp (audit env ''auth.register'' ''success'' cid ip (Some (next_uuid s)) [])
            (new_session env ?u ua)) ?s))"
        using insert_user_acct [OF k, of ?u "Suc (secrets_drawn s)"] acct_kept
        unfolding preserves_def thenp_def bindp_def [of "insert_user ?u"]
        by (auto split: prod.splits sum.splits)
      then show ?thesis using None
        by (simp add: hash_password_def bindp_def [of "draw_secret _"] bindp_def [of "bindp _ _"] bindp_def [of uuid4])
    qed
  qed
qed

lemma kept_login [pres]: "preserves (kept ts) (login env email password cid ip ua)"
proof (rule preservesI)
  fix s assume k: "kept ts s"
  show "kept ts (snd (login env email password cid ip ua s))"
    unfolding login_def
  proof (rule snd_bind_query [where I = "kept ts", OF k], simp, goal_cases)
    case (1 found)
    show ?case
    proof (cases found)
      case None
      have "preserves (kept ts) (thenp (audit env ''auth.login'' ''failure'' cid ip None [])
         (raise (AppErr (Unauthorized generic_login_error)) :: auth_result session))" by (intro pres) simp_all
      then show ?thesis using None presD [where I = "kept ts", OF _ k] by simp
    next
      case (Some u)
      then have "acct ts (user_id u) s" using 1 k found_by_email by (auto simp: acct_def)
      then show ?thesis
        unfolding Some option.case
        by (intro acct_kept [of ts "user_id u"] presD [of "acct ts (user_id u)"])
          ((intro pres; simp?; (intro pres)?; simp?)+)
    qed
  qed
qed

section \<open>Requests and reachable states\<close>

text \<open>
  The state-changing requests of \<^verbatim>\<open>/api/v1/auth\<close>, with the arguments the service gets,
  and the database after the transaction. \<^verbatim>\<open>register\<close> turns the integrity error of a
  lost race into the conflict a second registration gets.
\<close>

definition register_endpoint ::
    "auth_env \<Rightarrow> string \<Rightarrow> string \<Rightarrow> string \<Rightarrow> string \<Rightarrow> string \<Rightarrow> string \<Rightarrow> auth_result session" where
  "register_endpoint env email password display_name cid ip ua =
     catch (commit_auth_operation (register env email password display_name cid ip ua))
       (\<lambda>e. case e of
              IntegrityError t \<Rightarrow> raise (AppErr (Conflict ''An account with this email already exists''))
            | _ \<Rightarrow> raise e)"

datatype auth_call =
    CallRegister string string string string string string
  | CallLogin string string string string string
  | CallRefresh string string string string
  | CallLogout string string string
  | CallLogoutAll uuid string string

fun auth_exec :: "auth_env \<Rightarrow> auth_call \<Rightarrow> db \<Rightarrow> db" where
  "auth_exec env (CallRegister email password name cid ip ua) s =
     snd (register_endpoint env email password name cid ip ua s)"
| "auth_exec env (CallLogin email password cid ip ua) s =
     snd (commit_auth_operation (login env email password cid ip ua) s)"
| "auth_exec env (CallRefresh raw cid ip ua) s =
     snd (commit_auth_operation (rotate_token env raw cid ip ua) s)"
| "auth_exec env (CallLogout raw cid ip) s = snd (commit_or_rollback (logout env raw cid ip) s)"
| "auth_exec env (CallLogoutAll uid cid ip) s = snd (commit_or_rollback (logout_all env uid cid ip) s)"

definition auth_step :: "auth_env \<Rightarrow> db \<Rightarrow> db \<Rightarrow> bool" where
  "auth_step env s t = (\<exists>c. t = auth_exec env c s)"

text \<open>The counters never go back, so a rollback keeps what was true before the transaction.\<close>

lemma next_uuid_mono_lemmas:
  "next_uuid s \<le> next_uuid (snd (audit env action result cid ip actor details s))"
  using audit_same unfolding auth_same_def by blast

definition grows :: "nat \<Rightarrow> db \<Rightarrow> bool" where
  "grows n s = (n \<le> next_uuid s)"

lemma grows_row [pres]:
  "preserves (grows n) uuid4" "preserves (grows n) (utcnow c)" "preserves (grows n) (draw_secret f)"
  "preserves (grows n) (insert_user u)" "preserves (grows n) (insert_refresh_token r)"
  "preserves (grows n) (insert_audit_log l)" "preserves (grows n) (set_user i g)"
  "preserves (grows n) (set_token i h)" "preserves (grows n) (revoke_family i now)"
  "preserves (grows n) (revoke_all i now)"
  by (simp_all add: preserves_def grows_def add_row_def insert_user_def insert_refresh_token_def
      insert_audit_log_def set_user_def set_token_def revoke_family_def revoke_all_def revoke_where_def)

lemma grows_steps [pres]:
  "preserves (grows n) (audit env action result cid ip actor details)"
  "preserves (grows n) (create_access_token env uid role)"
  "preserves (grows n) (generate_refresh_token env)"
  "preserves (grows n) (hash_password env pw)"
  unfolding audit_def create_access_token_def generate_refresh_token_def hash_password_def Let_def
  by (intro pres)+

lemma grows_new_session [pres]: "preserves (grows n) (new_session env u ua)"
  unfolding new_session_def by (intro pres)

lemma grows_exchange [pres]: "preserves (grows n) (exchange_token env now c u cid ip ua)"
  unfolding exchange_token_def by (intro pres)

lemma grows_operations [pres]:
  "preserves (grows n) (register env email pw name cid ip ua)"
  "preserves (grows n) (login env email pw cid ip ua)"
  "preserves (grows n) (rotate_token env tok cid ip ua)"
  "preserves (grows n) (logout env tok cid ip)"
  "preserves (grows n) (logout_all env uid cid ip)"
  unfolding register_def login_def rotate_token_def logout_def logout_all_def Let_def
  by (intro pres)+

lemma grows_iff: "preserves (grows (next_uuid s)) m \<Longrightarrow> next_uuid s \<le> next_uuid (snd (m s))"
  by (simp add: preserves_def grows_def)

lemma kept_rollback: "kept ts s \<Longrightarrow> next_uuid s \<le> next_uuid t \<Longrightarrow> kept ts (rollback s t)"
  by (erule kept_same) (simp add: auth_same_def rollback_def)

lemma kept_commit:
  assumes "preserves (kept ts) m" "\<And>n. preserves (grows n) m"
  shows "preserves (kept ts) (commit_auth_operation m)" "preserves (kept ts) (commit_or_rollback m)"
proof -
  have "kept ts (snd (commit_auth_operation m s)) \<and> kept ts (snd (commit_or_rollback m s))" if k: "kept ts s" for s
  proof (cases "m s")
    case (Pair r t)
    then have "kept ts t" "next_uuid s \<le> next_uuid t"
      using presD [where I = "kept ts", OF assms(1) k] grows_iff [OF assms(2)] by (metis snd_conv)+
    then show ?thesis using Pair kept_rollback [OF k]
      by (cases r) (simp_all add: commit_auth_operation_def commit_or_rollback_def)
  qed
  then show "preserves (kept ts) (commit_auth_operation m)" "preserves (kept ts) (commit_or_rollback m)"
    by (simp_all add: preserves_def)
qed

lemma kept_auth_exec: "kept ts s \<Longrightarrow> kept ts (auth_exec env c s)"
proof (cases c)
  case (CallRegister email pw name cid ip ua)
  assume k: "kept ts s"
  have "preserves (kept ts) (register_endpoint env email pw name cid ip ua)"
    unfolding register_endpoint_def
    by (rule preserves_catch) (intro kept_commit pres, auto intro: pres split: exn.splits)
  then show ?thesis unfolding CallRegister auth_exec.simps
    using k by (rule presD [where I = "kept ts"])
qed (auto intro!: presD [where I = "kept ts"] kept_commit pres)

interpretation sessions: invariant_system "\<lambda>s. s = empty_db" "auth_step env" sessions_ok for env
proof unfold_locales
  show "s = empty_db \<Longrightarrow> sessions_ok s" for s
    by (simp add: sessions_ok_def empty_db_def users_ok_def tokens_ok_def one_active_def)
  show "sessions_ok s \<Longrightarrow> auth_step env s t \<Longrightarrow> sessions_ok t" for s t
    using kept_auth_exec kept_self unfolding auth_step_def kept_def by blast
qed

interpretation revocations: invariant_system "kept ts" "auth_step env" "kept ts" for ts env
  by unfold_locales (auto simp: auth_step_def kept_auth_exec)

text \<open>
  In every state the requests can produce from the empty database, in any order and
  with any arguments, e-mail addresses are unique, and the refresh tokens of one login (one
  family) belong to one account and at most one of them is not revoked; a replaced token is
  revoked and names its replacement in its own family.
\<close>

theorem one_usable_token_per_login:
  assumes reach: "reaches (auth_step env) empty_db s"
  shows "distinct (map user_email (users s))
    \<and> (\<forall>t \<in> set (refresh_tokens s). \<forall>q \<in> set (refresh_tokens s).
         tok_family_id t = tok_family_id q \<longrightarrow> tok_user_id t = tok_user_id q
           \<and> (tok_revoked_at t = None \<longrightarrow> tok_revoked_at q = None \<longrightarrow> t = q))
    \<and> (\<forall>t \<in> set (refresh_tokens s). \<forall>i. tok_replaced_by_id t = Some i \<longrightarrow>
         tok_revoked_at t \<noteq> None
         \<and> (\<exists>q \<in> set (refresh_tokens s). tok_id q = i \<and> tok_family_id q = tok_family_id t))"
proof (intro conjI)
  have ok: "sessions_ok s" by (rule sessions.safe [OF refl reach])
  then show "distinct (map user_email (users s))" by (simp add: sessions_ok_def users_ok_def)
  have one: "one_active (refresh_tokens s)" using ok by (simp add: sessions_ok_def tokens_ok_def)
  show "\<forall>t \<in> set (refresh_tokens s). \<forall>q \<in> set (refresh_tokens s).
         tok_family_id t = tok_family_id q \<longrightarrow> tok_user_id t = tok_user_id q
           \<and> (tok_revoked_at t = None \<longrightarrow> tok_revoked_at q = None \<longrightarrow> t = q)"
    using one_activeD [OF one] sessions_ok_row [OF ok] by blast
  show "\<forall>t \<in> set (refresh_tokens s). \<forall>i. tok_replaced_by_id t = Some i \<longrightarrow>
         tok_revoked_at t \<noteq> None
         \<and> (\<exists>q \<in> set (refresh_tokens s). tok_id q = i \<and> tok_family_id q = tok_family_id t)"
    using ok by (auto simp: sessions_ok_def tokens_ok_def link_ok_def in_family_ids split: option.splits)
qed

text \<open>
  A revoked refresh token stays revoked, at the time it was first revoked, through every
  later sequence of requests.
\<close>

theorem revoked_stays_revoked:
  assumes "sessions_ok s" and "reaches (auth_step env) s t"
    and "r \<in> set (refresh_tokens s)" and "tok_revoked_at r = Some x"
  shows "\<exists>q \<in> set (refresh_tokens t). tok_token_hash q = tok_token_hash r \<and> tok_revoked_at q = Some x"
proof -
  have "kept (refresh_tokens s) t"
    using revocations.safe [OF kept_self [OF assms(1)] assms(2)] .
  then have "\<exists>q \<in> set (refresh_tokens t). tok_token_hash q = tok_token_hash r
      \<and> (tok_revoked_at r \<noteq> None \<longrightarrow> tok_revoked_at q = tok_revoked_at r)"
    using assms(3) unfolding kept_def evolves_def by meson
  with assms(4) show ?thesis by auto
qed

section \<open>What each request does\<close>

definition audit_row ::
    "auth_env \<Rightarrow> uuid \<Rightarrow> string \<Rightarrow> string \<Rightarrow> string \<Rightarrow> string \<Rightarrow> uuid option \<Rightarrow> json_object \<Rightarrow> audit_log" where
  "audit_row env i action result cid ip actor details =
     \<lparr>audit_id = i, audit_actor_user_id = actor, audit_action = action,
      audit_resource_type = ''authentication'', audit_resource_id = actor,
      audit_result = result, audit_correlation_id = take 128 cid,
      audit_ip_hash = Some (hash_metadata (sha256 env) ip (secret_key env)), audit_details = details\<rparr>"

lemma audit_ok:
  assumes "sessions_ok s" and "opt_ref (exists_user s) actor"
  shows "audit env action result cid ip actor details s =
    (Inr (), s\<lparr>next_uuid := Suc (next_uuid s),
       audit_logs := audit_logs s @ [audit_row env (next_uuid s) action result cid ip actor details]\<rparr>)"
  using assms by (auto simp: audit_state Let_def audit_row_def sessions_ok_def)

lemma token_user_exists:
  "sessions_ok s \<Longrightarrow> c \<in> set (refresh_tokens s) \<Longrightarrow> opt_ref (exists_user s) (Some (tok_user_id c))"
  by (auto simp: sessions_ok_def tokens_ok_def opt_ref_def exists_user_def)

lemma create_access_token_eq:
  "create_access_token env uid role s =
     (Inr (jwt_encode env
             \<lparr>pay_sub = uuid_str uid, pay_role = role, pay_type = ''access'',
              pay_iat = env_clock env (ticks s),
              pay_exp = env_clock env (ticks s) + seconds (access_token_ttl_seconds env),
              pay_jti = uuid_str (next_uuid s)\<rparr> (secret_key env) (access_token_algorithm env),
           env_clock env (ticks s) + seconds (access_token_ttl_seconds env)),
      s\<lparr>ticks := Suc (ticks s), next_uuid := Suc (next_uuid s)\<rparr>)"
  by (simp add: create_access_token_def Let_def)

lemma rotate_replay:
  assumes ok: "sessions_ok s" and c: "c \<in> set (refresh_tokens s)"
    and raw: "hash_refresh_token env raw = tok_token_hash c" and revoked: "tok_revoked_at c \<noteq> None"
  shows "\<exists>t. commit_auth_operation (rotate_token env raw cid ip ua) s = (Inl invalid_session, t)
    \<and> (\<forall>q \<in> set (refresh_tokens t). tok_family_id q = tok_family_id c \<longrightarrow> tok_revoked_at q \<noteq> None)
    \<and> audit_logs t = audit_logs s @ [audit_row env (next_uuid s) ''auth.refresh_reuse'' ''blocked''
         cid ip (Some (tok_user_id c)) [(''family_revoked'', JBool True)]]"
proof -
  let ?s1 = "revoke_where (\<lambda>t. tok_family_id t = tok_family_id c) (env_clock env (ticks s)) (tick s)"
  have found: "token_by_hash_for_update (hash_refresh_token env raw) s = (Inr (Some c), s)"
    using token_lookup_found [OF ok c] raw by simp
  have "sessions_ok ?s1"
    using sessions_ok_revoke [of "tick s"] ok by (simp add: revoke_where_def)
  moreover have "opt_ref (exists_user ?s1) (Some (tok_user_id c))"
    using token_user_exists [OF ok c] by (simp add: opt_ref_def exists_user_def revoke_where_def)
  ultimately have "rotate_token env raw cid ip ua s = (Inl invalid_session,
      ?s1\<lparr>next_uuid := Suc (next_uuid s), audit_logs := audit_logs s @ [audit_row env (next_uuid s)
         ''auth.refresh_reuse'' ''blocked'' cid ip (Some (tok_user_id c)) [(''family_revoked'', JBool True)]]\<rparr>)"
    unfolding rotate_reused [OF found revoked]
    by (simp add: revoke_family_def audit_ok) (simp add: revoke_where_def)
  then show ?thesis
    by (auto simp: commit_auth_operation_def invalid_session_def revoke_where_def in_update_where)
qed

text \<open>
  Presenting a refresh token that was already revoked (a replay) is answered with
  ``Invalid session'', leaves no usable token in its family, and commits the audit row
  \<^verbatim>\<open>auth.refresh_reuse\<close>.
\<close>

theorem replay_revokes_family:
  assumes ok: "sessions_ok s" and c: "c \<in> set (refresh_tokens s)"
    and raw: "hash_refresh_token env raw = tok_token_hash c" and revoked: "tok_revoked_at c \<noteq> None"
  shows "\<exists>t. commit_auth_operation (rotate_token env raw cid ip ua) s = (Inl invalid_session, t)
    \<and> (\<forall>q \<in> set (refresh_tokens t). tok_family_id q = tok_family_id c \<longrightarrow> tok_revoked_at q \<noteq> None)
    \<and> audit_logs t = audit_logs s @ [audit_row env (next_uuid s) ''auth.refresh_reuse'' ''blocked''
         cid ip (Some (tok_user_id c)) [(''family_revoked'', JBool True)]]"
  using assms by (rule rotate_replay)

lemma live_token_needed:
  assumes ok: "sessions_ok s"
    and success: "commit_auth_operation (rotate_token env raw cid ip ua) s = (Inr res, t)"
  shows "\<exists>c \<in> set (refresh_tokens s). tok_token_hash c = hash_refresh_token env raw
    \<and> tok_revoked_at c = None \<and> env_clock env (ticks s) < tok_expires_at c
    \<and> (\<exists>u \<in> set (users s). user_id u = tok_user_id c \<and> user_is_active u \<and> res_user res = u)"
proof -
  let ?now = "env_clock env (ticks s)"
  have r: "rotate_token env raw cid ip ua s = (Inr res, t)"
    using success by (auto simp: commit_auth_operation_def split: prod.splits sum.splits)
  have never: "\<not> (\<exists>x y z. thenp m (raise e) x = (Inr (y :: auth_result), z))" for m :: "unit session" and e
    by (auto simp: thenp_eq_Inr)
  show ?thesis
  proof (cases rule: token_lookup_cases [OF ok, where h = "hash_refresh_token env raw",
      case_names none found])
    case none
    show ?thesis using r never unfolding rotate_unknown [OF none(1)] by blast
  next
    case (found c)
    have "tok_revoked_at c = None"
    proof (rule ccontr)
      assume used: "tok_revoked_at c \<noteq> None"
      from r show False unfolding rotate_reused [OF found(3) used] by (auto simp: thenp_eq_Inr)
    qed
    moreover have "?now < tok_expires_at c"
      using r rotate_expired [OF found(3) calculation] never by (fastforce simp: thenp_eq_Inr not_le [symmetric])
    moreover obtain fu where fu: "user_by_id (tok_user_id c) (tick s) = (Inr fu, tick s)"
      by (simp add: user_by_id_def)
    moreover obtain u where u: "fu = Some u" "user_is_active u"
      using r rotate_live [OF found(3) calculation] by (auto simp: thenp_eq_Inr split: option.splits if_splits)
    moreover have "res_user res = u"
      using r rotate_live [OF found(3) calculation(1,2) fu] u
      by (auto simp: exchange_token_eq bindp_eq_Inr thenp_eq_Inr split: if_splits)
    moreover have "u \<in> set (users s) \<and> user_id u = tok_user_id c"
      using fu u found_by_id by fastforce
    ultimately show ?thesis using found by blast
  qed
qed

text \<open>
  A refresh succeeds only for a token that is known, not revoked and not expired and
  whose account is active; every other attempt is refused.
\<close>

theorem refresh_needs_live_token:
  assumes ok: "sessions_ok s"
    and success: "commit_auth_operation (rotate_token env raw cid ip ua) s = (Inr res, t)"
  shows "\<exists>c \<in> set (refresh_tokens s). tok_token_hash c = hash_refresh_token env raw
    \<and> tok_revoked_at c = None \<and> env_clock env (ticks s) < tok_expires_at c
    \<and> (\<exists>u \<in> set (users s). user_id u = tok_user_id c \<and> user_is_active u \<and> res_user res = u)"
  using assms by (rule live_token_needed)

lemma live_rotation:
  assumes ok: "sessions_ok s" and c: "c \<in> set (refresh_tokens s)"
    and raw: "hash_refresh_token env raw = tok_token_hash c"
    and live: "tok_revoked_at c = None" "env_clock env (ticks s) < tok_expires_at c"
    and u: "u \<in> set (users s)" "user_id u = tok_user_id c" "user_is_active u"
    and fresh: "hash_refresh_token env (env_secret env (secrets_drawn s)) \<notin> tok_token_hash ` set (refresh_tokens s)"
  shows "\<exists>res t q. commit_auth_operation (rotate_token env raw cid ip ua) s = (Inr res, t)
    \<and> res_user res = u \<and> q \<in> set (refresh_tokens t)
    \<and> tok_token_hash q = hash_refresh_token env (res_refresh_token res)
    \<and> tok_family_id q = tok_family_id c \<and> tok_user_id q = user_id u \<and> tok_revoked_at q = None
    \<and> tok_expires_at q = env_clock env (ticks s) + seconds (refresh_token_ttl_seconds env)
    \<and> c\<lparr>tok_revoked_at := Some (env_clock env (ticks s)), tok_replaced_by_id := Some (tok_id q)\<rparr>
        \<in> set (refresh_tokens t)"
proof -
  let ?now = "env_clock env (ticks s)"
  let ?q = "exchange_row env ?now c u ua (tick s)"
  let ?x = "exchange_state env ?now c u ua (tick s)"
  have found: "token_by_hash_for_update (hash_refresh_token env raw) s = (Inr (Some c), s)"
    using token_lookup_found [OF ok c] raw by simp
  have fu: "user_by_id (tok_user_id c) (tick s) = (Inr (Some u), tick s)"
    using user_by_id_found [of "tick s" u] ok u by simp
  have ids: "next_uuid s \<notin> tok_id ` set (refresh_tokens s)"
    using ok by (auto simp: sessions_ok_def tokens_ok_def)
  then have fr: "exchange_fresh env u (tick s)"
    using fresh imageI [OF u(1), of user_id] u(2) by (simp add: exchange_fresh_def)
  define y where "y = ?x\<lparr>ticks := Suc (ticks ?x), next_uuid := Suc (next_uuid ?x)\<rparr>"
  have "sessions_ok ?x" using exchange_state_ok [of "tick s" c u env ?now ua] ok c live u fr by simp
  then have "sessions_ok y" unfolding y_def by (rule sessions_ok_same) (simp add: auth_same_def)
  moreover have "opt_ref (exists_user y) (Some (user_id u))"
    using imageI [OF u(1), of user_id] by (simp add: y_def opt_ref_def exists_user_def exchange_state_def)
  ultimately have aud: "\<exists>t. audit env ''auth.refresh'' ''success'' cid ip (Some (user_id u)) [] y = (Inr (), t)
      \<and> refresh_tokens t = refresh_tokens ?x"
    by (simp add: audit_ok) (simp add: y_def)
  then obtain t where t: "audit env ''auth.refresh'' ''success'' cid ip (Some (user_id u)) [] y = (Inr (), t)"
      "refresh_tokens t = refresh_tokens ?x" by blast
  have tab: "refresh_tokens ?x = update_where (\<lambda>t. tok_id t = tok_id c)
         (\<lambda>t. t\<lparr>tok_revoked_at := Some ?now, tok_replaced_by_id := Some (next_uuid s)\<rparr>) (refresh_tokens s) @ [?q]"
    using ids c by (auto simp: exchange_state_def exchange_row_def)
  obtain res where "rotate_token env raw cid ip ua s = (Inr res, t)" "res_user res = u"
      "res_refresh_token res = env_secret env (secrets_drawn s)"
    unfolding rotate_live [OF found live fu]
    using u(3) fr t(1) by (simp add: exchange_token_eq create_access_token_eq y_def)
  moreover have "?q \<in> set (refresh_tokens t)" using t tab by simp
  moreover have "c\<lparr>tok_revoked_at := Some ?now, tok_replaced_by_id := Some (tok_id ?q)\<rparr> \<in> set (refresh_tokens t)"
    using c t tab by (auto simp: in_update_where exchange_row_def)
  ultimately show ?thesis using live
    by (intro exI [of _ res] exI [of _ t] exI [of _ ?q])
      (simp add: commit_auth_operation_def exchange_row_def)
qed

text \<open>
  C28: a refresh with a live token succeeds: the presented token is revoked now and linked
  to a new token of the same family and account with a full lifetime, the raw value of
  which is returned (only its hash is stored).
\<close>

theorem refresh_exchanges_token:
  assumes ok: "sessions_ok s" and c: "c \<in> set (refresh_tokens s)"
    and raw: "hash_refresh_token env raw = tok_token_hash c"
    and live: "tok_revoked_at c = None" "env_clock env (ticks s) < tok_expires_at c"
    and u: "u \<in> set (users s)" "user_id u = tok_user_id c" "user_is_active u"
    and fresh: "hash_refresh_token env (env_secret env (secrets_drawn s)) \<notin> tok_token_hash ` set (refresh_tokens s)"
  shows "\<exists>res t q. commit_auth_operation (rotate_token env raw cid ip ua) s = (Inr res, t)
    \<and> res_user res = u \<and> q \<in> set (refresh_tokens t)
    \<and> tok_token_hash q = hash_refresh_token env (res_refresh_token res)
    \<and> tok_family_id q = tok_family_id c \<and> tok_user_id q = user_id u \<and> tok_revoked_at q = None
    \<and> tok_expires_at q = env_clock env (ticks s) + seconds (refresh_token_ttl_seconds env)
    \<and> c\<lparr>tok_revoked_at := Some (env_clock env (ticks s)), tok_replaced_by_id := Some (tok_id q)\<rparr>
        \<in> set (refresh_tokens t)"
  using assms by (rule live_rotation)

text \<open>
  After logout-all no refresh token of the account is usable, and no other account's
  token has changed.
\<close>

theorem logout_all_revokes_all:
  assumes ok: "sessions_ok s" and u: "uid \<in> user_id ` set (users s)"
  shows "\<exists>t. commit_or_rollback (logout_all env uid cid ip) s = (Inr (), t)
    \<and> (\<forall>q \<in> set (refresh_tokens t). tok_user_id q = uid \<longrightarrow> tok_revoked_at q \<noteq> None)
    \<and> filter (\<lambda>q. tok_user_id q \<noteq> uid) (refresh_tokens t) = filter (\<lambda>q. tok_user_id q \<noteq> uid) (refresh_tokens s)"
proof -
  let ?s1 = "revoke_where (\<lambda>t. tok_user_id t = uid) (env_clock env (ticks s)) (tick s)"
  have "sessions_ok ?s1" using sessions_ok_revoke [of "tick s"] ok by (simp add: revoke_where_def)
  moreover have "opt_ref (exists_user ?s1) (Some uid)"
    using u by (simp add: opt_ref_def exists_user_def revoke_where_def)
  ultimately have "\<exists>t. logout_all env uid cid ip s = (Inr (), t) \<and> refresh_tokens t = refresh_tokens ?s1"
    by (simp add: logout_all_def revoke_all_def audit_ok tick_def [symmetric])
  then obtain t where t: "logout_all env uid cid ip s = (Inr (), t)" "refresh_tokens t = refresh_tokens ?s1" by blast
  have "filter (\<lambda>q. tok_user_id q \<noteq> uid) (update_where (\<lambda>t. tok_user_id t = uid \<and> tok_revoked_at t = None)
          (\<lambda>t. t\<lparr>tok_revoked_at := Some (env_clock env (ticks s))\<rparr>) ts) = filter (\<lambda>q. tok_user_id q \<noteq> uid) ts" for ts
    by (induction ts) auto
  then have other: "filter (\<lambda>q. tok_user_id q \<noteq> uid) (refresh_tokens t) = filter (\<lambda>q. tok_user_id q \<noteq> uid) (refresh_tokens s)"
    by (simp add: t(2) revoke_where_def)
  have "tok_revoked_at q \<noteq> None" if q: "q \<in> set (refresh_tokens t)" "tok_user_id q = uid" for q
  proof -
    let ?now = "env_clock env (ticks s)"
    obtain r where r: "q = (if tok_user_id r = uid \<and> tok_revoked_at r = None
        then r\<lparr>tok_revoked_at := Some ?now\<rparr> else r)"
      using q(1) by (auto simp: t(2) revoke_where_def in_update_where)
    show ?thesis
    proof (cases "tok_user_id r = uid \<and> tok_revoked_at r = None")
      case True
      then have "q = r\<lparr>tok_revoked_at := Some ?now\<rparr>" using r by metis
      then show ?thesis by simp
    next
      case False
      then have "q = r" using r by metis
      with False q(2) show ?thesis by simp
    qed
  qed
  with t(1) other show ?thesis by (simp add: commit_or_rollback_def)
qed

text \<open>A successful rotation, as it changed the token table.\<close>

lemma rotate_success:
  assumes ok: "sessions_ok s" and r: "rotate_token env raw cid ip ua s = (Inr res, t)"
  obtains c q where "c \<in> set (refresh_tokens s)" "tok_token_hash c = hash_refresh_token env raw"
    "tok_family_id q = tok_family_id c" "q \<in> set (refresh_tokens t)"
    "tok_token_hash q = hash_refresh_token env (res_refresh_token res)"
    "c\<lparr>tok_revoked_at := Some (env_clock env (ticks s)), tok_replaced_by_id := Some (next_uuid s)\<rparr>
       \<in> set (refresh_tokens t)"
proof -
  let ?now = "env_clock env (ticks s)"
  have "commit_auth_operation (rotate_token env raw cid ip ua) s = (Inr res, t)"
    using r by (simp add: commit_auth_operation_def)
  from live_token_needed [OF ok this] obtain c u where c: "c \<in> set (refresh_tokens s)"
      "tok_token_hash c = hash_refresh_token env raw" "tok_revoked_at c = None" "?now < tok_expires_at c"
    and u: "u \<in> set (users s)" "user_id u = tok_user_id c" "user_is_active u" by blast
  have found: "token_by_hash_for_update (hash_refresh_token env raw) s = (Inr (Some c), s)"
    using token_lookup_found [OF ok c(1)] c(2) by simp
  have fu: "user_by_id (tok_user_id c) (tick s) = (Inr (Some u), tick s)"
    using user_by_id_found [of "tick s" u] ok u by simp
  let ?q = "exchange_row env ?now c u ua (tick s)"
  have x: "exchange_token env ?now c u cid ip ua (tick s) = (Inr res, t)"
    using r u(3) unfolding rotate_live [OF found c(3,4) fu] by simp
  then have t: "refresh_tokens t = refresh_tokens (exchange_state env ?now c u ua (tick s))"
    and raw2: "res_refresh_token res = env_secret env (secrets_drawn s)"
    by (auto simp: exchange_token_eq create_access_token_eq bindp_eq_Inr thenp_eq_Inr audit_state Let_def
        split: if_splits)
  have "next_uuid s \<noteq> tok_id c" using ok c(1) by (auto simp: sessions_ok_def tokens_ok_def)
  then have tab: "refresh_tokens t = update_where (\<lambda>t. tok_id t = tok_id c)
         (\<lambda>t. t\<lparr>tok_revoked_at := Some ?now, tok_replaced_by_id := Some (next_uuid s)\<rparr>) (refresh_tokens s) @ [?q]"
    unfolding t by (simp add: exchange_state_def exchange_row_def)
  then have "c\<lparr>tok_revoked_at := Some ?now, tok_replaced_by_id := Some (next_uuid s)\<rparr> \<in> set (refresh_tokens t)"
    using c(1) by (auto simp: in_update_where)
  moreover have "?q \<in> set (refresh_tokens t)" using tab by simp
  moreover have "tok_family_id ?q = tok_family_id c"
      "tok_token_hash ?q = hash_refresh_token env (res_refresh_token res)"
    using raw2 by (simp_all add: exchange_row_def)
  ultimately show thesis using that c(1,2) by blast
qed

text \<open>
  C5: a stolen token ends the session for both holders: once a refresh token has been
  exchanged, presenting it again is refused, and after that the token it was exchanged for
  is refused as well.
\<close>

theorem stolen_token_ends_session:
  assumes ok: "sessions_ok s"
    and first: "commit_auth_operation (rotate_token env raw cid ip ua) s = (Inr res, t)"
    and replay: "t2 = auth_exec env (CallRefresh raw cid2 ip2 ua2) t"
  shows "fst (commit_auth_operation (rotate_token env raw cid2 ip2 ua2) t) = Inl invalid_session
    \<and> fst (commit_auth_operation (rotate_token env (res_refresh_token res) cid3 ip3 ua3) t2) = Inl invalid_session"
proof -
  have r: "rotate_token env raw cid ip ua s = (Inr res, t)"
    using first by (auto simp: commit_auth_operation_def split: prod.splits sum.splits)
  have t: "sessions_ok t"
    using presD [where I = "kept (refresh_tokens s)", OF kept_rotate kept_self [OF ok]] r
    by (metis kept_def snd_conv)
  obtain c q where c: "tok_token_hash c = hash_refresh_token env raw"
      "c\<lparr>tok_revoked_at := Some (env_clock env (ticks s)), tok_replaced_by_id := Some (next_uuid s)\<rparr>
         \<in> set (refresh_tokens t)" (is "?c \<in> _")
    and q: "tok_family_id q = tok_family_id c" "q \<in> set (refresh_tokens t)"
      "tok_token_hash q = hash_refresh_token env (res_refresh_token res)"
    by (rule rotate_success [OF ok r])
  have hc: "hash_refresh_token env raw = tok_token_hash ?c" and rc: "tok_revoked_at ?c \<noteq> None"
    using c(1) by simp_all
  obtain t' where t': "commit_auth_operation (rotate_token env raw cid2 ip2 ua2) t = (Inl invalid_session, t')"
      "\<forall>q \<in> set (refresh_tokens t'). tok_family_id q = tok_family_id ?c \<longrightarrow> tok_revoked_at q \<noteq> None"
    using rotate_replay [OF t c(2) hc rc] by blast
  have "t2 = t'" using t'(1) replay by simp
  then have "kept (refresh_tokens t) t2"
    using kept_auth_exec [OF kept_self [OF t]] replay by blast
  then obtain q' where q': "q' \<in> set (refresh_tokens t2)" "tok_token_hash q' = tok_token_hash q"
      "tok_family_id q' = tok_family_id q" and t2: "sessions_ok t2"
    using q(2) unfolding kept_def evolves_def by metis
  then have "tok_revoked_at q' \<noteq> None" using t'(2) \<open>t2 = t'\<close> q(1) by simp
  then have "\<exists>t3. commit_auth_operation (rotate_token env (res_refresh_token res) cid3 ip3 ua3) t2 = (Inl invalid_session, t3)"
    using rotate_replay [OF t2 q'(1)] q'(2) q(3) by metis
  with t'(1) show ?thesis by auto
qed

section \<open>Logging in\<close>

lemma login_unknown:
  assumes "normalize_email email \<notin> user_email ` set (users s)"
  shows "login env email pw cid ip ua s =
    thenp (audit env ''auth.login'' ''failure'' cid ip None [])
      (raise (AppErr (Unauthorized generic_login_error))) s"
proof -
  have "filter (\<lambda>u. user_email u = normalize_email email) (users s) = []"
    using assms by (simp add: filter_empty_conv) (metis imageI)
  then show ?thesis by (simp add: login_def user_by_email_def)
qed

definition count_failure :: "user \<Rightarrow> timestamp \<Rightarrow> user \<Rightarrow> user" where
  "count_failure u now = (\<lambda>v. v\<lparr>user_failed_login_count := user_failed_login_count u + 1,
                               user_last_failed_login_at := Some now\<rparr>)"

lemma login_wrong_password:
  assumes "sessions_ok s" "u \<in> set (users s)" "user_email u = normalize_email email"
    and "\<not> verify_password env (user_password_hash u) pw"
  shows "login env email pw cid ip ua s =
    thenp (set_user (user_id u) (count_failure u (env_clock env (ticks s))))
      (thenp (audit env ''auth.login'' ''failure'' cid ip (Some (user_id u)) [])
        (raise (AppErr (Unauthorized generic_login_error)))) (tick s)"
  using user_by_email_found [OF assms(1,2)] assms(3,4)
  by (simp add: login_def tick_def count_failure_def)

lemma login_inactive:
  assumes "sessions_ok s" "u \<in> set (users s)" "user_email u = normalize_email email"
    and "verify_password env (user_password_hash u) pw" "\<not> user_is_active u"
  shows "login env email pw cid ip ua s =
    thenp (audit env ''auth.login'' ''failure'' cid ip (Some (user_id u)) [])
      (raise (AppErr (Unauthorized generic_login_error))) s"
  using user_by_email_found [OF assms(1,2)] assms(3-5) by (simp add: login_def)

text \<open>The account row after a failed password check.\<close>

definition failed_state :: "db \<Rightarrow> user \<Rightarrow> timestamp \<Rightarrow> db" where
  "failed_state s u now = (tick s)\<lparr>users := update_where (\<lambda>v. user_id v = user_id u) (count_failure u now) (users s)\<rparr>"

lemma failed_state_ok:
  assumes ok: "sessions_ok s" and u: "u \<in> set (users s)"
  shows "sessions_ok (failed_state s u now) \<and> opt_ref (exists_user (failed_state s u now)) (Some (user_id u))"
proof -
  have "acct (refresh_tokens s) (user_id u) (tick s)"
    using kept_self [OF ok] u by (simp add: acct_def)
  then have "acct (refresh_tokens s) (user_id u) ((tick s)\<lparr>users := update_where (\<lambda>v. user_id v = user_id u)
      (count_failure u now) (users (tick s))\<rparr>)"
    by (rule acct_set_user) (simp_all add: count_failure_def)
  then show ?thesis by (simp add: acct_def kept_def failed_state_def opt_ref_def exists_user_def)
qed

lemma login_wrong_password_result:
  assumes "sessions_ok s" "u \<in> set (users s)" "user_email u = normalize_email email"
    and "\<not> verify_password env (user_password_hash u) pw"
  shows "commit_auth_operation (login env email pw cid ip ua) s =
    (Inl (AppErr (Unauthorized generic_login_error)),
     (failed_state s u (env_clock env (ticks s)))\<lparr>next_uuid := Suc (next_uuid s),
       audit_logs := audit_logs s @ [audit_row env (next_uuid s) ''auth.login'' ''failure'' cid ip (Some (user_id u)) []]\<rparr>)"
proof -
  let ?f = "failed_state s u (env_clock env (ticks s))"
  have "set_user (user_id u) (count_failure u (env_clock env (ticks s))) (tick s) = (Inr (), ?f)"
    by (simp add: set_user_def failed_state_def)
  moreover have "audit env ''auth.login'' ''failure'' cid ip (Some (user_id u)) [] ?f =
    (Inr (), ?f\<lparr>next_uuid := Suc (next_uuid s),
       audit_logs := audit_logs s @ [audit_row env (next_uuid s) ''auth.login'' ''failure'' cid ip (Some (user_id u)) []]\<rparr>)"
    using failed_state_ok [OF assms(1,2)] by (simp add: audit_ok) (simp add: failed_state_def)
  ultimately show ?thesis
    by (simp add: commit_auth_operation_def login_wrong_password [OF assms])
qed

text \<open>
  A login for an unknown address, with a wrong password, or for a deactivated account is
  refused with one and the same error, issues no token and commits one audit row.
\<close>

theorem login_refusals_alike:
  assumes ok: "sessions_ok s"
    and bad: "\<forall>u \<in> set (users s). user_email u = normalize_email email \<longrightarrow>
                \<not> (verify_password env (user_password_hash u) pw \<and> user_is_active u)"
  shows "\<exists>t. commit_auth_operation (login env email pw cid ip ua) s =
           (Inl (AppErr (Unauthorized generic_login_error)), t)
    \<and> refresh_tokens t = refresh_tokens s \<and> (\<exists>a. audit_logs t = audit_logs s @ [a])"
proof (cases "normalize_email email \<in> user_email ` set (users s)")
  case False
  have "opt_ref (exists_user s) None" by (simp add: opt_ref_def)
  then show ?thesis
    using ok by (simp add: login_unknown [OF False] audit_ok commit_auth_operation_def)
next
  case True
  then obtain u where u: "u \<in> set (users s)" "user_email u = normalize_email email" by auto
  show ?thesis
  proof (cases "verify_password env (user_password_hash u) pw")
    case False
    show ?thesis unfolding login_wrong_password_result [OF ok u False] by (simp add: failed_state_def)
  next
    case pass: True
    then have "\<not> user_is_active u" using bad u by blast
    moreover have "opt_ref (exists_user s) (Some (user_id u))"
      using imageI [OF u(1), of user_id] by (simp add: opt_ref_def exists_user_def)
    ultimately show ?thesis
      using ok by (simp add: login_inactive [OF ok u pass] audit_ok commit_auth_operation_def)
  qed
qed

text \<open>
  A wrong password adds one to the failure counter of that account and dates it; the
  other accounts are not touched. The counter is committed although the request fails.
\<close>

theorem wrong_password_counted:
  assumes ok: "sessions_ok s" and u: "u \<in> set (users s)" "user_email u = normalize_email email"
    and wrong: "\<not> verify_password env (user_password_hash u) pw"
  shows "users (snd (commit_auth_operation (login env email pw cid ip ua) s)) =
    map (\<lambda>v. if v = u then u\<lparr>user_failed_login_count := user_failed_login_count u + 1,
                            user_last_failed_login_at := Some (env_clock env (ticks s))\<rparr> else v) (users s)"
proof -
  have "v = u" if "v \<in> set (users s)" "user_id v = user_id u" for v
    using that ok u(1) by (auto simp: sessions_ok_def users_ok_def dest: distinct_map_eqD)
  then have "update_where (\<lambda>v. user_id v = user_id u) (count_failure u now) (users s) =
      map (\<lambda>v. if v = u then count_failure u now u else v) (users s)" for now
    unfolding update_where_def by (auto intro!: map_cong)
  then show ?thesis
    unfolding login_wrong_password_result [OF ok u wrong]
    by (simp add: failed_state_def count_failure_def)
qed

section \<open>A new session\<close>

definition session_row :: "auth_env \<Rightarrow> user \<Rightarrow> string \<Rightarrow> db \<Rightarrow> refresh_token" where
  "session_row env u ua s =
     \<lparr>tok_id = Suc (next_uuid s), tok_user_id = user_id u,
      tok_token_hash = hash_refresh_token env (env_secret env (secrets_drawn s)),
      tok_family_id = next_uuid s,
      tok_expires_at = env_clock env (ticks s) + seconds (refresh_token_ttl_seconds env),
      tok_revoked_at = None, tok_replaced_by_id = None,
      tok_user_agent_hash = Some (hash_metadata (sha256 env) ua (secret_key env))\<rparr>"

lemma new_session_ok:
  assumes ok: "sessions_ok s" and u: "user_id u \<in> user_id ` set (users s)"
    and fresh: "hash_refresh_token env (env_secret env (secrets_drawn s)) \<notin> tok_token_hash ` set (refresh_tokens s)"
  obtains res t where "new_session env u ua s = (Inr res, t)" "res_user res = u"
    "res_refresh_token res = env_secret env (secrets_drawn s)"
    "refresh_tokens t = refresh_tokens s @ [session_row env u ua s]" "users t = users s"
    "secrets_drawn t = Suc (secrets_drawn s)" "sessions_ok t"
proof -
  have "Suc (next_uuid s) \<notin> tok_id ` set (refresh_tokens s)"
    using ok by (fastforce simp: sessions_ok_def tokens_ok_def)
  then have ok1: "tok_id (session_row env u ua s) \<notin> tok_id ` set (refresh_tokens s)"
    "tok_token_hash (session_row env u ua s) \<notin> tok_token_hash ` set (refresh_tokens s)"
    using fresh by (simp_all add: session_row_def)
  obtain res t where r: "new_session env u ua s = (Inr res, t)" "res_user res = u"
    "res_refresh_token res = env_secret env (secrets_drawn s)"
    "refresh_tokens t = refresh_tokens s @ [session_row env u ua s]" "users t = users s"
    "secrets_drawn t = Suc (secrets_drawn s)"
    using ok1 u by (auto simp: new_session_def generate_refresh_token_def insert_refresh_token_def add_row_app
        create_access_token_eq session_row_def exists_user_def opt_ref_def)
  have "acct (refresh_tokens s) (user_id u) s" using kept_self [OF ok] u by (simp add: acct_def)
  then have "sessions_ok t"
    using new_session_acct [of "refresh_tokens s" u s env ua] r(1) by (simp add: acct_def kept_def)
  with r that show thesis by blast
qed

text \<open>
  A login with the right password for an active account, whatever the case and the
  surrounding spaces of the address typed, resets the failure counter, and hands out a
  refresh token of a new family, of which only the hash is stored.
\<close>

theorem login_accepts:
  assumes ok: "sessions_ok s" and u: "u \<in> set (users s)" "user_email u = normalize_email email"
    and pass: "verify_password env (user_password_hash u) pw" "user_is_active u"
    and current: "\<not> password_needs_rehash env (user_password_hash u)"
    and fresh: "hash_refresh_token env (env_secret env (secrets_drawn s)) \<notin> tok_token_hash ` set (refresh_tokens s)"
  shows "\<exists>res t q. commit_auth_operation (login env email pw cid ip ua) s = (Inr res, t)
    \<and> user_id (res_user res) = user_id u \<and> user_failed_login_count (res_user res) = 0
    \<and> res_user res \<in> set (users t)
    \<and> refresh_tokens t = refresh_tokens s @ [q]
    \<and> tok_token_hash q = hash_refresh_token env (res_refresh_token res)
    \<and> tok_user_id q = user_id u \<and> tok_revoked_at q = None
    \<and> tok_family_id q \<notin> tok_family_id ` set (refresh_tokens s)"
proof -
  let ?now = "env_clock env (ticks s)"
  let ?change = "\<lambda>v. v\<lparr>user_password_hash := user_password_hash u, user_failed_login_count := 0,
                      user_last_login_at := Some ?now\<rparr>"
  define s1 where "s1 = (tick s)\<lparr>users := update_where (\<lambda>v. user_id v = user_id u) ?change (users s)\<rparr>"
  have "acct (refresh_tokens s) (user_id u) (tick s)" using kept_self [OF ok] u by (simp add: acct_def)
  then have "acct (refresh_tokens s) (user_id u) ((tick s)\<lparr>users := update_where (\<lambda>v. user_id v = user_id u) ?change (users (tick s))\<rparr>)"
    by (rule acct_set_user) simp_all
  then have a1: "acct (refresh_tokens s) (user_id u) s1" by (simp add: s1_def)
  then have ok1: "sessions_ok s1" by (simp add: acct_def kept_def)
  have ex1: "opt_ref (exists_user s1) (Some (user_id u))"
    using a1 by (simp add: acct_def opt_ref_def exists_user_def)
  define s2 where "s2 = s1\<lparr>next_uuid := Suc (next_uuid s1),
     audit_logs := audit_logs s1 @ [audit_row env (next_uuid s1) ''auth.login'' ''success'' cid ip (Some (user_id u)) []]\<rparr>"
  have aud: "audit env ''auth.login'' ''success'' cid ip (Some (user_id u)) [] s1 = (Inr (), s2)"
    unfolding s2_def by (rule audit_ok [OF ok1 ex1])
  then have a2: "acct (refresh_tokens s) (user_id u) s2"
    using presD [OF preserves_auth_closed(1) [OF auth_closed_acct] a1] by (metis snd_conv)
  have "sessions_ok s2" "user_id (?change u) \<in> user_id ` set (users s2)"
    using a2 by (simp_all add: acct_def kept_def)
  moreover have "hash_refresh_token env (env_secret env (secrets_drawn s2)) \<notin> tok_token_hash ` set (refresh_tokens s2)"
    using fresh by (simp add: s2_def s1_def)
  ultimately obtain res t where t: "new_session env (?change u) ua s2 = (Inr res, t)" "res_user res = ?change u"
    "res_refresh_token res = env_secret env (secrets_drawn s2)"
    "refresh_tokens t = refresh_tokens s2 @ [session_row env (?change u) ua s2]" "users t = users s2"
    by (rule new_session_ok)
  have "login env email pw cid ip ua s = (Inr res, t)"
    using user_by_email_found [OF ok u(1)] u(2) pass current t(1) aud
    by (simp add: login_def set_user_def s1_def tick_def)
  then have c: "commit_auth_operation (login env email pw cid ip ua) s = (Inr res, t)"
    by (simp add: commit_auth_operation_def)
  have upd: "f r \<in> set (update_where (\<lambda>v. user_id v = user_id r) f rows)" if "r \<in> set rows" for f r and rows :: "user list"
    using that by (auto simp: in_update_where intro!: bexI [of _ r])
  have "?change u \<in> set (users t)"
    using upd [OF u(1), of ?change] t(5) by (simp add: s2_def s1_def)
  moreover have "next_uuid s2 \<notin> tok_family_id ` set (refresh_tokens s)"
    using ok by (fastforce simp: sessions_ok_def tokens_ok_def s2_def s1_def)
  ultimately show ?thesis using c t
    by (intro exI [of _ res] exI [of _ t] exI [of _ "session_row env (?change u) ua s2"])
      (simp add: session_row_def s2_def s1_def)
qed

text \<open>
  What an operation that opens or continues a session leaves: the account it names is
  stored and active, and the access token is the encoding of claims about that account.
\<close>

definition issued :: "auth_env \<Rightarrow> auth_result \<Rightarrow> db \<Rightarrow> bool" where
  "issued env res t \<longleftrightarrow> res_user res \<in> set (users t) \<and> user_is_active (res_user res)
     \<and> (\<exists>p. res_access_token res = jwt_encode env p (secret_key env) (access_token_algorithm env)
          \<and> pay_sub p = uuid_str (user_id (res_user res)) \<and> pay_type p = ''access''
          \<and> pay_exp p = res_access_expires_at res)"

lemma audit_users: "audit env action result cid ip actor details s = (r, t) \<Longrightarrow> users t = users s"
  using audit_same [of s env action result cid ip actor details] by (simp add: auth_same_def)

lemma issued_new_session:
  assumes "new_session env u ua s = (Inr res, t)" "u \<in> set (users s)" "user_is_active u"
  shows "issued env res t"
  using assms by (auto simp: new_session_def generate_refresh_token_def insert_refresh_token_def add_row_def
      create_access_token_eq bindp_eq_Inr thenp_eq_Inr issued_def draw_secret_def utcnow_def uuid4_def Let_def
      split: if_splits)

lemma issued_exchange:
  assumes "exchange_token env now c u cid ip ua s = (Inr res, t)" "u \<in> set (users s)" "user_is_active u"
  shows "issued env res t"
  using assms by (auto simp: exchange_token_eq create_access_token_eq bindp_eq_Inr thenp_eq_Inr issued_def Let_def
      exchange_state_def dest: audit_users split: if_splits)

lemma issued_login:
  assumes "login env email password cid ip ua s = (Inr res, t)"
  shows "issued env res t"
proof -
  obtain u s0 where l: "user_by_email (normalize_email email) s = (Inr (Some u), s0)"
    and active: "user_is_active u"
    and rest: "bindp (if password_needs_rehash env (user_password_hash u)
         then hash_password env password else ret (user_password_hash u)) (\<lambda>h.
       bindp (utcnow (env_clock env)) (\<lambda>now.
       thenp (set_user (user_id u) (\<lambda>v. v\<lparr>user_password_hash := h, user_failed_login_count := 0,
           user_last_login_at := Some now\<rparr>))
         (thenp (audit env ''auth.login'' ''success'' cid ip (Some (user_id u)) [])
         (new_session env (u\<lparr>user_password_hash := h, user_failed_login_count := 0,
           user_last_login_at := Some now\<rparr>) ua)))) s0 = (Inr res, t)"
    using assms by (auto simp: login_def bindp_eq_Inr thenp_eq_Inr Let_def split: option.splits if_splits)
  have u: "u \<in> set (users s0)" using found_by_email [OF l] by simp
  obtain h s1 where h: "users s1 = users s0" and rest1: "bindp (utcnow (env_clock env)) (\<lambda>now.
       thenp (set_user (user_id u) (\<lambda>v. v\<lparr>user_password_hash := h, user_failed_login_count := 0,
           user_last_login_at := Some now\<rparr>))
         (thenp (audit env ''auth.login'' ''success'' cid ip (Some (user_id u)) [])
         (new_session env (u\<lparr>user_password_hash := h, user_failed_login_count := 0,
           user_last_login_at := Some now\<rparr>) ua))) s1 = (Inr res, t)"
  proof -
    obtain h s1 where m: "(if password_needs_rehash env (user_password_hash u)
        then hash_password env password else ret (user_password_hash u)) s0 = (Inr h, s1)"
      and r: "bindp (utcnow (env_clock env)) (\<lambda>now.
       thenp (set_user (user_id u) (\<lambda>v. v\<lparr>user_password_hash := h, user_failed_login_count := 0,
           user_last_login_at := Some now\<rparr>))
         (thenp (audit env ''auth.login'' ''success'' cid ip (Some (user_id u)) [])
         (new_session env (u\<lparr>user_password_hash := h, user_failed_login_count := 0,
           user_last_login_at := Some now\<rparr>) ua))) s1 = (Inr res, t)"
      using rest unfolding bindp_eq_Inr [of "if _ then _ else _"] by blast
    have "users s1 = users s0"
      using m by (auto simp: hash_password_def bindp_eq_Inr split: if_split_asm)
    with r show ?thesis using that by blast
  qed
  let ?change = "\<lambda>v. v\<lparr>user_password_hash := h, user_failed_login_count := 0,
       user_last_login_at := Some (env_clock env (ticks s1))\<rparr>"
  obtain s2 s3 where s2: "set_user (user_id u) ?change (tick s1) = (Inr (), s2)"
    and s3: "audit env ''auth.login'' ''success'' cid ip (Some (user_id u)) [] s2 = (Inr (), s3)"
    and new: "new_session env (?change u) ua s3 = (Inr res, t)"
    using rest1 unfolding bindp_eq_Inr thenp_eq_Inr by (auto simp: tick_def)
  have "?change u \<in> set (users s2)"
    using s2 u h by (auto simp: set_user_def in_update_where intro!: bexI [of _ u])
  then show ?thesis using issued_new_session [OF new] active audit_users [OF s3] by simp
qed

lemma issued_rotate:
  assumes "rotate_token env raw cid ip ua s = (Inr res, t)"
  shows "issued env res t"
proof -
  let ?now = "env_clock env (ticks s)"
  obtain c s1 where "bindp (user_by_id (tok_user_id c)) (\<lambda>found_user. case found_user of
         None \<Rightarrow> thenp (revoke_family (tok_family_id c) ?now) (raise invalid_session)
       | Some u \<Rightarrow> if \<not> user_is_active u then thenp (revoke_family (tok_family_id c) ?now) (raise invalid_session)
           else exchange_token env ?now c u cid ip ua) s1 = (Inr res, t)"
    using assms by (auto simp: rotate_token_def bindp_eq_Inr [of "utcnow _"] bindp_eq_Inr [of "token_by_hash_for_update _"]
        thenp_eq_Inr split: option.split_asm if_split_asm)
  then obtain found s2 where found: "user_by_id (tok_user_id c) s1 = (Inr found, s2)"
    and rest: "(case found of
         None \<Rightarrow> thenp (revoke_family (tok_family_id c) ?now) (raise invalid_session)
       | Some u \<Rightarrow> if \<not> user_is_active u then thenp (revoke_family (tok_family_id c) ?now) (raise invalid_session)
           else exchange_token env ?now c u cid ip ua) s2 = (Inr res, t)"
    unfolding bindp_eq_Inr by blast
  obtain u where u: "found = Some u" using rest by (cases found) (auto simp: thenp_eq_Inr)
  have "user_is_active u" "exchange_token env ?now c u cid ip ua s2 = (Inr res, t)"
    using rest u by (auto simp: thenp_eq_Inr split: if_split_asm)
  with issued_exchange [of env ?now c u cid ip ua s2 res t] found_by_id [OF found [unfolded u]] show ?thesis by simp
qed

lemma issued_register:
  assumes "register env email password name cid ip ua s = (Inr res, t)"
  shows "issued env res t"
  using assms
  by (auto simp: register_def bindp_eq_Inr thenp_eq_Inr insert_user_def add_row_def Let_def split: option.splits if_splits
      dest!: audit_users intro!: issued_new_session)

section \<open>A concrete run\<close>

text \<open>
  A sample environment for the concrete instances: a clock of one second per reading,
  numbered secrets, and a transparent stand-in for each external function that behaves as
  documented (verification accepts exactly the hashed password).
\<close>

definition sample_env :: auth_env where
  "sample_env = \<lparr>env_clock = (\<lambda>n. int n * 1000000), env_secret = (\<lambda>n. ''s'' @ nat_str n),
     sha256 = (\<lambda>t. ''#'' @ t), ph_hash = (\<lambda>salt pw. pw), ph_verify = (\<lambda>h pw. Some (h = pw)),
     ph_needs_rehash = (\<lambda>h. Some False), jwt_encode = (\<lambda>p k a. pay_sub p), secret_key = ''k'',
     access_token_algorithm = ''HS256'', access_token_ttl_seconds = 900,
     refresh_token_ttl_seconds = 1000\<rparr>"

definition sample_token :: "uuid \<Rightarrow> string \<Rightarrow> timestamp option \<Rightarrow> uuid option \<Rightarrow> refresh_token" where
  "sample_token i h revoked repl = \<lparr>tok_id = i, tok_user_id = 0, tok_token_hash = h,
     tok_family_id = 1, tok_expires_at = 500000000, tok_revoked_at = revoked,
     tok_replaced_by_id = repl, tok_user_agent_hash = None\<rparr>"

definition sample_db :: db where
  "sample_db = empty_db\<lparr>users := [sample_user],
     refresh_tokens := [sample_token 2 ''#old'' (Some 5) (Some 3), sample_token 3 ''#new'' None None],
     next_uuid := 4\<rparr>"

lemma sample_db_ok: "sessions_ok sample_db"
  by (simp add: sample_db_def empty_db_def sample_user_def sample_token_def sessions_ok_def
      users_ok_def tokens_ok_def one_active_def link_ok_def family_ids_def)

lemma sample_hashes [simp]:
  "hash_refresh_token sample_env ''old'' = ''#old''" "hash_refresh_token sample_env ''new'' = ''#new''"
  "hash_refresh_token sample_env (env_secret sample_env 0) = ''#s0''"
  by code_simp+

lemma sample_db_simps [simp]:
  "users sample_db = [sample_user]" "ticks sample_db = 0" "secrets_drawn sample_db = 0"
  "refresh_tokens sample_db = [sample_token 2 ''#old'' (Some 5) (Some 3), sample_token 3 ''#new'' None None]"
  by (simp_all add: sample_db_def empty_db_def)

lemma sample_token_simps [simp]:
  "tok_token_hash (sample_token i h r p) = h" "tok_revoked_at (sample_token i h r p) = r"
  "tok_family_id (sample_token i h r p) = 1" "tok_user_id (sample_token i h r p) = 0"
  "tok_expires_at (sample_token i h r p) = 500000000"
  by (simp_all add: sample_token_def)

lemma sample_user_simps [simp]:
  "user_id sample_user = 0" "user_is_active sample_user" "user_email sample_user = ''a@b.io''"
  "user_password_hash sample_user = ''pw''"
  by (simp_all add: sample_user_def)

lemma sample_env_simps [simp]:
  "env_clock sample_env n = int n * 1000000"
  "verify_password sample_env h p = (h = p)" "\<not> password_needs_rehash sample_env h"
  by (simp_all add: sample_env_def verify_password_def password_needs_rehash_def)

lemma sample_email: "normalize_email '' A@B.io '' = ''a@b.io''"
  by code_simp

lemma sample_rotation:
  obtains res t where "commit_auth_operation (rotate_token sample_env ''new'' ''c'' ''ip'' ''ua'') sample_db = (Inr res, t)"
proof -
  have "\<exists>res t. commit_auth_operation (rotate_token sample_env ''new'' ''c'' ''ip'' ''ua'') sample_db = (Inr res, t)"
    using live_rotation [OF sample_db_ok, of "sample_token 3 ''#new'' None None" sample_env "''new''" sample_user "''c''" "''ip''" "''ua''"]
    by auto
  with that show thesis by blast
qed

lemma one_usable_token_per_login_witness:
  "distinct (map user_email (users (auth_exec sample_env (CallLogoutAll 0 ''c'' ''ip'') empty_db)))"
  using one_usable_token_per_login [of sample_env "auth_exec sample_env (CallLogoutAll 0 ''c'' ''ip'') empty_db"]
    reaches_one [of "auth_step sample_env" empty_db "auth_exec sample_env (CallLogoutAll 0 ''c'' ''ip'') empty_db"]
  by (auto simp only: auth_step_def)

lemma revoked_stays_revoked_witness:
  "\<exists>q \<in> set (refresh_tokens (auth_exec sample_env (CallLogoutAll 0 ''c'' ''ip'') sample_db)).
     tok_token_hash q = ''#old'' \<and> tok_revoked_at q = Some 5"
proof -
  have "reaches (auth_step sample_env) sample_db (auth_exec sample_env (CallLogoutAll 0 ''c'' ''ip'') sample_db)"
    by (rule reaches_one) (auto simp only: auth_step_def)
  from revoked_stays_revoked [OF sample_db_ok this, of "sample_token 2 ''#old'' (Some 5) (Some 3)" 5]
  show ?thesis by simp
qed

lemma replay_revokes_family_witness:
  "\<exists>t. commit_auth_operation (rotate_token sample_env ''old'' ''c'' ''ip'' ''ua'') sample_db = (Inl invalid_session, t)"
  using replay_revokes_family [OF sample_db_ok, of "sample_token 2 ''#old'' (Some 5) (Some 3)" sample_env "''old''" "''c''" "''ip''" "''ua''"]
  by auto

lemma refresh_exchanges_token_witness:
  "\<exists>res t. commit_auth_operation (rotate_token sample_env ''new'' ''c'' ''ip'' ''ua'') sample_db = (Inr res, t)
     \<and> res_user res = sample_user"
  using refresh_exchanges_token [OF sample_db_ok, of "sample_token 3 ''#new'' None None" sample_env "''new''" sample_user "''c''" "''ip''" "''ua''"]
  by auto

lemma refresh_needs_live_token_witness:
  "\<exists>c \<in> set (refresh_tokens sample_db). tok_token_hash c = ''#new'' \<and> tok_revoked_at c = None"
proof -
  obtain res t where "commit_auth_operation (rotate_token sample_env ''new'' ''c'' ''ip'' ''ua'') sample_db = (Inr res, t)"
    by (rule sample_rotation)
  from refresh_needs_live_token [OF sample_db_ok this] show ?thesis by auto
qed

lemma logout_all_revokes_all_witness:
  "\<exists>t. commit_or_rollback (logout_all sample_env 0 ''c'' ''ip'') sample_db = (Inr (), t)
     \<and> filter (\<lambda>q. tok_user_id q \<noteq> 0) (refresh_tokens t) = []"
  using logout_all_revokes_all [OF sample_db_ok, of 0 sample_env "''c''" "''ip''"] by auto

lemma login_refusals_alike_witness:
  "\<exists>t. commit_auth_operation (login sample_env '' A@B.io '' ''no'' ''c'' ''ip'' ''ua'') sample_db =
     (Inl (AppErr (Unauthorized generic_login_error)), t)"
  using login_refusals_alike [OF sample_db_ok, of "'' A@B.io ''" sample_env "''no''" "''c''" "''ip''" "''ua''"]
  by auto

lemma wrong_password_counted_witness:
  "map user_failed_login_count (users (snd (commit_auth_operation
     (login sample_env '' A@B.io '' ''no'' ''c'' ''ip'' ''ua'') sample_db))) = [3]"
  using wrong_password_counted [OF sample_db_ok, of sample_user "'' A@B.io ''" sample_env "''no''" "''c''" "''ip''" "''ua''"]
  by (simp add: sample_email) (simp add: sample_user_def)

lemma login_accepts_witness:
  "\<exists>res t. commit_auth_operation (login sample_env '' A@B.io '' ''pw'' ''c'' ''ip'' ''ua'') sample_db = (Inr res, t)
     \<and> user_failed_login_count (res_user res) = 0"
  using login_accepts [OF sample_db_ok, of sample_user "'' A@B.io ''" sample_env "''pw''" "''c''" "''ip''" "''ua''"]
  by (auto simp: sample_email)

lemma stolen_token_ends_session_witness:
  "\<exists>res t t2. commit_auth_operation (rotate_token sample_env ''new'' ''c'' ''ip'' ''ua'') sample_db = (Inr res, t)
     \<and> fst (commit_auth_operation (rotate_token sample_env (res_refresh_token res) ''c'' ''ip'' ''ua'') t2) = Inl invalid_session"
proof -
  obtain res t where r: "commit_auth_operation (rotate_token sample_env ''new'' ''c'' ''ip'' ''ua'') sample_db = (Inr res, t)"
    by (rule sample_rotation)
  from stolen_token_ends_session [OF sample_db_ok this refl] r show ?thesis by blast
qed

end
