(* ===== verification/Cloning.thy ===== *)
theory Cloning
  imports RemoteUrl Domain
begin

text \<open>
  Cloning a repository into a fresh workspace: \<^verbatim>\<open>clone_repository\<close> of
  \<^verbatim>\<open>app/services/ingestion.py\<close> and its helpers. What \<^verbatim>\<open>subprocess.run\<close> gives for
  the n-th process started, its command line and its working directory is a parameter, and
  so is the creation of the parent directory; the captured output, which nothing reads, is
  left out. The state records which workspace directories are on disk: from the first git
  command on the destination counts as present, and \<^verbatim>\<open>rmtree\<close> removes it.
\<close>

section \<open>Processes\<close>

text \<open>
  The ways \<^verbatim>\<open>subprocess.run(text=True, check=False)\<close> ends: a return code and the standard
  output, \<^verbatim>\<open>TimeoutExpired\<close>, an \<^verbatim>\<open>OSError\<close> when the program cannot be started, and a
  \<^verbatim>\<open>UnicodeDecodeError\<close> (a \<^verbatim>\<open>ValueError\<close>) when the output is not text.
\<close>

datatype proc_outcome = Completed int string | ProcTimeout | ProcOSError string | ProcUndecodable

record host =
  host_proc :: "nat \<Rightarrow> string list \<Rightarrow> string option \<Rightarrow> proc_outcome"
  host_mkdir_ok :: bool

definition run_process :: "host \<Rightarrow> string list \<Rightarrow> string option \<Rightarrow> (int \<times> string) session" where
  "run_process h command cwd = (\<lambda>s.
     let s1 = s\<lparr>procs_run := Suc (procs_run s)\<rparr>
     in case host_proc h (procs_run s) command cwd of
          Completed rc out \<Rightarrow> (Inr (rc, out), s1)
        | ProcTimeout \<Rightarrow> (Inl TimeoutExpired, s1)
        | ProcOSError m \<Rightarrow> (Inl (OSError m), s1)
        | ProcUndecodable \<Rightarrow> (Inl (ValueError ''codec''), s1))"

definition touch_workspace :: "string \<Rightarrow> unit session" where
  "touch_workspace ws = modify (\<lambda>s. if ws \<in> set (workspaces s) then s else s\<lparr>workspaces := ws # workspaces s\<rparr>)"

definition safe_rmtree :: "string \<Rightarrow> unit session" where
  "safe_rmtree ws = modify (\<lambda>s. s\<lparr>workspaces := removeAll ws (workspaces s)\<rparr>)"

section \<open>The clone\<close>

record clone_result =
  clone_commit_sha :: string
  clone_workspace :: string

fun run_clone_commands :: "host \<Rightarrow> string \<Rightarrow> clone_command list \<Rightarrow> unit session" where
  "run_clone_commands h ws [] = ret ()"
| "run_clone_commands h ws (c # cs) =
     thenp (touch_workspace ws)
       (bindp (run_process h (cc_command c) (cc_cwd c)) (\<lambda>(rc, out).
        if rc \<noteq> 0 then raise (CloneFailureError ''clone_failed'' ''Repository could not be cloned'')
        else run_clone_commands h ws cs))"

definition resolution_failed :: exn where
  "resolution_failed =
     CloneFailureError ''commit_resolution_failed'' ''Repository revision could not be resolved''"

definition resolve_commit_sha :: "host \<Rightarrow> string \<Rightarrow> string session" where
  "resolve_commit_sha h ws =
     bindp (run_process h [''git'', ''rev-parse'', ''HEAD''] (Some ws)) (\<lambda>(rc, out).
       if rc \<noteq> 0 then raise resolution_failed
       else let commit = strip out
            in if length commit \<noteq> 40 \<or> \<not> looks_like_commit_sha commit then raise resolution_failed
               else ret (lower commit))"

definition clone_handler :: "string \<Rightarrow> exn \<Rightarrow> clone_result session" where
  "clone_handler ws e =
     (case e of
        TimeoutExpired \<Rightarrow>
          thenp (safe_rmtree ws) (raise (CloneFailureError ''clone_timeout'' ''Repository clone timed out''))
      | CloneFailureError c m \<Rightarrow> thenp (safe_rmtree ws) (raise e)
      | OSError m \<Rightarrow>
          thenp (safe_rmtree ws) (raise (CloneFailureError ''git_unavailable'' ''Git is not available''))
      | _ \<Rightarrow> raise e)"

definition clone_repository ::
    "host \<Rightarrow> string \<Rightarrow> string option \<Rightarrow> string \<Rightarrow> clone_result session" where
  "clone_repository h url ref workspace_parent =
     (if \<not> host_mkdir_ok h then raise (OSError ''mkdir'')
      else bindp uuid4 (\<lambda>i.
        let ws = workspace_parent @ ''/repo-'' @ hex_width 32 i
        in catch
             (thenp (run_clone_commands h ws (build_clone_commands url ref ws))
               (bindp (resolve_commit_sha h ws) (\<lambda>sha.
                ret \<lparr>clone_commit_sha = sha, clone_workspace = ws\<rparr>)))
             (clone_handler ws)))"

section \<open>Properties\<close>

text \<open>The disk during one clone: no row changes and nothing appears but the new workspace.\<close>

definition disk_ok :: "string \<Rightarrow> db \<Rightarrow> db \<Rightarrow> bool" where
  "disk_ok ws s t \<longleftrightarrow> same_rows s t \<and> set (workspaces t) \<subseteq> insert ws (set (workspaces s))"

lemma disk_ok_step:
  "disk_ok ws s t \<Longrightarrow> same_rows t u \<Longrightarrow> set (workspaces u) \<subseteq> insert ws (set (workspaces t)) \<Longrightarrow> disk_ok ws s u"
  unfolding disk_ok_def by (blast intro: same_rows_trans)

lemma disk_ok_run_process [pres]: "preserves (disk_ok ws s) (run_process h c cwd)"
proof (rule preservesI)
  fix t assume "disk_ok ws s t"
  then show "disk_ok ws s (snd (run_process h c cwd t))"
    by (rule disk_ok_step) (auto simp: run_process_def Let_def same_rows_def split: proc_outcome.splits)
qed

lemma disk_ok_touch [pres]: "preserves (disk_ok ws s) (touch_workspace ws)"
proof (rule preservesI)
  fix t assume "disk_ok ws s t"
  then show "disk_ok ws s (snd (touch_workspace ws t))"
    by (rule disk_ok_step) (auto simp: touch_workspace_def same_rows_def)
qed

lemma disk_ok_commands [pres]: "preserves (disk_ok ws s) (run_clone_commands h ws cs)"
proof (induction cs)
  case (Cons c cs)
  then show ?case unfolding run_clone_commands.simps by (intro pres) simp_all
qed (simp only: run_clone_commands.simps preserves_ret)

lemma disk_ok_resolve [pres]: "preserves (disk_ok ws s) (resolve_commit_sha h w)"
  unfolding resolve_commit_sha_def Let_def by (intro pres)

lemma disk_ok_rmtree:
  assumes "disk_ok ws s t"
  shows "disk_ok ws s (snd (safe_rmtree ws t)) \<and> ws \<notin> set (workspaces (snd (safe_rmtree ws t)))"
  using disk_ok_step [OF assms, of "snd (safe_rmtree ws t)"]
  by (auto simp: safe_rmtree_def same_rows_def)

text \<open>What can go wrong inside the \<^verbatim>\<open>try\<close> block.\<close>

definition clone_errors :: "exn set" where
  "clone_errors = {TimeoutExpired, ValueError ''codec''} \<union> range OSError
     \<union> {e. \<exists>c m. e = CloneFailureError c m}"

lemma run_process_errors [exns]: "raises_only clone_errors (run_process h c cwd)"
  by (auto simp: raises_only_def run_process_def Let_def clone_errors_def split: proc_outcome.splits)

lemma run_commands_errors [exns]: "raises_only clone_errors (run_clone_commands h ws cs)"
proof (induction cs)
  case (Cons c cs)
  then show ?case unfolding run_clone_commands.simps touch_workspace_def
    by (intro exns) (simp_all add: clone_errors_def)
qed (simp only: run_clone_commands.simps raises_only_basic)

lemma resolve_errors [exns]: "raises_only clone_errors (resolve_commit_sha h ws)"
  unfolding resolve_commit_sha_def Let_def resolution_failed_def
  by (intro exns) (simp_all add: clone_errors_def)

definition lower_hex :: "string \<Rightarrow> bool" where
  "lower_hex t = list_all (\<lambda>c. c \<in> set ''0123456789abcdef'') t"

lemma lower_hex_lower:
  assumes "looks_like_commit_sha t"
  shows "lower_hex (lower t)"
proof -
  have "lower_char c \<in> set ''0123456789abcdef''" if "c \<in> set ''0123456789abcdefABCDEF''" for c
  proof -
    have "list_all (\<lambda>c. lower_char c \<in> set ''0123456789abcdef'') ''0123456789abcdefABCDEF''"
      by code_simp
    with that show ?thesis unfolding list_all_iff by blast
  qed
  then show ?thesis
    using assms unfolding looks_like_commit_sha_def lower_def lower_hex_def list_all_iff by auto
qed

lemma resolve_commit_sha_ok:
  "resolve_commit_sha h ws s = (Inr sha, t) \<Longrightarrow> length sha = 40 \<and> lower_hex sha"
  by (auto simp: resolve_commit_sha_def Let_def resolution_failed_def bindp_eq_Inr lower_hex_lower
      split: if_splits) (simp add: lower_def)

text \<open>The body of the \<^verbatim>\<open>try\<close> block.\<close>

definition clone_body :: "host \<Rightarrow> string \<Rightarrow> string \<Rightarrow> string option \<Rightarrow> clone_result session" where
  "clone_body h ws url ref = thenp (run_clone_commands h ws (build_clone_commands url ref ws))
     (bindp (resolve_commit_sha h ws) (\<lambda>sha. ret \<lparr>clone_commit_sha = sha, clone_workspace = ws\<rparr>))"

lemma clone_body_facts:
  "preserves (disk_ok ws s) (clone_body h ws url ref)"
  "raises_only clone_errors (clone_body h ws url ref)"
  unfolding clone_body_def by (intro pres, intro exns)

lemma clone_body_result:
  "clone_body h ws url ref s = (Inr res, t) \<Longrightarrow>
   clone_workspace res = ws \<and> length (clone_commit_sha res) = 40 \<and> lower_hex (clone_commit_sha res)"
  unfolding clone_body_def by (auto simp: thenp_eq_Inr bindp_eq_Inr dest!: resolve_commit_sha_ok)

lemma clone_handler_cases:
  assumes d: "disk_ok ws s s1" and e: "e \<in> clone_errors" and h: "clone_handler ws e s1 = (r, t)"
  shows "disk_ok ws s t \<and> ((\<exists>c m. r = Inl (CloneFailureError c m)) \<and> ws \<notin> set (workspaces t)
    \<or> r = Inl (ValueError ''codec''))"
proof -
  let ?u = "snd (safe_rmtree ws s1)"
  have rm: "thenp (safe_rmtree ws) n s1 = n ?u" for n :: "clone_result session"
    by (simp add: safe_rmtree_def)
  note after = disk_ok_rmtree [OF d]
  consider "e = TimeoutExpired" | "e = ValueError ''codec''" | m where "e = OSError m"
    | c m where "e = CloneFailureError c m"
    using e unfolding clone_errors_def by blast
  then show ?thesis
  proof cases
    case 1 then show ?thesis using h after unfolding clone_handler_def 1 exn.case rm by auto
  next
    case 2 then show ?thesis using h d unfolding clone_handler_def 2 exn.case by simp
  next
    case 3 then show ?thesis using h after unfolding clone_handler_def 3 exn.case rm by auto
  next
    case 4 then show ?thesis using h after unfolding clone_handler_def 4 exn.case rm by auto
  qed
qed

lemma clone_repository_facts:
  assumes "clone_repository h url ref parent s = (r, t)"
  shows "rows_of t = rows_of s
    \<and> (case r of
         Inr res \<Rightarrow> length (clone_commit_sha res) = 40 \<and> lower_hex (clone_commit_sha res)
           \<and> set (workspaces t) \<subseteq> insert (clone_workspace res) (set (workspaces s))
       | Inl (CloneFailureError c m) \<Rightarrow> set (workspaces t) \<subseteq> set (workspaces s)
       | Inl e \<Rightarrow> e = ValueError ''codec'' \<or> e = OSError ''mkdir'' \<and> t = s)"
proof (cases "host_mkdir_ok h")
  case False
  then show ?thesis using assms by (auto simp: clone_repository_def)
next
  case True
  let ?ws = "parent @ ''/repo-'' @ hex_width 32 (next_uuid s)"
  let ?s1 = "s\<lparr>next_uuid := Suc (next_uuid s)\<rparr>"
  have c: "catch (clone_body h ?ws url ref) (clone_handler ?ws) ?s1 = (r, t)"
    using assms True unfolding clone_body_def by (simp add: clone_repository_def Let_def)
  obtain q u where b: "clone_body h ?ws url ref ?s1 = (q, u)" by fastforce
  have "disk_ok ?ws s ?s1" by (auto simp: disk_ok_def same_rows_def)
  then have d: "disk_ok ?ws s u" using presD [OF clone_body_facts(1), of ?ws s ?s1 h url ref] b by simp
  show ?thesis
  proof (cases q)
    case (Inr res)
    then have "r = Inr res" "u = t" using c b by auto
    moreover have "clone_workspace res = ?ws \<and> length (clone_commit_sha res) = 40 \<and> lower_hex (clone_commit_sha res)"
      using clone_body_result b Inr by blast
    ultimately show ?thesis using d by (auto simp: disk_ok_def same_rows_def)
  next
    case (Inl e)
    then have "e \<in> clone_errors" using raises_onlyD [OF clone_body_facts(2)] b by blast
    moreover have "clone_handler ?ws e u = (r, t)" using c b Inl by simp
    ultimately show ?thesis
      using clone_handler_cases [OF d, of e r t] by (auto simp: disk_ok_def same_rows_def)
  qed
qed


text \<open>A git that works, and one whose output is not text.\<close>

definition sample_host :: host where
  "sample_host = \<lparr>host_proc = (\<lambda>n command cwd.
       if command = [''git'', ''rev-parse'', ''HEAD''] then Completed 0 (replicate 40 (CHR ''A'') @ [CHR 0x0A])
       else Completed 0 []), host_mkdir_ok = True\<rparr>"

definition undecodable_host :: host where
  "undecodable_host = \<lparr>host_proc = (\<lambda>n command cwd. ProcUndecodable), host_mkdir_ok = True\<rparr>"


text \<open>
  Git output that is not valid text raises an exception no handler of clone_repository
  catches: the workspace stays on disk.
\<close>

theorem clone_leaks_on_undecodable_output:
  "\<exists>t. clone_repository undecodable_host url ref parent s = (Inl (ValueError ''codec''), t)
     \<and> (parent @ ''/repo-'' @ hex_width 32 (next_uuid s)) \<in> set (workspaces t)"
  by (simp add: clone_repository_def undecodable_host_def build_clone_commands_def Let_def
      touch_workspace_def run_process_def clone_handler_def thenp_def bindp_def catch_def)

end
