(* ===== verification/Scanner.thy ===== *)
theory Scanner
  imports PyStr
begin

text \<open>
  Scanning a cloned workspace: \<^verbatim>\<open>scan_repository\<close> of \<^verbatim>\<open>app/services/ingestion.py\<close> with
  the pattern matching of \<^verbatim>\<open>fnmatch\<close>. The workspace is a tree of directory entries in the
  order \<^verbatim>\<open>os.walk\<close> lists them; the attributes of a file are what the calls on it give.
  A link to a directory is listed among the directories and not entered. UTF-8 decoding and
  SHA-256 are parameters (the characters of the model are those below 256).
\<close>

section \<open>The file tree\<close>

text \<open>
  \<open>None\<close> in \<open>fa_lstat\<close>, \<open>fa_stat\<close> and \<open>fa_bytes\<close> is an \<^verbatim>\<open>OSError\<close> of \<^verbatim>\<open>lstat\<close>, of
  \<^verbatim>\<open>stat\<close> (which follows links) and of \<^verbatim>\<open>read_bytes\<close>; \<open>fa_inside\<close> says that the resolved
  path is below the root.
\<close>

record file_attrs =
  fa_lstat :: "nat option"
  fa_symlink :: bool
  fa_inside :: bool
  fa_stat :: "nat option"
  fa_bytes :: "string option"

datatype fs_node = FsDir string "fs_node list" | FsDirLink string | FsFile string file_attrs

record scan_env =
  ingestion_max_total_bytes :: nat
  ingestion_max_files :: nat
  ingestion_max_file_bytes :: nat
  ingestion_max_path_length :: nat
  ingestion_max_nesting_depth :: nat
  ingestion_max_text_lines :: nat
  ingestion_max_symlinks :: nat
  decode_utf8 :: "string \<Rightarrow> string option"
  sha256_hex :: "string \<Rightarrow> string"

record scanned_file =
  sf_normalized_path :: string
  sf_language :: "string option"
  sf_size :: nat
  sf_content_hash :: string
  sf_line_count :: nat
  sf_indexing_status :: string
  sf_excluded_reason :: "string option"
  sf_content :: "string option"

record scan_result =
  scan_files :: "scanned_file list"
  scan_accepted_file_count :: nat
  scan_total_bytes :: nat

section \<open>Patterns\<close>

text \<open>
  \<^verbatim>\<open>fnmatch.fnmatch\<close> on POSIX. A bracket needs a closing one after its first character
  (and after a leading exclamation mark), else it stands for itself.
\<close>

fun take_class :: "string \<Rightarrow> (string \<times> string) option" where
  "take_class [] = None"
| "take_class (c # cs) = (if c = CHR '']'' then Some ([], cs)
     else case take_class cs of None \<Rightarrow> None | Some (a, r) \<Rightarrow> Some (c # a, r))"

definition split_class :: "string \<Rightarrow> (string \<times> string) option" where
  "split_class ps =
     (let (neg, r) = (if startswith ps ''!'' then (''!'', tl ps) else ([], ps));
          (lead, r2) = (if startswith r '']'' then ('']'', tl r) else ([], r))
      in case take_class r2 of None \<Rightarrow> None | Some (a, rest) \<Rightarrow> Some (neg @ lead @ a, rest))"

fun class_member :: "string \<Rightarrow> char \<Rightarrow> bool" where
  "class_member (a # d # b # rest) c =
     (if d = CHR ''-'' then (code a \<le> code c \<and> code c \<le> code b) \<or> class_member rest c
      else a = c \<or> class_member (d # b # rest) c)"
| "class_member [a, b] c = (a = c \<or> b = c)"
| "class_member [a] c = (a = c)"
| "class_member [] c = False"

definition class_ok :: "string \<Rightarrow> char \<Rightarrow> bool" where
  "class_ok stuff c = (if startswith stuff ''!'' then \<not> class_member (tl stuff) c else class_member stuff c)"

lemma take_class_shorter: "take_class ps = Some (a, rest) \<Longrightarrow> length rest < length ps"
  by (induction ps arbitrary: a rest) (auto split: if_splits option.splits)

lemma split_class_shorter: "split_class ps = Some (a, rest) \<Longrightarrow> length rest < length ps"
  by (auto simp: split_class_def Let_def split: option.splits if_splits dest!: take_class_shorter)

function fnmatch :: "string \<Rightarrow> string \<Rightarrow> bool" where
  "fnmatch t [] = (t = [])"
| "fnmatch t (p # ps) =
     (if p = CHR ''*'' then (fnmatch t ps \<or> (if t = [] then False else fnmatch (tl t) (p # ps)))
      else if t = [] then False
      else if p = CHR ''?'' then fnmatch (tl t) ps
      else if p = CHR ''['' then
        (case split_class ps of
           None \<Rightarrow> hd t = p \<and> fnmatch (tl t) ps
         | Some (stuff, rest) \<Rightarrow> class_ok stuff (hd t) \<and> fnmatch (tl t) rest)
      else hd t = p \<and> fnmatch (tl t) ps)"
  by pat_completeness auto
termination
  by (relation "measure (\<lambda>(t, p). length t + length p)") (auto dest!: split_class_shorter)

definition ignored_by_codepilotignore :: "string \<Rightarrow> string list \<Rightarrow> bool" where
  "ignored_by_codepilotignore relative patterns =
     list_ex (\<lambda>p. fnmatch relative p \<or> fnmatch (path_name relative) p) patterns"

text \<open>The lines of \<^verbatim>\<open>.codepilotignore\<close> that are patterns; undecodable text raises.\<close>

definition ignore_lines :: "string \<Rightarrow> string list" where
  "ignore_lines t = filter (\<lambda>l. l \<noteq> [] \<and> \<not> startswith l ''#'' \<and> \<not> startswith l ''!'')
     (map strip (splitlines t))"

fun root_file :: "string \<Rightarrow> fs_node list \<Rightarrow> file_attrs option" where
  "root_file name [] = None"
| "root_file name (FsFile n a # rest) = (if n = name then Some a else root_file name rest)"
| "root_file name (_ # rest) = root_file name rest"

definition load_codepilotignore :: "scan_env \<Rightarrow> fs_node list \<Rightarrow> exn + string list" where
  "load_codepilotignore env tree =
     (case root_file ''.codepilotignore'' tree of
        None \<Rightarrow> Inr []
      | Some a \<Rightarrow> (case fa_bytes a of
          None \<Rightarrow> Inr []
        | Some b \<Rightarrow> (case decode_utf8 env b of
            None \<Rightarrow> Inl (ValueError ''codec'')
          | Some t \<Rightarrow> Inr (ignore_lines t))))"

section \<open>Classification tables\<close>

definition excluded_dirs :: "string list" where
  "excluded_dirs = [''.git'', ''.hg'', ''.svn'', ''__pycache__'', ''.mypy_cache'', ''.pytest_cache'',
     ''.ruff_cache'', ''.tox'', ''.venv'', ''venv'', ''env'', ''node_modules'', ''vendor'', ''dist'',
     ''build'', ''coverage'', ''.next'', ''.nuxt'', ''target'']"

definition media_extensions :: "string list" where
  "media_extensions = [''.7z'', ''.a'', ''.avi'', ''.bmp'', ''.bz2'', ''.class'', ''.dll'', ''.dylib'',
     ''.exe'', ''.gif'', ''.gz'', ''.ico'', ''.jar'', ''.jpeg'', ''.jpg'', ''.mov'', ''.mp3'', ''.mp4'',
     ''.o'', ''.onnx'', ''.otf'', ''.pdf'', ''.png'', ''.pt'', ''.pyc'', ''.rar'', ''.so'', ''.tar'',
     ''.ttf'', ''.wav'', ''.webm'', ''.webp'', ''.woff'', ''.woff2'', ''.zip'']"

definition secret_filenames :: "string list" where
  "secret_filenames = [''.env'', ''.env.local'', ''.env.production'', ''.netrc'', ''id_rsa'',
     ''id_ed25519'', ''credentials'', ''credentials.json'', ''secrets.json'']"

definition secret_suffixes :: "string list" where
  "secret_suffixes = [''.pem'', ''.key'', ''.p12'', ''.pfx'']"

definition language_by_extension :: "(string \<times> string) list" where
  "language_by_extension = [(''.c'', ''C''), (''.cpp'', ''C++''), (''.cs'', ''C#''), (''.css'', ''CSS''),
     (''.go'', ''Go''), (''.html'', ''HTML''), (''.java'', ''Java''), (''.js'', ''JavaScript''),
     (''.json'', ''JSON''), (''.jsx'', ''JavaScript''), (''.kt'', ''Kotlin''), (''.md'', ''Markdown''),
     (''.php'', ''PHP''), (''.py'', ''Python''), (''.rb'', ''Ruby''), (''.rs'', ''Rust''),
     (''.sh'', ''Shell''), (''.sql'', ''SQL''), (''.swift'', ''Swift''), (''.toml'', ''TOML''),
     (''.ts'', ''TypeScript''), (''.tsx'', ''TypeScript''), (''.yaml'', ''YAML''), (''.yml'', ''YAML'')]"

definition detect_language :: "string \<Rightarrow> string option" where
  "detect_language path = map_of language_by_extension (casefold (path_suffix path))"

section \<open>One file\<close>

definition excluded :: "scan_env \<Rightarrow> string \<Rightarrow> string \<Rightarrow> nat \<Rightarrow> scanned_file" where
  "excluded env relative reason sz =
     \<lparr>sf_normalized_path = relative, sf_language = detect_language relative, sf_size = sz,
      sf_content_hash = sha256_hex env [], sf_line_count = 0, sf_indexing_status = ''excluded'',
      sf_excluded_reason = Some reason, sf_content = None\<rparr>"

definition is_binary :: "string \<Rightarrow> bool" where
  "is_binary data = (CHR 0x00 \<in> set (take 4096 data))"

definition secret_like :: "string \<Rightarrow> bool" where
  "secret_like relative =
     (casefold (path_name relative) \<in> set secret_filenames
      \<or> casefold (path_suffix relative) \<in> set secret_suffixes)"

definition exclusion_reason ::
    "scan_env \<Rightarrow> string list \<Rightarrow> string \<Rightarrow> file_attrs \<Rightarrow> string option" where
  "exclusion_reason env patterns relative a =
     (if ignored_by_codepilotignore relative patterns then Some ''codepilotignore''
      else if secret_like relative then Some ''secret_like''
      else if casefold (path_suffix relative) \<in> set media_extensions then Some ''binary_extension''
      else case fa_stat a of
             None \<Rightarrow> Some ''unreadable''
           | Some sz \<Rightarrow> if sz > ingestion_max_file_bytes env then Some ''file_too_large'' else None)"

definition scan_file :: "scan_env \<Rightarrow> string \<Rightarrow> file_attrs \<Rightarrow> scanned_file" where
  "scan_file env relative a =
     (case fa_bytes a of
        None \<Rightarrow> excluded env relative ''unreadable'' 0
      | Some data \<Rightarrow>
          if is_binary data then excluded env relative ''binary'' (length data)
          else case decode_utf8 env data of
                 None \<Rightarrow> excluded env relative ''invalid_encoding'' (length data)
               | Some t \<Rightarrow>
                   let line_count = length (splitlines t)
                   in if line_count > ingestion_max_text_lines env
                      then excluded env relative ''too_many_lines'' (length data)
                      else \<lparr>sf_normalized_path = relative, sf_language = detect_language relative,
                            sf_size = length data, sf_content_hash = sha256_hex env data,
                            sf_line_count = line_count, sf_indexing_status = ''accepted'',
                            sf_excluded_reason = None, sf_content = Some t\<rparr>)"

section \<open>The walk and the scan\<close>

text \<open>
  The files of a directory come first, then its directories in order, except the pruned
  ones; the entries are (relative path, attributes).
\<close>

fun dir_files :: "string \<Rightarrow> fs_node list \<Rightarrow> (string \<times> file_attrs) list" where
  "dir_files pre [] = []"
| "dir_files pre (FsFile n a # rest) = (child_path pre n, a) # dir_files pre rest"
| "dir_files pre (_ # rest) = dir_files pre rest"

definition enter_dir :: "string list \<Rightarrow> string \<Rightarrow> string \<Rightarrow> bool" where
  "enter_dir patterns pre name =
     (name \<notin> set excluded_dirs \<and> \<not> ignored_by_codepilotignore (child_path pre name) patterns)"

fun walk_dirs :: "string list \<Rightarrow> string \<Rightarrow> fs_node list \<Rightarrow> (string \<times> file_attrs) list" where
  "walk_dirs patterns pre [] = []"
| "walk_dirs patterns pre (FsDir n nodes # rest) =
     (if enter_dir patterns pre n
      then dir_files (child_path pre n) nodes @ walk_dirs patterns (child_path pre n) nodes
      else []) @ walk_dirs patterns pre rest"
| "walk_dirs patterns pre (_ # rest) = walk_dirs patterns pre rest"

definition walk :: "string list \<Rightarrow> fs_node list \<Rightarrow> (string \<times> file_attrs) list" where
  "walk patterns tree = dir_files [] tree @ walk_dirs patterns [] tree"

record scan_acc =
  acc_files :: "scanned_file list"
  acc_accepted :: nat
  acc_total_bytes :: nat
  acc_total_files :: nat
  acc_symlinks :: nat

definition clone_failure :: "string \<Rightarrow> string \<Rightarrow> exn + 'a" where
  "clone_failure c m = Inl (CloneFailureError c m)"

definition scan_step ::
    "scan_env \<Rightarrow> string list \<Rightarrow> string \<Rightarrow> file_attrs \<Rightarrow> scan_acc \<Rightarrow> exn + scan_acc" where
  "scan_step env patterns relative a acc =
     (if length relative > ingestion_max_path_length env then
        clone_failure ''path_too_long'' ''Repository contains a path that exceeds limits''
      else if length (path_parts relative) > ingestion_max_nesting_depth env then
        clone_failure ''path_too_deep'' ''Repository contains a path nested too deeply''
      else if \<not> fa_inside a then clone_failure ''path_escape'' ''Repository contains an unsafe path''
      else if acc_total_files acc + 1 > ingestion_max_files env then
        clone_failure ''file_count_limit'' ''Repository contains too many files''
      else let acc1 = acc\<lparr>acc_total_files := acc_total_files acc + 1\<rparr> in
      case fa_lstat a of
        None \<Rightarrow> Inr (acc1\<lparr>acc_files := acc_files acc @ [excluded env relative ''unreadable'' 0]\<rparr>)
      | Some sz \<Rightarrow>
          let acc2 = acc1\<lparr>acc_total_bytes := acc_total_bytes acc + sz\<rparr> in
          if acc_total_bytes acc2 > ingestion_max_total_bytes env then
            clone_failure ''repository_too_large'' ''Repository exceeds size limits''
          else if fa_symlink a then
            if acc_symlinks acc + 1 > ingestion_max_symlinks env then
              clone_failure ''symlink_limit'' ''Repository contains too many symlinks''
            else Inr (acc2\<lparr>acc_symlinks := acc_symlinks acc + 1,
                           acc_files := acc_files acc @ [excluded env relative ''symlink'' sz]\<rparr>)
          else case exclusion_reason env patterns relative a of
                 Some reason \<Rightarrow> Inr (acc2\<lparr>acc_files := acc_files acc @ [excluded env relative reason sz]\<rparr>)
               | None \<Rightarrow> Inr (acc2\<lparr>acc_files := acc_files acc @ [scan_file env relative a],
                                 acc_accepted := acc_accepted acc + 1\<rparr>))"

fun scan_entries ::
    "scan_env \<Rightarrow> string list \<Rightarrow> (string \<times> file_attrs) list \<Rightarrow> scan_acc \<Rightarrow> exn + scan_acc" where
  "scan_entries env patterns [] acc = Inr acc"
| "scan_entries env patterns ((relative, a) # rest) acc =
     (case scan_step env patterns relative a acc of
        Inl e \<Rightarrow> Inl e
      | Inr acc' \<Rightarrow> scan_entries env patterns rest acc')"

definition empty_acc :: scan_acc where
  "empty_acc = \<lparr>acc_files = [], acc_accepted = 0, acc_total_bytes = 0, acc_total_files = 0, acc_symlinks = 0\<rparr>"

definition scan_repository :: "scan_env \<Rightarrow> fs_node list \<Rightarrow> exn + scan_result" where
  "scan_repository env tree =
     (case load_codepilotignore env tree of
        Inl e \<Rightarrow> Inl e
      | Inr patterns \<Rightarrow>
          (case scan_entries env patterns (walk patterns tree) empty_acc of
             Inl e \<Rightarrow> Inl e
           | Inr acc \<Rightarrow> Inr \<lparr>scan_files = acc_files acc, scan_accepted_file_count = acc_accepted acc,
                             scan_total_bytes = acc_total_bytes acc\<rparr>))"

section \<open>What a scan guarantees\<close>

text \<open>What one step adds, and the bounds it keeps.\<close>

definition record_for :: "scan_env \<Rightarrow> string list \<Rightarrow> string \<times> file_attrs \<Rightarrow> scanned_file \<Rightarrow> bool" where
  "record_for env patterns e f = (case e of (relative, a) \<Rightarrow>
     sf_normalized_path f = relative
     \<and> (sf_indexing_status f = ''accepted'' \<longrightarrow>
          \<not> fa_symlink a \<and> fa_inside a \<and> exclusion_reason env patterns relative a = None
          \<and> (\<exists>data t. fa_bytes a = Some data \<and> \<not> is_binary data \<and> decode_utf8 env data = Some t
               \<and> sf_content f = Some t \<and> sf_size f = length data \<and> sf_content_hash f = sha256_hex env data
               \<and> sf_line_count f = length (splitlines t)
               \<and> sf_line_count f \<le> ingestion_max_text_lines env \<and> sf_excluded_reason f = None))
     \<and> (sf_indexing_status f \<noteq> ''accepted'' \<longrightarrow>
          sf_indexing_status f = ''excluded'' \<and> sf_excluded_reason f \<noteq> None \<and> sf_content f = None
          \<and> sf_line_count f = 0))"

definition acc_ok :: "scan_env \<Rightarrow> scan_acc \<Rightarrow> bool" where
  "acc_ok env acc \<longleftrightarrow> acc_total_files acc = length (acc_files acc)
     \<and> acc_total_files acc \<le> ingestion_max_files env
     \<and> acc_total_bytes acc \<le> ingestion_max_total_bytes env
     \<and> length (filter (\<lambda>f. sf_indexing_status f = ''accepted'') (acc_files acc)) \<le> acc_accepted acc
     \<and> acc_accepted acc \<le> length (acc_files acc)"

lemma record_for_excluded:
  "record_for env patterns (relative, a) (excluded env relative reason sz)"
  by (simp add: record_for_def excluded_def)

lemma status_excluded [simp]:
  "sf_indexing_status (excluded env relative reason sz) = ''excluded''"
  "sf_normalized_path (excluded env relative reason sz) = relative"
  by (simp_all add: excluded_def)

lemma record_for_scan_file:
  "exclusion_reason env patterns relative a = None \<Longrightarrow> \<not> fa_symlink a \<Longrightarrow> fa_inside a \<Longrightarrow>
   record_for env patterns (relative, a) (scan_file env relative a)"
  by (cases "fa_bytes a"; cases "decode_utf8 env (the (fa_bytes a))")
    (auto simp: scan_file_def Let_def record_for_def excluded_def)

lemma scan_step_ok:
  assumes step: "scan_step env patterns relative a acc = Inr acc'" and ok: "acc_ok env acc"
  shows "acc_ok env acc' \<and> length relative \<le> ingestion_max_path_length env
    \<and> length (path_parts relative) \<le> ingestion_max_nesting_depth env \<and> fa_inside a
    \<and> (\<exists>f. acc_files acc' = acc_files acc @ [f] \<and> record_for env patterns (relative, a) f)"
proof (cases "fa_lstat a")
  case None
  then show ?thesis using step ok
    by (auto simp: scan_step_def clone_failure_def Let_def acc_ok_def record_for_excluded split: if_splits)
next
  case (Some sz)
  note guards = step [unfolded scan_step_def clone_failure_def Let_def Some option.case]
  show ?thesis
  proof (cases "fa_symlink a")
    case True
    then show ?thesis using guards ok
      by (auto simp: acc_ok_def record_for_excluded split: if_splits)
  next
    case False
    then show ?thesis using guards ok
      by (cases "exclusion_reason env patterns relative a")
        (auto simp: acc_ok_def record_for_excluded record_for_scan_file split: if_splits)
  qed
qed

lemma scan_entries_ok:
  assumes "scan_entries env patterns es acc = Inr acc'" "acc_ok env acc"
  shows "acc_ok env acc'
    \<and> (\<forall>e \<in> set es. length (fst e) \<le> ingestion_max_path_length env
         \<and> length (path_parts (fst e)) \<le> ingestion_max_nesting_depth env \<and> fa_inside (snd e))
    \<and> (\<exists>fs. acc_files acc' = acc_files acc @ fs \<and> list_all2 (record_for env patterns) es fs)"
  using assms
proof (induction es arbitrary: acc)
  case Nil
  then show ?case by simp
next
  case (Cons e es)
  obtain relative a where e: "e = (relative, a)" by (cases e)
  with Cons.prems obtain m where m: "scan_step env patterns relative a acc = Inr m"
      "scan_entries env patterns es m = Inr acc'"
    by (auto split: sum.splits)
  note s = scan_step_ok [OF m(1) Cons.prems(2)]
  then obtain f where f: "acc_files m = acc_files acc @ [f]" "record_for env patterns (relative, a) f" by blast
  from s Cons.IH [OF m(2)] obtain fs where fs: "acc_files acc' = acc_files m @ fs"
      "list_all2 (record_for env patterns) es fs" by blast
  have "acc_files acc' = acc_files acc @ (f # fs) \<and> list_all2 (record_for env patterns) (e # es) (f # fs)"
    using f fs e by simp
  with s Cons.IH [OF m(2)] e show ?case by auto
qed

lemma scan_repository_ok:
  assumes "scan_repository env tree = Inr res"
  obtains patterns where "load_codepilotignore env tree = Inr patterns"
    "list_all2 (record_for env patterns) (walk patterns tree) (scan_files res)"
    "length (scan_files res) \<le> ingestion_max_files env"
    "scan_total_bytes res \<le> ingestion_max_total_bytes env"
    "length (filter (\<lambda>f. sf_indexing_status f = ''accepted'') (scan_files res)) \<le> scan_accepted_file_count res"
    "\<forall>e \<in> set (walk patterns tree). length (fst e) \<le> ingestion_max_path_length env
         \<and> length (path_parts (fst e)) \<le> ingestion_max_nesting_depth env \<and> fa_inside (snd e)"
proof -
  obtain patterns acc where p: "load_codepilotignore env tree = Inr patterns"
      "scan_entries env patterns (walk patterns tree) empty_acc = Inr acc"
    and res: "res = \<lparr>scan_files = acc_files acc, scan_accepted_file_count = acc_accepted acc,
                scan_total_bytes = acc_total_bytes acc\<rparr>"
    using assms by (auto simp: scan_repository_def split: sum.splits)
  have "acc_ok env empty_acc" by (simp add: acc_ok_def empty_acc_def)
  from scan_entries_ok [OF p(2) this] that p(1) res show thesis
    by (auto simp: acc_ok_def empty_acc_def)
qed

text \<open>
  A successful scan reports every file of the pruned tree once, in walk order, and the
  totals stay within the configured limits.
\<close>

theorem scan_reports_every_file:
  assumes "scan_repository env tree = Inr res"
  shows "\<exists>patterns. load_codepilotignore env tree = Inr patterns
    \<and> map sf_normalized_path (scan_files res) = map fst (walk patterns tree)
    \<and> length (scan_files res) \<le> ingestion_max_files env
    \<and> scan_total_bytes res \<le> ingestion_max_total_bytes env
    \<and> (\<forall>f \<in> set (scan_files res). length (sf_normalized_path f) \<le> ingestion_max_path_length env
         \<and> length (path_parts (sf_normalized_path f)) \<le> ingestion_max_nesting_depth env)"
proof -
  obtain patterns where p: "load_codepilotignore env tree = Inr patterns"
    "list_all2 (record_for env patterns) (walk patterns tree) (scan_files res)"
    "length (scan_files res) \<le> ingestion_max_files env"
    "scan_total_bytes res \<le> ingestion_max_total_bytes env"
    and lim: "\<forall>e \<in> set (walk patterns tree). length (fst e) \<le> ingestion_max_path_length env
         \<and> length (path_parts (fst e)) \<le> ingestion_max_nesting_depth env \<and> fa_inside (snd e)"
    by (rule scan_repository_ok [OF assms])
  have m: "map fst (walk patterns tree) = map sf_normalized_path (scan_files res)"
    using p(2) by (induction rule: list_all2_induct) (auto simp: record_for_def)
  have "length (sf_normalized_path f) \<le> ingestion_max_path_length env
         \<and> length (path_parts (sf_normalized_path f)) \<le> ingestion_max_nesting_depth env"
    if "f \<in> set (scan_files res)" for f
  proof -
    have "sf_normalized_path f \<in> set (map fst (walk patterns tree))" using that m by simp
    then show ?thesis using lim by auto
  qed
  with p m show ?thesis by auto
qed


section \<open>Distinct paths\<close>

text \<open>
  Names in one directory are distinct, not empty and without a slash, as file systems
  guarantee; then no two reported paths are equal, and the unique constraint on
  (revision, path) cannot fail.
\<close>

fun node_name :: "fs_node \<Rightarrow> string" where
  "node_name (FsDir n nodes) = n"
| "node_name (FsDirLink n) = n"
| "node_name (FsFile n a) = n"

definition good_name :: "string \<Rightarrow> bool" where
  "good_name n = (n \<noteq> [] \<and> CHR ''/'' \<notin> set n)"

fun wf_node :: "fs_node \<Rightarrow> bool" where
  "wf_node (FsDir n nodes) =
     (good_name n \<and> distinct (map node_name nodes) \<and> list_all wf_node nodes)"
| "wf_node (FsDirLink n) = good_name n"
| "wf_node (FsFile n a) = good_name n"

definition wf_tree :: "fs_node list \<Rightarrow> bool" where
  "wf_tree nodes = (distinct (map node_name nodes) \<and> list_all wf_node nodes)"

text \<open>The first component of what lies below a directory tells its entry.\<close>

definition below :: "string \<Rightarrow> string \<Rightarrow> string \<Rightarrow> bool" where
  "below pre name p = (p = child_path pre name \<or> (\<exists>r. p = child_path pre name @ ''/'' @ r))"

lemma takeWhile_name:
  "good_name n \<Longrightarrow> takeWhile (\<lambda>c. c \<noteq> CHR ''/'') (n @ CHR ''/'' # r) = n"
  by (simp add: good_name_def takeWhile_append takeWhile_tail)

lemma takeWhile_below:
  assumes g: "good_name n" and q: "q = n \<or> (\<exists>r. q = n @ CHR ''/'' # r)"
  shows "takeWhile (\<lambda>c. c \<noteq> CHR ''/'') q = n"
  using q
proof (elim disjE exE)
  assume "q = n"
  moreover have "takeWhile (\<lambda>c. c \<noteq> CHR ''/'') n = n"
    using g unfolding good_name_def takeWhile_eq_all_conv by metis
  ultimately show ?thesis by metis
next
  fix r assume "q = n @ CHR ''/'' # r"
  then show ?thesis using takeWhile_name [OF g] by metis
qed

lemma below_unique:
  assumes "below pre m p" "below pre n p" "good_name m" "good_name n"
  shows "m = n"
proof -
  have ex: "\<exists>q. (q = k \<or> (\<exists>r. q = k @ CHR ''/'' # r)) \<and> p = (if pre = [] then q else pre @ ''/'' @ q)"
    if "below pre k p" for k
    using that by (auto simp: below_def child_path_def split: if_splits)
  obtain q where q: "q = m \<or> (\<exists>r. q = m @ CHR ''/'' # r)" "p = (if pre = [] then q else pre @ ''/'' @ q)"
    using ex [OF assms(1)] by (elim exE conjE)
  obtain r where r: "r = n \<or> (\<exists>s. r = n @ CHR ''/'' # s)" "p = (if pre = [] then r else pre @ ''/'' @ r)"
    using ex [OF assms(2)] by (elim exE conjE)
  have "q = r" using q(2) r(2) by (cases "pre = []") simp_all
  then show ?thesis using takeWhile_below [OF assms(3) q(1)] takeWhile_below [OF assms(4) r(1)] by metis
qed

lemma below_child: "good_name n \<Longrightarrow> below (child_path pre n) m p \<Longrightarrow> good_name m \<Longrightarrow> below pre n p \<and> p \<noteq> child_path pre n"
  by (auto simp: below_def child_path_def good_name_def)

lemma dir_files_below:
  "e \<in> set (dir_files pre nodes) \<Longrightarrow> \<exists>n a. FsFile n a \<in> set nodes \<and> fst e = child_path pre n"
  by (induction pre nodes rule: dir_files.induct) auto

lemma walk_dirs_below:
  "list_all wf_node nodes \<Longrightarrow> e \<in> set (walk_dirs patterns pre nodes) \<Longrightarrow>
   \<exists>n ch. FsDir n ch \<in> set nodes \<and> below pre n (fst e) \<and> fst e \<noteq> child_path pre n"
proof (induction patterns pre nodes rule: walk_dirs.induct)
  case (2 patterns pre n ch rest)
  have wf: "good_name n" "list_all wf_node ch" "list_all wf_node rest" using 2 by auto
  from "2.prems"(2) consider "enter_dir patterns pre n" "e \<in> set (dir_files (child_path pre n) ch)"
    | "enter_dir patterns pre n" "e \<in> set (walk_dirs patterns (child_path pre n) ch)"
    | "e \<in> set (walk_dirs patterns pre rest)" by (auto split: if_splits)
  then show ?case
  proof cases
    case 1
    then obtain m a where m: "FsFile m a \<in> set ch" "fst e = child_path (child_path pre n) m"
      using dir_files_below by blast
    then have "good_name m" using wf(2) by (auto simp: list_all_iff)
    moreover have "below (child_path pre n) m (fst e)" using m(2) by (simp add: below_def)
    ultimately have "below pre n (fst e) \<and> fst e \<noteq> child_path pre n"
      using below_child [OF wf(1)] by blast
    then show ?thesis by auto
  next
    case 2
    with "2.IH"(1) wf obtain m c where m: "FsDir m c \<in> set ch" "below (child_path pre n) m (fst e)" by blast
    then have "good_name m" using wf(2) by (auto simp: list_all_iff)
    then show ?thesis using below_child [OF wf(1) m(2)] by auto
  next
    case 3
    with "2.IH"(2) wf show ?thesis by auto
  qed
qed auto

lemma child_path_inj: "good_name m \<Longrightarrow> good_name n \<Longrightarrow> child_path pre m = child_path pre n \<Longrightarrow> m = n"
  by (auto simp: child_path_def split: if_splits)

lemma dir_files_distinct:
  "distinct (map node_name nodes) \<Longrightarrow> list_all wf_node nodes \<Longrightarrow> distinct (map fst (dir_files pre nodes))"
proof (induction pre nodes rule: dir_files.induct)
  case (2 pre n a rest)
  have "child_path pre n \<notin> fst ` set (dir_files pre rest)"
  proof
    assume "child_path pre n \<in> fst ` set (dir_files pre rest)"
    then obtain m b where m: "FsFile m b \<in> set rest" "child_path pre n = child_path pre m"
      using dir_files_below by fastforce
    then have "n = m" using 2 by (auto simp: list_all_iff dest!: child_path_inj [rotated 2])
    with m(1) "2.prems"(1) show False by force
  qed
  with 2 show ?case by simp
qed auto

lemma files_and_dirs_disjoint:
  assumes "distinct (map node_name nodes)" "list_all wf_node nodes"
  shows "fst ` set (dir_files pre nodes) \<inter> fst ` set (walk_dirs patterns pre nodes) = {}"
proof (rule equals0I)
  fix p assume "p \<in> fst ` set (dir_files pre nodes) \<inter> fst ` set (walk_dirs patterns pre nodes)"
  then obtain e1 e2 where e: "e1 \<in> set (dir_files pre nodes)" "p = fst e1"
      "e2 \<in> set (walk_dirs patterns pre nodes)" "p = fst e2" by blast
  obtain n a where n: "FsFile n a \<in> set nodes" "p = child_path pre n"
    using dir_files_below [OF e(1)] e(2) by blast
  obtain m ch where m: "FsDir m ch \<in> set nodes" "below pre m p"
    using walk_dirs_below [OF assms(2) e(3)] e(4) by blast
  have "good_name n" "good_name m" using n(1) m(1) assms(2) by (auto simp: list_all_iff)
  moreover have "below pre n p" using n(2) by (simp add: below_def)
  ultimately have "n = m" using below_unique m(2) by blast
  then have "FsFile n a = FsDir m ch"
    using assms(1) n(1) m(1) by (auto dest: distinct_map_eqD)
  then show False by simp
qed

lemma walk_dirs_distinct:
  "distinct (map node_name nodes) \<Longrightarrow> list_all wf_node nodes \<Longrightarrow>
   distinct (map fst (walk_dirs patterns pre nodes))"
proof (induction patterns pre nodes rule: walk_dirs.induct)
  case (2 patterns pre n ch rest)
  have wf: "good_name n" "distinct (map node_name ch)" "list_all wf_node ch" "list_all wf_node rest"
    using 2 by auto
  let ?sub = "dir_files (child_path pre n) ch @ walk_dirs patterns (child_path pre n) ch"
  have sub: "distinct (map fst ?sub)" if "enter_dir patterns pre n"
    using "2.IH"(1) [OF that wf(2,3)] dir_files_distinct [OF wf(2,3)] files_and_dirs_disjoint [OF wf(2,3)]
    by auto
  have "fst ` set ?sub \<inter> fst ` set (walk_dirs patterns pre rest) = {}" if en: "enter_dir patterns pre n"
  proof (rule equals0I)
    fix p assume p: "p \<in> fst ` set ?sub \<inter> fst ` set (walk_dirs patterns pre rest)"
    then obtain e where e: "e \<in> set ?sub" "p = fst e" by auto
    have "\<exists>k c. FsDir k c \<in> set [FsDir n ch] \<and> below pre k (fst e) \<and> fst e \<noteq> child_path pre k"
      using walk_dirs_below [of "[FsDir n ch]" e patterns pre] wf en e(1) by simp
    then have "below pre n p" using e(2) by auto
    moreover obtain e2 where e2: "e2 \<in> set (walk_dirs patterns pre rest)" "p = fst e2"
      using p by blast
    moreover obtain m c where m: "FsDir m c \<in> set rest" "below pre m p"
      using walk_dirs_below [OF wf(4) e2(1)] e2(2) by blast
    moreover have "good_name m" using m(1) wf(4) by (auto simp: list_all_iff)
    ultimately have "n = m" using below_unique wf(1) by blast
    with m(1) "2.prems"(1) show False by force
  qed
  with 2 sub wf show ?case by auto
qed auto

text \<open>
  On a well-formed tree no path is reported twice, so that replacing the files of a
  revision cannot violate the unique constraint on (revision, path).
\<close>

theorem scan_paths_distinct:
  assumes "wf_tree tree" and "scan_repository env tree = Inr res"
  shows "distinct (map sf_normalized_path (scan_files res))"
proof -
  obtain patterns where p: "list_all2 (record_for env patterns) (walk patterns tree) (scan_files res)"
    by (rule scan_repository_ok [OF assms(2)])
  have m: "map fst (walk patterns tree) = map sf_normalized_path (scan_files res)"
    using p by (induction rule: list_all2_induct) (auto simp: record_for_def)
  have "distinct (map fst (walk patterns tree))"
    using assms(1) dir_files_distinct walk_dirs_distinct files_and_dirs_disjoint
    by (auto simp: wf_tree_def walk_def)
  with m show ?thesis by simp
qed

section \<open>Concrete trees\<close>

definition sample_scan_env :: scan_env where
  "sample_scan_env = \<lparr>ingestion_max_total_bytes = 1000, ingestion_max_files = 10,
     ingestion_max_file_bytes = 100, ingestion_max_path_length = 64, ingestion_max_nesting_depth = 4,
     ingestion_max_text_lines = 50, ingestion_max_symlinks = 2,
     decode_utf8 = (\<lambda>b. if list_all (\<lambda>c. code c < 128) b then Some b else None),
     sha256_hex = (\<lambda>b. ''#'' @ b)\<rparr>"

definition plain_file :: "string \<Rightarrow> file_attrs" where
  "plain_file b = \<lparr>fa_lstat = Some (length b), fa_symlink = False, fa_inside = True,
     fa_stat = Some (length b), fa_bytes = Some b\<rparr>"

definition sample_tree :: "fs_node list" where
  "sample_tree = [FsDir ''src'' [FsFile ''m.py'' (plain_file ''x = 1'')],
     FsDir ''node_modules'' [FsFile ''y.js'' (plain_file ''y'')], FsFile ''.env'' (plain_file ''K=1'')]"

lemma sample_scan:
  "scan_repository sample_scan_env sample_tree = Inr
    \<lparr>scan_files = [excluded sample_scan_env ''.env'' ''secret_like'' 3,
       scan_file sample_scan_env ''src/m.py'' (plain_file ''x = 1'')],
     scan_accepted_file_count = 1, scan_total_bytes = 8\<rparr>"
  by code_simp

lemma scan_reports_every_file_witness:
  "\<exists>patterns. load_codepilotignore sample_scan_env sample_tree = Inr patterns
     \<and> map fst (walk patterns sample_tree) = [''.env'', ''src/m.py'']"
  using scan_reports_every_file [OF sample_scan] by (auto simp: excluded_def scan_file_def plain_file_def
      sample_scan_env_def is_binary_def Let_def code_def list_all_iff split: if_splits) 


lemma scan_paths_distinct_witness:
  "distinct (map sf_normalized_path [excluded sample_scan_env ''.env'' ''secret_like'' 3,
       scan_file sample_scan_env ''src/m.py'' (plain_file ''x = 1'')])"
proof -
  have "wf_tree sample_tree" by code_simp
  from scan_paths_distinct [OF this sample_scan] show ?thesis by simp
qed

text \<open>
  The accepted-file count of a scan also counts files that are reported as excluded: a
  file that is read and found to be binary (or undecodable, or too long) adds one, so a
  workspace with no accepted file can have the count 1.
\<close>

theorem scan_counts_excluded_as_accepted:
  "scan_repository sample_scan_env [FsFile ''a'' (plain_file [CHR 0x00])] = Inr
    \<lparr>scan_files = [excluded sample_scan_env ''a'' ''binary'' 1], scan_accepted_file_count = 1,
     scan_total_bytes = 1\<rparr>"
  by code_simp

text \<open>
  An ignore file that is not valid UTF-8 aborts the scan with a bare ValueError, which
  the ingestion does not handle as a clone failure.
\<close>

theorem scan_aborts_on_undecodable_ignore_file:
  "scan_repository sample_scan_env [FsFile ''.codepilotignore'' (plain_file [CHR 0xFF])] =
     Inl (ValueError ''codec'')"
  by code_simp

end
