(* ===== verification/Ingestion.thy ===== *)
theory Ingestion
  imports Queries Cloning Scanner
begin

text \<open>
  The repository life cycle: \<^verbatim>\<open>IngestionService\<close> of \<^verbatim>\<open>app/services/ingestion.py\<close> and
  the worker of \<^verbatim>\<open>app/workers/tasks.py\<close> that runs it. A loaded row is named by its id;
  reading an attribute reads the row, assigning one updates it. The contract of the numbered
  event log, which two services share, is the locale \<open>event_log\<close>.
\<close>

section \<open>The state machine\<close>

definition allowed_state_transitions :: "repo_state \<Rightarrow> repo_state list" where
  "allowed_state_transitions st = (case st of
       Queued \<Rightarrow> [Cloning, Failed, Deleting]
     | Cloning \<Rightarrow> [Scanning, Failed, Deleting]
     | Scanning \<Rightarrow> [ReadyForIndexing, Failed, Deleting]
     | ReadyForIndexing \<Rightarrow> [Indexing, Ready, Deleting]
     | Indexing \<Rightarrow> [Ready, Failed, Deleting]
     | Ready \<Rightarrow> [Queued, Indexing, Deleting]
     | Failed \<Rightarrow> [Queued, Deleting]
     | Deleting \<Rightarrow> [Deleted, Failed]
     | Deleted \<Rightarrow> []
     | Pending \<Rightarrow> [])"

fun state_word :: "repo_state \<Rightarrow> string" where
  "state_word Pending = ''pending''"
| "state_word Queued = ''queued''"
| "state_word Cloning = ''cloning''"
| "state_word Scanning = ''scanning''"
| "state_word ReadyForIndexing = ''ready_for_indexing''"
| "state_word Indexing = ''indexing''"
| "state_word Ready = ''ready''"
| "state_word Failed = ''failed''"
| "state_word Deleting = ''deleting''"
| "state_word Deleted = ''deleted''"

definition loaded :: "('r option) session \<Rightarrow> 'r session" where
  "loaded q = bindp q (\<lambda>r. case r of None \<Rightarrow> raise (RuntimeError ''detached row'') | Some x \<Rightarrow> ret x)"

definition transition :: "uuid \<Rightarrow> repo_state \<Rightarrow> unit session" where
  "transition rid target = bindp (loaded (get_repository_row rid)) (\<lambda>r.
     if target \<notin> set (allowed_state_transitions (repo_status r))
     then raise (AppErr (InvalidState (''Cannot transition repository from '' @ state_word (repo_status r)
            @ '' to '' @ state_word target)))
     else set_repository rid (\<lambda>q. q\<lparr>repo_status := target\<rparr>))"

section \<open>Parameters\<close>

record ingest_env =
  ing_clock :: "nat \<Rightarrow> timestamp"
  ing_sha256 :: "string \<Rightarrow> string"
  ing_secret_key :: string
  ing_bracket_ok :: "string \<Rightarrow> bool"
  ing_host :: host
  ing_scan :: scan_env
  ing_tree :: "string \<Rightarrow> fs_node list"
  ing_workspace_root :: string

definition run_type_ingestion :: string where
  "run_type_ingestion = ''repository_ingestion''"

section \<open>Events and audit rows\<close>

definition add_event :: "(nat \<Rightarrow> timestamp) \<Rightarrow> uuid \<Rightarrow> string \<Rightarrow> string \<Rightarrow> unit session" where
  "add_event clock rid event_type message =
     bindp (next_sequence rid) (\<lambda>n.
     bindp uuid4 (\<lambda>i.
     bindp (utcnow clock) (\<lambda>now.
     insert_event \<lparr>event_id = i, event_run_id = rid, event_sequence = n,
       event_event_type = event_type, event_public_message = message,
       event_private_metadata = [], event_created_at = now\<rparr>)))"

definition repository_audit ::
    "ingest_env \<Rightarrow> string \<Rightarrow> string \<Rightarrow> string \<Rightarrow> string \<Rightarrow> uuid \<Rightarrow> uuid \<Rightarrow> unit session" where
  "repository_audit env action result correlation_id ip actor resource_id =
     bindp uuid4 (\<lambda>i. insert_audit_log
       \<lparr>audit_id = i, audit_actor_user_id = Some actor, audit_action = action,
        audit_resource_type = ''repository'', audit_resource_id = Some resource_id,
        audit_result = result, audit_correlation_id = take 128 correlation_id,
        audit_ip_hash = Some (hash_metadata (ing_sha256 env) ip (ing_secret_key env)),
        audit_details = []\<rparr>)"

section \<open>Creating, synchronising, deleting\<close>

text \<open>
  A requested ref is kept in the JSON configuration as a string or null, the only values
  the services store there; it counts when it is a string that is not empty.
\<close>

definition json_of_ref :: "string option \<Rightarrow> json" where
  "json_of_ref r = (case r of None \<Rightarrow> JNull | Some t \<Rightarrow> JStr t)"

definition ref_of_json :: "json option \<Rightarrow> string option" where
  "ref_of_json j = (case j of Some (JStr t) \<Rightarrow> if t = [] then None else Some t | _ \<Rightarrow> None)"

definition create_run :: "ingest_env \<Rightarrow> uuid \<Rightarrow> repository \<Rightarrow> string option \<Rightarrow> uuid session" where
  "create_run env owner_id repository ref =
     bindp uuid4 (\<lambda>i.
     bindp (utcnow (ing_clock env)) (\<lambda>now.
     thenp (insert_run
       \<lparr>run_id = i, run_owner_id = owner_id, run_repository_id = repo_id repository,
        run_revision_id = None, run_run_type = run_type_ingestion, run_status = RunQueued,
        run_input_summary = ''Ingest '' @ repo_normalized_clone_url repository,
        run_model_provider = ''local'', run_model_identifier = ''none'',
        run_prompt_version = ''phase-4-ingestion'', run_started_at = None,
        run_completed_at = None,
        run_cancellation_metadata =
          Some (case ref of None \<Rightarrow> []
                | Some t \<Rightarrow> if t = [] then [] else [(''requested_ref'', JStr t)]),
        run_error_code = None, run_error_message = None, run_input_units = None,
        run_output_units = None, run_created_at = now\<rparr>)
     (thenp (add_event (ing_clock env) i ''queued'' ''Repository ingestion queued'') (ret i))))"

definition insert_new_repository ::
    "ingest_env \<Rightarrow> uuid \<Rightarrow> normalized_repository_url \<Rightarrow> string option \<Rightarrow> repository session" where
  "insert_new_repository env owner_id normalized chosen_ref =
     bindp uuid4 (\<lambda>i.
     bindp (utcnow (ing_clock env)) (\<lambda>now.
     let r = \<lparr>repo_id = i, repo_owner_id = owner_id, repo_name = nu_name normalized,
              repo_normalized_clone_url = nu_clone_url normalized, repo_default_branch = None,
              repo_status = Queued, repo_latest_revision_id = None,
              repo_latest_indexed_revision_id = None,
              repo_indexing_config = [(''requested_ref'', json_of_ref chosen_ref)],
              repo_deleted_at = None, repo_deleted_by_id = None, repo_created_at = now\<rparr>
     in thenp (insert_repository r) (ret r)))"

definition create_repository ::
    "ingest_env \<Rightarrow> uuid \<Rightarrow> string \<Rightarrow> string option \<Rightarrow> string \<Rightarrow> string \<Rightarrow> (uuid \<times> uuid option) session" where
  "create_repository env owner_id raw_url ref correlation_id ip =
     bindp (lift_res (validate_github_url (ing_bracket_ok env) raw_url)) (\<lambda>normalized.
     bindp (lift_res (validate_git_ref ref)) (\<lambda>chosen_ref.
     let insert = bindp (insert_new_repository env owner_id normalized chosen_ref) (\<lambda>r.
           bindp (create_run env owner_id r chosen_ref) (\<lambda>rid.
           thenp (repository_audit env ''repository.create'' ''success'' correlation_id ip owner_id (repo_id r))
             (ret (repo_id r, Some rid))))
     in bindp (repository_by_owner_url owner_id (nu_clone_url normalized)) (\<lambda>found.
     case found of
       None \<Rightarrow> insert
     | Some existing \<Rightarrow>
         bindp (active_for_repository (repo_id existing) (Some run_type_ingestion)) (\<lambda>active.
         if active \<noteq> None then ret (repo_id existing, None)
         else if repo_status existing \<noteq> Deleted then ret (repo_id existing, None)
         else insert))))"

definition sync_repository ::
    "ingest_env \<Rightarrow> uuid \<Rightarrow> uuid \<Rightarrow> string option \<Rightarrow> string \<Rightarrow> string \<Rightarrow> (uuid \<times> uuid) session" where
  "sync_repository env owner_id repository_id ref correlation_id ip =
     bindp (require (repository_owned_by_id owner_id repository_id)) (\<lambda>r.
     bindp (active_for_repository (repo_id r) (Some run_type_ingestion)) (\<lambda>active.
     if active \<noteq> None then raise (AppErr (Conflict ''Repository ingestion is already running''))
     else bindp (lift_res (validate_git_ref ref)) (\<lambda>safe.
       let chosen_ref = (case safe of
             Some t \<Rightarrow> if t = [] then dict_get (repo_indexing_config r) ''requested_ref'' else Some (JStr t)
           | None \<Rightarrow> dict_get (repo_indexing_config r) ''requested_ref'');
           stored = (case chosen_ref of None \<Rightarrow> JNull | Some j \<Rightarrow> j)
       in thenp (transition (repo_id r) Queued)
         (thenp (set_repository (repo_id r)
                   (\<lambda>q. q\<lparr>repo_indexing_config := dict_set (repo_indexing_config q) ''requested_ref'' stored\<rparr>))
         (bindp (create_run env owner_id r (ref_of_json chosen_ref)) (\<lambda>rid.
         thenp (repository_audit env ''repository.sync'' ''success'' correlation_id ip owner_id (repo_id r))
           (ret (repo_id r, rid))))))))"

definition mark_deleting ::
    "ingest_env \<Rightarrow> uuid \<Rightarrow> uuid \<Rightarrow> string \<Rightarrow> string \<Rightarrow> uuid session" where
  "mark_deleting env owner_id repository_id correlation_id ip =
     bindp (require (repository_owned_by_id owner_id repository_id)) (\<lambda>r.
     thenp (transition (repo_id r) Deleting)
     (bindp (utcnow (ing_clock env)) (\<lambda>now.
     thenp (set_repository (repo_id r)
              (\<lambda>q. q\<lparr>repo_deleted_at := Some now, repo_deleted_by_id := Some owner_id\<rparr>))
     (thenp (repository_audit env ''repository.delete'' ''success'' correlation_id ip owner_id (repo_id r))
       (ret (repo_id r))))))"

definition delete_workspace_and_mark_deleted :: "ingest_env \<Rightarrow> uuid \<Rightarrow> unit session" where
  "delete_workspace_and_mark_deleted env repository_id =
     bindp (get_repository_row repository_id) (\<lambda>found.
     case found of
       None \<Rightarrow> ret ()
     | Some r \<Rightarrow>
         if repo_status r = Deleting then
           thenp (set_repository repository_id (\<lambda>q. q\<lparr>repo_status := Deleted\<rparr>))
           (case repo_deleted_at r of
              Some d \<Rightarrow> ret ()
            | None \<Rightarrow> bindp (utcnow (ing_clock env)) (\<lambda>now.
                set_repository repository_id (\<lambda>q. q\<lparr>repo_deleted_at := Some now\<rparr>)))
         else ret ())"

section \<open>The ingestion run\<close>

definition upsert_revision ::
    "ingest_env \<Rightarrow> uuid \<Rightarrow> string \<Rightarrow> string option \<Rightarrow> uuid session" where
  "upsert_revision env repository_id sha ref =
     bindp (revision_by_repository_commit repository_id sha) (\<lambda>existing.
     case existing of
       Some r \<Rightarrow> ret (rev_id r)
     | None \<Rightarrow>
         bindp uuid4 (\<lambda>i.
         bindp (utcnow (ing_clock env)) (\<lambda>now.
         thenp (insert_revision
           \<lparr>rev_id = i, rev_repository_id = repository_id, rev_commit_sha = sha, rev_ref = ref,
            rev_status = Cloning, rev_cloned_at = None, rev_indexed_at = None,
            rev_file_count = 0, rev_total_bytes = 0, rev_error_code = None,
            rev_error_summary = None, rev_created_at = now\<rparr>)
         (ret i))))"

definition file_row :: "uuid \<Rightarrow> uuid \<Rightarrow> scanned_file \<Rightarrow> repository_file" where
  "file_row i revision_id f =
     \<lparr>file_id = i, file_revision_id = revision_id, file_normalized_path = sf_normalized_path f,
      file_language = sf_language f, file_size = int (sf_size f), file_content_hash = sf_content_hash f,
      file_line_count = int (sf_line_count f), file_indexing_status = sf_indexing_status f,
      file_excluded_reason = sf_excluded_reason f, file_content = sf_content f\<rparr>"

definition replace_for_revision :: "uuid \<Rightarrow> scanned_file list \<Rightarrow> unit session" where
  "replace_for_revision revision_id fs =
     thenp (modify (delete_files (\<lambda>f. file_revision_id f = revision_id)))
       (forp fs (\<lambda>f. bindp uuid4 (\<lambda>i. insert_file (file_row i revision_id f))))"

definition fail_run :: "ingest_env \<Rightarrow> uuid \<Rightarrow> uuid \<Rightarrow> uuid option \<Rightarrow> string \<Rightarrow> string \<Rightarrow> unit session" where
  "fail_run env repository_id rid revision error_code summary =
     thenp (set_repository repository_id (\<lambda>q. q\<lparr>repo_status := Failed\<rparr>))
     (bindp (utcnow (ing_clock env)) (\<lambda>now.
     thenp (set_run rid (\<lambda>q. q\<lparr>run_status := RunFailed, run_completed_at := Some now,
              run_error_code := Some error_code, run_error_message := Some summary\<rparr>))
     (thenp (case revision of
               None \<Rightarrow> ret ()
             | Some v \<Rightarrow> set_revision v (\<lambda>q. q\<lparr>rev_status := Failed, rev_error_code := Some error_code,
                 rev_error_summary := Some summary\<rparr>))
       (add_event (ing_clock env) rid ''failed'' summary))))"

text \<open>The handler \<^verbatim>\<open>except CloneFailureError\<close>; \<open>revision\<close> is what the variable holds then.\<close>

definition on_clone_failure :: "ingest_env \<Rightarrow> uuid \<Rightarrow> uuid \<Rightarrow> uuid option \<Rightarrow> exn \<Rightarrow> unit session" where
  "on_clone_failure env repository_id rid revision e =
     (case e of
        CloneFailureError error_code summary \<Rightarrow> fail_run env repository_id rid revision error_code summary
      | _ \<Rightarrow> raise e)"

definition after_clone ::
    "ingest_env \<Rightarrow> uuid \<Rightarrow> clone_result \<Rightarrow> string option \<Rightarrow> uuid session" where
  "after_clone env repository_id clone ref =
     thenp (transition repository_id Scanning)
       (upsert_revision env repository_id (clone_commit_sha clone) ref)"

definition finish_run :: "ingest_env \<Rightarrow> uuid \<Rightarrow> uuid \<Rightarrow> uuid \<Rightarrow> scan_result \<Rightarrow> unit session" where
  "finish_run env repository_id rid v scan =
     thenp (transition repository_id ReadyForIndexing)
     (bindp (utcnow (ing_clock env)) (\<lambda>completed.
     thenp (set_run rid (\<lambda>q. q\<lparr>run_revision_id := Some v, run_status := RunSucceeded,
              run_completed_at := Some completed,
              run_input_units := Some (int (scan_accepted_file_count scan)),
              run_output_units := Some (int (scan_total_bytes scan))\<rparr>))
       (add_event (ing_clock env) rid ''completed'' ''Repository is ready for indexing'')))"

definition scan_and_store :: "ingest_env \<Rightarrow> uuid \<Rightarrow> uuid \<Rightarrow> uuid \<Rightarrow> string \<Rightarrow> unit session" where
  "scan_and_store env repository_id rid v workspace =
     bindp (utcnow (ing_clock env)) (\<lambda>cloned.
     thenp (set_revision v (\<lambda>q. q\<lparr>rev_cloned_at := Some cloned, rev_status := Scanning\<rparr>))
     (thenp (add_event (ing_clock env) rid ''cloned'' ''Repository clone completed'')
     (bindp (lift_res (scan_repository (ing_scan env) (ing_tree env workspace))) (\<lambda>scan.
     thenp (replace_for_revision v (scan_files scan))
     (bindp (utcnow (ing_clock env)) (\<lambda>indexed.
     thenp (set_revision v (\<lambda>q. q\<lparr>rev_status := ReadyForIndexing, rev_indexed_at := Some indexed,
              rev_file_count := int (scan_accepted_file_count scan),
              rev_total_bytes := int (scan_total_bytes scan),
              rev_error_code := None, rev_error_summary := None\<rparr>))
     (thenp (set_repository repository_id (\<lambda>q. q\<lparr>repo_latest_revision_id := Some v\<rparr>))
       (finish_run env repository_id rid v scan))))))))"

definition ingest_workspace ::
    "ingest_env \<Rightarrow> uuid \<Rightarrow> uuid \<Rightarrow> string option \<Rightarrow> clone_result \<Rightarrow> unit session" where
  "ingest_workspace env repository_id rid ref clone =
     bindp (attempt (after_clone env repository_id clone ref)) (\<lambda>r.
     case r of
       Inl e \<Rightarrow> on_clone_failure env repository_id rid None e
     | Inr v \<Rightarrow> catch (scan_and_store env repository_id rid v (clone_workspace clone))
                  (on_clone_failure env repository_id rid (Some v)))"

definition ingest :: "ingest_env \<Rightarrow> uuid \<Rightarrow> uuid \<Rightarrow> unit session" where
  "ingest env repository_id rid =
     bindp (get_repository_row repository_id) (\<lambda>found.
     bindp (get_run_row rid) (\<lambda>found_run.
     case (found, found_run) of
       (Some r, Some run) \<Rightarrow>
         let ref = ref_of_json (dict_get (repo_indexing_config r) ''requested_ref'') in
         bindp (utcnow (ing_clock env)) (\<lambda>now.
         thenp (set_run rid (\<lambda>q. q\<lparr>run_status := RunRunning, run_started_at := Some now\<rparr>))
         (thenp (add_event (ing_clock env) rid ''started'' ''Repository ingestion started'')
         (thenp (transition repository_id Cloning)
         (bindp (attempt (clone_repository (ing_host env) (repo_normalized_clone_url r) ref
                    (ing_workspace_root env))) (\<lambda>c.
          case c of
            Inl e \<Rightarrow> on_clone_failure env repository_id rid None e
          | Inr clone \<Rightarrow> finallyp (ingest_workspace env repository_id rid ref clone)
                           (safe_rmtree (clone_workspace clone)))))))
     | _ \<Rightarrow> raise (AppErr not_found)))"

text \<open>\<^verbatim>\<open>_ingest_repository\<close> of the worker: one transaction, rolled back on any exception.\<close>

definition worker_ingest :: "ingest_env \<Rightarrow> uuid \<Rightarrow> uuid \<Rightarrow> unit session" where
  "worker_ingest env repository_id rid = commit_or_rollback (ingest env repository_id rid)"

section \<open>The numbered event log\<close>

definition run_events :: "uuid \<Rightarrow> db \<Rightarrow> agent_run_event list" where
  "run_events rid s = filter (\<lambda>e. event_run_id e = rid) (events s)"

definition numbered :: "db \<Rightarrow> bool" where
  "numbered s \<longleftrightarrow> (\<forall>rid. map event_sequence (run_events rid s) = map int [1..<Suc (length (run_events rid s))])"

text \<open>
  The contract of a service's \<^verbatim>\<open>add_event\<close>: it appends at most one event, of that run and
  with the number after the highest one the run has. What follows, once for all services:
  the events of every run stay numbered 1, 2, 3, ... in the order they were added.
\<close>

definition highest_sequence :: "uuid \<Rightarrow> db \<Rightarrow> int" where
  "highest_sequence rid s = (case map event_sequence (run_events rid s) of [] \<Rightarrow> 0 | n # ns \<Rightarrow> Max (set (n # ns)))"

lemma next_sequence_app: "next_sequence rid s = (Inr (highest_sequence rid s + 1), s)"
  unfolding next_sequence_def highest_sequence_def run_events_def gets_app Max.set_eq_fold ..

lemma highest_sequence_numbered:
  assumes "numbered s"
  shows "highest_sequence rid s = int (length (run_events rid s))"
proof (cases "run_events rid s")
  case Nil
  then show ?thesis by (simp add: highest_sequence_def)
next
  case (Cons e es)
  let ?n = "length (run_events rid s)"
  have m: "map event_sequence (run_events rid s) = map int [1..<Suc ?n]"
    using assms by (simp add: numbered_def)
  have "highest_sequence rid s = Max (set (map event_sequence (run_events rid s)))"
    unfolding highest_sequence_def Cons by simp
  also have "\<dots> = Max (int ` {1..?n})"
    unfolding m by (simp add: atLeastLessThanSuc_atLeastAtMost del: upt_Suc)
  also have "\<dots> = int ?n"
    using Cons by (intro Max_eqI) (auto intro: rev_image_eqI [of "Suc (length es)"])
  finally show ?thesis .
qed

locale event_log =
  fixes add :: "uuid \<Rightarrow> string \<Rightarrow> string \<Rightarrow> unit session"
  assumes add_appends: "add rid ty msg s = (res, t) \<Longrightarrow>
    events t = events s
    \<or> (\<exists>e. events t = events s @ [e] \<and> event_run_id e = rid \<and> event_event_type e = ty
           \<and> event_sequence e = highest_sequence rid s + 1)"
begin

lemma add_numbered: "numbered s \<Longrightarrow> numbered (snd (add rid ty msg s))"
proof -
  assume n: "numbered s"
  obtain res t where a: "add rid ty msg s = (res, t)" by fastforce
  from add_appends [OF a] show ?thesis
  proof (elim disjE exE conjE)
    assume "events t = events s"
    then show ?thesis using n a by (simp add: numbered_def run_events_def)
  next
    fix e assume e: "events t = events s @ [e]" "event_run_id e = rid"
      "event_sequence e = highest_sequence rid s + 1"
    have "map event_sequence (run_events r t) = map int [1..<Suc (length (run_events r t))]" for r
    proof (cases "r = rid")
      case True
      then have "run_events r t = run_events r s @ [e]" using e by (simp add: run_events_def)
      moreover have "map event_sequence (run_events r s) = map int [1..<Suc (length (run_events r s))]"
        using n by (simp add: numbered_def)
      ultimately show ?thesis
        using e(3) highest_sequence_numbered [OF n, of rid] True by simp
    next
      case False
      then have "run_events r t = run_events r s" using e by (simp add: run_events_def)
      then show ?thesis using n by (simp add: numbered_def)
    qed
    then show ?thesis using a by (simp add: numbered_def)
  qed
qed

lemma add_preserves: "preserves numbered (add rid ty msg)"
  by (intro preservesI add_numbered)

end

interpretation ingestion_log: event_log "add_event clock" for clock
proof unfold_locales
  fix rid ty msg s res t
  assume "add_event clock rid ty msg s = (res, t)"
  then show "events t = events s
    \<or> (\<exists>e. events t = events s @ [e] \<and> event_run_id e = rid \<and> event_event_type e = ty
           \<and> event_sequence e = highest_sequence rid s + 1)"
    by (auto simp: add_event_def next_sequence_app insert_event_def add_row_app split: if_splits)
qed

lemmas [pres] = ingestion_log.add_preserves

section \<open>Frame rules\<close>

text \<open>A property that reads only the given tables is kept by every other row operation.\<close>

lemma numbered_frame: "events t = events s \<Longrightarrow> numbered t = numbered s"
  by (simp add: numbered_def run_events_def)

lemma preserves_events: "(\<And>s. events (snd (m s)) = events s) \<Longrightarrow> preserves numbered m"
  using numbered_frame by (intro preservesI) blast

lemma numbered_rows [pres]:
  "preserves numbered uuid4" "preserves numbered (utcnow c)"
  "preserves numbered (set_repository i f)" "preserves numbered (set_run i g)"
  "preserves numbered (set_revision i h)" "preserves numbered (insert_repository r)"
  "preserves numbered (insert_run n)" "preserves numbered (insert_revision v)"
  "preserves numbered (insert_file x)" "preserves numbered (insert_audit_log a)"
  "preserves numbered (modify (delete_files P))" "preserves numbered (safe_rmtree w)"
  by (rule preserves_events, simp add: set_repository_def set_run_def set_revision_def
      insert_repository_def insert_run_def insert_revision_def insert_file_def insert_audit_log_def
      add_row_def delete_files_def delete_symbols_def delete_chunks_def Let_def safe_rmtree_def)+

lemma preserves_loaded [pres]: "preserves I q \<Longrightarrow> preserves I (loaded q)"
  unfolding loaded_def by (intro pres) auto

lemma preserves_queries [pres]:
  "preserves I (get_repository_row i)" "preserves I (get_run_row i)" "preserves I (get_revision_row i)"
  "preserves I (repository_by_owner_url o1 u)" "preserves I (repository_owned_by_id o1 i)"
  "preserves I (active_for_repository i rt)" "preserves I (revision_by_repository_commit i c)"
  "preserves I (next_sequence i)"
  by (simp_all add: preserves_def get_repository_row_def get_run_row_def get_revision_row_def
      repository_by_owner_url_def repository_owned_by_id_def active_for_repository_def
      revision_by_repository_commit_def next_sequence_def)

lemma preserves_on_clone_failure [pres]:
  "(\<And>c m. preserves I (fail_run env i rid v c m)) \<Longrightarrow> preserves I (on_clone_failure env i rid v e)"
  by (cases e) (simp_all add: on_clone_failure_def preserves_raise)

lemma clone_repository_rows: "rows_of (snd (clone_repository h url ref parent s)) = rows_of s"
  using clone_repository_facts [of h url ref parent s] by (metis surjective_pairing)

lemma preserves_clone_rows [pres]:
  "(\<And>s t. rows_of t = rows_of s \<Longrightarrow> I s \<Longrightarrow> I t) \<Longrightarrow> preserves I (clone_repository h url ref parent)"
  unfolding preserves_def using clone_repository_rows by blast

lemma numbered_transition [pres]: "preserves numbered (transition i t)"
  unfolding transition_def by (intro pres)

lemma numbered_fail_run [pres]: "preserves numbered (fail_run env i rid v c m)"
  unfolding fail_run_def by (intro pres)

lemma numbered_clone [pres]: "preserves numbered (clone_repository h url ref parent)"
  by (rule preserves_events, rule rows_of_fields(10), rule clone_repository_rows)

lemma numbered_stages [pres]:
  "preserves numbered (upsert_revision env i sha ref)"
  "preserves numbered (replace_for_revision v fs)"
  unfolding upsert_revision_def replace_for_revision_def by (intro pres)+

lemma numbered_after_clone [pres]: "preserves numbered (after_clone env i clone ref)"
  unfolding after_clone_def by (intro pres)

lemma numbered_finish_run [pres]: "preserves numbered (finish_run env i rid v scan)"
  unfolding finish_run_def by (intro pres)

lemma numbered_scan_and_store [pres]: "preserves numbered (scan_and_store env i rid v w)"
  unfolding scan_and_store_def by (intro pres)

lemma numbered_ingest_workspace [pres]: "preserves numbered (ingest_workspace env i rid ref clone)"
  unfolding ingest_workspace_def by (intro pres)

lemma numbered_ingest [pres]: "preserves numbered (ingest env i rid)"
  unfolding ingest_def Let_def by (intro pres)

lemma numbered_create_run [pres]: "preserves numbered (create_run env own r ref)"
  unfolding create_run_def by (intro pres)

lemma numbered_repository_audit [pres]:
  "preserves numbered (repository_audit env action result cid ip actor i)"
  unfolding repository_audit_def by (intro pres)

lemma numbered_insert_new [pres]: "preserves numbered (insert_new_repository env own n ref)"
  unfolding insert_new_repository_def Let_def by (intro pres)

lemma numbered_requests [pres]:
  "preserves numbered (create_repository env own url ref cid ip)"
  "preserves numbered (sync_repository env own i ref cid ip)"
  "preserves numbered (mark_deleting env own i cid ip)"
  "preserves numbered (delete_workspace_and_mark_deleted env i)"
  unfolding create_repository_def sync_repository_def mark_deleting_def delete_workspace_and_mark_deleted_def
    Let_def
  by (intro pres)+

section \<open>Requests, workers and reachable states\<close>

datatype ingest_call =
    CallCreate uuid string "string option" string string
  | CallSync uuid uuid "string option" string string
  | CallDelete uuid uuid string string
  | CallIngest uuid uuid
  | CallMarkDeleted uuid

fun ingest_exec :: "ingest_env \<Rightarrow> ingest_call \<Rightarrow> db \<Rightarrow> db" where
  "ingest_exec env (CallCreate own url ref cid ip) s =
     snd (commit_or_rollback (create_repository env own url ref cid ip) s)"
| "ingest_exec env (CallSync own i ref cid ip) s =
     snd (commit_or_rollback (sync_repository env own i ref cid ip) s)"
| "ingest_exec env (CallDelete own i cid ip) s =
     snd (commit_or_rollback (mark_deleting env own i cid ip) s)"
| "ingest_exec env (CallIngest i rid) s = snd (worker_ingest env i rid s)"
| "ingest_exec env (CallMarkDeleted i) s =
     snd (commit_or_rollback (delete_workspace_and_mark_deleted env i) s)"

definition ingest_step :: "ingest_env \<Rightarrow> db \<Rightarrow> db \<Rightarrow> bool" where
  "ingest_step env s t = (\<exists>c. t = ingest_exec env c s)"

lemma numbered_commit: "preserves numbered m \<Longrightarrow> preserves numbered (commit_or_rollback m)"
proof (rule preservesI)
  fix s assume m: "preserves numbered m" and n: "numbered s"
  obtain r t where rt: "m s = (r, t)" by fastforce
  have "numbered t" using preservesD [OF m n rt] .
  moreover have "numbered (rollback s t)" using n numbered_frame [of "rollback s t" s] by (simp add: rollback_def)
  ultimately show "numbered (snd (commit_or_rollback m s))"
    using rt by (cases r) (simp_all add: commit_or_rollback_def)
qed

lemma numbered_exec:
  assumes "numbered s"
  shows "numbered (ingest_exec env c s)"
proof -
  have P: "numbered (snd (commit_or_rollback m s))" if "preserves numbered m" for m :: "'x session"
    using presD [where I = numbered, OF numbered_commit [OF that] assms] .
  show ?thesis
    by (cases c) (simp_all add: worker_ingest_def P numbered_requests numbered_ingest)
qed

interpretation ingest_events: invariant_system "\<lambda>s. events s = []" "ingest_step env" numbered for env
  by unfold_locales (auto simp: ingest_step_def numbered_exec, simp add: numbered_def run_events_def)

text \<open>
  Whatever requests and ingestion tasks run, in any order, failing or not, the events of
  every run are numbered 1, 2, 3, ... in the order they were added, without a gap.
\<close>

theorem events_numbered_consecutively:
  assumes "events s = []" and "reaches (ingest_step env) s t"
  shows "map event_sequence (run_events rid t) = map int [1..<Suc (length (run_events rid t))]"
  using ingest_events.safe [OF assms] by (simp add: numbered_def)

section \<open>The state machine of a repository\<close>

definition lifecycle :: "repo_state \<Rightarrow> repo_state \<Rightarrow> bool" where
  "lifecycle a b = (b \<in> set (allowed_state_transitions a))"

text \<open>
  Every repository state except the column default pending can be led to deleted by
  allowed transitions; deleted and pending allow none.
\<close>

theorem lifecycle_can_delete:
  "(\<exists>p. reaches lifecycle a p \<and> p = Deleted) = (a \<noteq> Pending)
   \<and> (\<forall>b. \<not> lifecycle Deleted b \<and> \<not> lifecycle Pending b)"
proof -
  have none: "\<not> lifecycle Pending b" "\<not> lifecycle Deleted b" for b
    by (simp_all add: lifecycle_def allowed_state_transitions_def)
  have stuck: "p = Pending" if "reaches lifecycle Pending p" for p
    using that none(1) by (rule reaches_stuck)
  have del: "reaches lifecycle Deleting Deleted"
    by (rule reaches_one) (simp add: lifecycle_def allowed_state_transitions_def)
  have "reaches lifecycle a Deleted" if "a \<noteq> Pending"
  proof (cases "a = Deleted")
    case True then show ?thesis by (simp add: reaches_refl)
  next
    case False
    show ?thesis
    proof (cases "a = Deleting")
      case True then show ?thesis using del by simp
    next
      case other: False
      have "lifecycle a Deleting"
        using that False other by (cases a) (simp_all add: lifecycle_def allowed_state_transitions_def)
      then show ?thesis using del reaches_one reaches_trans by metis
    qed
  qed
  then show ?thesis using stuck none by auto
qed

lemma get_repository_row_found:
  assumes "distinct (map repo_id (repositories s))" "r \<in> set (repositories s)"
  shows "get_repository_row (repo_id r) s = (Inr (Some r), s)"
  using filter_unique_column [OF assms] by (simp add: get_repository_row_def)

text \<open>
  A transition that the table allows changes the status of that repository and nothing
  else; any other is refused with InvalidState (HTTP 409) and changes nothing.
\<close>

theorem transition_spec:
  assumes "distinct (map repo_id (repositories s))" and "r \<in> set (repositories s)"
  shows "transition (repo_id r) target s =
    (if lifecycle (repo_status r) target
     then (Inr (), s\<lparr>repositories := map (\<lambda>q. if q = r then r\<lparr>repo_status := target\<rparr> else q) (repositories s)\<rparr>)
     else (Inl (AppErr (InvalidState (''Cannot transition repository from '' @ state_word (repo_status r)
            @ '' to '' @ state_word target))), s))"
proof -
  have "update_where (\<lambda>q. repo_id q = repo_id r) f (repositories s) =
      map (\<lambda>q. if q = r then f r else q) (repositories s)" for f
    unfolding update_where_def using assms by (auto intro!: map_cong dest: distinct_map_eqD)
  then show ?thesis
    using get_repository_row_found [OF assms]
    by (simp add: transition_def loaded_def bindp_def set_repository_def lifecycle_def)
qed

section \<open>How an ingestion ends\<close>

definition settled :: "uuid \<Rightarrow> uuid \<Rightarrow> repo_state \<Rightarrow> run_state \<Rightarrow> db \<Rightarrow> bool" where
  "settled i rid st rst s \<longleftrightarrow>
     (\<forall>r \<in> set (repositories s). repo_id r = i \<longrightarrow> repo_status r = st)
     \<and> (\<forall>q \<in> set (runs s). run_id q = rid \<longrightarrow> run_status q = rst)"

lemma settled_frame: "repositories t = repositories s \<Longrightarrow> runs t = runs s \<Longrightarrow> settled i rid a b t = settled i rid a b s"
  by (simp add: settled_def)

lemma add_event_frame:
  "add_event clock rid ty msg s = (r, t) \<Longrightarrow> repositories t = repositories s \<and> runs t = runs s \<and> workspaces t = workspaces s"
  by (auto simp: add_event_def next_sequence_app insert_event_def add_row_app split: if_splits)

lemma settledI:
  assumes "repositories u = update_where (\<lambda>r. repo_id r = i) f rs" "\<And>r. repo_status (f r) = a"
    and "runs u = update_where (\<lambda>q. run_id q = rid) g qs" "\<And>q. run_status (g q) = b"
    and "\<And>r. repo_id (f r) = repo_id r" "\<And>q. run_id (g q) = run_id q"
  shows "settled i rid a b u"
  using assms(2,4-6) unfolding settled_def assms(1,3) by (auto simp: update_where_def)

lemma settled_after_event:
  "settled i rid a b s \<Longrightarrow> add_event clock r ty msg s = (res, t) \<Longrightarrow> settled i rid a b t"
  using add_event_frame settled_frame by metis

lemma transition_result:
  "transition i target s = (Inr (), t) \<Longrightarrow>
   t = s\<lparr>repositories := update_where (\<lambda>r. repo_id r = i) (\<lambda>q. q\<lparr>repo_status := target\<rparr>) (repositories s)\<rparr>"
  by (auto simp: transition_def bindp_eq_Inr loaded_def set_repository_def get_repository_row_def
      split: option.splits if_splits)

definition ended :: "uuid \<Rightarrow> uuid \<Rightarrow> db \<Rightarrow> bool" where
  "ended i rid t \<longleftrightarrow> settled i rid ReadyForIndexing RunSucceeded t \<or> settled i rid Failed RunFailed t"

lemma fail_run_ends [rets]: "returns (ended i rid) (fail_run env i rid v c m)"
proof -
  have "settled i rid Failed RunFailed t" if r: "fail_run env i rid v c m s = (Inr (), t)" for s t
  proof -
    let ?g = "\<lambda>q. q\<lparr>run_status := RunFailed, run_completed_at := Some (ing_clock env (ticks s)),
                    run_error_code := Some c, run_error_message := Some m\<rparr>"
    obtain u where u: "add_event (ing_clock env) rid ''failed'' m u = (Inr (), t)"
        "repositories u = update_where (\<lambda>r. repo_id r = i) (\<lambda>q. q\<lparr>repo_status := Failed\<rparr>) (repositories s)"
        "runs u = update_where (\<lambda>q. run_id q = rid) ?g (runs s)"
    proof (cases v)
      case None
      show ?thesis
        by (rule that [of "s\<lparr>repositories := update_where (\<lambda>r. repo_id r = i) (\<lambda>q. q\<lparr>repo_status := Failed\<rparr>) (repositories s),
             ticks := Suc (ticks s), runs := update_where (\<lambda>q. run_id q = rid) ?g (runs s)\<rparr>"])
          (use r in \<open>simp_all add: None fail_run_def set_repository_def set_run_def\<close>)
    next
      case (Some w)
      show ?thesis
        by (rule that [of "s\<lparr>repositories := update_where (\<lambda>r. repo_id r = i) (\<lambda>q. q\<lparr>repo_status := Failed\<rparr>) (repositories s),
             ticks := Suc (ticks s), runs := update_where (\<lambda>q. run_id q = rid) ?g (runs s),
             revisions := update_where (\<lambda>q. rev_id q = w) (\<lambda>q. q\<lparr>rev_status := Failed,
                rev_error_code := Some c, rev_error_summary := Some m\<rparr>) (revisions s)\<rparr>"])
          (use r in \<open>simp_all add: Some fail_run_def set_repository_def set_run_def set_revision_def\<close>)
    qed
    have "settled i rid Failed RunFailed u" by (rule settledI [OF u(2) _ u(3)]) simp_all
    then show ?thesis using settled_after_event u(1) by blast
  qed
  then show ?thesis unfolding returns_def ended_def by auto
qed

lemma finish_run_ends [rets]: "returns (ended i rid) (finish_run env i rid v scan)"
proof -
  have "settled i rid ReadyForIndexing RunSucceeded t" if r: "finish_run env i rid v scan s = (Inr (), t)" for s t
  proof -
    obtain w where w: "transition i ReadyForIndexing s = (Inr (), w)"
      using r by (auto simp: finish_run_def thenp_eq_Inr)
    let ?g = "\<lambda>q. q\<lparr>run_revision_id := Some v, run_status := RunSucceeded,
              run_completed_at := Some (ing_clock env (ticks w)),
              run_input_units := Some (int (scan_accepted_file_count scan)),
              run_output_units := Some (int (scan_total_bytes scan))\<rparr>"
    let ?u = "w\<lparr>ticks := Suc (ticks w), runs := update_where (\<lambda>q. run_id q = rid) ?g (runs w)\<rparr>"
    have "add_event (ing_clock env) rid ''completed'' ''Repository is ready for indexing'' ?u = (Inr (), t)"
      using r w by (simp add: finish_run_def set_run_def)
    moreover have "settled i rid ReadyForIndexing RunSucceeded ?u"
      by (rule settledI [where rs = "repositories s" and qs = "runs w" and g = ?g
            and f = "\<lambda>q. q\<lparr>repo_status := ReadyForIndexing\<rparr>"])
        (simp_all add: transition_result [OF w])
    ultimately show ?thesis using settled_after_event by blast
  qed
  then show ?thesis unfolding returns_def ended_def by auto
qed

lemma on_clone_failure_ends [rets]: "returns (ended i rid) (on_clone_failure env i rid v e)"
  by (cases e) (simp_all add: on_clone_failure_def rets)

lemma finallyp_ends [rets]:
  assumes "returns (ended i rid) m"
  shows "returns (ended i rid) (finallyp m (safe_rmtree w))"
  using assms unfolding returns_def finallyp_def safe_rmtree_def
  by (fastforce simp: ended_def settled_def split: prod.splits sum.splits)

lemma ingest_ends: "returns (ended i rid) (ingest env i rid)"
  unfolding ingest_def ingest_workspace_def scan_and_store_def Let_def by (intro rets)

text \<open>
  An ingestion that returns has settled: the repository is ready for indexing and the
  run succeeded, or the repository failed and the run failed. It never returns with a run
  that is queued or running.
\<close>

theorem ingest_settles:
  assumes "ingest env i rid s = (Inr (), t)"
  shows "settled i rid ReadyForIndexing RunSucceeded t \<or> settled i rid Failed RunFailed t"
  using returnsD [OF ingest_ends assms] by (simp add: ended_def)

section \<open>Nothing is left on disk\<close>

definition disk_within :: "string set \<Rightarrow> db \<Rightarrow> bool" where
  "disk_within W s \<longleftrightarrow> set (workspaces s) \<subseteq> W"

lemma preserves_workspaces: "(\<And>s. workspaces (snd (m s)) = workspaces s) \<Longrightarrow> preserves (disk_within W) m"
  by (simp add: preserves_def disk_within_def)

lemma disk_rows [pres]:
  "preserves (disk_within W) uuid4" "preserves (disk_within W) (utcnow c)"
  "preserves (disk_within W) (set_repository i f)" "preserves (disk_within W) (set_run i g)"
  "preserves (disk_within W) (set_revision i h)" "preserves (disk_within W) (insert_revision v)"
  "preserves (disk_within W) (insert_file x)" "preserves (disk_within W) (insert_event ev)"
  "preserves (disk_within W) (modify (delete_files P))"
  by (rule preserves_workspaces, simp add: set_repository_def set_run_def set_revision_def
      insert_revision_def insert_file_def insert_event_def add_row_def delete_files_def
      delete_symbols_def delete_chunks_def Let_def)+

lemma disk_steps [pres]:
  "preserves (disk_within W) (add_event clock rid ty msg)"
  "preserves (disk_within W) (transition i st)"
  "preserves (disk_within W) (upsert_revision env i sha ref)"
  "preserves (disk_within W) (replace_for_revision v fs)"
  unfolding add_event_def transition_def upsert_revision_def replace_for_revision_def by (intro pres)+

lemma disk_stages [pres]:
  "preserves (disk_within W) (fail_run env i rid rv c m)"
  "preserves (disk_within W) (after_clone env i clone ref)"
  "preserves (disk_within W) (finish_run env i rid v scan)"
  unfolding fail_run_def after_clone_def finish_run_def by (intro pres)+

lemma disk_scan_and_store [pres]: "preserves (disk_within W) (scan_and_store env i rid v w)"
  unfolding scan_and_store_def by (intro pres)

lemma disk_ingest_workspace [pres]: "preserves (disk_within W) (ingest_workspace env i rid ref clone)"
  unfolding ingest_workspace_def by (intro pres)

definition clean_unless_undecodable :: "string set \<Rightarrow> exn + unit \<Rightarrow> db \<Rightarrow> bool" where
  "clean_unless_undecodable W r t \<longleftrightarrow> r = Inl (ValueError ''codec'') \<or> disk_within W t"

lemma finally_cleans:
  assumes "preserves (disk_within (insert ws W)) m" "disk_within (insert ws W) s"
  shows "disk_within W (snd (finallyp m (safe_rmtree ws) s))"
proof -
  obtain r t where rt: "m s = (r, t)" by fastforce
  then have "disk_within (insert ws W) t" using preservesD [OF assms] by blast
  then show ?thesis using rt by (auto simp: finallyp_def safe_rmtree_def disk_within_def)
qed

lemma ingest_clone_cleans:
  "ensures (disk_within W) (clean_unless_undecodable W)
     (bindp (attempt (clone_repository h url ref parent)) (\<lambda>c.
        case c of
          Inl e \<Rightarrow> on_clone_failure env i rid None e
        | Inr clone \<Rightarrow> finallyp (ingest_workspace env i rid ref clone) (safe_rmtree (clone_workspace clone))))"
    (is "ensures _ _ (bindp _ ?K)")
proof (rule ensuresI)
  fix s assume d: "disk_within W s"
  obtain c t where ct: "clone_repository h url ref parent s = (c, t)" by fastforce
  note facts = clone_repository_facts [OF ct]
  have b: "bindp (attempt (clone_repository h url ref parent)) ?K s = ?K c t"
    using ct by (simp add: attempt_def)
  show "clean_unless_undecodable W (fst (bindp (attempt (clone_repository h url ref parent)) ?K s))
          (snd (bindp (attempt (clone_repository h url ref parent)) ?K s))"
  proof (cases c)
    case (Inr clone)
    then have "disk_within (insert (clone_workspace clone) W) t"
      using facts d by (auto simp: disk_within_def)
    then show ?thesis
      using finally_cleans [OF disk_ingest_workspace] Inr
      unfolding b clean_unless_undecodable_def by simp
  next
    case (Inl e)
    show ?thesis
    proof (cases "e = ValueError ''codec''")
      case True
      then show ?thesis unfolding b Inl by (simp add: on_clone_failure_def clean_unless_undecodable_def)
    next
      case False
      then have "disk_within W t"
        using facts d Inl by (cases e) (auto simp: disk_within_def)
      moreover have "preserves (disk_within W) (on_clone_failure env i rid None e)" by (intro pres)
      ultimately show ?thesis
        unfolding b Inl clean_unless_undecodable_def by (simp add: preserves_def)
    qed
  qed
qed

lemma clean_weaken: "disk_within W t \<Longrightarrow> clean_unless_undecodable W r t"
  by (simp add: clean_unless_undecodable_def)

lemma ingest_cleans: "ensures (disk_within W) (clean_unless_undecodable W) (ingest env i rid)"
  unfolding ingest_def Let_def
proof (rule ensures_bindp_pres [OF preserves_queries(1) clean_weaken], assumption,
    rule ensures_bindp_pres [OF preserves_queries(2) clean_weaken], assumption, goal_cases)
  case (1 found found_run)
  have absent: "ensures (disk_within W) (clean_unless_undecodable W) (raise (AppErr not_found))"
    by (rule ensures_pres [OF preserves_raise clean_weaken])
  show ?case
  proof (cases "found = None \<or> found_run = None")
    case True
    then show ?thesis using absent by (cases found; cases found_run) simp_all
  next
    case False
    then obtain r run where "found = Some r" "found_run = Some run" by auto
    then show ?thesis
      by (simp, intro ensures_bindp_pres [OF disk_rows(2) clean_weaken]
          ensures_thenp_pres [OF disk_rows(4) clean_weaken]
          ensures_thenp_pres [OF disk_steps(1) clean_weaken]
          ensures_thenp_pres [OF disk_steps(2) clean_weaken] ingest_clone_cleans)
  qed
qed


section \<open>A concrete ingestion\<close>

definition sample_ingest_env :: ingest_env where
  "sample_ingest_env = \<lparr>ing_clock = (\<lambda>n. int n), ing_sha256 = (\<lambda>t. t), ing_secret_key = ''k'',
     ing_bracket_ok = (\<lambda>h. True), ing_host = sample_host, ing_scan = sample_scan_env,
     ing_tree = (\<lambda>w. sample_tree), ing_workspace_root = ''w''\<rparr>"

definition sample_run :: "uuid \<Rightarrow> uuid \<Rightarrow> uuid \<Rightarrow> agent_run" where
  "sample_run i own repo = \<lparr>run_id = i, run_owner_id = own, run_repository_id = repo,
     run_revision_id = None, run_run_type = run_type_ingestion, run_status = RunQueued,
     run_input_summary = [], run_model_provider = [], run_model_identifier = [],
     run_prompt_version = [], run_started_at = None, run_completed_at = None,
     run_cancellation_metadata = None, run_error_code = None, run_error_message = None,
     run_input_units = None, run_output_units = None, run_created_at = 0\<rparr>"

definition sample_ingest_db :: db where
  "sample_ingest_db = empty_db\<lparr>users := [sample_user],
     repositories := [(sample_repository 1 0)\<lparr>repo_status := Queued\<rparr>],
     runs := [sample_run 2 0 1], next_uuid := 3\<rparr>"

definition failing_host :: host where
  "failing_host = \<lparr>host_proc = (\<lambda>n command cwd. Completed 128 []), host_mkdir_ok = True\<rparr>"

lemmas ingest_evals = ingest_def worker_ingest_def commit_or_rollback_def Let_def get_repository_row_def
  get_run_row_def sample_ingest_db_def sample_ingest_env_def sample_run_def sample_repository_def
  empty_db_def set_run_def add_event_def next_sequence_def insert_event_def add_row_def exists_run_def
  transition_def loaded_def allowed_state_transitions_def set_repository_def attempt_def
  clone_repository_def build_clone_commands_def run_process_def touch_workspace_def clone_handler_def
  safe_rmtree_def on_clone_failure_def fail_run_def dict_get_def ref_of_json_def clone_base_def

definition failed_env :: ingest_env where
  "failed_env = sample_ingest_env\<lparr>ing_host := failing_host\<rparr>"

lemma sample_ingest_fails:
  obtains t where "ingest failed_env 1 2 sample_ingest_db = (Inr (), t)"
proof -
  have "\<not> isl (fst (ingest failed_env 1 2 sample_ingest_db))"
    by (simp add: ingest_evals failed_env_def failing_host_def cong: weak_congs)
  then show thesis using that by (cases "ingest failed_env 1 2 sample_ingest_db") (auto simp: isl_def, metis obj_sumE unit.exhaust)
qed

lemma ingest_settles_witness:
  "\<exists>t. ended 1 2 t \<and> ingest failed_env 1 2 sample_ingest_db = (Inr (), t)"
proof -
  obtain t where t: "ingest failed_env 1 2 sample_ingest_db = (Inr (), t)" by (rule sample_ingest_fails)
  from ingest_settles [OF t] t show ?thesis by (auto simp: ended_def)
qed


lemma events_numbered_consecutively_witness:
  "map event_sequence (run_events 2 (ingest_exec failed_env (CallIngest 1 2) sample_ingest_db)) =
   map int [1..<Suc (length (run_events 2 (ingest_exec failed_env (CallIngest 1 2) sample_ingest_db)))]"
proof (rule events_numbered_consecutively)
  show "events sample_ingest_db = []" by (simp add: sample_ingest_db_def empty_db_def)
  show "reaches (ingest_step failed_env) sample_ingest_db (ingest_exec failed_env (CallIngest 1 2) sample_ingest_db)"
    by (rule reaches_one) (auto simp only: ingest_step_def)
qed

lemma transition_spec_witness:
  "fst (transition 1 Ready sample_ingest_db) =
     Inl (AppErr (InvalidState ''Cannot transition repository from queued to ready''))"
  using transition_spec [of sample_ingest_db "(sample_repository 1 0)\<lparr>repo_status := Queued\<rparr>" Ready]
  by (simp add: sample_ingest_db_def sample_repository_def lifecycle_def allowed_state_transitions_def)

section \<open>Requests\<close>

lemma owned_lookup:
  assumes "distinct (map repo_id (repositories s))" "r \<in> set (repositories s)" "repo_deleted_at r = None"
  shows "repository_owned_by_id (repo_owner_id r) (repo_id r) s = (Inr (Some r), s)"
proof -
  have "filter (\<lambda>q. repo_id q = repo_id r \<and> repo_owner_id q = repo_owner_id r \<and> repo_deleted_at q = None) (repositories s)
      = filter (\<lambda>q. repo_owner_id q = repo_owner_id r \<and> repo_deleted_at q = None)
          (filter (\<lambda>q. repo_id q = repo_id r) (repositories s))"
    by (simp add: conj_commute conj_left_commute)
  then show ?thesis
    using filter_unique_column [OF assms(1,2)] assms(3) by (simp add: repository_owned_by_id_def)
qed

lemma active_run_found:
  assumes "q \<in> set (runs s)" "run_repository_id q = i" "run_status q \<in> {RunQueued, RunRunning}" "run_run_type q = ty"
  shows "\<exists>q'. active_for_repository i (Some ty) s = (Inr (Some q'), s)"
proof -
  define rows where "rows = desc_by run_created_at (filter (\<lambda>r. run_repository_id r = i
       \<and> run_status r \<in> {RunQueued, RunRunning} \<and> run_run_type r = ty) (runs s))"
  have "q \<in> set rows" using assms by (simp add: rows_def)
  then have "rows \<noteq> []" by (cases rows) simp_all
  then obtain q' where "scalars_first rows = Some q'" by (cases rows) simp_all
  then show ?thesis by (simp add: active_for_repository_def rows_def)
qed

text \<open>
  C37: an ingestion that ends with an exception changes no row; its run therefore stays
  active, and every later synchronisation by the owner is refused as a conflict.
\<close>

theorem crashed_ingestion_blocks_sync:
  assumes crash: "worker_ingest env i rid s = (Inl e, t)"
    and q: "q \<in> set (runs s)" "run_repository_id q = i" "run_status q \<in> {RunQueued, RunRunning}"
      "run_run_type q = run_type_ingestion"
    and r: "distinct (map repo_id (repositories s))" "r \<in> set (repositories s)" "repo_id r = i"
      "repo_deleted_at r = None"
  shows "rows_of t = rows_of s
    \<and> sync_repository env2 (repo_owner_id r) i ref cid ip t =
        (Inl (AppErr (Conflict ''Repository ingestion is already running'')), t)"
proof -
  have rows: "rows_of t = rows_of s"
    using crash by (auto simp: worker_ingest_def commit_or_rollback_def split: prod.splits sum.splits)
  note fields = rows_of_fields [OF rows]
  have "repository_owned_by_id (repo_owner_id r) i t = (Inr (Some r), t)"
    using owned_lookup [of t r] r fields by simp
  moreover obtain q' where "active_for_repository i (Some run_type_ingestion) t = (Inr (Some q'), t)"
    using active_run_found [of q t i run_type_ingestion] q fields by auto
  ultimately show ?thesis
    using rows r(3) by (simp add: sync_repository_def require_def)
qed

text \<open>
  Submitting a repository that the caller has already registered, under any spelling of
  its address that normalises to the same URL, returns the existing one and changes nothing.
\<close>

theorem resubmission_returns_existing:
  assumes url: "validate_github_url (ing_bracket_ok env) raw = Inr n" "validate_git_ref ref = Inr chosen"
    and r: "r \<in> set (repositories s)" "repo_owner_id r = own" "repo_normalized_clone_url r = nu_clone_url n"
      "repo_deleted_at r = None" "repo_status r \<noteq> Deleted"
    and uniq: "distinct (map (\<lambda>q. (repo_owner_id q, repo_normalized_clone_url q)) (repositories s))"
  shows "create_repository env own raw ref cid ip s = (Inr (repo_id r, None), s)"
proof -
  have f: "filter (\<lambda>q. (repo_owner_id q, repo_normalized_clone_url q) = (own, nu_clone_url n)) (repositories s) = [r]"
    using filter_unique_column [OF uniq r(1)] r(2,3) by simp
  have "filter (\<lambda>q. repo_owner_id q = own \<and> repo_normalized_clone_url q = nu_clone_url n \<and> repo_deleted_at q = None)
      (repositories s) = filter (\<lambda>q. repo_deleted_at q = None)
        (filter (\<lambda>q. (repo_owner_id q, repo_normalized_clone_url q) = (own, nu_clone_url n)) (repositories s))"
    by (simp add: conj_assoc conj_commute conj_left_commute)
  also have "\<dots> = [r]" unfolding f using r(4) by simp
  finally have "repository_by_owner_url own (nu_clone_url n) s = (Inr (Some r), s)"
    by (simp add: repository_by_owner_url_def)
  moreover have "snd (active_for_repository (repo_id r) x s) = s" for x
    by (simp add: active_for_repository_def)
  moreover obtain a where "active_for_repository (repo_id r) (Some run_type_ingestion) s = (Inr a, s)"
    by (simp add: active_for_repository_def)
  ultimately show ?thesis
    using url r(5) by (simp add: create_repository_def Let_def)
qed

text \<open>
  Registering a repository again after deleting it fails with an integrity error: the
  deleted row is not found by the lookup but still occupies (owner, URL).
\<close>

theorem recreate_after_delete_fails:
  assumes url: "validate_github_url (ing_bracket_ok env) raw = Inr n" "validate_git_ref ref = Inr chosen"
    and r: "r \<in> set (repositories s)" "repo_owner_id r = own" "repo_normalized_clone_url r = nu_clone_url n"
      "repo_deleted_at r \<noteq> None"
    and uniq: "distinct (map (\<lambda>q. (repo_owner_id q, repo_normalized_clone_url q)) (repositories s))"
  shows "fst (create_repository env own raw ref cid ip s) = Inl (IntegrityError ''repositories'')"
proof -
  have f: "filter (\<lambda>q. (repo_owner_id q, repo_normalized_clone_url q) = (own, nu_clone_url n)) (repositories s) = [r]"
    using filter_unique_column [OF uniq r(1)] r(2,3) by simp
  have "filter (\<lambda>q. repo_owner_id q = own \<and> repo_normalized_clone_url q = nu_clone_url n \<and> repo_deleted_at q = None)
      (repositories s) = filter (\<lambda>q. repo_deleted_at q = None)
        (filter (\<lambda>q. (repo_owner_id q, repo_normalized_clone_url q) = (own, nu_clone_url n)) (repositories s))"
    by (simp add: conj_assoc conj_commute conj_left_commute)
  also have "\<dots> = []" unfolding f using r(4) by simp
  finally have none: "repository_by_owner_url own (nu_clone_url n) s = (Inr None, s)"
    by (simp add: repository_by_owner_url_def)
  have taken: "(own, nu_clone_url n) \<in> (\<lambda>q. (repo_owner_id q, repo_normalized_clone_url q)) ` set (repositories s)"
    using r(1-3) by force
  show ?thesis
    using url none taken
    by (simp add: create_repository_def Let_def insert_new_repository_def insert_repository_def add_row_app
        bindp_def)
qed

text \<open>
  Synchronising or deleting a repository of somebody else, a deleted one or one that
  does not exist is answered NotFound (HTTP 404) and changes nothing.
\<close>

theorem foreign_repository_untouchable:
  assumes "distinct (map repo_id (repositories s))"
    and "\<not> (\<exists>r \<in> set (repositories s). repo_id r = i \<and> repo_owner_id r = own \<and> repo_deleted_at r = None)"
  shows "sync_repository env own i ref cid ip s = (Inl (AppErr not_found), s)
    \<and> mark_deleting env own i cid ip s = (Inl (AppErr not_found), s)"
proof -
  have "filter (\<lambda>r. repo_id r = i \<and> repo_owner_id r = own \<and> repo_deleted_at r = None) (repositories s) = []"
    using assms(2) by (auto simp: filter_empty_conv)
  then have "repository_owned_by_id own i s = (Inr None, s)"
    by (simp add: repository_owned_by_id_def)
  then show ?thesis
    by (simp add: sync_repository_def mark_deleting_def require_def)
qed

lemma sample_url:
  "validate_github_url (\<lambda>h. True) ''https://github.com/o/n'' =
     Inr \<lparr>nu_owner = ''o'', nu_name = ''n'', nu_clone_url = ''https://github.com/o/n''\<rparr>"
  by code_simp

definition sample_registered :: "timestamp option \<Rightarrow> db" where
  "sample_registered deleted = sample_ingest_db\<lparr>repositories :=
     [(sample_repository 1 0)\<lparr>repo_status := Ready, repo_deleted_at := deleted,
        repo_normalized_clone_url := ''https://github.com/o/n''\<rparr>]\<rparr>"

lemma resubmission_returns_existing_witness:
  "create_repository sample_ingest_env 0 ''https://github.com/o/n'' None ''c'' ''ip'' (sample_registered None) =
     (Inr (1, None), sample_registered None)"
  using resubmission_returns_existing [of sample_ingest_env "''https://github.com/o/n''"
      "\<lparr>nu_owner = ''o'', nu_name = ''n'', nu_clone_url = ''https://github.com/o/n''\<rparr>" None None
      "(sample_repository 1 0)\<lparr>repo_status := Ready, repo_deleted_at := None,
        repo_normalized_clone_url := ''https://github.com/o/n''\<rparr>" "sample_registered None" 0 "''c''" "''ip''"]
  by (simp add: sample_registered_def sample_ingest_env_def sample_repository_def sample_url validate_git_ref_def)

lemma recreate_after_delete_fails_witness:
  "fst (create_repository sample_ingest_env 0 ''https://github.com/o/n'' None ''c'' ''ip'' (sample_registered (Some 9))) =
     Inl (IntegrityError ''repositories'')"
  using recreate_after_delete_fails [of sample_ingest_env "''https://github.com/o/n''"
      "\<lparr>nu_owner = ''o'', nu_name = ''n'', nu_clone_url = ''https://github.com/o/n''\<rparr>" None None
      "(sample_repository 1 0)\<lparr>repo_status := Ready, repo_deleted_at := Some 9,
        repo_normalized_clone_url := ''https://github.com/o/n''\<rparr>" "sample_registered (Some 9)" 0 "''c''" "''ip''"]
  by (simp add: sample_registered_def sample_ingest_env_def sample_repository_def sample_url validate_git_ref_def)

lemma foreign_repository_untouchable_witness:
  "sync_repository sample_ingest_env 7 1 None ''c'' ''ip'' sample_ingest_db = (Inl (AppErr not_found), sample_ingest_db)"
  using foreign_repository_untouchable [of sample_ingest_db 1 7 sample_ingest_env None "''c''" "''ip''"]
  by (simp add: sample_ingest_db_def sample_repository_def)

definition crashing_env :: ingest_env where
  "crashing_env = sample_ingest_env\<lparr>ing_host := undecodable_host\<rparr>"

lemma crashed_ingestion_blocks_sync_witness:
  "\<exists>t. worker_ingest crashing_env 1 2 sample_ingest_db = (Inl (ValueError ''codec''), t)
     \<and> fst (sync_repository crashing_env 0 1 None ''c'' ''ip'' t) =
          Inl (AppErr (Conflict ''Repository ingestion is already running''))"
proof -
  have "fst (worker_ingest crashing_env 1 2 sample_ingest_db) = Inl (ValueError ''codec'')"
    by (simp add: ingest_evals crashing_env_def undecodable_host_def cong: weak_congs)
  then obtain t where t: "worker_ingest crashing_env 1 2 sample_ingest_db = (Inl (ValueError ''codec''), t)"
    by (metis surjective_pairing)
  from crashed_ingestion_blocks_sync [OF t, of "sample_run 2 0 1" "(sample_repository 1 0)\<lparr>repo_status := Queued\<rparr>" crashing_env None "''c''" "''ip''"] t
  show ?thesis by (simp add: sample_ingest_db_def sample_run_def sample_repository_def)
qed

end
