(* ===== verification/Regex.thy ===== *)
theory Regex
  imports PyStr
begin

text \<open>
  The part of Python's \<^verbatim>\<open>re\<close> that the sources use: patterns as data, and the backtracking
  matcher as the list of all ways a pattern matches at the front of a string, in the order
  the engine tries them (so \<^verbatim>\<open>match\<close> is the head of that list). A match is the captured
  groups with their names and the rest of the string. The alphabet is that of \<open>PyStr\<close>.
\<close>

section \<open>Patterns and the matcher\<close>

text \<open>
  \<open>Grp\<close> is a capturing group with its name, if it has one; \<open>Star\<close> is greedy and \<open>Lazy\<close> is
  the reluctant repetition; \<open>Eol\<close> is the dollar sign.
\<close>

datatype rx =
    Eps
  | Cls "char \<Rightarrow> bool"
  | Seq rx rx
  | Alt rx rx
  | Star rx
  | Lazy rx
  | Grp "string option" rx
  | Eol

type_synonym captures = "(string option \<times> string) list"
type_synonym way = "captures \<times> string"

definition follow :: "(string \<Rightarrow> way list) \<Rightarrow> way \<Rightarrow> way list" where
  "follow m w = map (\<lambda>(d, u). (fst w @ d, u)) (m (snd w))"

text \<open>A repetition whose body must consume; the number bounds the iterations.\<close>

fun greedy :: "(string \<Rightarrow> way list) \<Rightarrow> nat \<Rightarrow> string \<Rightarrow> way list" where
  "greedy m 0 s = [([], s)]"
| "greedy m (Suc n) s =
     concat (map (follow (greedy m n)) (filter (\<lambda>w. length (snd w) < length s) (m s))) @ [([], s)]"

fun reluctant :: "(string \<Rightarrow> way list) \<Rightarrow> nat \<Rightarrow> string \<Rightarrow> way list" where
  "reluctant m 0 s = [([], s)]"
| "reluctant m (Suc n) s =
     ([], s) # concat (map (follow (reluctant m n)) (filter (\<lambda>w. length (snd w) < length s) (m s)))"

fun ways :: "rx \<Rightarrow> string \<Rightarrow> way list" where
  "ways Eps s = [([], s)]"
| "ways (Cls p) s = (case s of [] \<Rightarrow> [] | c # t \<Rightarrow> if p c then [([], t)] else [])"
| "ways (Seq a b) s = concat (map (follow (ways b)) (ways a s))"
| "ways (Alt a b) s = ways a s @ ways b s"
| "ways (Star r) s = greedy (ways r) (length s) s"
| "ways (Lazy r) s = reluctant (ways r) (length s) s"
| "ways (Grp name r) s = map (\<lambda>(c, t). (c @ [(name, take (length s - length t) s)], t)) (ways r s)"
| "ways Eol s = (if s = [] \<or> s = [CHR 0x0A] then [([], s)] else [])"

text \<open>\<^verbatim>\<open>pattern.match(s)\<close>: the first way, as captures and matched text.\<close>

definition re_match :: "rx \<Rightarrow> string \<Rightarrow> (captures \<times> string) option" where
  "re_match r s = (case ways r s of [] \<Rightarrow> None | (c, t) # _ \<Rightarrow> Some (c, take (length s - length t) s))"

text \<open>
  \<^verbatim>\<open>re.findall\<close> for a pattern without groups: the matched texts from left to right; after
  an empty match the scan moves on by one character.
\<close>

function findall :: "rx \<Rightarrow> string \<Rightarrow> string list" where
  "findall r s =
     (case re_match r s of
        None \<Rightarrow> if s = [] then [] else findall r (tl s)
      | Some (c, m) \<Rightarrow>
          if m = [] then [] # (if s = [] then [] else findall r (tl s))
          else if s = [] then [m] else m # findall r (drop (length m) s))"
  by pat_completeness auto
termination
  by (relation "measure (\<lambda>(r, s). length s)") auto

declare findall.simps [simp del]

section \<open>Building patterns\<close>

definition chr :: "char \<Rightarrow> rx" where
  "chr c = Cls (\<lambda>d. d = c)"

fun lit :: "string \<Rightarrow> rx" where
  "lit [] = Eps"
| "lit [c] = chr c"
| "lit (c # d # s) = Seq (chr c) (lit (d # s))"

fun seqs :: "rx list \<Rightarrow> rx" where
  "seqs [] = Eps"
| "seqs [r] = r"
| "seqs (r # q # rs) = Seq r (seqs (q # rs))"

fun alts :: "rx list \<Rightarrow> rx" where
  "alts [] = Eps"
| "alts [r] = r"
| "alts (r # q # rs) = Alt r (alts (q # rs))"

definition opt :: "rx \<Rightarrow> rx" where
  "opt r = Alt r Eps"

definition plus_of :: "rx \<Rightarrow> rx" where
  "plus_of r = Seq r (Star r)"

definition lazy_plus :: "rx \<Rightarrow> rx" where
  "lazy_plus r = Seq r (Lazy r)"

text \<open>\<^verbatim>\<open>\s\<close>, \<^verbatim>\<open>\w\<close>, the full stop, and a set of characters or its complement.\<close>

definition ws :: rx where
  "ws = Cls is_space"

definition is_word :: "char \<Rightarrow> bool" where
  "is_word c = (is_alnum c \<or> c = CHR ''_'')"

definition any_char :: rx where
  "any_char = Cls (\<lambda>c. c \<noteq> CHR 0x0A)"

definition one_of :: "string \<Rightarrow> rx" where
  "one_of cs = Cls (\<lambda>c. c \<in> set cs)"

definition none_of :: "string \<Rightarrow> rx" where
  "none_of cs = Cls (\<lambda>c. c \<notin> set cs)"

section \<open>What a match is\<close>

text \<open>The language of a pattern, as an inductive relation, and the matcher against it.\<close>

inductive matches :: "rx \<Rightarrow> string \<Rightarrow> string \<Rightarrow> bool" where
  m_eps: "matches Eps [] t"
| m_cls: "p c \<Longrightarrow> matches (Cls p) [c] t"
| m_seq: "matches a u (v @ t) \<Longrightarrow> matches b v t \<Longrightarrow> matches (Seq a b) (u @ v) t"
| m_left: "matches a u t \<Longrightarrow> matches (Alt a b) u t"
| m_right: "matches b u t \<Longrightarrow> matches (Alt a b) u t"
| m_star0: "matches (Star r) [] t"
| m_star: "matches r u (v @ t) \<Longrightarrow> u \<noteq> [] \<Longrightarrow> matches (Star r) v t \<Longrightarrow> matches (Star r) (u @ v) t"
| m_lazy0: "matches (Lazy r) [] t"
| m_lazy: "matches r u (v @ t) \<Longrightarrow> u \<noteq> [] \<Longrightarrow> matches (Lazy r) v t \<Longrightarrow> matches (Lazy r) (u @ v) t"
| m_grp: "matches r u t \<Longrightarrow> matches (Grp n r) u t"
| m_eol: "t = [] \<or> t = [CHR 0x0A] \<Longrightarrow> matches Eol [] t"

inductive_cases matches_SeqE: "matches (Seq a b) w t"
inductive_cases matches_ClsE: "matches (Cls p) w t"
inductive_cases matches_AltE: "matches (Alt a b) w t"
inductive_cases matches_StarE: "matches (Star r) w t"
inductive_cases matches_LazyE: "matches (Lazy r) w t"

text \<open>\<open>splits m s\<close> says the text a set of ways consumes: the rests of \<open>s\<close> it leaves.\<close>

lemma follow_in:
  "(c, t) \<in> set (follow m w) \<longleftrightarrow> (\<exists>d. (d, t) \<in> set (m (snd w)) \<and> c = fst w @ d)"
  by (auto simp: follow_def image_iff split: prod.splits)

lemma in_ways_Seq:
  "(c, t) \<in> set (ways (Seq a b) s) \<longleftrightarrow>
   (\<exists>c1 u c2. (c1, u) \<in> set (ways a s) \<and> (c2, t) \<in> set (ways b u) \<and> c = c1 @ c2)"
  by (auto simp: follow_in) (metis fst_conv snd_conv)+

lemma in_greedy_Suc:
  "(c, t) \<in> set (greedy m (Suc n) s) \<longleftrightarrow> (c = [] \<and> t = s) \<or>
   (\<exists>c1 u c2. (c1, u) \<in> set (m s) \<and> length u < length s \<and> (c2, t) \<in> set (greedy m n u) \<and> c = c1 @ c2)"
  by (fastforce simp: follow_in)

lemma in_reluctant:
  "set (reluctant m n s) = set (greedy m n s)"
  by (induction n arbitrary: s) (auto simp: follow_def split: prod.splits)

lemma greedy_sound:
  assumes "\<And>s c t. (c, t) \<in> set (m s) \<Longrightarrow> \<exists>u. s = u @ t \<and> matches r u t"
  shows "(c, t) \<in> set (greedy m n s) \<Longrightarrow> \<exists>u. s = u @ t \<and> matches (Star r) u t \<and> matches (Lazy r) u t"
proof (induction n arbitrary: s c)
  case 0
  then show ?case by (auto intro: m_star0 m_lazy0)
next
  case (Suc n)
  from Suc.prems show ?case
    unfolding in_greedy_Suc
  proof (elim disjE exE conjE)
    fix c1 w c2 assume a: "(c1, w) \<in> set (m s)" "length w < length s" "(c2, t) \<in> set (greedy m n w)"
    from assms [OF a(1)] obtain u where u: "s = u @ w" "matches r u w" by blast
    from Suc.IH [OF a(3)] obtain v where v: "w = v @ t" "matches (Star r) v t" "matches (Lazy r) v t" by blast
    have "u \<noteq> []" using a(2) u(1) by auto
    then have "matches (Star r) (u @ v) t" "matches (Lazy r) (u @ v) t"
      using u v by (auto intro: m_star m_lazy)
    then show ?thesis using u v by auto
  qed (auto intro: m_star0 m_lazy0)
qed

lemma ways_sound: "(c, t) \<in> set (ways r s) \<Longrightarrow> \<exists>u. s = u @ t \<and> matches r u t"
proof (induction r arbitrary: s c t)
  case (Seq a b)
  from Seq.prems obtain c1 w c2 where w: "(c1, w) \<in> set (ways a s)" "(c2, t) \<in> set (ways b w)"
    unfolding in_ways_Seq by blast
  from Seq.IH(1) [OF w(1)] Seq.IH(2) [OF w(2)] obtain u v
    where "s = u @ w" "matches a u w" "w = v @ t" "matches b v t" by blast
  then show ?case by (auto intro: m_seq)
next
  case (Star r)
  then show ?case using greedy_sound [of "ways r" r c t "length s" s] by auto
next
  case (Lazy r)
  then show ?case using greedy_sound [of "ways r" r c t "length s" s] by (auto simp: in_reluctant)
next
  case (Alt a b)
  then show ?case by simp (blast intro: m_left m_right)
next
  case (Grp n r)
  then show ?case by (fastforce intro: m_grp)
qed (auto split: list.splits if_splits intro: matches.intros)

lemma greedy_complete:
  assumes "\<And>u v. matches r u v \<Longrightarrow> \<exists>c. (c, v) \<in> set (m (u @ v))"
  shows "matches q w t \<Longrightarrow> q = Star r \<or> q = Lazy r \<Longrightarrow> length w \<le> n \<Longrightarrow>
         \<exists>c. (c, t) \<in> set (greedy m n (w @ t))"
proof (induction n arbitrary: w)
  case 0
  then show ?case by simp
next
  case (Suc n)
  have "w = [] \<or> (\<exists>u v. w = u @ v \<and> u \<noteq> [] \<and> matches r u (v @ t) \<and> matches q v t)"
    using Suc.prems(1,2) by (auto elim: matches_StarE matches_LazyE)
  then show ?case
  proof (elim disjE exE conjE)
    fix u v assume a: "w = u @ v" "u \<noteq> []" "matches r u (v @ t)" "matches q v t"
    from assms [OF a(3)] obtain c1 where c1: "(c1, v @ t) \<in> set (m (w @ t))" using a(1) by auto
    have "length v \<le> n" using Suc.prems(3) a(1,2) by (cases u) auto
    with Suc.IH [OF a(4)] Suc.prems(2) obtain c2 where "(c2, t) \<in> set (greedy m n (v @ t))" by blast
    moreover have "length (v @ t) < length (w @ t)" using a(1,2) by simp
    ultimately show ?thesis unfolding in_greedy_Suc using c1 by blast
  qed (auto simp: in_greedy_Suc)
qed

lemma ways_complete: "matches r u t \<Longrightarrow> \<exists>c. (c, t) \<in> set (ways r (u @ t))"
proof (induction r arbitrary: u t)
  case (Seq a b)
  from Seq.prems show ?case
  proof (rule matches_SeqE)
    fix v w assume a: "u = v @ w" "matches a v (w @ t)" "matches b w t"
    from Seq.IH(1) [OF a(2)] Seq.IH(2) [OF a(3)] show ?thesis
      unfolding in_ways_Seq a(1) by auto
  qed
next
  case (Star r)
  show ?case using greedy_complete [where m = "ways r" and n = "length (u @ t)", OF Star.IH Star.prems]
    by simp
next
  case (Lazy r)
  show ?case using greedy_complete [where m = "ways r" and n = "length (u @ t)", OF Lazy.IH Lazy.prems]
    by (simp add: in_reluctant)
next
  case (Alt a b)
  from Alt.prems show ?case by (rule matches_AltE) (auto dest: Alt.IH)
next
  case (Grp n r)
  from Grp.prems have "matches r u t" by (auto elim: matches.cases)
  from Grp.IH [OF this] show ?case by force
qed (auto elim: matches.cases split: list.splits)

text \<open>The names of the groups of a pattern; every match captures exactly these, in order.\<close>

fun group_names :: "rx \<Rightarrow> string option list" where
  "group_names (Seq a b) = group_names a @ group_names b"
| "group_names (Alt a b) = group_names a @ group_names b"
| "group_names (Star r) = group_names r"
| "group_names (Lazy r) = group_names r"
| "group_names (Grp n r) = group_names r @ [n]"
| "group_names _ = []"

lemma greedy_captures:
  assumes "\<And>s c t. (c, t) \<in> set (m s) \<Longrightarrow> fst ` set c \<subseteq> G"
  shows "(c, t) \<in> set (greedy m n s) \<Longrightarrow> fst ` set c \<subseteq> G"
proof (induction n arbitrary: s c)
  case (Suc n)
  from Suc.prems show ?case unfolding in_greedy_Suc
    using Suc.IH assms by (fastforce simp: image_Un)
qed simp

lemma captures_named: "(c, t) \<in> set (ways r s) \<Longrightarrow> fst ` set c \<subseteq> set (group_names r)"
proof (induction r arbitrary: s c t)
  case (Seq a b)
  then show ?case unfolding in_ways_Seq by (fastforce simp: image_Un)
next
  case (Alt a b)
  then show ?case by simp blast
next
  case (Star r)
  show ?case
    using Star.prems greedy_captures [where m = "ways r" and G = "set (group_names r)", OF Star.IH] by simp
next
  case (Lazy r)
  show ?case
    using Lazy.prems greedy_captures [where m = "ways r" and G = "set (group_names r)", OF Lazy.IH]
    by (simp add: in_reluctant)
next
  case (Grp n r)
  then show ?case by fastforce
qed (auto split: list.splits if_splits)

lemma re_match_sound:
  assumes "re_match r s = Some (c, m)"
  shows "\<exists>t. s = m @ t \<and> matches r m t" and "fst ` set c \<subseteq> set (group_names r)"
proof -
  from assms obtain t where t: "(c, t) \<in> set (ways r s)" "m = take (length s - length t) s"
    by (auto simp: re_match_def split: list.splits)
  show "\<exists>t. s = m @ t \<and> matches r m t"
    using ways_sound [OF t(1)] t(2) by fastforce
  show "fst ` set c \<subseteq> set (group_names r)" using captures_named [OF t(1)] .
qed

text \<open>There is a match exactly when a prefix of the string is in the language of the pattern.\<close>

lemma re_match_None_iff: "re_match r s = None \<longleftrightarrow> (\<forall>u t. s = u @ t \<longrightarrow> \<not> matches r u t)"
proof
  assume "re_match r s = None"
  then have "ways r s = []" by (auto simp: re_match_def split: list.splits)
  then show "\<forall>u t. s = u @ t \<longrightarrow> \<not> matches r u t" using ways_complete by fastforce
next
  assume a: "\<forall>u t. s = u @ t \<longrightarrow> \<not> matches r u t"
  have "ways r s = []"
  proof (cases "ways r s")
    case (Cons w ws)
    then have "(fst w, snd w) \<in> set (ways r s)" by simp
    from ways_sound [OF this] a show ?thesis by blast
  qed
  then show "re_match r s = None" by (simp add: re_match_def)
qed

end
