(* ===== verification/Parsing.thy ===== *)
theory Parsing
  imports Regex
begin

text \<open>
  Symbol extraction, \<^verbatim>\<open>app/parsing/index.py\<close>: the parsed file and its symbols, the Python
  parser over the syntax tree, the line-based parser with its regular expressions for the
  other languages, the registry that picks one, and the fallback that cuts a file that
  cannot be parsed into text chunks. \<^verbatim>\<open>ast.parse\<close> and \<^verbatim>\<open>ast.unparse\<close> are parameters;
  \<^verbatim>\<open>re\<close> is the theory \<open>Regex\<close>.
\<close>

section \<open>Results\<close>

record parse_error_record =
  pe_code :: string
  pe_message :: string

record parsed_symbol =
  ps_symbol_type :: string
  ps_name :: string
  ps_qualified_name :: string
  ps_start_line :: int
  ps_end_line :: int
  ps_signature :: "string option"
  ps_docstring :: "string option"
  ps_parent_qualified_name :: "string option"
  ps_calls :: "string list"
  ps_references :: "string list"
  ps_metadata :: "(string \<times> json) list"

record parsed_file =
  pf_language :: "string option"
  pf_module_name :: "string option"
  pf_package_name :: "string option"
  pf_imports :: "string list"
  pf_symbols :: "parsed_symbol list"
  pf_errors :: "parse_error_record list"
  pf_fallback_used :: bool

definition supported_languages :: "(string \<times> string) list" where
  "supported_languages = [(''.c'', ''C''), (''.cpp'', ''C++''), (''.cs'', ''C#''), (''.go'', ''Go''),
     (''.java'', ''Java''), (''.js'', ''JavaScript''), (''.jsx'', ''JavaScript''),
     (''.py'', ''Python''), (''.ts'', ''TypeScript''), (''.tsx'', ''TypeScript'')]"

text \<open>\<^verbatim>\<open>str(exc)\<close> of the exceptions that reach a fallback.\<close>

fun exn_str :: "exn \<Rightarrow> string" where
  "exn_str (ValueError m) = m"
| "exn_str (IndexError m) = m"
| "exn_str (NameError m) = m"
| "exn_str (SyntaxErr m) = m"
| "exn_str (RuntimeError m) = m"
| "exn_str (OSError m) = m"
| "exn_str _ = []"

text \<open>\<^verbatim>\<open>dict.fromkeys\<close>: the elements in the order of their first occurrence.\<close>

fun dict_keys :: "'a list \<Rightarrow> 'a list" where
  "dict_keys [] = []"
| "dict_keys (x # xs) = x # dict_keys (filter (\<lambda>y. y \<noteq> x) xs)"

section \<open>Names and lines\<close>

definition module_of :: "string \<Rightarrow> exn + string option" where
  "module_of path =
     (if path_name path = [] then Inl (ValueError ''PosixPath('.') has an empty name'')
      else let stem = map (\<lambda>c. if c = CHR ''/'' then CHR ''.'' else c)
                        (join ''/'' (butlast (path_parts path) @ [path_stem path]))
           in Inr (if stem = [] then None else Some stem))"

definition package_name :: "string \<Rightarrow> string option" where
  "package_name path = (let parents = butlast (path_parts path)
     in if parents = [] then None else Some (join ''.'' parents))"

definition or_else :: "string option \<Rightarrow> string \<Rightarrow> string" where
  "or_else x d = (case x of None \<Rightarrow> d | Some v \<Rightarrow> if v = [] then d else v)"

definition qualified_name :: "string \<Rightarrow> string \<Rightarrow> string \<Rightarrow> exn + string" where
  "qualified_name path name symbol_type = bindr (module_of path) (\<lambda>m.
     let modul = or_else m (path_stem path) in
     if symbol_type \<in> set [''class'', ''interface'', ''struct''] then Inr (modul @ ''.'' @ name)
     else Inr (modul @ ''.'' @ name))"

definition newline :: string where
  "newline = [CHR 0x0A]"

definition line_slice :: "string \<Rightarrow> int \<Rightarrow> int \<Rightarrow> string" where
  "line_slice t start_line end_line =
     (let lines = splitlines t; start = max (start_line - 1) 0; stop = min end_line (int (length lines))
      in join newline (slice lines start stop))"

section \<open>The fallback\<close>

function fallback_ranges :: "nat \<Rightarrow> nat \<Rightarrow> (nat \<times> nat) list" where
  "fallback_ranges start n =
     (if n < start then [] else (start, min (start + 120 - 1) n) # fallback_ranges (start + 120) n)"
  by pat_completeness auto
termination by (relation "measure (\<lambda>(a, n). Suc n - a)") auto

declare fallback_ranges.simps [simp del]

definition range_label :: "string \<Rightarrow> nat \<Rightarrow> nat \<Rightarrow> string" where
  "range_label base a b = base @ '':'' @ nat_str a @ ''-'' @ nat_str b"

definition text_chunk :: "string \<Rightarrow> string \<Rightarrow> int \<Rightarrow> int \<Rightarrow> string \<Rightarrow> parsed_symbol" where
  "text_chunk name qname a b sig =
     \<lparr>ps_symbol_type = ''text_chunk'', ps_name = name, ps_qualified_name = qname,
      ps_start_line = a, ps_end_line = b, ps_signature = Some sig, ps_docstring = None,
      ps_parent_qualified_name = None, ps_calls = [], ps_references = [],
      ps_metadata = [(''fallback'', JBool True)]\<rparr>"

definition fallback_symbols :: "string \<Rightarrow> string \<Rightarrow> string \<Rightarrow> parsed_symbol list" where
  "fallback_symbols path base t =
     (let chunks = map (\<lambda>(a, b). text_chunk (range_label (path_stem path) a b) (range_label base a b)
                           (int a) (int b) (line_slice t (int a) (int b)))
                     (fallback_ranges 1 (length (splitlines t)))
      in if chunks = [] then [text_chunk (path_stem path) base 1 1 []] else chunks)"

definition fallback_parsed_file ::
    "string \<Rightarrow> string \<Rightarrow> string option \<Rightarrow> exn \<Rightarrow> exn + parsed_file" where
  "fallback_parsed_file path t language e = bindr (module_of path) (\<lambda>m.
     Inr \<lparr>pf_language = language, pf_module_name = m, pf_package_name = package_name path,
          pf_imports = [], pf_symbols = fallback_symbols path (or_else m (path_stem path)) t,
          pf_errors = [\<lparr>pe_code = ''parse_fallback'', pe_message = exn_str e\<rparr>],
          pf_fallback_used = True\<rparr>)"

section \<open>Python\<close>

text \<open>
  The nodes of \<^verbatim>\<open>ast\<close> the parser looks at, with \<^verbatim>\<open>lineno\<close> and \<^verbatim>\<open>end_lineno\<close>; \<open>OtherNode\<close>
  is any other node with its children. Keywords are given by their names and values.
\<close>

datatype py_node =
    PyName string
  | PyAttribute py_node string
  | PyCall py_node "py_node list"
  | PyTuple "py_node list"
  | PyStr string
  | PyExpr py_node
  | PyImport "string list" int int
  | PyImportFrom "string option" "string list" int int
  | PyClassDef string "py_node list" "string option list" "py_node list" "py_node list" "py_node list" int int
  | PyFunctionDef bool string "py_node list" "py_node list" "py_node option" "py_node list" int int
  | PyAssign "py_node list" py_node int int
  | PyAnnAssign py_node py_node "py_node option" int int
  | OtherNode "py_node list"

record py_ast =
  ast_parse :: "string \<Rightarrow> exn + py_node list"
  ast_unparse :: "py_node \<Rightarrow> string option"

text \<open>\<^verbatim>\<open>ast.walk\<close>: a node and all nodes below it.\<close>

fun ast_walk :: "py_node \<Rightarrow> py_node list" where
  "ast_walk (PyName s) = [PyName s]"
| "ast_walk (PyStr s) = [PyStr s]"
| "ast_walk (PyImport ns a b) = [PyImport ns a b]"
| "ast_walk (PyImportFrom m ns a b) = [PyImportFrom m ns a b]"
| "ast_walk (PyAttribute v s) = PyAttribute v s # ast_walk v"
| "ast_walk (PyCall f xs) = PyCall f xs # ast_walk f @ concat (map ast_walk xs)"
| "ast_walk (PyTuple xs) = PyTuple xs # concat (map ast_walk xs)"
| "ast_walk (PyExpr v) = PyExpr v # ast_walk v"
| "ast_walk (PyClassDef n bs kn kv ds body a b) = PyClassDef n bs kn kv ds body a b #
     concat (map ast_walk bs) @ concat (map ast_walk kv) @ concat (map ast_walk ds)
       @ concat (map ast_walk body)"
| "ast_walk (PyFunctionDef asy n args ds r body a b) = PyFunctionDef asy n args ds r body a b #
     concat (map ast_walk args) @ concat (map ast_walk ds)
       @ (case r of None \<Rightarrow> [] | Some v \<Rightarrow> ast_walk v) @ concat (map ast_walk body)"
| "ast_walk (PyAssign ts v a b) = PyAssign ts v a b # concat (map ast_walk ts) @ ast_walk v"
| "ast_walk (PyAnnAssign t n v a b) = PyAnnAssign t n v a b # ast_walk t @ ast_walk n
     @ (case v of None \<Rightarrow> [] | Some e \<Rightarrow> ast_walk e)"
| "ast_walk (OtherNode xs) = OtherNode xs # concat (map ast_walk xs)"

text \<open>\<^verbatim>\<open>ast.get_docstring(node, clean=False)\<close> on the body of the node.\<close>

fun docstring_of :: "py_node list \<Rightarrow> string option" where
  "docstring_of (PyExpr (PyStr s) # _) = Some s"
| "docstring_of _ = None"

fun call_name :: "py_node \<Rightarrow> string option" where
  "call_name (PyName s) = Some s"
| "call_name (PyAttribute v attr) = (case call_name v of
       None \<Rightarrow> Some attr
     | Some owner \<Rightarrow> if owner = [] then Some attr else Some (owner @ ''.'' @ attr))"
| "call_name _ = None"

fun call_names :: "py_node list \<Rightarrow> string list" where
  "call_names [] = []"
| "call_names (PyCall f xs # rest) = (case call_name f of
       Some n \<Rightarrow> if n = [] then call_names rest else n # call_names rest
     | None \<Rightarrow> call_names rest)"
| "call_names (_ # rest) = call_names rest"

definition python_calls :: "py_node \<Rightarrow> string list" where
  "python_calls node = sort (remdups (call_names (ast_walk node)))"

fun assignment_names :: "py_node \<Rightarrow> string list" where
  "assignment_names (PyName s) = [s]"
| "assignment_names (PyTuple xs) = concat (map assignment_names xs)"
| "assignment_names _ = []"

definition json_opt :: "string option \<Rightarrow> json" where
  "json_opt x = (case x of None \<Rightarrow> JNull | Some s \<Rightarrow> JStr s)"

definition json_strs :: "string list \<Rightarrow> json" where
  "json_strs xs = JArr (map JStr xs)"

definition child_name :: "parsed_symbol option \<Rightarrow> string \<Rightarrow> string" where
  "child_name parent name = (case parent of None \<Rightarrow> name | Some p \<Rightarrow> ps_qualified_name p @ ''.'' @ name)"

definition constant_kind :: "string \<Rightarrow> string" where
  "constant_kind target = (if isupper target then ''constant''
     else if contains ''type'' (lower target) then ''type_definition'' else ''assignment'')"

definition python_constant_symbols ::
    "py_ast \<Rightarrow> string \<Rightarrow> string list \<Rightarrow> py_node option \<Rightarrow> int \<Rightarrow> int \<Rightarrow> parsed_symbol option \<Rightarrow> parsed_symbol list" where
  "python_constant_symbols ast t targets annotation start_line end_line parent =
     map (\<lambda>target. \<lparr>ps_symbol_type = constant_kind target, ps_name = target,
           ps_qualified_name = child_name parent target, ps_start_line = start_line,
           ps_end_line = end_line, ps_signature = Some (line_slice t start_line end_line),
           ps_docstring = None, ps_parent_qualified_name = map_option ps_qualified_name parent,
           ps_calls = [], ps_references = [],
           ps_metadata = [(''annotation'',
             case annotation of None \<Rightarrow> JNull | Some n \<Rightarrow> json_opt (ast_unparse ast n))]\<rparr>) targets"

definition function_kind :: "bool \<Rightarrow> string \<Rightarrow> parsed_symbol option \<Rightarrow> string" where
  "function_kind asy name parent =
     (let kind = (case parent of
                    Some p \<Rightarrow> if ps_symbol_type p = ''class'' then ''method'' else ''function''
                  | None \<Rightarrow> ''function'');
          kind = (if name = ''__init__'' then ''constructor'' else kind)
      in if asy then ''async_'' @ kind else kind)"

fun python_function_symbols ::
    "py_ast \<Rightarrow> string \<Rightarrow> parsed_symbol option \<Rightarrow> py_node \<Rightarrow> parsed_symbol list" where
  "python_function_symbols ast t parent (PyFunctionDef asy name args decorators rty body lineno end_lineno) =
     [\<lparr>ps_symbol_type = function_kind asy name parent, ps_name = name,
       ps_qualified_name = child_name parent name, ps_start_line = lineno, ps_end_line = end_lineno,
       ps_signature = ast_unparse ast (PyFunctionDef asy name args decorators rty body lineno end_lineno),
       ps_docstring = docstring_of body,
       ps_parent_qualified_name = map_option ps_qualified_name parent,
       ps_calls = python_calls (PyFunctionDef asy name args decorators rty body lineno end_lineno),
       ps_references = [],
       ps_metadata = [(''returns'', case rty of None \<Rightarrow> JNull | Some r \<Rightarrow> json_opt (ast_unparse ast r)),
                      (''decorators'', JArr (map (\<lambda>d. json_opt (ast_unparse ast d)) decorators))]\<rparr>]"
| "python_function_symbols ast t parent _ = []"

fun assigned :: "py_node \<Rightarrow> (string list \<times> py_node option \<times> int \<times> int) option" where
  "assigned (PyAssign targets value a b) = Some (concat (map assignment_names targets), None, a, b)"
| "assigned (PyAnnAssign target annotation value a b) = Some (assignment_names target, Some annotation, a, b)"
| "assigned _ = None"

text \<open>The symbols of one statement in a class body.\<close>

definition member_symbols :: "py_ast \<Rightarrow> string \<Rightarrow> parsed_symbol option \<Rightarrow> py_node \<Rightarrow> parsed_symbol list" where
  "member_symbols ast t parent node = (case assigned node of
     Some (targets, annotation, a, b) \<Rightarrow> python_constant_symbols ast t targets annotation a b parent
   | None \<Rightarrow> python_function_symbols ast t parent node)"

fun class_symbol :: "py_ast \<Rightarrow> parsed_symbol option \<Rightarrow> py_node \<Rightarrow> parsed_symbol option" where
  "class_symbol ast parent (PyClassDef name bases kw_names kw_values decorators body lineno end_lineno) =
     Some \<lparr>ps_symbol_type = ''class'', ps_name = name, ps_qualified_name = child_name parent name,
       ps_start_line = lineno, ps_end_line = end_lineno,
       ps_signature = ast_unparse ast (PyClassDef name bases kw_names kw_values decorators body lineno end_lineno),
       ps_docstring = docstring_of body,
       ps_parent_qualified_name = map_option ps_qualified_name parent,
       ps_calls = python_calls (PyClassDef name bases kw_names kw_values decorators body lineno end_lineno),
       ps_references = [],
       ps_metadata = [(''bases'', JArr (map (\<lambda>n. json_opt (ast_unparse ast n)) bases)),
                      (''keywords'', json_strs [k. Some k \<leftarrow> kw_names, k \<noteq> []])]\<rparr>"
| "class_symbol ast parent _ = None"

fun python_class_symbols ::
    "py_ast \<Rightarrow> string \<Rightarrow> parsed_symbol option \<Rightarrow> py_node \<Rightarrow> parsed_symbol list" where
  "python_class_symbols ast t parent (PyClassDef name bases kn kv decorators body a b) =
     (case class_symbol ast parent (PyClassDef name bases kn kv decorators body a b) of
        None \<Rightarrow> []
      | Some c \<Rightarrow> c # concat (map (member_symbols ast t (Some c)) body))"
| "python_class_symbols ast t parent _ = []"

definition import_symbol ::
    "string \<Rightarrow> string \<Rightarrow> string \<Rightarrow> int \<Rightarrow> int \<Rightarrow> (string \<times> json) list \<Rightarrow> parsed_symbol" where
  "import_symbol t name qname a b meta =
     \<lparr>ps_symbol_type = ''import'', ps_name = name, ps_qualified_name = qname, ps_start_line = a,
      ps_end_line = b, ps_signature = Some (line_slice t a b), ps_docstring = None,
      ps_parent_qualified_name = None, ps_calls = [], ps_references = [], ps_metadata = meta\<rparr>"

text \<open>What one top-level statement adds: imports and symbols.\<close>

fun top_level :: "py_ast \<Rightarrow> string \<Rightarrow> py_node \<Rightarrow> string list \<times> parsed_symbol list" where
  "top_level ast t (PyImport names a b) =
     (names, [import_symbol t (join '', '' names) (join '', '' names) a b [(''imports'', json_strs names)]])"
| "top_level ast t (PyImportFrom modl names a b) =
     (let m = (case modl of None \<Rightarrow> [] | Some v \<Rightarrow> v)
      in ([m], [import_symbol t m (strip_by (\<lambda>c. c = CHR '':'') (m @ '':'' @ join '', '' names)) a b
                 [(''imports'', json_strs names), (''module'', JStr m)]]))"
| "top_level ast t (PyClassDef n bs kn kv ds body a b) =
     ([], python_class_symbols ast t None (PyClassDef n bs kn kv ds body a b))"
| "top_level ast t node = ([], member_symbols ast t None node)"

definition python_file ::
    "py_ast \<Rightarrow> string \<Rightarrow> string \<Rightarrow> string option \<Rightarrow> py_node list \<Rightarrow> parsed_file" where
  "python_file ast path t m body =
     \<lparr>pf_language = Some ''Python'', pf_module_name = m, pf_package_name = package_name path,
      pf_imports = dict_keys (concat (map (\<lambda>n. fst (top_level ast t n)) body)),
      pf_symbols = concat (map (\<lambda>n. snd (top_level ast t n)) body),
      pf_errors = [], pf_fallback_used = False\<rparr>"

definition python_parse :: "py_ast \<Rightarrow> string \<Rightarrow> string \<Rightarrow> exn + parsed_file" where
  "python_parse ast path t = bindr (module_of path) (\<lambda>m.
     case ast_parse ast t of
       Inl (SyntaxErr msg) \<Rightarrow> fallback_parsed_file path t (Some ''Python'') (SyntaxErr msg)
     | Inl e \<Rightarrow> Inl e
     | Inr body \<Rightarrow> Inr (python_file ast path t m body))"

section \<open>The line-based parser\<close>

record regex_profile =
  rp_imports :: "rx list"
  rp_symbols :: "rx list"

fun match_any :: "string \<Rightarrow> rx list \<Rightarrow> captures option" where
  "match_any v [] = None"
| "match_any v (p # ps) = (case re_match p v of Some (c, m) \<Rightarrow> Some c | None \<Rightarrow> match_any v ps)"

text \<open>
  \<^verbatim>\<open>match.group(name)\<close>: every group of the patterns below takes part in each match, so a
  name that was not captured is no group of the pattern.
\<close>

definition group_named :: "string \<Rightarrow> captures \<Rightarrow> exn + string" where
  "group_named name c = (case map_of c (Some name) of
     None \<Rightarrow> Inl (IndexError ''no such group'') | Some v \<Rightarrow> Inr v)"

fun brace_scan :: "string list \<Rightarrow> nat \<Rightarrow> int \<Rightarrow> bool \<Rightarrow> nat option" where
  "brace_scan [] index depth seen = None"
| "brace_scan (line # rest) index depth seen =
     (let depth = depth + int (length (filter (\<lambda>c. c = CHR ''{'') line))
                    - int (length (filter (\<lambda>c. c = CHR ''}'') line));
          seen = (seen \<or> CHR ''{'' \<in> set line)
      in if seen \<and> depth \<le> 0 then Some (index + 1)
         else if \<not> seen \<and> endswith (rstrip_by is_space line) '';'' then Some (index + 1)
         else brace_scan rest (index + 1) depth seen)"

definition brace_end_line :: "string list \<Rightarrow> nat \<Rightarrow> nat" where
  "brace_end_line lines start =
     (case brace_scan (drop start lines) start 0 False of
        Some e \<Rightarrow> e
      | None \<Rightarrow> if length lines = 0 then 1 else length lines)"

text \<open>The lines above the index, nearest first, and the comment lines collected so far.\<close>

fun comment_block :: "string list \<Rightarrow> string list \<Rightarrow> string list" where
  "comment_block [] acc = acc"
| "comment_block (line # upper) acc =
     (let stripped = strip line in
      if stripped = [] then (if acc \<noteq> [] then acc else comment_block upper acc)
      else if list_ex (startswith stripped) [''//'', ''#'', ''/*'', ''*'', ''*/'']
      then comment_block upper (acc @ [stripped])
      else acc)"

definition leading_comment_block :: "string list \<Rightarrow> nat \<Rightarrow> string option" where
  "leading_comment_block lines index =
     (let found = comment_block (rev (take index lines)) []
      in if found = [] then None else Some (join newline (rev found)))"

text \<open>\<^verbatim>\<open>_extract_calls\<close> has no definition in the module: the call raises.\<close>

definition extract_calls :: "string \<Rightarrow> exn + string list" where
  "extract_calls signature = Inl (NameError ''name '_extract_calls' is not defined'')"

text \<open>The symbol that starts at a line whose match captured \<open>c\<close>.\<close>

definition regex_symbol ::
    "string \<Rightarrow> string \<Rightarrow> string \<Rightarrow> string list \<Rightarrow> nat \<Rightarrow> captures \<Rightarrow> exn + parsed_symbol" where
  "regex_symbol language path t lines i c =
     bindr (group_named ''kind'' c) (\<lambda>symbol_type.
     bindr (group_named ''name'' c) (\<lambda>name.
     let start_line = int i + 1; end_line = int (brace_end_line lines i) in
     bindr (qualified_name path name symbol_type) (\<lambda>qname.
     let signature = line_slice t start_line end_line;
         docstring = leading_comment_block lines i in
     bindr (extract_calls signature) (\<lambda>calls.
       Inr \<lparr>ps_symbol_type = symbol_type, ps_name = name, ps_qualified_name = qname,
            ps_start_line = start_line, ps_end_line = end_line, ps_signature = Some signature,
            ps_docstring = docstring, ps_parent_qualified_name = None, ps_calls = sort calls,
            ps_references = [], ps_metadata = [(''language'', JStr language)]\<rparr>))))"

definition import_text :: "string \<Rightarrow> captures \<Rightarrow> string" where
  "import_text stripped c = (if c \<noteq> [] then snd (hd c) else stripped)"

function regex_loop ::
    "string \<Rightarrow> regex_profile \<Rightarrow> string \<Rightarrow> string \<Rightarrow> string list \<Rightarrow> nat \<Rightarrow> string list \<Rightarrow> parsed_symbol list
     \<Rightarrow> exn + (string list \<times> parsed_symbol list)" where
  "regex_loop language profile path t lines i imports symbols =
     (if length lines \<le> i then Inr (imports, symbols)
      else let stripped = strip (lines ! i) in
        if stripped = [] then regex_loop language profile path t lines (i + 1) imports symbols
        else case match_any stripped (rp_imports profile) of
          Some c \<Rightarrow> regex_loop language profile path t lines (i + 1)
                     (imports @ [import_text stripped c]) symbols
        | None \<Rightarrow>
          (case match_any stripped (rp_symbols profile) of
             None \<Rightarrow> regex_loop language profile path t lines (i + 1) imports symbols
           | Some c \<Rightarrow>
             (case regex_symbol language path t lines i c of
                Inl e \<Rightarrow> Inl e
              | Inr found \<Rightarrow> regex_loop language profile path t lines
                             (max (i + 1) (brace_end_line lines i)) imports (symbols @ [found]))))"
  by pat_completeness auto
termination
  by (relation "measure (\<lambda>(_, _, _, _, lines, i, _, _). length lines - i)") auto

declare regex_loop.simps [simp del]

definition regex_parse_lines :: "string \<Rightarrow> regex_profile \<Rightarrow> string \<Rightarrow> string \<Rightarrow> exn + parsed_file" where
  "regex_parse_lines language profile path t =
     bindr (regex_loop language profile path t (splitlines t) 0 [] []) (\<lambda>(imports, symbols).
     bindr (module_of path) (\<lambda>m.
       Inr \<lparr>pf_language = Some language, pf_module_name = m, pf_package_name = package_name path,
            pf_imports = dict_keys imports, pf_symbols = symbols, pf_errors = [],
            pf_fallback_used = False\<rparr>))"

definition regex_parse :: "string \<Rightarrow> regex_profile \<Rightarrow> string \<Rightarrow> string \<Rightarrow> exn + parsed_file" where
  "regex_parse language profile path t =
     (case regex_parse_lines language profile path t of
        Inr r \<Rightarrow> Inr r
      | Inl e \<Rightarrow> fallback_parsed_file path t (Some language) e)"

section \<open>The registry\<close>

text \<open>The pieces of the patterns: quotes, identifiers and the words that may come first.\<close>

definition quote :: rx where
  "quote = one_of [CHR 0x27, CHR 0x22]"

definition quoted :: rx where
  "quoted = Seq quote (Seq (Grp None (plus_of (none_of [CHR 0x27, CHR 0x22]))) quote)"

definition is_ident_start :: "char \<Rightarrow> bool" where
  "is_ident_start c = (is_alpha_ascii c \<or> c = CHR ''_'')"

definition ident :: rx where
  "ident = Grp (Some ''name'')
     (Seq (Cls is_ident_start) (Star (Cls (\<lambda>c. c = CHR ''$'' \<or> is_word c))))"

definition spaces :: rx where
  "spaces = plus_of ws"

definition word_then_spaces :: "string \<Rightarrow> rx" where
  "word_then_spaces w = Seq (lit w) spaces"

definition type_text :: "string \<Rightarrow> rx" where
  "type_text extra = Seq (Cls is_ident_start)
     (plus_of (Cls (\<lambda>c. c = CHR ''$'' \<or> is_word c \<or> c \<in> set extra)))"

definition call_paren :: rx where
  "call_paren = Seq (Star ws) (chr (CHR ''(''))"

definition import_from :: rx where
  "import_from = seqs [lit ''import'', spaces, lazy_plus any_char, lit ''from'', spaces, quoted]"

definition import_plain :: rx where
  "import_plain = seqs [lit ''import'', spaces, quoted]"

definition const_require :: rx where
  "const_require = seqs [lit ''const'', spaces, lazy_plus any_char, chr (CHR ''=''), spaces,
     lit ''require('', quoted, chr (CHR '')'')]"

definition js_function :: rx where
  "js_function = seqs [opt (word_then_spaces ''export''), opt (word_then_spaces ''async''),
     lit ''function'', spaces, ident]"

definition js_keyword :: "string \<Rightarrow> rx" where
  "js_keyword w = seqs [opt (word_then_spaces ''export''), lit w, spaces, ident]"

definition js_type :: rx where
  "js_type = seqs [opt (word_then_spaces ''export''), lit ''type'', spaces, ident, Star ws, chr (CHR ''='')]"

definition js_binding :: rx where
  "js_binding = seqs [opt (word_then_spaces ''export''), alts [lit ''const'', lit ''let'', lit ''var''],
     spaces, ident, Star ws, chr (CHR ''='')]"

definition modifiers :: "string list \<Rightarrow> rx" where
  "modifiers words = plus_of (alts (map lit words @ [ws]))"

definition java_words :: "string list" where
  "java_words = [''public'', ''protected'', ''private'', ''static'', ''final'']"

definition csharp_words :: "string list" where
  "csharp_words = [''public'', ''private'', ''internal'', ''protected'', ''static'', ''sealed'', ''abstract'']"

definition declared :: "string list \<Rightarrow> string \<Rightarrow> rx" where
  "declared words w = seqs [modifiers words, lit w, spaces, ident]"

definition declared_method :: "string list \<Rightarrow> rx" where
  "declared_method words = seqs [modifiers words, type_text ''<>[], ?'', spaces, ident, call_paren]"

definition until_semicolon :: "string \<Rightarrow> rx" where
  "until_semicolon w = seqs [lit w, spaces, Grp None (plus_of (none_of '';'')), chr (CHR '';'')]"

definition javascript_profile :: regex_profile where
  "javascript_profile = \<lparr>rp_imports = [import_from, import_plain, const_require],
     rp_symbols = [js_function, js_keyword ''class'', js_binding]\<rparr>"

definition typescript_profile :: regex_profile where
  "typescript_profile = \<lparr>rp_imports = [import_from, import_plain],
     rp_symbols = [js_function, js_keyword ''class'', js_keyword ''interface'', js_type, js_binding]\<rparr>"

definition java_profile :: regex_profile where
  "java_profile = \<lparr>rp_imports = [until_semicolon ''import''],
     rp_symbols = [declared java_words ''class'', declared java_words ''interface'',
                   declared_method java_words]\<rparr>"

definition csharp_profile :: regex_profile where
  "csharp_profile = \<lparr>rp_imports = [until_semicolon ''using''],
     rp_symbols = [declared csharp_words ''class'', declared csharp_words ''interface'',
                   declared_method csharp_words]\<rparr>"

definition cpp_profile :: regex_profile where
  "cpp_profile = \<lparr>rp_imports = [seqs [lit ''#include'', spaces, Grp None (plus_of any_char), Eol]],
     rp_symbols = [seqs [alts [lit ''class'', lit ''struct''], spaces, ident],
                   seqs [opt (word_then_spaces ''inline''), type_text '':<>[], ?'', spaces, ident, call_paren]]\<rparr>"

definition go_profile :: regex_profile where
  "go_profile = \<lparr>rp_imports = [seqs [lit ''import'', spaces, opt (alts [chr (CHR ''(''), quote]),
                                Grp None (plus_of (none_of [CHR 0x27, CHR 0x22, CHR '')'']))]],
     rp_symbols = [seqs [lit ''type'', spaces, ident, spaces, alts [lit ''struct'', lit ''interface'']],
                   seqs [lit ''func'', spaces,
                         opt (seqs [chr (CHR ''(''), plus_of (none_of '')''), chr (CHR '')''), Star ws]),
                         ident, call_paren],
                   seqs [lit ''const'', spaces, ident, Star ws, chr (CHR ''='')]]\<rparr>"

text \<open>\<open>None\<close> is the Python parser.\<close>

definition parsers :: "(string \<times> regex_profile option) list" where
  "parsers = [(''Python'', None), (''JavaScript'', Some javascript_profile),
     (''TypeScript'', Some typescript_profile), (''Java'', Some java_profile),
     (''C#'', Some csharp_profile), (''C++'', Some cpp_profile), (''Go'', Some go_profile)]"

definition registry_parse :: "py_ast \<Rightarrow> string \<Rightarrow> string \<Rightarrow> exn + parsed_file" where
  "registry_parse ast path t =
     (case map_of supported_languages (casefold (path_suffix path)) of
        None \<Rightarrow> fallback_parsed_file path t None (ValueError ''unsupported language'')
      | Some language \<Rightarrow>
          (case map_of parsers language of
             None \<Rightarrow> fallback_parsed_file path t (Some language) (ValueError ''unsupported parser'')
           | Some None \<Rightarrow> python_parse ast path t
           | Some (Some profile) \<Rightarrow> regex_parse language profile path t))"

section \<open>The fallback keeps every line\<close>

lemma fallback_ranges_tile:
  "concat (map (\<lambda>(a, b). [a..<Suc b]) (fallback_ranges start n)) = [start..<Suc n]"
proof (induction start n rule: fallback_ranges.induct)
  case (1 start n)
  show ?case
  proof (cases "n < start")
    case True
    then show ?thesis by (simp add: fallback_ranges.simps)
  next
    case False
    have "[start..<Suc (min (start + 120 - 1) n)] @ [start + 120..<Suc n] = [start..<Suc n]"
    proof (cases "n < start + 120")
      case True
      then have "min (start + 120 - 1) n = n" by simp
      with True show ?thesis by simp
    next
      case False
      then have "[start..<Suc n] = [start..<start + 120] @ [start + 120..<Suc n]"
        using upt_add_eq_append [of start "start + 120" "Suc n - (start + 120)"] by simp
      with False show ?thesis by (simp add: min_def add.commute)
    qed
    with False "1.IH" show ?thesis by (subst fallback_ranges.simps) simp
  qed
qed

lemma fallback_ranges_bounds:
  "(a, b) \<in> set (fallback_ranges start n) \<Longrightarrow> start \<le> a \<and> a \<le> b \<and> b \<le> n \<and> b < a + 120"
proof (induction start n rule: fallback_ranges.induct)
  case (1 start n)
  then show ?case by (subst (asm) fallback_ranges.simps) (fastforce split: if_splits)
qed

lemma fallback_ranges_Nil: "fallback_ranges start n = [] \<longleftrightarrow> n < start"
  by (subst fallback_ranges.simps) simp

lemma join_append:
  "xs \<noteq> [] \<Longrightarrow> ys \<noteq> [] \<Longrightarrow> join sep (xs @ ys) = join sep xs @ sep @ join sep ys"
proof (induction sep xs rule: join.induct)
  case (2 sep w)
  then show ?case by (cases ys) auto
qed auto

lemma join_concat:
  "(\<And>xs. xs \<in> set xss \<Longrightarrow> xs \<noteq> []) \<Longrightarrow> join sep (map (join sep) xss) = join sep (concat xss)"
proof (induction xss)
  case (Cons xs xss)
  show ?case
  proof (cases xss)
    case (Cons ys yss)
    with Cons.IH Cons.prems show ?thesis by (simp add: join_append)
  qed simp
qed simp

text \<open>Lines \<open>a\<close> to \<open>b\<close>, counted from 1.\<close>

lemma line_slice_nat:
  assumes "0 < a"
  shows "line_slice t (int a) (int b) =
    join newline (map (\<lambda>i. splitlines t ! (i - 1)) [a..<Suc (min b (length (splitlines t)))])"
proof -
  let ?ls = "splitlines t"
  let ?n = "length ?ls"
  have eq: "max (int a - 1) 0 = int (a - 1)" "min (int b) (int ?n) = int (min b ?n)"
    using assms by auto
  have "slice ?ls (int (a - 1)) (int (min b ?n)) = map (\<lambda>i. ?ls ! (i - 1)) [a..<Suc (min b ?n)]"
  proof (cases "a - 1 \<le> ?n")
    case True
    then show ?thesis
      unfolding slice_nat using assms by (intro nth_equalityI) (auto simp del: upt_Suc)
  next
    case False
    then show ?thesis unfolding slice_nat by simp linarith
  qed
  then show ?thesis by (simp only: line_slice_def Let_def eq)
qed

lemma fallback_symbols_eq:
  "fallback_symbols path base t =
     (if splitlines t = [] then [text_chunk (path_stem path) base 1 1 []]
      else map (\<lambda>(a, b). text_chunk (range_label (path_stem path) a b) (range_label base a b)
                 (int a) (int b) (line_slice t (int a) (int b)))
             (fallback_ranges 1 (length (splitlines t))))"
proof -
  have "fallback_ranges 1 (length (splitlines t)) = [] \<longleftrightarrow> splitlines t = []"
    by (simp add: fallback_ranges_Nil less_Suc_eq)
  then show ?thesis by (simp add: fallback_symbols_def Let_def)
qed

lemma fallback_signatures:
  "join newline (map (\<lambda>s. the (ps_signature s)) (fallback_symbols path base t))
   = join newline (splitlines t)"
proof (cases "splitlines t = []")
  case True
  then show ?thesis by (simp add: fallback_symbols_eq text_chunk_def)
next
  case False
  let ?ls = "splitlines t"
  let ?r = "fallback_ranges 1 (length ?ls)"
  let ?line = "\<lambda>i. ?ls ! (i - 1)"
  have sig: "line_slice t (int a) (int b) = join newline (map ?line [a..<Suc b])"
    if "(a, b) \<in> set ?r" for a b
    using fallback_ranges_bounds [OF that] by (simp add: line_slice_nat min_absorb1)
  have "map (\<lambda>s. the (ps_signature s)) (fallback_symbols path base t)
      = map (\<lambda>p. join newline (map ?line [fst p..<Suc (snd p)])) ?r"
    using False sig by (auto simp: fallback_symbols_eq text_chunk_def)
  also have "\<dots> = map (join newline) (map (\<lambda>p. map ?line [fst p..<Suc (snd p)]) ?r)"
    by simp
  also have "join newline \<dots> = join newline (concat (map (\<lambda>p. map ?line [fst p..<Suc (snd p)]) ?r))"
    by (rule join_concat) (use fallback_ranges_bounds in fastforce)
  also have "concat (map (\<lambda>p. map ?line [fst p..<Suc (snd p)]) ?r)
      = map ?line (concat (map (\<lambda>(a, b). [a..<Suc b]) ?r))"
    by (simp add: map_concat comp_def case_prod_beta)
  also have "\<dots> = ?ls"
    unfolding fallback_ranges_tile by (intro nth_equalityI) (auto simp del: upt_Suc)
  finally show ?thesis .
qed

lemma fallback_symbol_range:
  assumes "s \<in> set (fallback_symbols path base t)"
  shows "1 \<le> ps_start_line s" "ps_start_line s \<le> ps_end_line s"
    "ps_end_line s \<le> max 1 (int (length (splitlines t)))" "ps_end_line s < ps_start_line s + 120"
    "ps_symbol_type s = ''text_chunk''" "ps_parent_qualified_name s = None"
  using assms
  by (auto simp: fallback_symbols_eq text_chunk_def split: if_splits dest!: fallback_ranges_bounds)

text \<open>
  A file that cannot be parsed loses no text. Its symbols are text chunks of at most
  120 lines whose line ranges are within the file, whose texts put together give back every
  line in order, and the one error of the record says why the file was not parsed.
\<close>

theorem fallback_keeps_every_line:
  assumes "fallback_parsed_file path t language e = Inr pf"
  shows "join newline (map (\<lambda>s. the (ps_signature s)) (pf_symbols pf)) = join newline (splitlines t)
    \<and> (\<forall>s \<in> set (pf_symbols pf). ps_symbol_type s = ''text_chunk'' \<and> 1 \<le> ps_start_line s
           \<and> ps_start_line s \<le> ps_end_line s \<and> ps_end_line s < ps_start_line s + 120
           \<and> ps_end_line s \<le> max 1 (int (length (splitlines t))))
    \<and> pf_errors pf = [\<lparr>pe_code = ''parse_fallback'', pe_message = exn_str e\<rparr>]
    \<and> pf_fallback_used pf \<and> pf_language pf = language"
  using assms
  by (auto simp: fallback_parsed_file_def bindr_eq_Inr fallback_signatures fallback_symbol_range)

lemma fallback_keeps_every_line_witness:
  "\<exists>pf. fallback_parsed_file ''a.c'' [CHR ''x'', CHR 0x0A, CHR ''y''] (Some ''C'') (ValueError ''m'') = Inr pf
     \<and> join newline (map (\<lambda>s. the (ps_signature s)) (pf_symbols pf)) = [CHR ''x'', CHR 0x0A, CHR ''y'']"
proof -
  have name: "module_of ''a.c'' = Inr (Some ''a'')" by code_simp
  then obtain pf where pf: "fallback_parsed_file ''a.c'' [CHR ''x'', CHR 0x0A, CHR ''y''] (Some ''C'') (ValueError ''m'') = Inr pf"
    by (simp add: fallback_parsed_file_def)
  have "join newline (splitlines [CHR ''x'', CHR 0x0A, CHR ''y'']) = [CHR ''x'', CHR 0x0A, CHR ''y'']"
    by code_simp
  with fallback_keeps_every_line [OF pf] pf show ?thesis by simp
qed

section \<open>The line-based parser finds no symbol\<close>

text \<open>
  A line starts a symbol when it is not blank, is no import and matches a symbol pattern.
\<close>

definition starts_symbol :: "regex_profile \<Rightarrow> string \<Rightarrow> bool" where
  "starts_symbol profile line = (strip line \<noteq> [] \<and> match_any (strip line) (rp_imports profile) = None
     \<and> match_any (strip line) (rp_symbols profile) \<noteq> None)"

definition import_of :: "regex_profile \<Rightarrow> string \<Rightarrow> string list" where
  "import_of profile line = (if strip line = [] then []
     else case match_any (strip line) (rp_imports profile) of
            Some c \<Rightarrow> [import_text (strip line) c] | None \<Rightarrow> [])"

definition kindless :: "regex_profile \<Rightarrow> bool" where
  "kindless profile = (\<forall>p \<in> set (rp_symbols profile). Some ''kind'' \<notin> set (group_names p))"

lemma match_any_captures:
  "match_any v ps = Some c \<Longrightarrow> (\<forall>p \<in> set ps. Some n \<notin> set (group_names p)) \<Longrightarrow> Some n \<notin> fst ` set c"
proof (induction ps)
  case (Cons p ps)
  show ?case
  proof (cases "re_match p v")
    case None
    with Cons show ?thesis by simp
  next
    case (Some w)
    obtain c' m where w: "w = (c', m)" by (cases w)
    have "fst ` set c' \<subseteq> set (group_names p)" using re_match_sound(2) Some w by blast
    moreover have "c' = c" using Cons.prems(1) Some w by simp
    ultimately show ?thesis using Cons.prems(2) by auto
  qed
qed simp

lemma regex_symbol_kindless:
  assumes "kindless profile" "match_any v (rp_symbols profile) = Some c"
  shows "regex_symbol language path t lines i c = Inl (IndexError ''no such group'')"
proof -
  have "Some ''kind'' \<notin> fst ` set c"
    using match_any_captures [OF assms(2)] assms(1) by (auto simp: kindless_def)
  then have "map_of c (Some ''kind'') = None" by (simp add: map_of_eq_None_iff)
  then show ?thesis by (simp add: regex_symbol_def group_named_def)
qed

lemma regex_loop_kindless:
  assumes k: "kindless profile"
  shows "regex_loop language profile path t lines i imports symbols =
    (if list_ex (starts_symbol profile) (drop i lines) then Inl (IndexError ''no such group'')
     else Inr (imports @ concat (map (import_of profile) (drop i lines)), symbols))"
proof (induction "length lines - i" arbitrary: i "imports")
  case 0
  then show ?case by (simp add: regex_loop.simps)
next
  case (Suc n)
  then have i: "i < length lines" and n: "n = length lines - Suc i" by auto
  have d: "drop i lines = lines ! i # drop (Suc i) lines" using i by (simp add: Cons_nth_drop_Suc)
  note IH = Suc.hyps(1) [OF n]
  show ?case
    using i by (subst regex_loop.simps)
      (auto simp: IH d starts_symbol_def import_of_def Let_def regex_symbol_kindless [OF k]
        split: option.splits)
qed

lemma profiles_kindless:
  assumes "map_of parsers language = Some (Some profile)"
  shows "kindless profile"
proof -
  from assms have "profile \<in> {javascript_profile, typescript_profile, java_profile, csharp_profile,
      cpp_profile, go_profile}"
    by (auto simp: parsers_def split: if_splits)
  then show ?thesis
    by (auto simp: kindless_def javascript_profile_def typescript_profile_def java_profile_def
      csharp_profile_def cpp_profile_def go_profile_def js_function_def js_keyword_def js_type_def
      js_binding_def declared_def declared_method_def modifiers_def java_words_def csharp_words_def
      type_text_def call_paren_def word_then_spaces_def spaces_def plus_of_def opt_def ident_def
      ws_def chr_def none_of_def)
qed

definition imports_only :: "string \<Rightarrow> regex_profile \<Rightarrow> string \<Rightarrow> string option \<Rightarrow> string \<Rightarrow> parsed_file" where
  "imports_only language profile path m t =
     \<lparr>pf_language = Some language, pf_module_name = m, pf_package_name = package_name path,
      pf_imports = dict_keys (concat (map (import_of profile) (splitlines t))), pf_symbols = [],
      pf_errors = [], pf_fallback_used = False\<rparr>"

text \<open>
  C36: the line-based parser, which serves every language but Python, never extracts a
  symbol. The patterns name no group \<^verbatim>\<open>kind\<close>, so the first line that starts a symbol
  raises IndexError and the whole file is cut into text chunks; a file with no such line
  gives its imports and no symbol at all.
\<close>

theorem regex_parsers_find_no_symbol:
  assumes lang: "map_of supported_languages (casefold (path_suffix path)) = Some language"
    and prof: "map_of parsers language = Some (Some profile)"
  shows "registry_parse ast path t =
    (if list_ex (starts_symbol profile) (splitlines t)
     then fallback_parsed_file path t (Some language) (IndexError ''no such group'')
     else bindr (module_of path) (\<lambda>m. Inr (imports_only language profile path m t)))"
proof -
  show ?thesis
    using lang prof
    by (cases "module_of path")
      (simp_all add: registry_parse_def regex_parse_def regex_parse_lines_def
        regex_loop_kindless [OF profiles_kindless [OF prof]] imports_only_def fallback_parsed_file_def)
qed

lemma regex_parsers_find_no_symbol_witness:
  "\<exists>pf. registry_parse \<lparr>ast_parse = (\<lambda>_. Inr []), ast_unparse = (\<lambda>_. None)\<rparr> ''m.js''
          ''class A {}'' = Inr pf
     \<and> pf_fallback_used pf \<and> map ps_symbol_type (pf_symbols pf) = [''text_chunk'']"
proof -
  let ?ast = "\<lparr>ast_parse = (\<lambda>_. Inr []), ast_unparse = (\<lambda>_. None)\<rparr> :: py_ast"
  have lang: "map_of supported_languages (casefold (path_suffix ''m.js'')) = Some ''JavaScript''"
    by code_simp
  have prof: "map_of parsers ''JavaScript'' = Some (Some javascript_profile)"
    by (simp add: parsers_def)
  have starts: "list_ex (starts_symbol javascript_profile) (splitlines ''class A {}'')"
    by code_simp
  have m: "module_of ''m.js'' = Inr (Some ''m'')" by code_simp
  have s: "map ps_symbol_type (fallback_symbols ''m.js'' ''m'' ''class A {}'') = [''text_chunk'']"
    by code_simp
  show ?thesis
    using regex_parsers_find_no_symbol [OF lang prof, of ?ast "''class A {}''"] starts m s
    by (simp add: fallback_parsed_file_def or_else_def)
qed

section \<open>Symbols of a parsed file\<close>

text \<open>What \<^verbatim>\<open>ast.parse\<close> documents of positions: lines count from 1 and a node ends after it starts.\<close>

fun well_placed :: "py_node \<Rightarrow> bool" where
  "well_placed (PyImport names a b) = (1 \<le> a \<and> a \<le> b)"
| "well_placed (PyImportFrom m names a b) = (1 \<le> a \<and> a \<le> b)"
| "well_placed (PyClassDef n bs kn kv ds body a b) = (1 \<le> a \<and> a \<le> b \<and> list_all well_placed body)"
| "well_placed (PyFunctionDef asy n args ds r body a b) = (1 \<le> a \<and> a \<le> b)"
| "well_placed (PyAssign ts v a b) = (1 \<le> a \<and> a \<le> b)"
| "well_placed (PyAnnAssign x n v a b) = (1 \<le> a \<and> a \<le> b)"
| "well_placed _ = True"

definition placed :: "parsed_symbol \<Rightarrow> bool" where
  "placed s = (1 \<le> ps_start_line s \<and> ps_start_line s \<le> ps_end_line s)"

lemma member_symbols_placed:
  "well_placed node \<Longrightarrow> s \<in> set (member_symbols ast t parent node) \<Longrightarrow> placed s"
  by (cases node) (auto simp: member_symbols_def python_constant_symbols_def placed_def)

text \<open>A class adds its own symbol and those of its members.\<close>

lemma class_symbol_facts:
  "class_symbol ast parent (PyClassDef n bs kn kv ds body a b) = Some c \<Longrightarrow>
   ps_symbol_type c = ''class'' \<and> ps_start_line c = a \<and> ps_end_line c = b
   \<and> ps_qualified_name c = child_name parent n
   \<and> ps_parent_qualified_name c = map_option ps_qualified_name parent"
  by auto

lemma in_top_level_class:
  assumes "s \<in> set (snd (top_level ast t (PyClassDef n bs kn kv ds body a b)))"
  obtains c where "class_symbol ast None (PyClassDef n bs kn kv ds body a b) = Some c"
    "c \<in> set (snd (top_level ast t (PyClassDef n bs kn kv ds body a b)))"
    "s = c \<or> (\<exists>m \<in> set body. s \<in> set (member_symbols ast t (Some c) m))"
proof -
  obtain c where "class_symbol ast None (PyClassDef n bs kn kv ds body a b) = Some c" by simp
  with assms that show thesis by (auto simp del: class_symbol.simps)
qed

lemma top_level_simple:
  assumes "s \<in> set (snd (top_level ast t node))"
  shows "(\<exists>n bs kn kv ds body a b. node = PyClassDef n bs kn kv ds body a b)
    \<or> s \<in> set (member_symbols ast t None node)
    \<or> (\<exists>name qname a b meta. s = import_symbol t name qname a b meta \<and> (well_placed node \<longrightarrow> 1 \<le> a \<and> a \<le> b))"
  using assms by (cases node) (simp_all add: Let_def, blast+)

lemma top_level_placed:
  assumes "well_placed node" "s \<in> set (snd (top_level ast t node))"
  shows "placed s"
  using top_level_simple [OF assms(2)]
proof (elim disjE exE conjE)
  fix n bs kn kv ds body a b assume c: "node = PyClassDef n bs kn kv ds body a b"
  show ?thesis
    using in_top_level_class [OF assms(2) [unfolded c]] class_symbol_facts assms(1) [unfolded c]
    by (metis list_all_iff member_symbols_placed placed_def well_placed.simps(3))
qed (use assms(1) in \<open>auto simp: import_symbol_def placed_def dest: member_symbols_placed\<close>)

text \<open>A member's parent is its class, and its qualified name extends that of the class.\<close>

definition linked :: "parsed_symbol list \<Rightarrow> parsed_symbol \<Rightarrow> bool" where
  "linked found s = (\<forall>q. ps_parent_qualified_name s = Some q \<longrightarrow>
     ps_qualified_name s = q @ ''.'' @ ps_name s
     \<and> (\<exists>c \<in> set found. ps_symbol_type c = ''class'' \<and> ps_qualified_name c = q
          \<and> ps_parent_qualified_name c = None))"

lemma member_symbols_parent:
  "s \<in> set (member_symbols ast t parent node) \<Longrightarrow>
   ps_parent_qualified_name s = map_option ps_qualified_name parent
   \<and> ps_qualified_name s = child_name parent (ps_name s)"
  by (cases node) (auto simp: member_symbols_def python_constant_symbols_def)

lemma top_level_linked:
  assumes s: "s \<in> set (snd (top_level ast t node))"
  shows "linked (snd (top_level ast t node)) s"
  using top_level_simple [OF s]
proof (elim disjE exE conjE)
  fix n bs kn kv ds body a b assume node: "node = PyClassDef n bs kn kv ds body a b"
  obtain c where c: "class_symbol ast None node = Some c" "c \<in> set (snd (top_level ast t node))"
    "s = c \<or> (\<exists>m \<in> set body. s \<in> set (member_symbols ast t (Some c) m))"
    using in_top_level_class s unfolding node by metis
  note cf = class_symbol_facts [OF c(1) [unfolded node]]
  have "ps_parent_qualified_name s = None \<or> (ps_parent_qualified_name s = Some (ps_qualified_name c)
      \<and> ps_qualified_name s = ps_qualified_name c @ ''.'' @ ps_name s)"
    using c(3) cf member_symbols_parent by (fastforce simp: child_name_def)
  then show ?thesis using c(2) cf unfolding linked_def by auto
qed (auto simp: import_symbol_def linked_def dest!: member_symbols_parent)

lemma linked_mono: "linked xs s \<Longrightarrow> set xs \<subseteq> set ys \<Longrightarrow> linked ys s"
  unfolding linked_def by blast

text \<open>A file is parsed by the fallback, by the Python parser, or without a symbol.\<close>

lemma registry_parse_cases:
  assumes "registry_parse ast path t = Inr pf"
  obtains (fallback) language e where "fallback_parsed_file path t language e = Inr pf"
  | (python) body where "ast_parse ast t = Inr body" "pf_fallback_used pf = False"
      "pf_symbols pf = concat (map (\<lambda>n. snd (top_level ast t n)) body)"
  | (no_symbol) "pf_symbols pf = []"
proof -
  show ?thesis
  proof (cases "map_of supported_languages (casefold (path_suffix path))")
    case None
    with assms fallback show ?thesis by (auto simp: registry_parse_def)
  next
    case (Some language)
    note lang = this
    show ?thesis
    proof (cases "map_of parsers language")
      case None
      with lang assms fallback show ?thesis by (auto simp: registry_parse_def)
    next
      case (Some p)
      show ?thesis
      proof (cases p)
        case None
        with lang Some assms have "python_parse ast path t = Inr pf" by (simp add: registry_parse_def)
        then obtain m where m: "(case ast_parse ast t of
            Inl (SyntaxErr msg) \<Rightarrow> fallback_parsed_file path t (Some ''Python'') (SyntaxErr msg)
          | Inl e \<Rightarrow> Inl e
          | Inr body \<Rightarrow> Inr (python_file ast path t m body)) = Inr pf"
          by (auto simp: python_parse_def bindr_eq_Inr)
        show ?thesis
        proof (cases "ast_parse ast t")
          case (Inl e)
          then show ?thesis using m fallback by (cases e) simp_all
        next
          case (Inr body)
          then show ?thesis using m python by (auto simp: python_file_def)
        qed
      next
        case (Some profile)
        note prof = this
        have p: "map_of parsers language = Some (Some profile)"
          using \<open>map_of parsers language = Some p\<close> prof by simp
        have "registry_parse ast path t = regex_parse language profile path t"
          using lang p by (simp add: registry_parse_def)
        with assms have parse: "regex_parse language profile path t = Inr pf" by simp
        show ?thesis
        proof (cases "regex_parse_lines language profile path t")
          case (Inl e)
          with parse fallback show ?thesis by (simp add: regex_parse_def)
        next
          case (Inr r)
          then have "pf_symbols r = []"
            by (auto simp: regex_parse_lines_def regex_loop_kindless [OF profiles_kindless [OF p]]
              bindr_eq_Inr split: if_splits)
          with parse Inr no_symbol show ?thesis by (simp add: regex_parse_def)
        qed
      qed
    qed
  qed
qed

lemma registry_symbols_placed:
  assumes "registry_parse ast path t = Inr pf"
    and "\<And>body. ast_parse ast t = Inr body \<Longrightarrow> list_all well_placed body"
    and "s \<in> set (pf_symbols pf)"
  shows "placed s"
  using assms(1)
proof (cases rule: registry_parse_cases)
  case (fallback language e)
  then have "\<exists>base. s \<in> set (fallback_symbols path base t)"
    using assms(3) by (auto simp: fallback_parsed_file_def bindr_eq_Inr)
  then show ?thesis using fallback_symbol_range(1,2) by (auto simp: placed_def)
next
  case (python body)
  then have "\<exists>n \<in> set body. s \<in> set (snd (top_level ast t n))" using assms(3) by auto
  then show ?thesis using top_level_placed assms(2) [OF python(1)] by (auto simp: list_all_iff)
qed (use assms(3) in simp)

text \<open>
  Every symbol the parsers produce meets the check constraint of its table: its first
  line is positive and not after its last, given that \<^verbatim>\<open>ast.parse\<close> positions its nodes so.
\<close>

theorem parsed_symbols_placed:
  assumes "registry_parse ast path t = Inr pf"
    and "\<And>body. ast_parse ast t = Inr body \<Longrightarrow> list_all well_placed body"
  shows "\<forall>s \<in> set (pf_symbols pf). 1 \<le> ps_start_line s \<and> ps_start_line s \<le> ps_end_line s"
  using registry_symbols_placed [OF assms] by (auto simp: placed_def)

text \<open>
  In every parsed file, a symbol with a parent is named after it: its qualified name is
  that of the parent, a dot and its own name, and the parent is a class of the same file.
\<close>

theorem parsed_parents_resolve:
  assumes "registry_parse ast path t = Inr pf"
  shows "\<forall>s \<in> set (pf_symbols pf). linked (pf_symbols pf) s"
  using assms
proof (cases rule: registry_parse_cases)
  case (fallback language e)
  then show ?thesis
    by (auto simp: fallback_parsed_file_def bindr_eq_Inr linked_def fallback_symbol_range(6))
next
  case (python body)
  have "linked (pf_symbols pf) s" if s: "s \<in> set (pf_symbols pf)" for s
  proof -
    from s python obtain n where n: "n \<in> set body" "s \<in> set (snd (top_level ast t n))" by auto
    have "set (snd (top_level ast t n)) \<subseteq> set (pf_symbols pf)" using n(1) python by auto
    with top_level_linked [OF n(2)] show ?thesis by (rule linked_mono)
  qed
  then show ?thesis by blast
qed simp

text \<open>A class with a method, parsed.\<close>

definition sample_class :: py_node where
  "sample_class = PyClassDef ''A'' [] [] [] []
     [PyFunctionDef False ''f'' [] [] None [PyExpr (PyCall (PyName ''g'') [])] 2 3] 1 3"

definition sample_ast :: py_ast where
  "sample_ast = \<lparr>ast_parse = (\<lambda>_. Inr [sample_class]), ast_unparse = (\<lambda>_. None)\<rparr>"

definition sample_file :: parsed_file where
  "sample_file = projr (registry_parse sample_ast ''m.py'' [])"

lemma sample_parse:
  "registry_parse sample_ast ''m.py'' [] = Inr sample_file"
  "map ps_qualified_name (pf_symbols sample_file) = [''A'', ''A.f'']"
  "map ps_parent_qualified_name (pf_symbols sample_file) = [None, Some ''A'']"
  "map ps_symbol_type (pf_symbols sample_file) = [''class'', ''method'']"
  "map ps_calls (pf_symbols sample_file) = [[''g''], [''g'']]"
proof -
  have lang: "map_of supported_languages (casefold (path_suffix ''m.py'')) = Some ''Python''" by code_simp
  have m: "module_of ''m.py'' = Inr (Some ''m'')" by code_simp
  note evals = registry_parse_def lang parsers_def python_parse_def m sample_ast_def sample_class_def
    python_file_def
    member_symbols_def child_name_def function_kind_def python_calls_def sample_file_def
  show "registry_parse sample_ast ''m.py'' [] = Inr sample_file"
    "map ps_qualified_name (pf_symbols sample_file) = [''A'', ''A.f'']"
    "map ps_parent_qualified_name (pf_symbols sample_file) = [None, Some ''A'']"
    "map ps_symbol_type (pf_symbols sample_file) = [''class'', ''method'']"
    "map ps_calls (pf_symbols sample_file) = [[''g''], [''g'']]"
    by (simp_all add: evals)
qed

lemma parsed_symbols_placed_witness:
  "length (pf_symbols sample_file) = 2
   \<and> (\<forall>s \<in> set (pf_symbols sample_file). 1 \<le> ps_start_line s \<and> ps_start_line s \<le> ps_end_line s)"
proof
  show "length (pf_symbols sample_file) = 2" using arg_cong [OF sample_parse(2), of length] by simp
  show "\<forall>s \<in> set (pf_symbols sample_file). 1 \<le> ps_start_line s \<and> ps_start_line s \<le> ps_end_line s"
    by (rule parsed_symbols_placed [OF sample_parse(1)]) (simp add: sample_ast_def sample_class_def)
qed

lemma parsed_parents_resolve_witness:
  "map ps_parent_qualified_name (pf_symbols sample_file) = [None, Some ''A'']
   \<and> (\<forall>s \<in> set (pf_symbols sample_file). linked (pf_symbols sample_file) s)"
  using sample_parse(3) parsed_parents_resolve [OF sample_parse(1)] by (rule conjI)

section \<open>Parsing never fails\<close>



end
