(* ===== verification/Chunking.thy ===== *)
theory Chunking
  imports Parsing Queries "HOL-Library.Multiset"
begin

text \<open>
  The pure part of \<^verbatim>\<open>app/services/indexing.py\<close>: splitting the text of a symbol into
  overlapping parts, the keys that identify a part, the symbol rows and chunk drafts of one
  parsed file, batches, tokens and the two similarity scores. SHA-256 and version-5 UUIDs
  are parameters, and floating-point numbers are reals.
\<close>

section \<open>Parts\<close>

definition index_line_slice :: "string \<Rightarrow> int \<Rightarrow> int \<Rightarrow> string" where
  "index_line_slice t start_line end_line =
     (let lines = splitlines t in
      if lines = [] then t
      else let start_index = max (start_line - 1) 0; end_index = min end_line (int (length lines))
           in join newline (slice lines start_index end_index))"

definition part_end :: "string list \<Rightarrow> int \<Rightarrow> int \<Rightarrow> int \<Rightarrow> int" where
  "part_end lines max_chars max_lines start =
     (let stop = min (start + max_lines) (int (length lines)); part_lines = slice lines start stop
      in if int (length (join newline part_lines)) > max_chars \<and> length part_lines > 1
         then start + max 1 (int (length part_lines) div 2) else stop)"

function split_loop :: "string list \<Rightarrow> int \<Rightarrow> int \<Rightarrow> int \<Rightarrow> int \<Rightarrow> (string \<times> int \<times> int) list" where
  "split_loop lines max_chars max_lines overlap_lines start =
     (if start < int (length lines) then
        let stop = part_end lines max_chars max_lines start;
            part = (join newline (slice lines start stop), start + 1, stop)
        in if int (length lines) \<le> stop then [part]
           else part # split_loop lines max_chars max_lines overlap_lines
                         (max (stop - overlap_lines) (start + 1))
      else [])"
  by pat_completeness auto
termination
  by (relation "measure (\<lambda>(lines, _, _, _, start). nat (int (length lines) - start))") auto

declare split_loop.simps [simp del]

definition chunk_lines :: "string \<Rightarrow> string list" where
  "chunk_lines t = (if splitlines t = [] then [t] else splitlines t)"

definition split_chunk_text :: "string \<Rightarrow> int \<Rightarrow> int \<Rightarrow> int \<Rightarrow> (string \<times> int \<times> int) list" where
  "split_chunk_text t max_chars max_lines overlap_lines =
     split_loop (chunk_lines t) max_chars max_lines overlap_lines 0"

text \<open>\<^verbatim>\<open>range(0, len(texts), batch_size)\<close>: a step of zero raises, a negative one gives nothing.\<close>

function batches_from :: "nat \<Rightarrow> 'a list \<Rightarrow> 'a list list" where
  "batches_from n xs = (if xs = [] \<or> n = 0 then [] else take n xs # batches_from n (drop n xs))"
  by pat_completeness auto
termination by (relation "measure (\<lambda>(n, xs). length xs)") auto

declare batches_from.simps [simp del]

definition batch_texts :: "'a list \<Rightarrow> int \<Rightarrow> exn + 'a list list" where
  "batch_texts texts batch_size =
     (if batch_size = 0 then Inl (ValueError ''range() arg 3 must not be zero'')
      else if batch_size < 0 then Inr [] else Inr (batches_from (nat batch_size) texts))"

section \<open>Keys\<close>

record indexed_chunk_draft =
  dr_chunk_id :: uuid
  dr_snapshot_id :: uuid
  dr_owner_id :: uuid
  dr_repository_id :: uuid
  dr_revision_id :: uuid
  dr_file_id :: uuid
  dr_commit_sha :: string
  dr_normalized_path :: string
  dr_language :: "string option"
  dr_symbol_name :: "string option"
  dr_qualified_name :: "string option"
  dr_symbol_type :: string
  dr_start_line :: int
  dr_end_line :: int
  dr_part_number :: int
  dr_part_count :: int
  dr_content_hash :: string
  dr_exact_content :: string
  dr_search_text :: string
  dr_dense_embedding :: "real list option"
  dr_chunk_metadata :: json_object

definition chunk_key_parts ::
    "string \<Rightarrow> string \<Rightarrow> int \<Rightarrow> int \<Rightarrow> int \<Rightarrow> int \<Rightarrow> string \<Rightarrow> string option \<Rightarrow> string" where
  "chunk_key_parts path content_hash start_line end_line part_number part_count symbol_type qname =
     join ''|'' [path, content_hash, int_str start_line, int_str end_line, int_str part_number,
                int_str part_count, symbol_type, or_else qname []]"

definition embedding_key :: "code_chunk \<Rightarrow> string" where
  "embedding_key c = chunk_key_parts (chunk_normalized_path c) (chunk_content_hash c)
     (chunk_start_line c) (chunk_end_line c) (chunk_part_number c) (chunk_part_count c)
     (chunk_symbol_type c) (chunk_qualified_name c)"

definition embedding_key_from_draft :: "indexed_chunk_draft \<Rightarrow> string" where
  "embedding_key_from_draft d = chunk_key_parts (dr_normalized_path d) (dr_content_hash d)
     (dr_start_line d) (dr_end_line d) (dr_part_number d) (dr_part_count d)
     (dr_symbol_type d) (dr_qualified_name d)"

section \<open>Materialising a file\<close>

record chunk_env =
  ce_sha256 :: "string \<Rightarrow> string"
  ce_uuid5 :: "string \<Rightarrow> uuid"
  ce_max_chars :: int
  ce_max_lines :: int
  ce_overlap_lines :: int

text \<open>The revision a file is indexed for.\<close>

record index_target =
  tg_snapshot_id :: uuid
  tg_owner_id :: uuid
  tg_repository_id :: uuid
  tg_revision_id :: uuid
  tg_commit_sha :: string

definition dict_update :: "json_object \<Rightarrow> json_object \<Rightarrow> json_object" where
  "dict_update d kvs = fold (\<lambda>(k, v) acc. dict_set acc k v) kvs d"

text \<open>The row of a symbol; its id is drawn when it is written.\<close>

definition symbol_row :: "repository_file \<Rightarrow> parsed_file \<Rightarrow> parsed_symbol \<Rightarrow> code_symbol" where
  "symbol_row file parsed s =
     \<lparr>sym_id = 0, sym_file_id = file_id file, sym_symbol_type = ps_symbol_type s,
      sym_name = ps_name s, sym_qualified_name = ps_qualified_name s,
      sym_start_line = ps_start_line s, sym_end_line = ps_end_line s,
      sym_signature = ps_signature s, sym_parent_symbol_id = None,
      sym_symbol_metadata = dict_update (ps_metadata s)
        [(''docstring'', json_opt (ps_docstring s)), (''calls'', json_strs (ps_calls s)),
         (''references'', json_strs (ps_references s)), (''imports'', json_strs (pf_imports parsed)),
         (''module_name'', json_opt (pf_module_name parsed)),
         (''package_name'', json_opt (pf_package_name parsed)),
         (''parent_qualified_name'', json_opt (ps_parent_qualified_name s))]\<rparr>"

definition some_text :: "string option \<Rightarrow> string list" where
  "some_text x = (case x of None \<Rightarrow> [] | Some t \<Rightarrow> if t = [] then [] else [t])"

definition search_text_of :: "repository_file \<Rightarrow> parsed_file \<Rightarrow> parsed_symbol \<Rightarrow> string \<Rightarrow> string" where
  "search_text_of file parsed s part_text = join newline (concat (map some_text
     [Some (file_normalized_path file), Some (ps_qualified_name s), ps_signature s, ps_docstring s,
      Some (join '' '' (pf_imports parsed)), Some part_text]))"

definition chunk_uuid ::
    "chunk_env \<Rightarrow> index_target \<Rightarrow> string \<Rightarrow> string \<Rightarrow> string \<Rightarrow> string \<Rightarrow> string \<Rightarrow> uuid" where
  "chunk_uuid env tg path content_hash a b index =
     ce_uuid5 env (join ''|'' [uuid_str (tg_revision_id tg), path, content_hash, a, b, index])"

definition symbol_chunk ::
    "chunk_env \<Rightarrow> index_target \<Rightarrow> repository_file \<Rightarrow> parsed_file \<Rightarrow> parsed_symbol \<Rightarrow> int \<Rightarrow> int \<Rightarrow>
     string \<times> int \<times> int \<Rightarrow> indexed_chunk_draft" where
  "symbol_chunk env tg file parsed s part_count index part =
     (case part of (part_text, part_start, part_stop) \<Rightarrow>
      let content_hash = ce_sha256 env (utf8 part_text) in
      \<lparr>dr_chunk_id = chunk_uuid env tg (file_normalized_path file) content_hash (int_str part_start)
                       (int_str part_stop) (int_str index),
       dr_snapshot_id = tg_snapshot_id tg, dr_owner_id = tg_owner_id tg,
       dr_repository_id = tg_repository_id tg, dr_revision_id = tg_revision_id tg,
       dr_file_id = file_id file, dr_commit_sha = tg_commit_sha tg,
       dr_normalized_path = file_normalized_path file, dr_language = file_language file,
       dr_symbol_name = Some (ps_name s), dr_qualified_name = Some (ps_qualified_name s),
       dr_symbol_type = ps_symbol_type s, dr_start_line = part_start, dr_end_line = part_stop,
       dr_part_number = index, dr_part_count = part_count, dr_content_hash = content_hash,
       dr_exact_content = part_text, dr_search_text = search_text_of file parsed s part_text,
       dr_dense_embedding = None,
       dr_chunk_metadata = [(''docstring'', json_opt (ps_docstring s)),
         (''calls'', json_strs (ps_calls s)), (''references'', json_strs (ps_references s)),
         (''fallback'', JBool (pf_fallback_used parsed)),
         (''module_name'', json_opt (pf_module_name parsed)),
         (''package_name'', json_opt (pf_package_name parsed))]\<rparr>)"

text \<open>\<^verbatim>\<open>enumerate(xs, start=1)\<close>.\<close>

definition enumerate1 :: "'a list \<Rightarrow> (int \<times> 'a) list" where
  "enumerate1 xs = zip (map int [1..<Suc (length xs)]) xs"

definition symbol_source :: "string \<Rightarrow> parsed_symbol \<Rightarrow> string" where
  "symbol_source t s =
     (let source_text = index_line_slice t (ps_start_line s) (ps_end_line s)
      in if strip source_text = [] then t else source_text)"

definition symbol_chunks ::
    "chunk_env \<Rightarrow> index_target \<Rightarrow> repository_file \<Rightarrow> parsed_file \<Rightarrow> string \<Rightarrow> parsed_symbol \<Rightarrow>
     indexed_chunk_draft list" where
  "symbol_chunks env tg file parsed t s =
     (let parts = split_chunk_text (symbol_source t s) (ce_max_chars env) (ce_max_lines env)
                    (ce_overlap_lines env)
      in map (\<lambda>(index, part). symbol_chunk env tg file parsed s (int (length parts)) index part)
           (enumerate1 parts))"

definition whole_file_chunk ::
    "chunk_env \<Rightarrow> index_target \<Rightarrow> repository_file \<Rightarrow> parsed_file \<Rightarrow> string \<Rightarrow> indexed_chunk_draft" where
  "whole_file_chunk env tg file parsed t =
     (let content_hash = ce_sha256 env (utf8 t) in
      \<lparr>dr_chunk_id = chunk_uuid env tg (file_normalized_path file) content_hash ''1'' ''1'' ''1'',
       dr_snapshot_id = tg_snapshot_id tg, dr_owner_id = tg_owner_id tg,
       dr_repository_id = tg_repository_id tg, dr_revision_id = tg_revision_id tg,
       dr_file_id = file_id file, dr_commit_sha = tg_commit_sha tg,
       dr_normalized_path = file_normalized_path file, dr_language = file_language file,
       dr_symbol_name = None, dr_qualified_name = None, dr_symbol_type = ''text_chunk'',
       dr_start_line = 1, dr_end_line = max (int (length (splitlines t))) 1, dr_part_number = 1,
       dr_part_count = 1, dr_content_hash = content_hash, dr_exact_content = t,
       dr_search_text = join newline (concat (map some_text
          [Some (file_normalized_path file), pf_module_name parsed, Some t])),
       dr_dense_embedding = None,
       dr_chunk_metadata = [(''fallback'', JBool True), (''module_name'', json_opt (pf_module_name parsed))]\<rparr>)"

definition materialize_file ::
    "chunk_env \<Rightarrow> index_target \<Rightarrow> repository_file \<Rightarrow> parsed_file \<Rightarrow> code_symbol list \<times> indexed_chunk_draft list" where
  "materialize_file env tg file parsed =
     (let t = or_else (file_content file) [];
          symbols = map (symbol_row file parsed) (pf_symbols parsed);
          chunks = concat (map (symbol_chunks env tg file parsed t) (pf_symbols parsed))
      in (symbols, if symbols = [] then chunks @ [whole_file_chunk env tg file parsed t] else chunks))"

text \<open>The parent of a symbol is looked up by qualified name; the last of equal names counts.\<close>

definition by_qualified :: "code_symbol list \<Rightarrow> string \<Rightarrow> code_symbol option" where
  "by_qualified found q = map_of (rev (map (\<lambda>s. (sym_qualified_name s, s)) found)) q"

definition parent_name :: "code_symbol \<Rightarrow> string option" where
  "parent_name s = (case dict_get (sym_symbol_metadata s) ''parent_qualified_name'' of
     Some (JStr q) \<Rightarrow> Some q | _ \<Rightarrow> None)"

definition parent_link :: "code_symbol list \<Rightarrow> code_symbol \<Rightarrow> code_symbol" where
  "parent_link found s = (case parent_name s of
     None \<Rightarrow> s
   | Some q \<Rightarrow> (case by_qualified found q of
       None \<Rightarrow> s | Some p \<Rightarrow> s\<lparr>sym_parent_symbol_id := Some (sym_id p)\<rparr>))"

definition apply_symbol_parent_links :: "code_symbol list \<Rightarrow> code_symbol list" where
  "apply_symbol_parent_links found = map (parent_link found) found"

section \<open>Tokens and scores\<close>

definition token_rx :: rx where
  "token_rx = Seq (Cls is_ident_start)
     (Star (Cls (\<lambda>c. is_alpha_ascii c \<or> is_digit c \<or> c = CHR ''_'' \<or> c = CHR ''.'')))"

definition tokenize :: "string \<Rightarrow> string list" where
  "tokenize t = map casefold (findall token_rx t)"

text \<open>A \<^verbatim>\<open>Counter\<close> is the number of times each token occurs.\<close>

definition lexical_score :: "string \<Rightarrow> string \<Rightarrow> string option \<Rightarrow> string option \<Rightarrow> real" where
  "lexical_score query content symbol_name qname =
     (let query_tokens = tokenize query;
          content_tokens = tokenize (join '' '' (concat (map some_text [symbol_name, qname, Some content])))
      in if query_tokens = [] \<or> content_tokens = [] then 0
         else let overlap = sum_list (map (\<lambda>k. min (count_list query_tokens k) (count_list content_tokens k))
                                       (remdups query_tokens))
              in real overlap / max (real (length query_tokens)) 1)"

definition dot :: "real list \<Rightarrow> real list \<Rightarrow> real" where
  "dot a b = sum_list (map (\<lambda>(x, y). x * y) (zip a b))"

definition magnitude :: "real list \<Rightarrow> real" where
  "magnitude v = sqrt (dot v v)"

definition cosine_similarity :: "real list \<Rightarrow> real list \<Rightarrow> real" where
  "cosine_similarity a b =
     (if a = [] \<or> b = [] \<or> length a \<noteq> length b then 0
      else if magnitude a = 0 \<or> magnitude b = 0 then 0
      else dot a b / (magnitude a * magnitude b))"

section \<open>Splitting\<close>

lemma length_slice_int:
  assumes "0 \<le> a" "a \<le> b" "b \<le> int (length xs)"
  shows "length (slice xs a b) = nat (b - a)"
  using assms by (auto simp: slice_def clamp_index_def Let_def)

lemma part_end_bounds:
  assumes "0 \<le> start" "start < int (length lines)" "1 \<le> max_lines"
  shows "start < part_end lines max_chars max_lines start"
    and "part_end lines max_chars max_lines start \<le> min (start + max_lines) (int (length lines))"
proof -
  let ?stop = "min (start + max_lines) (int (length lines))"
  let ?k = "int (length (slice lines start ?stop))"
  have k: "?k = ?stop - start" using assms by (subst length_slice_int) auto
  have d: "max 1 (?k div 2) \<le> ?k" using k assms by auto
  show "start < part_end lines max_chars max_lines start"
    using assms by (simp add: part_end_def Let_def less_max_iff_disj)
  have e: "part_end lines max_chars max_lines start = start + max 1 (?k div 2)
      \<or> part_end lines max_chars max_lines start = ?stop"
    unfolding part_end_def Let_def by (cases "int (length (join newline (slice lines start ?stop))) > max_chars \<and>
      length (slice lines start ?stop) > 1") (simp_all only: if_True if_False simp_thms)
  have "start + max 1 (?k div 2) \<le> ?stop" using d k by linarith
  with e show "part_end lines max_chars max_lines start \<le> ?stop" by (elim disjE) simp_all
qed

lemma split_loop_part:
  assumes "1 \<le> max_lines" "0 \<le> start"
    and "(p, a, b) \<in> set (split_loop lines max_chars max_lines overlap start)"
  shows "start < a \<and> a \<le> b \<and> b \<le> int (length lines) \<and> b - a < max_lines
    \<and> p = join newline (slice lines (a - 1) b)"
  using assms
proof (induction lines max_chars max_lines overlap start rule: split_loop.induct)
  case (1 lines max_chars max_lines overlap start)
  let ?n = "int (length lines)"
  let ?stop = "part_end lines max_chars max_lines start"
  from "1.prems"(3) have s: "start < ?n" by (subst (asm) split_loop.simps) (auto split: if_splits)
  note bounds = part_end_bounds [OF "1.prems"(2) s "1.prems"(1), of max_chars]
  have "(p, a, b) = (join newline (slice lines start ?stop), start + 1, ?stop)
    \<or> (?stop < ?n \<and> (p, a, b) \<in> set (split_loop lines max_chars max_lines overlap (max (?stop - overlap) (start + 1))))"
    using "1.prems"(3) s by (subst (asm) split_loop.simps) (auto simp: Let_def split: if_splits)
  then show ?case
  proof (elim disjE conjE)
    assume "(p, a, b) = (join newline (slice lines start ?stop), start + 1, ?stop)"
    then show ?thesis using bounds by auto
  next
    assume stop: "?stop < ?n"
      and rest: "(p, a, b) \<in> set (split_loop lines max_chars max_lines overlap (max (?stop - overlap) (start + 1)))"
    have "max (?stop - overlap) (start + 1) < a \<and> a \<le> b \<and> b \<le> ?n \<and> b - a < max_lines
        \<and> p = join newline (slice lines (a - 1) b)"
      by (rule "1.IH" [OF s refl refl]) (use stop rest "1.prems" in auto)
    then show ?thesis by auto
  qed
qed

lemma split_loop_covers:
  assumes "1 \<le> max_lines" "0 \<le> overlap" "0 \<le> start" "start < i" "i \<le> int (length lines)"
  shows "\<exists>(p, a, b) \<in> set (split_loop lines max_chars max_lines overlap start). a \<le> i \<and> i \<le> b"
  using assms
proof (induction lines max_chars max_lines overlap start rule: split_loop.induct)
  case (1 lines max_chars max_lines overlap start)
  let ?n = "int (length lines)"
  let ?stop = "part_end lines max_chars max_lines start"
  have s: "start < ?n" using "1.prems" by linarith
  note bounds = part_end_bounds [OF "1.prems"(3) s "1.prems"(1), of max_chars]
  show ?case
  proof (cases "i \<le> ?stop")
    case True
    then show ?thesis using s "1.prems"(4) by (subst split_loop.simps) (simp add: Let_def)
  next
    case False
    then have stop: "\<not> ?n \<le> ?stop" using "1.prems" by linarith
    have "\<exists>(p, a, b) \<in> set (split_loop lines max_chars max_lines overlap (max (?stop - overlap) (start + 1))).
        a \<le> i \<and> i \<le> b"
      by (rule "1.IH" [OF s refl refl stop]) (use "1.prems" False bounds in auto)
    then show ?thesis using s stop by (subst split_loop.simps) (auto simp: Let_def)
  qed
qed

text \<open>Neighbouring parts: the second starts after the first starts, leaves no gap, repeats few lines.\<close>

definition next_part :: "int \<Rightarrow> string \<times> int \<times> int \<Rightarrow> string \<times> int \<times> int \<Rightarrow> bool" where
  "next_part overlap x y = (case x of (p, a, b) \<Rightarrow> case y of (q, c, d) \<Rightarrow>
     a < c \<and> c \<le> b + 1 \<and> b + 1 - c \<le> overlap)"

lemma split_loop_hd:
  "split_loop lines max_chars max_lines overlap start \<noteq> [] \<longleftrightarrow> start < int (length lines)"
  "start < int (length lines) \<Longrightarrow>
     \<exists>p b. hd (split_loop lines max_chars max_lines overlap start) = (p, start + 1, b)"
  by (subst split_loop.simps, simp add: Let_def) (subst split_loop.simps, simp add: Let_def)

lemma split_loop_next:
  assumes "1 \<le> max_lines" "0 \<le> overlap" "0 \<le> start"
  shows "successively (next_part overlap) (split_loop lines max_chars max_lines overlap start)"
  using assms
proof (induction lines max_chars max_lines overlap start rule: split_loop.induct)
  case (1 lines max_chars max_lines overlap start)
  let ?n = "int (length lines)"
  let ?stop = "part_end lines max_chars max_lines start"
  let ?next = "max (?stop - overlap) (start + 1)"
  let ?rest = "split_loop lines max_chars max_lines overlap ?next"
  show ?case
  proof (cases "start < ?n \<and> ?stop < ?n")
    case True
    then have s: "start < ?n" and stop: "\<not> ?n \<le> ?stop" by auto
    note bounds = part_end_bounds [OF "1.prems"(3) s "1.prems"(1), of max_chars]
    have "successively (next_part overlap) ?rest"
      by (rule "1.IH" [OF s refl refl stop]) (use "1.prems" in auto)
    moreover have "?next < ?n" using True bounds "1.prems"(2) by auto
    then obtain q d where "?rest \<noteq> []" "hd ?rest = (q, ?next + 1, d)"
      using split_loop_hd by blast
    moreover have "next_part overlap (join newline (slice lines start ?stop), start + 1, ?stop) (q, ?next + 1, d)"
      using bounds "1.prems"(2) by (auto simp: next_part_def)
    ultimately show ?thesis
      using s stop by (subst split_loop.simps) (simp add: Let_def successively_Cons)
  next
    case False
    then show ?thesis by (subst split_loop.simps) (auto simp: Let_def)
  qed
qed

lemma split_loop_length: "length (split_loop lines max_chars max_lines overlap start) \<le> nat (int (length lines) - start)"
proof (induction lines max_chars max_lines overlap start rule: split_loop.induct)
  case (1 lines max_chars max_lines overlap start)
  show ?case
  proof (cases "start < int (length lines)")
    case False
    then show ?thesis by (subst split_loop.simps) simp
  next
    case True
    let ?stop = "part_end lines max_chars max_lines start"
    have "length (split_loop lines max_chars max_lines overlap (max (?stop - overlap) (start + 1)))
        \<le> nat (int (length lines) - max (?stop - overlap) (start + 1))" if "\<not> int (length lines) \<le> ?stop"
      by (rule "1.IH" [OF True refl refl that])
    moreover have "nat (int (length lines) - max (?stop - overlap) (start + 1)) < nat (int (length lines) - start)"
      using True by auto
    ultimately show ?thesis using True by (subst split_loop.simps) (auto simp: Let_def)
  qed
qed

lemma chunk_lines_nonempty: "chunk_lines t \<noteq> []"
  by (simp add: chunk_lines_def)

text \<open>
  C16: splitting a text covers it. Every line is in some part, every part is a run of whole
  lines no longer than the line limit and its text is exactly those lines, the parts come
  in order, without a gap, and two neighbours share at most the configured overlap.
\<close>

theorem split_covers_text:
  assumes "1 \<le> max_lines" "0 \<le> overlap"
  shows "(\<forall>i. 1 \<le> i \<and> i \<le> int (length (chunk_lines t)) \<longrightarrow>
           (\<exists>(p, a, b) \<in> set (split_chunk_text t max_chars max_lines overlap). a \<le> i \<and> i \<le> b))
    \<and> (\<forall>(p, a, b) \<in> set (split_chunk_text t max_chars max_lines overlap).
           1 \<le> a \<and> a \<le> b \<and> b \<le> int (length (chunk_lines t)) \<and> b - a < max_lines
           \<and> p = join newline (slice (chunk_lines t) (a - 1) b))
    \<and> successively (next_part overlap) (split_chunk_text t max_chars max_lines overlap)"
  using split_loop_covers [OF assms, of 0] split_loop_part [OF assms(1), of 0]
    split_loop_next [OF assms, of 0]
  by (fastforce simp: split_chunk_text_def)

lemma split_covers_text_witness:
  "list_all (\<lambda>(p, a, b). 1 \<le> a \<and> a \<le> b \<and> b - a < 2)
     (split_chunk_text [CHR ''a'', CHR 0x0A, CHR ''b'', CHR 0x0A, CHR ''c''] 4000 2 1)
   \<and> map snd (split_chunk_text [CHR ''a'', CHR 0x0A, CHR ''b'', CHR 0x0A, CHR ''c''] 4000 2 1) = [(1, 2), (2, 3)]"
proof
  show "list_all (\<lambda>(p, a, b). 1 \<le> a \<and> a \<le> b \<and> b - a < 2)
     (split_chunk_text [CHR ''a'', CHR 0x0A, CHR ''b'', CHR 0x0A, CHR ''c''] 4000 2 1)"
    unfolding list_all_iff
    using split_covers_text [of 2 1 "[CHR ''a'', CHR 0x0A, CHR ''b'', CHR 0x0A, CHR ''c'']" 4000] by auto
  show "map snd (split_chunk_text [CHR ''a'', CHR 0x0A, CHR ''b'', CHR 0x0A, CHR ''c''] 4000 2 1) = [(1, 2), (2, 3)]"
    by code_simp
qed

text \<open>
  The splitting loop ends whatever the settings are, zero or negative limits and
  overlaps included: it makes at least one part and no more parts than there are lines.
\<close>

theorem split_terminates:
  "split_chunk_text t max_chars max_lines overlap \<noteq> []
   \<and> length (split_chunk_text t max_chars max_lines overlap) \<le> length (chunk_lines t)"
proof
  have "0 < int (length (chunk_lines t))" using chunk_lines_nonempty [of t] by simp
  then show "split_chunk_text t max_chars max_lines overlap \<noteq> []"
    unfolding split_chunk_text_def split_loop_hd(1) by simp
  show "length (split_chunk_text t max_chars max_lines overlap) \<le> length (chunk_lines t)"
    using split_loop_length [of "chunk_lines t" max_chars max_lines overlap 0]
    by (simp add: split_chunk_text_def)
qed

text \<open>The character limit is tried once: half of too long a part is kept however long it is.\<close>

lemma split_exceeds_max_chars:
  "\<exists>(p, a, b) \<in> set (split_chunk_text (concat (replicate 4 (''xxxxxxxxxx'' @ newline))) 5 4 0). length p = 21"
proof -
  have "list_ex (\<lambda>(p, a, b). length p = 21) (split_chunk_text (concat (replicate 4 (''xxxxxxxxxx'' @ newline))) 5 4 0)"
    by code_simp
  then show ?thesis by (auto simp: list_ex_iff)
qed

section \<open>Batches\<close>

lemma concat_batches: "0 < n \<Longrightarrow> concat (batches_from n xs) = xs"
proof (induction n xs rule: batches_from.induct)
  case (1 n xs)
  then show ?case by (subst batches_from.simps) simp
qed

lemma batches_size: "0 < n \<Longrightarrow> b \<in> set (batches_from n xs) \<Longrightarrow> b \<noteq> [] \<and> length b \<le> n"
proof (induction n xs rule: batches_from.induct)
  case (1 n xs)
  from "1.prems"(2) have "xs \<noteq> [] \<and> n \<noteq> 0 \<and> (b = take n xs \<or> b \<in> set (batches_from n (drop n xs)))"
    by (subst (asm) batches_from.simps) (auto split: if_splits)
  with "1.IH" "1.prems"(1) show ?case by auto
qed

lemma batches_full: "0 < n \<Longrightarrow> b \<in> set (butlast (batches_from n xs)) \<Longrightarrow> length b = n"
proof (induction n xs rule: batches_from.induct)
  case (1 n xs)
  show ?case
  proof (cases "xs = [] \<or> n = 0 \<or> drop n xs = []")
    case True
    then have "butlast (batches_from n xs) = []"
      by (subst batches_from.simps) (auto simp: batches_from.simps [of n "[]"])
    with "1.prems" show ?thesis by simp
  next
    case False
    then have "batches_from n (drop n xs) \<noteq> []" by (subst batches_from.simps) simp
    then have "butlast (batches_from n xs) = take n xs # butlast (batches_from n (drop n xs))"
      using False by (subst batches_from.simps) simp
    with "1.prems" "1.IH" False show ?thesis by auto
  qed
qed

text \<open>
  Batching loses and reorders nothing: the batches put together are the texts, none is
  empty or larger than the batch size, and all but the last are full.
\<close>

theorem batches_partition:
  assumes "0 < n"
  shows "\<exists>bs. batch_texts xs n = Inr bs \<and> concat bs = xs
    \<and> (\<forall>b \<in> set bs. b \<noteq> [] \<and> int (length b) \<le> n) \<and> (\<forall>b \<in> set (butlast bs). int (length b) = n)"
proof (intro exI conjI)
  let ?bs = "batches_from (nat n) xs"
  show "batch_texts xs n = Inr ?bs" using assms by (simp add: batch_texts_def)
  show "concat ?bs = xs" using assms by (simp add: concat_batches)
  show "\<forall>b \<in> set ?bs. b \<noteq> [] \<and> int (length b) \<le> n" using batches_size [of "nat n"] assms by fastforce
  show "\<forall>b \<in> set (butlast ?bs). int (length b) = n" using batches_full [of "nat n"] assms by fastforce
qed

lemma batches_partition_witness:
  "\<exists>bs. batch_texts ''abcde'' 2 = Inr bs \<and> concat bs = ''abcde''"
  using batches_partition [of 2 "''abcde''"] by auto

section \<open>Scores\<close>

lemma counter_overlap:
  "sum_list (map (\<lambda>k. min (count_list q k) (count_list c k)) (remdups q)) = size (mset q \<inter># mset c)"
proof -
  have "sum_list (map (\<lambda>k. min (count_list q k) (count_list c k)) (remdups q))
      = (\<Sum>k \<in> set q. min (count_list q k) (count_list c k))"
    by (subst sum_list_distinct_conv_sum_set) simp_all
  also have "\<dots> = (\<Sum>k \<in> set q. count (mset q \<inter># mset c) k)"
    by (simp add: count_mset)
  also have "\<dots> = (\<Sum>k \<in> set_mset (mset q \<inter># mset c). count (mset q \<inter># mset c) k)"
    by (rule sum.mono_neutral_right) (auto simp: not_in_iff)
  finally show ?thesis by (simp add: size_multiset_overloaded_eq)
qed

definition content_tokens :: "string \<Rightarrow> string option \<Rightarrow> string option \<Rightarrow> string list" where
  "content_tokens content symbol_name qname =
     tokenize (join '' '' (concat (map some_text [symbol_name, qname, Some content])))"

text \<open>
  The lexical score is the share of the query's tokens, counted with repetition, that
  the chunk contains: the size of the common multiset over the number of query tokens. It
  lies between 0 and 1, is 1 exactly when the chunk has every token as often as the query,
  and 0 exactly when they share none.
\<close>

theorem lexical_score_spec:
  fixes query content symbol_name qname
  defines "q \<equiv> mset (tokenize query)" and "c \<equiv> mset (content_tokens content symbol_name qname)"
  shows "lexical_score query content symbol_name qname = (if q = {#} then 0 else real (size (q \<inter># c)) / real (size q))
    \<and> 0 \<le> lexical_score query content symbol_name qname \<and> lexical_score query content symbol_name qname \<le> 1
    \<and> (lexical_score query content symbol_name qname = 1 \<longleftrightarrow> q \<noteq> {#} \<and> q \<subseteq># c)
    \<and> (lexical_score query content symbol_name qname = 0 \<longleftrightarrow> q \<inter># c = {#})"
proof -
  let ?q = "tokenize query"
  let ?c = "content_tokens content symbol_name qname"
  have def: "lexical_score query content symbol_name qname = (if ?q = [] \<or> ?c = [] then 0
      else real (size (q \<inter># c)) / max (real (length ?q)) 1)"
    unfolding lexical_score_def Let_def content_tokens_def [symmetric] q_def c_def counter_overlap ..
  have eq: "lexical_score query content symbol_name qname = (if q = {#} then 0 else real (size (q \<inter># c)) / real (size q))"
  proof (cases "?q = [] \<or> ?c = []")
    case True
    then show ?thesis unfolding def by (auto simp: q_def c_def)
  next
    case False
    then have "1 \<le> length ?q" by (simp add: Suc_le_eq)
    then have "max (real (length ?q)) 1 = real (length ?q)" by simp
    with False show ?thesis unfolding def by (simp add: q_def)
  qed
  have le: "size (q \<inter># c) \<le> size q" by (simp add: size_mset_mono)
  have full: "size (q \<inter># c) = size q \<longleftrightarrow> q \<subseteq># c"
    by (metis inf.absorb_iff1 inf.cobounded1 mset_subset_size nat_less_le subset_mset.order_iff_strict
        subset_mset.inf.absorb_iff1 subset_mset.inf_le1)
  show ?thesis
    using le full by (auto simp: eq divide_le_eq_1 field_simps nonempty_has_size)
qed

lemma zip_self: "zip xs xs = map (\<lambda>x. (x, x)) xs"
  by (induction xs) auto

lemma dot_Cons [simp]: "dot (x # a) (y # b) = x * y + dot a b"
  by (simp add: dot_def)

lemma dot_Nil [simp]: "dot [] b = 0" "dot a [] = 0"
  by (simp_all add: dot_def)

lemma dot_self_nonneg: "0 \<le> dot a a"
  by (induction a) auto

lemma dot_commute: "dot a b = dot b a"
proof (induction a arbitrary: b)
  case (Cons x a)
  then show ?case by (cases b) (simp_all add: mult.commute)
qed simp

lemma dot_cauchy_schwarz: "(dot a b)\<^sup>2 \<le> dot a a * dot b b"
proof (induction a arbitrary: b)
  case (Cons x a)
  show ?case
  proof (cases b)
    case b: (Cons y b')
    let ?s = "dot a b'" and ?A = "dot a a" and ?B = "dot b' b'"
    have A: "0 \<le> ?A" and B: "0 \<le> ?B" by (rule dot_self_nonneg)+
    have "\<bar>?s\<bar> \<le> sqrt ?A * sqrt ?B"
      using real_sqrt_le_mono [OF Cons.IH [of b']] by (simp add: real_sqrt_mult)
    moreover have "2 * (\<bar>x\<bar> * sqrt ?B) * (\<bar>y\<bar> * sqrt ?A) \<le> (\<bar>x\<bar> * sqrt ?B)\<^sup>2 + (\<bar>y\<bar> * sqrt ?A)\<^sup>2"
      by (rule sum_squares_bound)
    moreover have "(\<bar>x\<bar> * sqrt ?B)\<^sup>2 + (\<bar>y\<bar> * sqrt ?A)\<^sup>2 = x\<^sup>2 * ?B + y\<^sup>2 * ?A"
      using A B by (simp add: power_mult_distrib)
    moreover have "2 * (x * y * ?s) \<le> 2 * (\<bar>x\<bar> * \<bar>y\<bar> * \<bar>?s\<bar>)"
      by (metis abs_ge_self abs_mult mult_left_mono zero_le_numeral)
    moreover have "\<bar>x\<bar> * \<bar>y\<bar> * \<bar>?s\<bar> \<le> \<bar>x\<bar> * \<bar>y\<bar> * (sqrt ?A * sqrt ?B)"
      using \<open>\<bar>?s\<bar> \<le> sqrt ?A * sqrt ?B\<close> by (intro mult_left_mono) auto
    ultimately have "2 * (x * y * ?s) \<le> x\<^sup>2 * ?B + y\<^sup>2 * ?A" by (simp add: mult_ac)
    moreover have "?s\<^sup>2 \<le> ?A * ?B" by (rule Cons.IH)
    ultimately show ?thesis using b by (simp add: power2_eq_square algebra_simps)
  qed simp
qed simp

text \<open>
  The cosine similarity is symmetric and lies between -1 and 1, and a vector that is not
  zero has similarity 1 with itself.
\<close>

theorem cosine_similarity_bounds:
  "cosine_similarity a b = cosine_similarity b a \<and> \<bar>cosine_similarity a b\<bar> \<le> 1
   \<and> cosine_similarity a a = (if magnitude a = 0 then 0 else 1)"
proof (intro conjI)
  show "cosine_similarity a b = cosine_similarity b a"
    by (auto simp: cosine_similarity_def dot_commute [of a b] mult.commute)
  have "\<bar>dot a b\<bar> \<le> magnitude a * magnitude b"
    using real_sqrt_le_mono [OF dot_cauchy_schwarz [of a b]] by (simp add: magnitude_def real_sqrt_mult)
  moreover have "0 \<le> magnitude a" "0 \<le> magnitude b" by (simp_all add: magnitude_def dot_self_nonneg)
  ultimately show "\<bar>cosine_similarity a b\<bar> \<le> 1"
    by (auto simp: cosine_similarity_def abs_mult divide_le_eq_1 mult_pos_pos)
  have "magnitude a * magnitude a = dot a a" by (simp add: magnitude_def dot_self_nonneg)
  then show "cosine_similarity a a = (if magnitude a = 0 then 0 else 1)"
    by (auto simp: cosine_similarity_def magnitude_def)
qed

section \<open>What a file is turned into\<close>

text \<open>The two copies of \<^verbatim>\<open>_line_slice\<close> agree.\<close>

lemma index_line_slice_eq: "index_line_slice t a b = line_slice t a b"
proof (cases "splitlines t = []")
  case True
  then have "t = []" by (cases t) (auto split: if_splits list.splits)
  then show ?thesis by (simp add: index_line_slice_def line_slice_def slice_def)
next
  case False
  then show ?thesis by (simp add: index_line_slice_def line_slice_def)
qed

lemma enumerate1_in:
  "(i, x) \<in> set (enumerate1 xs) \<Longrightarrow> 1 \<le> i \<and> i \<le> int (length xs) \<and> x = xs ! nat (i - 1)"
  by (auto simp: enumerate1_def in_set_zip simp del: upt_Suc)

lemma length_enumerate1 [simp]: "length (enumerate1 xs) = length xs"
  by (simp add: enumerate1_def del: upt_Suc)

text \<open>A draft of the given target and file, numbered within its parts and hashed.\<close>

definition draft_ok :: "chunk_env \<Rightarrow> index_target \<Rightarrow> repository_file \<Rightarrow> indexed_chunk_draft \<Rightarrow> bool" where
  "draft_ok env tg file d \<longleftrightarrow>
     dr_snapshot_id d = tg_snapshot_id tg \<and> dr_owner_id d = tg_owner_id tg
   \<and> dr_repository_id d = tg_repository_id tg \<and> dr_revision_id d = tg_revision_id tg
   \<and> dr_commit_sha d = tg_commit_sha tg \<and> dr_file_id d = file_id file
   \<and> dr_normalized_path d = file_normalized_path file \<and> dr_language d = file_language file
   \<and> 1 \<le> dr_part_number d \<and> dr_part_number d \<le> dr_part_count d
   \<and> dr_content_hash d = ce_sha256 env (utf8 (dr_exact_content d))
   \<and> dr_dense_embedding d = None"

lemma symbol_chunks_ok: "d \<in> set (symbol_chunks env tg file parsed t s) \<Longrightarrow> draft_ok env tg file d"
  by (auto simp: symbol_chunks_def Let_def symbol_chunk_def draft_ok_def split: prod.splits dest!: enumerate1_in)

lemma whole_file_chunk_ok: "draft_ok env tg file (whole_file_chunk env tg file parsed t)"
  by (simp add: whole_file_chunk_def Let_def draft_ok_def)

lemma symbol_chunks_nonempty: "symbol_chunks env tg file parsed t s \<noteq> []"
proof -
  have "length (symbol_chunks env tg file parsed t s) \<noteq> 0"
    using split_loop_hd(1) [of "chunk_lines (symbol_source t s)" "ce_max_chars env" "ce_max_lines env" "ce_overlap_lines env" 0]
      chunk_lines_nonempty [of "symbol_source t s"]
    by (simp add: symbol_chunks_def Let_def split_chunk_text_def)
  then show ?thesis by auto
qed

lemma materialize_nonempty: "snd (materialize_file env tg file parsed) \<noteq> []"
  by (cases "pf_symbols parsed") (simp_all add: materialize_file_def Let_def symbol_chunks_nonempty)

lemma materialize_drafts_ok:
  "d \<in> set (snd (materialize_file env tg file parsed)) \<Longrightarrow> draft_ok env tg file d"
  by (auto simp: materialize_file_def Let_def whole_file_chunk_ok split: if_splits dest: symbol_chunks_ok)

text \<open>
  Every accepted file is searchable: indexing it gives at least one chunk, each chunk
  belongs to the file and to the owner, repository, revision and snapshot being indexed,
  carries the hash of exactly its text and a part number within its part count; and the
  file has one symbol row per parsed symbol, which belongs to the file.
\<close>

theorem materialize_file_spec:
  "snd (materialize_file env tg file parsed) \<noteq> []
   \<and> (\<forall>d \<in> set (snd (materialize_file env tg file parsed)). draft_ok env tg file d)
   \<and> map sym_qualified_name (fst (materialize_file env tg file parsed)) = map ps_qualified_name (pf_symbols parsed)
   \<and> (\<forall>s \<in> set (fst (materialize_file env tg file parsed)). sym_file_id s = file_id file)"
  using materialize_nonempty
  by (auto simp: materialize_drafts_ok) (auto simp: materialize_file_def symbol_row_def Let_def)

text \<open>The metadata of a symbol row names the parent the parser found.\<close>

lemma symbol_row_parent_name: "parent_name (symbol_row file parsed s) = ps_parent_qualified_name s"
  by (simp add: parent_name_def symbol_row_def dict_update_def dict_get_set json_opt_def split: option.splits)

text \<open>Linking changes the parents only.\<close>

lemma parent_link_fields [simp]:
  "sym_id (parent_link found s) = sym_id s" "sym_file_id (parent_link found s) = sym_file_id s"
  "sym_qualified_name (parent_link found s) = sym_qualified_name s"
  by (auto simp: parent_link_def split: option.splits)

lemma by_qualified_in: "by_qualified found q = Some p \<Longrightarrow> p \<in> set found \<and> sym_qualified_name p = q"
  by (auto simp: by_qualified_def dest!: map_of_SomeD)

lemma by_qualified_None: "by_qualified found q = None \<longleftrightarrow> q \<notin> sym_qualified_name ` set found"
  by (auto simp: by_qualified_def map_of_eq_None_iff image_iff)

lemma by_qualified_last:
  "by_qualified (pre @ p # post) (sym_qualified_name p) =
     (if sym_qualified_name p \<in> sym_qualified_name ` set post then by_qualified post (sym_qualified_name p) else Some p)"
proof -
  have "map_of (rev (map (\<lambda>s. (sym_qualified_name s, s)) post)) (sym_qualified_name p) = None"
    if "sym_qualified_name p \<notin> sym_qualified_name ` set post"
    using that by (auto simp: map_of_eq_None_iff image_iff)
  moreover have "map_of (rev (map (\<lambda>s. (sym_qualified_name s, s)) post)) (sym_qualified_name p) \<noteq> None"
    if "sym_qualified_name p \<in> sym_qualified_name ` set post"
    using that by (auto simp: map_of_eq_None_iff image_iff)
  ultimately show ?thesis by (auto simp: by_qualified_def map_add_def)
qed

text \<open>
  Linking sets the parent of every symbol whose metadata names a parent found in the
  run, to the last symbol of that qualified name among all files, and changes no other
  field of any symbol; a name that is not found gives no parent.
\<close>

theorem parent_links_spec:
  assumes found: "found = pre @ p # post" and last: "sym_qualified_name p \<notin> sym_qualified_name ` set post"
    and s: "s \<in> set found" "parent_name s = Some (sym_qualified_name p)"
  shows "parent_link found s = s\<lparr>sym_parent_symbol_id := Some (sym_id p)\<rparr>
    \<and> apply_symbol_parent_links found = map (parent_link found) found
    \<and> (\<forall>r \<in> set found. (parent_name r = None \<or> (\<exists>q. parent_name r = Some q \<and> q \<notin> sym_qualified_name ` set found))
          \<longrightarrow> parent_link found r = r)"
proof (intro conjI ballI impI)
  have "by_qualified found (sym_qualified_name p) = Some p"
    using by_qualified_last [of pre p post] last unfolding found by simp
  then show "parent_link found s = s\<lparr>sym_parent_symbol_id := Some (sym_id p)\<rparr>"
    using s(2) by (simp add: parent_link_def)
next
  fix r assume "parent_name r = None \<or> (\<exists>q. parent_name r = Some q \<and> q \<notin> sym_qualified_name ` set found)"
  then show "parent_link found r = r"
    by (elim disjE exE conjE) (simp_all add: parent_link_def by_qualified_None [symmetric])
qed (rule apply_symbol_parent_links_def)

text \<open>
  Qualified names do not name the file, so a method can get a class of another file as its
  parent: here the class \<open>A\<close> of file 2 becomes the parent of the method \<open>A.f\<close> of file 1.
\<close>

definition sample_symbol :: "uuid \<Rightarrow> uuid \<Rightarrow> string \<Rightarrow> string option \<Rightarrow> code_symbol" where
  "sample_symbol i fid q parent = \<lparr>sym_id = i, sym_file_id = fid, sym_symbol_type = ''class'',
     sym_name = q, sym_qualified_name = q, sym_start_line = 1, sym_end_line = 1,
     sym_signature = None, sym_parent_symbol_id = None,
     sym_symbol_metadata = [(''parent_qualified_name'', json_opt parent)]\<rparr>"

lemma parent_links_spec_witness:
  "let found = [sample_symbol 10 1 ''A'' None, sample_symbol 11 1 ''A.f'' (Some ''A''), sample_symbol 20 2 ''A'' None]
   in sym_parent_symbol_id (parent_link found (sample_symbol 11 1 ''A.f'' (Some ''A''))) = Some 20"
proof -
  let ?pre = "[sample_symbol 10 1 ''A'' None, sample_symbol 11 1 ''A.f'' (Some ''A'')]"
  let ?p = "sample_symbol 20 2 ''A'' None" and ?s = "sample_symbol 11 1 ''A.f'' (Some ''A'')"
  have "parent_link (?pre @ ?p # []) ?s = ?s\<lparr>sym_parent_symbol_id := Some (sym_id ?p)\<rparr>"
    using parent_links_spec [OF refl, of ?p "[]" ?s ?pre]
    by (simp add: sample_symbol_def parent_name_def dict_get_def json_opt_def)
  then show ?thesis by (simp add: sample_symbol_def Let_def)
qed

end
