(* ===== verification/Embedding.thy ===== *)
theory Embedding
  imports Chunking
begin

text \<open>
  The embedding providers of \<^verbatim>\<open>app/services/indexing.py\<close>: the contract of the protocol
  \<^verbatim>\<open>EmbeddingProvider\<close> as two locales, the deterministic provider, and the Ollama client
  with its retries over an HTTP server that is a parameter (its answers may depend on how
  many requests were made before).
\<close>

section \<open>The contract\<close>

text \<open>
  \<open>embed n texts\<close> is the outcome of a call made after \<open>n\<close> others. The weak contract is the
  size of the vectors, the full one also their number; what the client concludes is that
  assigning the vectors to the texts in order fills every place with a vector of the
  configured size.
\<close>

locale sized_embedding =
  fixes embed :: "nat \<Rightarrow> string list \<Rightarrow> exn + real list list"
    and dimensions :: int
  assumes vector_size: "embed n texts = Inr vs \<Longrightarrow> v \<in> set vs \<Longrightarrow> int (length v) = dimensions"

locale embedding_provider = sized_embedding +
  assumes vector_count: "embed n texts = Inr vs \<Longrightarrow> length vs = length texts"
begin

lemma all_placed:
  "embed n texts = Inr vs \<Longrightarrow> list_all2 (\<lambda>t v. int (length v) = dimensions) texts vs"
  using vector_count vector_size by (fastforce simp: list_all2_conv_all_nth)

end

section \<open>The deterministic provider\<close>

text \<open>\<^verbatim>\<open>int.from_bytes\<close> of the bytes two by two, most significant first.\<close>

fun byte_pairs :: "string \<Rightarrow> nat list" where
  "byte_pairs [] = []"
| "byte_pairs [a] = [code a]"
| "byte_pairs (a # b # rest) = (256 * code a + code b) # byte_pairs rest"

definition bump :: "nat \<Rightarrow> real list \<Rightarrow> real list" where
  "bump i v = v[i := v ! i + 1]"

definition normalise :: "real list \<Rightarrow> real list" where
  "normalise v = (if magnitude v > 0 then map (\<lambda>x. x / magnitude v) v else v)"

definition hashed_indices :: "(string \<Rightarrow> string) \<Rightarrow> string \<Rightarrow> nat list" where
  "hashed_indices digest t = concat (map (\<lambda>token. byte_pairs (digest (utf8 token))) (tokenize t))"

definition deterministic_embed :: "(string \<Rightarrow> string) \<Rightarrow> int \<Rightarrow> string \<Rightarrow> exn + real list" where
  "deterministic_embed digest dimensions t =
     (let indices = hashed_indices digest t in
      if indices \<noteq> [] \<and> dimensions = 0 then Inl ZeroDivisionError
      else if indices \<noteq> [] \<and> dimensions < 0 then Inl (IndexError ''list index out of range'')
      else Inr (normalise (fold (\<lambda>i. bump (i mod nat dimensions)) indices (replicate (nat dimensions) 0))))"

fun mapr :: "('a \<Rightarrow> exn + 'b) \<Rightarrow> 'a list \<Rightarrow> exn + 'b list" where
  "mapr f [] = Inr []"
| "mapr f (x # xs) = bindr (f x) (\<lambda>y. bindr (mapr f xs) (\<lambda>ys. Inr (y # ys)))"

definition deterministic_texts :: "(string \<Rightarrow> string) \<Rightarrow> int \<Rightarrow> nat \<Rightarrow> string list \<Rightarrow> exn + real list list" where
  "deterministic_texts digest dimensions n texts = mapr (deterministic_embed digest dimensions) texts"

lemma mapr_Inr: "mapr f xs = Inr ys \<longleftrightarrow> list_all2 (\<lambda>x y. f x = Inr y) xs ys"
proof (induction xs arbitrary: ys)
  case (Cons x xs)
  then show ?case by (cases ys) (auto simp: bindr_eq_Inr)
qed auto

lemma length_bump [simp]: "length (bump i v) = length v"
  by (simp add: bump_def)

lemma length_bumps: "length (fold (\<lambda>i. bump (i mod m)) is v) = length v"
  by (induction "is" arbitrary: v) simp_all

lemma length_normalise [simp]: "length (normalise v) = length v"
  by (simp add: normalise_def)

lemma deterministic_size:
  "0 \<le> dimensions \<Longrightarrow> deterministic_embed digest dimensions t = Inr v \<Longrightarrow> int (length v) = dimensions"
  by (auto simp: deterministic_embed_def Let_def length_bumps split: if_splits)

lemma dot_scaled: "c \<noteq> 0 \<Longrightarrow> dot (map (\<lambda>x. x / c) v) (map (\<lambda>x. x / c) v) = dot v v / (c * c)"
  by (induction v) (simp_all add: add_divide_distrib)

lemma magnitude_normalise: "magnitude (normalise v) = (if magnitude v = 0 then 0 else 1)"
proof -
  have sq: "magnitude v * magnitude v = dot v v" by (simp add: magnitude_def dot_self_nonneg)
  have nonneg: "0 \<le> magnitude v" by (simp add: magnitude_def dot_self_nonneg)
  show ?thesis
  proof (cases "magnitude v = 0")
    case False
    with nonneg have "0 < magnitude v" by simp
    moreover have "dot (map (\<lambda>x. x / magnitude v) v) (map (\<lambda>x. x / magnitude v) v) = 1"
      using False by (simp add: dot_scaled sq) (use sq False in auto)
    ultimately show ?thesis by (simp add: normalise_def) (simp add: magnitude_def [of "map f w" for f w])
  qed (simp add: normalise_def)
qed

text \<open>A provider with a positive or zero number of dimensions keeps the full contract.\<close>

interpretation deterministic: embedding_provider
  "deterministic_texts digest (int d)" "int d" for digest :: "string \<Rightarrow> string" and d :: nat
proof unfold_locales
  fix n texts vs v
  assume vs: "deterministic_texts digest (int d) n texts = Inr vs"
  show "length vs = length texts"
    using vs by (simp add: deterministic_texts_def mapr_Inr list_all2_lengthD)
  assume "v \<in> set vs"
  then obtain t where "deterministic_embed digest (int d) t = Inr v"
    using vs by (auto simp: deterministic_texts_def mapr_Inr elim!: list_all2_memberE)
  then show "int (length v) = int d" by (rule deterministic_size [OF of_nat_0_le_iff])
qed

text \<open>
  With a positive number of dimensions the deterministic provider never fails: it gives
  each text one vector of that size, of length 1, or 0 for a text without tokens, and the
  same text always gets the same vector.
\<close>

theorem deterministic_provider_total:
  assumes "0 < dimensions"
  shows "\<exists>vs. deterministic_texts digest dimensions n texts = Inr vs
    \<and> list_all2 (\<lambda>t v. deterministic_embed digest dimensions t = Inr v \<and> int (length v) = dimensions
         \<and> magnitude v \<in> {0, 1}) texts vs"
proof -
  let ?v = "\<lambda>t. normalise (fold (\<lambda>i. bump (i mod nat dimensions)) (hashed_indices digest t) (replicate (nat dimensions) 0))"
  have e: "deterministic_embed digest dimensions t = Inr (?v t)" for t
    using assms by (simp add: deterministic_embed_def Let_def)
  have "deterministic_texts digest dimensions n texts = Inr (map ?v texts)"
    by (simp add: deterministic_texts_def mapr_Inr list_all2_conv_all_nth e)
  moreover have "int (length (?v t)) = dimensions" for t using assms by (simp add: length_bumps)
  ultimately show ?thesis
    by (auto simp: list_all2_conv_all_nth e magnitude_normalise)
qed

lemma deterministic_provider_total_witness:
  "\<exists>vs. deterministic_texts (\<lambda>_. ''ab'') 4 0 [''x'', ''y''] = Inr vs \<and> map length vs = [4, 4]"
proof -
  obtain vs where vs: "deterministic_texts (\<lambda>_. ''ab'') 4 0 [''x'', ''y''] = Inr vs"
    "list_all2 (\<lambda>t v. deterministic_embed (\<lambda>_. ''ab'') 4 t = Inr v \<and> int (length v) = 4
         \<and> magnitude v \<in> {0, 1}) [''x'', ''y''] vs"
    using deterministic_provider_total [of 4 "\<lambda>_. ''ab''" 0 "[''x'', ''y'']"] by auto
  then obtain v w where "vs = [v, w]" "int (length v) = 4" "int (length w) = 4"
    by (auto simp: list_all2_Cons1)
  with vs(1) show ?thesis by auto
qed

section \<open>The Ollama client\<close>

text \<open>
  An answer of the server: a status and a JSON body, if it is one; a timeout; a network
  failure. The state counts the requests and keeps the delays slept.
\<close>

datatype http_reply = Reply nat "json option" | TimedOut | NetworkFailed

record http_state =
  hs_requests :: nat
  hs_sleeps :: "rat list"

record ollama_env =
  oe_server :: "nat \<Rightarrow> string \<Rightarrow> json \<Rightarrow> http_reply"
  oe_float_of_str :: "string \<Rightarrow> real option"
  oe_model :: string
  oe_batch_size :: int
  oe_dimensions :: int

type_synonym 'a http = "(http_state, 'a) py"

definition http_request :: "ollama_env \<Rightarrow> string \<Rightarrow> json \<Rightarrow> (nat \<times> json option) http" where
  "http_request env url payload =
     (\<lambda>s. let s' = s\<lparr>hs_requests := Suc (hs_requests s)\<rparr> in
      case oe_server env (hs_requests s) url payload of
        Reply status body \<Rightarrow> (Inr (status, body), s')
      | TimedOut \<Rightarrow> (Inl HttpTimeout, s')
      | NetworkFailed \<Rightarrow> (Inl HttpNetworkError, s'))"

definition http_sleep :: "rat \<Rightarrow> unit http" where
  "http_sleep d = modify (\<lambda>s. s\<lparr>hs_sleeps := hs_sleeps s @ [d]\<rparr>)"

definition raise_for_status :: "nat \<Rightarrow> exn + unit" where
  "raise_for_status status = (if 200 \<le> status \<and> status < 300 then Inr () else Inl (HTTPStatusError status))"

definition response_json :: "json option \<Rightarrow> exn + json" where
  "response_json body = (case body of None \<Rightarrow> Inl (ValueError ''invalid JSON'') | Some j \<Rightarrow> Inr j)"

text \<open>\<^verbatim>\<open>float(value)\<close> and iteration over a JSON value.\<close>

fun to_float :: "(string \<Rightarrow> real option) \<Rightarrow> json \<Rightarrow> exn + real" where
  "to_float fs (JInt i) = Inr (of_int i)"
| "to_float fs (JFloat r) = Inr (of_rat r)"
| "to_float fs (JBool b) = Inr (if b then 1 else 0)"
| "to_float fs (JStr t) = (case fs t of None \<Rightarrow> Inl (ValueError ''could not convert string to float'') | Some x \<Rightarrow> Inr x)"
| "to_float fs _ = Inl (TypeError ''float() argument must be a string or a real number'')"

fun json_iter :: "json \<Rightarrow> exn + json list" where
  "json_iter (JArr xs) = Inr xs"
| "json_iter (JStr t) = Inr (map (\<lambda>c. JStr [c]) t)"
| "json_iter (JObj d) = Inr (map (\<lambda>(k, v). JStr k) d)"
| "json_iter _ = Inl (TypeError ''object is not iterable'')"

definition float_row :: "(string \<Rightarrow> real option) \<Rightarrow> json \<Rightarrow> exn + real list" where
  "float_row fs j = bindr (json_iter j) (mapr (to_float fs))"

fun json_field :: "json \<Rightarrow> string \<Rightarrow> json option" where
  "json_field (JObj d) k = dict_get d k"
| "json_field _ k = None"

text \<open>The vectors in the answer of the current endpoint; the third branch of the code adds none.\<close>

definition embeddings_of :: "(string \<Rightarrow> real option) \<Rightarrow> json \<Rightarrow> exn + real list list" where
  "embeddings_of fs data =
     (case json_field data ''embeddings'' of
        Some (JArr items) \<Rightarrow> mapr (float_row fs) items
      | _ \<Rightarrow> (case json_field data ''embedding'' of
          Some (JArr vs) \<Rightarrow> bindr (mapr (to_float fs) vs) (\<lambda>v. Inr [v])
        | _ \<Rightarrow> Inr []))"

definition check_embeddings :: "int \<Rightarrow> 'a list \<Rightarrow> real list list \<Rightarrow> exn + real list list" where
  "check_embeddings dims batch es =
     (if es = [] then Inl (RuntimeError ''Unexpected Ollama embedding response'')
      else let es' = (if length es = 1 \<and> length batch > 1 then map (\<lambda>_. es ! 0) batch else es)
           in if \<exists>v \<in> set es'. int (length v) \<noteq> dims
              then Inl (RuntimeError ''Ollama embedding dimensionality does not match configuration'')
              else Inr es')"

definition legacy_vector :: "ollama_env \<Rightarrow> json \<Rightarrow> exn + real list" where
  "legacy_vector env data =
     (case json_field data ''embedding'' of
        Some (JArr vs) \<Rightarrow> bindr (mapr (to_float (oe_float_of_str env)) vs) (\<lambda>v.
          if int (length v) \<noteq> oe_dimensions env
          then Inl (RuntimeError ''Ollama embedding dimensionality does not match configuration'')
          else Inr v)
      | _ \<Rightarrow> Inl (RuntimeError ''Unexpected Ollama embedding response''))"

definition post_legacy_embeddings :: "ollama_env \<Rightarrow> string list \<Rightarrow> real list list http" where
  "post_legacy_embeddings env batch =
     mapp (\<lambda>prompt.
       bindp (http_request env ''/api/embeddings''
                (JObj [(''model'', JStr (oe_model env)), (''prompt'', JStr prompt)])) (\<lambda>(status, body).
       bindp (lift_res (raise_for_status status)) (\<lambda>_.
       bindp (lift_res (response_json body)) (\<lambda>data. lift_res (legacy_vector env data))))) batch"

definition post_embeddings :: "ollama_env \<Rightarrow> string list \<Rightarrow> real list list http" where
  "post_embeddings env batch =
     bindp (http_request env ''/api/embed''
              (JObj [(''model'', JStr (oe_model env)), (''input'', json_strs batch)])) (\<lambda>(status, body).
     if status = 404 then post_legacy_embeddings env batch
     else bindp (lift_res (raise_for_status status)) (\<lambda>_.
          bindp (lift_res (response_json body)) (\<lambda>data.
          bindp (lift_res (embeddings_of (oe_float_of_str env) data)) (\<lambda>es.
          lift_res (check_embeddings (oe_dimensions env) batch es)))))"

fun permanent :: "exn \<Rightarrow> bool" where
  "permanent (HTTPStatusError status) = (status \<in> {400, 401, 403, 404, 422})"
| "permanent _ = False"

fun retryable :: "exn \<Rightarrow> bool" where
  "retryable (HTTPStatusError status) = (status \<notin> {400, 401, 403, 404, 422})"
| "retryable HttpTimeout = True"
| "retryable HttpNetworkError = True"
| "retryable _ = False"

fun embed_attempts :: "ollama_env \<Rightarrow> string list \<Rightarrow> nat \<Rightarrow> rat \<Rightarrow> real list list http" where
  "embed_attempts env batch 0 delay = raise (RuntimeError ''Unable to obtain embeddings from Ollama'')"
| "embed_attempts env batch (Suc n) delay =
     bindp (attempt (post_embeddings env batch)) (\<lambda>outcome. case outcome of
       Inr es \<Rightarrow> ret es
     | Inl e \<Rightarrow>
         if permanent e then raise (RuntimeError ''Ollama returned a permanent embedding error'')
         else if retryable e then thenp (http_sleep delay) (embed_attempts env batch n (delay * 2))
         else raise e)"

definition embed_batch :: "ollama_env \<Rightarrow> string list \<Rightarrow> real list list http" where
  "embed_batch env batch = embed_attempts env batch 4 (1 / 4)"

definition embed_texts :: "ollama_env \<Rightarrow> string list \<Rightarrow> real list list http" where
  "embed_texts env texts =
     bindp (lift_res (batch_texts texts (oe_batch_size env))) (\<lambda>batches.
     bindp (mapp (embed_batch env) batches) (\<lambda>ess. ret (concat ess)))"

definition model_names :: "json \<Rightarrow> exn + string list" where
  "model_names payload =
     bindr (case payload of JObj d \<Rightarrow> (case dict_get d ''models'' of None \<Rightarrow> Inr [] | Some j \<Rightarrow> json_iter j)
            | _ \<Rightarrow> Inr []) (\<lambda>items.
     Inr (concat (map (\<lambda>item. case json_field item ''name'' of Some (JStr n) \<Rightarrow> [n] | _ \<Rightarrow> []) items)))"

definition validate_model_available :: "ollama_env \<Rightarrow> unit http" where
  "validate_model_available env =
     bindp (http_request env ''/api/tags'' JNull) (\<lambda>(status, body).
     bindp (lift_res (raise_for_status status)) (\<lambda>_.
     bindp (lift_res (response_json body)) (\<lambda>payload.
     bindp (lift_res (model_names payload)) (\<lambda>names.
     if oe_model env \<notin> set names
     then raise (RuntimeError (''Ollama embedding model '' @ oe_model env @ '' is not available''))
     else ret ()))))"

section \<open>What the Ollama client guarantees\<close>

lemma check_embeddings_size: "check_embeddings dims batch es = Inr vs \<Longrightarrow> v \<in> set vs \<Longrightarrow> int (length v) = dims"
  by (auto simp: check_embeddings_def Let_def split: if_splits)

lemma legacy_vector_size: "legacy_vector env data = Inr v \<Longrightarrow> int (length v) = oe_dimensions env"
  by (auto simp: legacy_vector_def bindr_eq_Inr split: option.splits json.splits if_splits)

lemma post_legacy_size:
  assumes "post_legacy_embeddings env batch s = (Inr vs, t)" "v \<in> set vs"
  shows "int (length v) = oe_dimensions env"
proof -
  note all = mapp_eq_Inr [OF assms(1) [unfolded post_legacy_embeddings_def]]
  obtain data where "legacy_vector env data = Inr v"
    by (rule list_all2_memberE [OF all assms(2)]) (auto simp: bindp_eq_Inr)
  then show ?thesis by (rule legacy_vector_size)
qed

lemma post_embeddings_size:
  assumes "post_embeddings env batch s = (Inr vs, t)" "v \<in> set vs"
  shows "int (length v) = oe_dimensions env"
  using assms post_legacy_size [OF _ assms(2)]
  by (auto simp: post_embeddings_def bindp_eq_Inr split: if_splits dest: check_embeddings_size)

lemma embed_attempts_size:
  "embed_attempts env batch n delay s = (Inr vs, t) \<Longrightarrow> v \<in> set vs \<Longrightarrow> int (length v) = oe_dimensions env"
proof (induction n arbitrary: delay s)
  case (Suc n)
  obtain r u where p: "post_embeddings env batch s = (r, u)" by fastforce
  with Suc show ?case
    by (cases r) (auto simp: attempt_app thenp_eq_Inr split: if_splits dest: post_embeddings_size)
qed simp

lemma embed_texts_size:
  assumes "embed_texts env texts s = (Inr vs, t)" "v \<in> set vs"
  shows "int (length v) = oe_dimensions env"
proof -
  obtain batches ess u where all: "mapp (embed_batch env) batches u = (Inr ess, t)" and "vs = concat ess"
    using assms(1) by (auto simp: embed_texts_def bindp_eq_Inr)
  then obtain es where es: "es \<in> set ess" "v \<in> set es" using assms(2) by auto
  show ?thesis
    by (rule list_all2_memberE [OF mapp_eq_Inr [OF all] es(1)])
      (auto simp: embed_batch_def dest: embed_attempts_size [OF _ es(2)])
qed

lemma embed_batch_four: "embed_batch env batch = embed_attempts env batch (Suc 3) (1 / 4)"
  by (simp add: embed_batch_def)

text \<open>The client as an embedding function: a call made after \<open>n\<close> requests.\<close>

definition ollama_texts :: "ollama_env \<Rightarrow> nat \<Rightarrow> string list \<Rightarrow> exn + real list list" where
  "ollama_texts env n texts = fst (embed_texts env texts \<lparr>hs_requests = n, hs_sleeps = []\<rparr>)"

interpretation ollama: sized_embedding "ollama_texts env" "oe_dimensions env" for env
  by unfold_locales (metis embed_texts_size ollama_texts_def prod.collapse)

text \<open>
  It does not keep the full contract: the number of vectors is not compared with the number
  of texts, and a server that answers three texts with two vectors is believed.
\<close>

definition short_server :: ollama_env where
  "short_server = \<lparr>oe_server = (\<lambda>n url payload. Reply 200 (Some (JObj [(''embeddings'', JArr [JArr [JInt 1], JArr [JInt 1]])]))),
     oe_float_of_str = (\<lambda>_. None), oe_model = ''m'', oe_batch_size = 16, oe_dimensions = 1\<rparr>"

lemma ollama_count_unchecked: "ollama_texts short_server 0 [''a'', ''b'', ''c''] = Inr [[1], [1]]"
proof -
  have b: "batch_texts [''a'', ''b'', ''c''] 16 = Inr [[''a'', ''b'', ''c'']]" by code_simp
  have e: "embeddings_of (\<lambda>_. None) (JObj [(''embeddings'', JArr [JArr [JInt 1], JArr [JInt 1]])]) = Inr [[1], [1]]"
    by (simp add: embeddings_of_def float_row_def dict_get_def)
  have p: "post_embeddings short_server [''a'', ''b'', ''c''] s = (Inr [[1], [1]], s\<lparr>hs_requests := Suc (hs_requests s)\<rparr>)" for s
    by (simp add: post_embeddings_def http_request_def short_server_def raise_for_status_def
      response_json_def e check_embeddings_def bindp_def Let_def)
  have "embed_batch short_server [''a'', ''b'', ''c''] s = (Inr [[1], [1]], s\<lparr>hs_requests := Suc (hs_requests s)\<rparr>)" for s
    unfolding embed_batch_four embed_attempts.simps by (simp add: attempt_app [OF p])
  then show ?thesis by (simp add: ollama_texts_def embed_texts_def b short_server_def [THEN arg_cong [of _ _ oe_batch_size]])
qed

lemma sleeps_request: "preserves (\<lambda>s. hs_sleeps s = l) (http_request env url payload)"
  by (auto simp: preserves_def http_request_def Let_def split: http_reply.splits)

lemma sleeps_post: "preserves (\<lambda>s. hs_sleeps s = l) (post_embeddings env batch)"
  unfolding post_embeddings_def post_legacy_embeddings_def by (intro pres sleeps_request)

lemma requests_request: "hs_requests (snd (http_request env url payload s)) = Suc (hs_requests s)"
  by (simp add: http_request_def Let_def split: http_reply.splits)

lemma requests_legacy:
  "hs_requests (snd (post_legacy_embeddings env batch s)) \<le> hs_requests s + length batch"
proof (induction batch arbitrary: s)
  case Nil
  then show ?case by (simp add: post_legacy_embeddings_def)
next
  case (Cons p batch)
  let ?req = "http_request env ''/api/embeddings'' (JObj [(''model'', JStr (oe_model env)), (''prompt'', JStr p)])"
  obtain r u where req: "?req s = (r, u)" by fastforce
  then have "hs_requests u = Suc (hs_requests s)" by (metis requests_request snd_conv)
  then show ?case
    using req Cons.IH [of u] unfolding post_legacy_embeddings_def
    by (simp add: bindp_def split: sum.splits prod.splits) force+
qed

lemma requests_post: "hs_requests (snd (post_embeddings env batch s)) \<le> hs_requests s + 1 + length batch"
proof -
  let ?req = "http_request env ''/api/embed'' (JObj [(''model'', JStr (oe_model env)), (''input'', json_strs batch)])"
  obtain r u where req: "?req s = (r, u)" by fastforce
  then have "hs_requests u = Suc (hs_requests s)" by (metis requests_request snd_conv)
  then show ?thesis
    using req requests_legacy [of env batch u] unfolding post_embeddings_def
    by (simp add: bindp_def split: sum.splits prod.splits)
qed

lemma embed_attempts_retries:
  assumes "embed_attempts env batch n delay s = (r, t)"
  shows "\<exists>k \<le> n. hs_sleeps t = hs_sleeps s @ map (\<lambda>i. delay * 2 ^ i) [0..<k]
    \<and> (k = n \<longrightarrow> r = Inl (RuntimeError ''Unable to obtain embeddings from Ollama''))
    \<and> hs_requests t \<le> hs_requests s + n * (1 + length batch)"
  using assms
proof (induction n arbitrary: delay s)
  case (Suc n)
  obtain q u where p: "post_embeddings env batch s = (q, u)" by fastforce
  have u: "hs_sleeps u = hs_sleeps s" using preservesD [OF sleeps_post refl p] .
  have req: "hs_requests u \<le> hs_requests s + 1 + length batch" using requests_post [of env batch s] p by simp
  show ?case
  proof (cases "\<exists>e. q = Inl e \<and> \<not> permanent e \<and> retryable e")
    case True
    then obtain e where e: "q = Inl e" "\<not> permanent e" "retryable e" by blast
    let ?u = "u\<lparr>hs_sleeps := hs_sleeps u @ [delay]\<rparr>"
    have "embed_attempts env batch n (delay * 2) ?u = (r, t)"
      using Suc.prems p e by (simp add: attempt_app http_sleep_def)
    from Suc.IH [OF this] obtain k where k: "k \<le> n"
      "hs_sleeps t = hs_sleeps ?u @ map (\<lambda>i. delay * 2 * 2 ^ i) [0..<k]"
      "k = n \<longrightarrow> r = Inl (RuntimeError ''Unable to obtain embeddings from Ollama'')"
      "hs_requests t \<le> hs_requests ?u + n * (1 + length batch)" by blast
    have "map (\<lambda>i. delay * 2 ^ i) [0..<Suc k] = delay # map (\<lambda>i. delay * 2 * 2 ^ i) [0..<k]"
      by (simp add: map_upt_Suc mult.assoc del: upt_Suc)
    then show ?thesis using k u req by (intro exI [of _ "Suc k"]) auto
  next
    case False
    then have "t = u" using Suc.prems p by (auto simp: attempt_app split: sum.splits if_splits)
    with u req show ?thesis by (intro exI [of _ 0]) auto
  qed
qed simp


definition refusing_server :: ollama_env where
  "refusing_server = short_server\<lparr>oe_server := (\<lambda>n url payload. Reply 401 None)\<rparr>"


end
