(* ===== verification/Indexing.thy ===== *)
theory Indexing
  imports Ingestion Embedding
begin

text \<open>
  \<^verbatim>\<open>IndexingService\<close> of \<^verbatim>\<open>app/services/indexing.py\<close>, its writing half: requesting an
  index run, building the index of the latest revision (parsing, symbols, chunks, reuse of
  the vectors of the previous index, embedding), and removing an index; and the worker task
  that runs it in one transaction. The providers and clocks are parameters.
\<close>

section \<open>Parameters and statistics\<close>

text \<open>
  \<open>ix_validate\<close> and \<open>ix_embed\<close> are the embedding provider; their first argument counts what
  the process did before, so that an external provider may answer differently each time.
\<close>

record index_env =
  ix_clock :: "nat \<Rightarrow> timestamp"
  ix_monotonic :: "nat \<Rightarrow> real"
  ix_ast :: py_ast
  ix_chunks :: chunk_env
  ix_provider_name :: string
  ix_model_identifier :: string
  ix_dimensions :: int
  ix_batch_size :: int
  ix_timeout_seconds :: rat
  ix_validate :: "nat \<Rightarrow> exn + unit"
  ix_embed :: "nat \<Rightarrow> string list \<Rightarrow> exn + real list list"

definition run_type_indexing :: string where
  "run_type_indexing = ''repository_indexing''"

record index_statistics =
  st_files_seen :: nat
  st_files_accepted :: nat
  st_files_excluded :: nat
  st_files_changed :: nat
  st_files_unchanged :: nat
  st_files_deleted :: nat
  st_parse_successes :: nat
  st_parse_failures :: nat
  st_symbols_extracted :: nat
  st_chunks_produced :: nat
  st_embedding_batches :: nat
  st_embedding_vectors :: nat
  st_reused_vectors :: nat
  st_lexical_terms :: nat
  st_qdrant_write_duration_ms :: int
  st_indexing_duration_ms :: int
  st_parser_names :: "string list"
  st_failure_reasons :: "string list"

definition new_statistics :: index_statistics where
  "new_statistics = \<lparr>st_files_seen = 0, st_files_accepted = 0, st_files_excluded = 0,
     st_files_changed = 0, st_files_unchanged = 0, st_files_deleted = 0, st_parse_successes = 0,
     st_parse_failures = 0, st_symbols_extracted = 0, st_chunks_produced = 0,
     st_embedding_batches = 0, st_embedding_vectors = 0, st_reused_vectors = 0,
     st_lexical_terms = 0, st_qdrant_write_duration_ms = 0, st_indexing_duration_ms = 0,
     st_parser_names = [], st_failure_reasons = []\<rparr>"

definition statistics_to_dict :: "index_statistics \<Rightarrow> json_object" where
  "statistics_to_dict st =
     [(''files_seen'', JInt (st_files_seen st)), (''files_accepted'', JInt (st_files_accepted st)),
      (''files_excluded'', JInt (st_files_excluded st)), (''files_changed'', JInt (st_files_changed st)),
      (''files_unchanged'', JInt (st_files_unchanged st)), (''files_deleted'', JInt (st_files_deleted st)),
      (''parse_successes'', JInt (st_parse_successes st)), (''parse_failures'', JInt (st_parse_failures st)),
      (''symbols_extracted'', JInt (st_symbols_extracted st)), (''chunks_produced'', JInt (st_chunks_produced st)),
      (''embedding_batches'', JInt (st_embedding_batches st)),
      (''embedding_vectors'', JInt (st_embedding_vectors st)), (''reused_vectors'', JInt (st_reused_vectors st)),
      (''lexical_terms'', JInt (st_lexical_terms st)),
      (''qdrant_write_duration_ms'', JInt (st_qdrant_write_duration_ms st)),
      (''indexing_duration_ms'', JInt (st_indexing_duration_ms st)),
      (''parser_names'', json_strs (st_parser_names st)), (''failure_reasons'', json_strs (st_failure_reasons st))]"

text \<open>A call of something outside, and a reading of the monotonic clock.\<close>

definition external :: "(nat \<Rightarrow> exn + 'a) \<Rightarrow> 'a session" where
  "external f = (\<lambda>s. (f (ticks s), s\<lparr>ticks := Suc (ticks s)\<rparr>))"

definition monotonic :: "index_env \<Rightarrow> real session" where
  "monotonic env = external (\<lambda>n. Inr (ix_monotonic env n))"

definition trunc_ms :: "real \<Rightarrow> real \<Rightarrow> int" where
  "trunc_ms a b = (let x = (b - a) * 1000 in if 0 \<le> x then \<lfloor>x\<rfloor> else \<lceil>x\<rceil>)"

definition index_event :: "(nat \<Rightarrow> timestamp) \<Rightarrow> uuid \<Rightarrow> string \<Rightarrow> string \<Rightarrow> unit session" where
  "index_event clock rid event_type message =
     bindp (next_sequence rid) (\<lambda>n.
     bindp uuid4 (\<lambda>i.
     bindp (utcnow clock) (\<lambda>now.
     insert_event \<lparr>event_id = i, event_run_id = rid, event_sequence = n,
       event_event_type = event_type, event_public_message = message,
       event_private_metadata = [], event_created_at = now\<rparr>)))"

section \<open>Requesting a run\<close>

definition new_index_run ::
    "index_env \<Rightarrow> uuid \<Rightarrow> repository \<Rightarrow> uuid \<Rightarrow> string \<Rightarrow> string \<Rightarrow> uuid session" where
  "new_index_run env owner_id repository revision_id correlation_id ip =
     bindp uuid4 (\<lambda>i.
     bindp (utcnow (ix_clock env)) (\<lambda>now.
     thenp (insert_run
       \<lparr>run_id = i, run_owner_id = owner_id, run_repository_id = repo_id repository,
        run_revision_id = Some revision_id, run_run_type = run_type_indexing, run_status = RunQueued,
        run_input_summary = ''Index '' @ repo_normalized_clone_url repository,
        run_model_provider = ix_provider_name env, run_model_identifier = ix_model_identifier env,
        run_prompt_version = ''phase-5-indexing'', run_started_at = None, run_completed_at = None,
        run_cancellation_metadata = Some [(''requested_revision_id'', JStr (uuid_str revision_id)),
          (''correlation_id'', JStr (take 128 correlation_id)), (''ip_hash_hint'', JStr ip)],
        run_error_code = None, run_error_message = None, run_input_units = None,
        run_output_units = None, run_created_at = now\<rparr>)
     (thenp (index_event (ix_clock env) i ''queued'' ''Repository indexing queued'') (ret i))))"

definition create_index_run ::
    "index_env \<Rightarrow> uuid \<Rightarrow> uuid \<Rightarrow> string \<Rightarrow> string \<Rightarrow> (uuid \<times> uuid \<times> bool) session" where
  "create_index_run env owner_id repository_id correlation_id ip =
     bindp (repository_owned_by_id owner_id repository_id) (\<lambda>r. case r of
       None \<Rightarrow> raise (AppErr not_found)
     | Some repository \<Rightarrow>
        (case repo_latest_revision_id repository of
           None \<Rightarrow> raise (AppErr (Conflict ''Repository has no revision to index''))
         | Some revision_id \<Rightarrow>
            bindp (active_for_repository (repo_id repository) (Some run_type_indexing)) (\<lambda>active. case active of
              Some run \<Rightarrow> ret (repo_id repository, run_id run, False)
            | None \<Rightarrow>
               bindp (new_index_run env owner_id repository revision_id correlation_id ip) (\<lambda>i.
               ret (repo_id repository, i, True)))))"

section \<open>Parsing the files\<close>

fun foldr_exn :: "('x \<Rightarrow> 'a \<Rightarrow> exn + 'a) \<Rightarrow> 'x list \<Rightarrow> 'a \<Rightarrow> exn + 'a" where
  "foldr_exn f [] acc = Inr acc"
| "foldr_exn f (x # xs) acc = bindr (f x acc) (foldr_exn f xs)"

definition file_by_path :: "repository_file list \<Rightarrow> string \<Rightarrow> repository_file option" where
  "file_by_path fs path = map_of (rev (map (\<lambda>f. (file_normalized_path f, f)) fs)) path"

definition changed :: "repository_file list \<Rightarrow> repository_file \<Rightarrow> bool" where
  "changed previous_files f = (case file_by_path previous_files (file_normalized_path f) of
     None \<Rightarrow> True | Some q \<Rightarrow> file_content_hash q \<noteq> file_content_hash f)"

type_synonym indexing = "index_statistics \<times> code_symbol list \<times> indexed_chunk_draft list"

definition index_file ::
    "index_env \<Rightarrow> index_target \<Rightarrow> repository_file list \<Rightarrow> repository_file \<Rightarrow> indexing \<Rightarrow> exn + indexing" where
  "index_file env tg previous_files f acc = (case acc of (st, rows, drafts) \<Rightarrow>
     bindr (registry_parse (ix_ast env) (file_normalized_path f) (or_else (file_content f) [])) (\<lambda>parsed.
     let (symbol_rows, chunk_drafts) = materialize_file (ix_chunks env) tg f parsed;
         st1 = (if changed previous_files f
                then st\<lparr>st_files_changed := st_files_changed st + 1\<rparr>
                else st\<lparr>st_files_unchanged := st_files_unchanged st + 1\<rparr>);
         st2 = (if pf_fallback_used parsed
                then st1\<lparr>st_parse_failures := st_parse_failures st1 + 1,
                        st_failure_reasons := st_failure_reasons st1 @ map pe_code (pf_errors parsed)\<rparr>
                else st1\<lparr>st_parse_successes := st_parse_successes st1 + 1\<rparr>);
         st3 = st2\<lparr>st_parser_names := st_parser_names st2 @ [or_else (pf_language parsed) ''unknown''],
                   st_symbols_extracted := st_symbols_extracted st2 + length symbol_rows,
                   st_chunks_produced := st_chunks_produced st2 + length chunk_drafts,
                   st_lexical_terms := st_lexical_terms st2
                     + sum_list (map (\<lambda>d. length (tokenize (dr_search_text d))) chunk_drafts)\<rparr>
     in Inr (st3, rows @ symbol_rows, drafts @ chunk_drafts)))"

definition index_files ::
    "index_env \<Rightarrow> index_target \<Rightarrow> repository_file list \<Rightarrow> repository_file list \<Rightarrow> index_statistics \<Rightarrow> exn + indexing" where
  "index_files env tg previous_files fs st = foldr_exn (index_file env tg previous_files) fs (st, [], [])"

section \<open>Writing symbols and chunks\<close>

definition add_symbol :: "code_symbol \<Rightarrow> code_symbol session" where
  "add_symbol c = bindp uuid4 (\<lambda>i. let row = c\<lparr>sym_id := i\<rparr> in thenp (insert_symbol row) (ret row))"

definition set_symbol :: "uuid \<Rightarrow> (code_symbol \<Rightarrow> code_symbol) \<Rightarrow> unit session" where
  "set_symbol i f = modify (\<lambda>s. s\<lparr>symbols := update_where (\<lambda>c. sym_id c = i) f (symbols s)\<rparr>)"

definition store_symbols :: "code_symbol list \<Rightarrow> unit session" where
  "store_symbols rows = whenp (rows \<noteq> [])
     (bindp (mapp add_symbol rows) (\<lambda>added.
      forp added (\<lambda>c. set_symbol (sym_id c) (parent_link added))))"

text \<open>The vector of the chunk of the previous index that has the same key, if it has one.\<close>

definition previous_vector :: "code_chunk list \<Rightarrow> indexed_chunk_draft \<Rightarrow> real list option" where
  "previous_vector previous d =
     (case map_of (rev (map (\<lambda>c. (embedding_key c, c)) previous)) (embedding_key_from_draft d) of
        None \<Rightarrow> None | Some c \<Rightarrow> chunk_dense_embedding c)"

definition reuse_vector :: "code_chunk list \<Rightarrow> indexed_chunk_draft \<Rightarrow> indexed_chunk_draft" where
  "reuse_vector previous d = (case previous_vector previous d of
     Some v \<Rightarrow> d\<lparr>dr_dense_embedding := Some v\<rparr> | None \<Rightarrow> d)"

definition to_embed :: "code_chunk list \<Rightarrow> indexed_chunk_draft list \<Rightarrow> indexed_chunk_draft list" where
  "to_embed previous drafts = filter (\<lambda>d. previous_vector previous d = None) drafts"

text \<open>The vectors of all batches in order; one more than there are drafts is an IndexError.\<close>

fun embed_loop :: "index_env \<Rightarrow> nat \<Rightarrow> string list list \<Rightarrow> real list list \<Rightarrow> real list list session" where
  "embed_loop env limit [] vectors = ret vectors"
| "embed_loop env limit (batch # rest) vectors =
     bindp (external (\<lambda>n. ix_embed env n batch)) (\<lambda>vs.
     if limit < length vectors + length vs then raise (IndexError ''list index out of range'')
     else embed_loop env limit rest (vectors @ vs))"

text \<open>The cursor runs over the drafts without a reused vector.\<close>

fun place_vectors :: "code_chunk list \<Rightarrow> indexed_chunk_draft list \<Rightarrow> real list list \<Rightarrow> indexed_chunk_draft list" where
  "place_vectors previous [] vs = []"
| "place_vectors previous (d # ds) vs =
     (case previous_vector previous d of
        Some v \<Rightarrow> reuse_vector previous d # place_vectors previous ds vs
      | None \<Rightarrow> (case vs of
          [] \<Rightarrow> d # place_vectors previous ds []
        | v # rest \<Rightarrow> d\<lparr>dr_dense_embedding := Some v\<rparr> # place_vectors previous ds rest))"

definition zero_fill :: "int \<Rightarrow> indexed_chunk_draft \<Rightarrow> indexed_chunk_draft" where
  "zero_fill dimensions d =
     (if dr_dense_embedding d = None \<and> dimensions > 0
      then d\<lparr>dr_dense_embedding := Some (replicate (nat dimensions) 0)\<rparr> else d)"

definition embed_drafts ::
    "index_env \<Rightarrow> code_chunk list \<Rightarrow> indexed_chunk_draft list \<Rightarrow> index_statistics \<Rightarrow>
     (index_statistics \<times> indexed_chunk_draft list) session" where
  "embed_drafts env previous drafts st =
     (let todo = to_embed previous drafts;
          st1 = st\<lparr>st_reused_vectors := st_reused_vectors st + (length drafts - length todo)\<rparr>
      in bindp (if todo = [] then ret ([], [])
                else bindp (lift_res (batch_texts (map dr_search_text todo) (ix_batch_size env))) (\<lambda>batches.
                     bindp (embed_loop env (length todo) batches []) (\<lambda>vectors. ret (batches, vectors))))
         (\<lambda>(batches, vectors).
            ret (st1\<lparr>st_embedding_batches := st_embedding_batches st1 + length batches,
                     st_embedding_vectors := st_embedding_vectors st1 + length vectors\<rparr>,
                 map (zero_fill (ix_dimensions env)) (place_vectors previous drafts vectors))))"

definition chunk_of_draft :: "indexed_chunk_draft \<Rightarrow> code_chunk" where
  "chunk_of_draft d =
     \<lparr>chunk_id = dr_chunk_id d, chunk_snapshot_id = dr_snapshot_id d, chunk_owner_id = dr_owner_id d,
      chunk_repository_id = dr_repository_id d, chunk_revision_id = dr_revision_id d,
      chunk_file_id = dr_file_id d, chunk_commit_sha = dr_commit_sha d,
      chunk_normalized_path = dr_normalized_path d, chunk_language = dr_language d,
      chunk_symbol_name = dr_symbol_name d, chunk_qualified_name = dr_qualified_name d,
      chunk_symbol_type = dr_symbol_type d, chunk_start_line = dr_start_line d,
      chunk_end_line = dr_end_line d, chunk_part_number = dr_part_number d,
      chunk_part_count = dr_part_count d, chunk_content_hash = dr_content_hash d,
      chunk_exact_content = dr_exact_content d, chunk_search_text = dr_search_text d,
      chunk_dense_embedding = dr_dense_embedding d, chunk_metadata = dr_chunk_metadata d\<rparr>"

section \<open>The index run\<close>

definition accepted_only :: "repository_file list \<Rightarrow> repository_file list" where
  "accepted_only fs = filter (\<lambda>f. file_indexing_status f = ''accepted'') fs"

definition distinct_paths :: "repository_file list \<Rightarrow> string set" where
  "distinct_paths fs = file_normalized_path ` set fs"

definition new_snapshot ::
    "index_env \<Rightarrow> repository \<Rightarrow> repository_revision \<Rightarrow> uuid session" where
  "new_snapshot env repository revision =
     bindp uuid4 (\<lambda>i.
     bindp (utcnow (ix_clock env)) (\<lambda>now.
     thenp (insert_snapshot
       \<lparr>snap_id = i, snap_owner_id = repo_owner_id repository, snap_repository_id = repo_id repository,
        snap_revision_id = rev_id revision, snap_commit_sha = rev_commit_sha revision,
        snap_status = SnapIndexing, snap_parser_name = ''parser-registry'',
        snap_embedding_provider = ix_provider_name env, snap_embedding_model = ix_model_identifier env,
        snap_embedding_dimensions = ix_dimensions env,
        snap_embedding_config = [(''batch_size'', JInt (ix_batch_size env)),
          (''timeout_seconds'', JFloat (ix_timeout_seconds env)),
          (''chunk_max_chars'', JInt (ce_max_chars (ix_chunks env))),
          (''chunk_max_lines'', JInt (ce_max_lines (ix_chunks env))),
          (''chunk_overlap_lines'', JInt (ce_overlap_lines (ix_chunks env)))],
        snap_statistics = [], snap_error_code = None, snap_error_summary = None,
        snap_indexed_at = None, snap_created_at = now\<rparr>)
     (ret i)))"

definition target_of :: "repository \<Rightarrow> repository_revision \<Rightarrow> uuid \<Rightarrow> index_target" where
  "target_of repository revision sid =
     \<lparr>tg_snapshot_id = sid, tg_owner_id = repo_owner_id repository, tg_repository_id = repo_id repository,
      tg_revision_id = rev_id revision, tg_commit_sha = rev_commit_sha revision\<rparr>"

text \<open>The files of the previous index, and how many of their paths are gone.\<close>

definition previous_files_of :: "index_snapshot option \<Rightarrow> repository_file list session" where
  "previous_files_of previous = (case previous of
     None \<Rightarrow> ret []
   | Some p \<Rightarrow> bindp (files_for_revision (snap_revision_id p)) (\<lambda>fs. ret (accepted_only fs)))"

definition previous_chunks_of :: "index_snapshot option \<Rightarrow> code_chunk list session" where
  "previous_chunks_of previous = (case previous of
     None \<Rightarrow> ret [] | Some p \<Rightarrow> chunks_for_snapshot (snap_id p))"

definition finish_index ::
    "index_env \<Rightarrow> uuid \<Rightarrow> uuid \<Rightarrow> uuid \<Rightarrow> uuid \<Rightarrow> index_statistics \<Rightarrow> unit session" where
  "finish_index env repository_id rid vid sid st =
     bindp (utcnow (ix_clock env)) (\<lambda>now.
     thenp (set_snapshot sid (\<lambda>n. n\<lparr>snap_status := SnapReady,
              snap_statistics := statistics_to_dict st, snap_indexed_at := Some now\<rparr>))
     (thenp (set_repository repository_id (\<lambda>r. r\<lparr>repo_latest_indexed_revision_id := Some vid, repo_status := Ready\<rparr>))
     (thenp (set_revision vid (\<lambda>v. v\<lparr>rev_status := Ready, rev_indexed_at := Some now\<rparr>))
     (thenp (set_run rid (\<lambda>q. q\<lparr>run_status := RunSucceeded, run_revision_id := Some vid,
               run_completed_at := Some now, run_input_units := Some (int (st_files_seen st)),
               run_output_units := Some (int (st_chunks_produced st))\<rparr>))
     (index_event (ix_clock env) rid ''completed'' ''Repository indexing completed'')))))"

text \<open>From the files of the revision to stored symbols and chunks.\<close>

definition store_index ::
    "index_env \<Rightarrow> index_target \<Rightarrow> index_snapshot option \<Rightarrow> real \<Rightarrow> index_statistics session" where
  "store_index env tg previous started_at =
     bindp (previous_chunks_of previous) (\<lambda>previous_chunks.
     bindp (accepted_for_revision (tg_revision_id tg)) (\<lambda>fs.
     bindp (files_for_revision (tg_revision_id tg)) (\<lambda>all_files.
     bindp (previous_files_of previous) (\<lambda>previous_files.
     let st = new_statistics\<lparr>st_files_seen := length all_files, st_files_accepted := length fs,
                st_files_excluded := length all_files - length fs,
                st_files_deleted := card (distinct_paths previous_files - distinct_paths fs)\<rparr> in
     bindp (lift_res (index_files env tg previous_files fs st)) (\<lambda>(st1, rows, drafts).
     thenp (store_symbols rows)
     (bindp (embed_drafts env previous_chunks drafts st1) (\<lambda>(st2, embedded).
     bindp (monotonic env) (\<lambda>write_started.
     thenp (add_chunks (map chunk_of_draft embedded))
     (bindp (monotonic env) (\<lambda>written.
     bindp (monotonic env) (\<lambda>finished.
     ret (st2\<lparr>st_qdrant_write_duration_ms := trunc_ms write_started written,
              st_indexing_duration_ms := trunc_ms started_at finished\<rparr>))))))))))))"

definition build_index ::
    "index_env \<Rightarrow> repository \<Rightarrow> uuid \<Rightarrow> repository_revision \<Rightarrow> uuid session" where
  "build_index env repository rid revision =
     thenp (external (ix_validate env))
     (thenp (transition (repo_id repository) Indexing)
     (thenp (set_revision (rev_id revision) (\<lambda>v. v\<lparr>rev_status := Indexing\<rparr>))
     (bindp (new_snapshot env repository revision) (\<lambda>sid.
     bindp (monotonic env) (\<lambda>started_at.
     bindp (latest_ready_snapshot (repo_id repository)) (\<lambda>previous.
     bindp (store_index env (target_of repository revision sid) previous started_at) (\<lambda>st.
     thenp (finish_index env (repo_id repository) rid (rev_id revision) sid st) (ret sid))))))))"

text \<open>The index of this revision exists: the run is closed without any work.\<close>

definition reuse_index ::
    "index_env \<Rightarrow> uuid \<Rightarrow> uuid \<Rightarrow> uuid \<Rightarrow> index_snapshot \<Rightarrow> uuid session" where
  "reuse_index env repository_id rid vid existing =
     bindp (utcnow (ix_clock env)) (\<lambda>now.
     thenp (set_run rid (\<lambda>q. q\<lparr>run_status := RunSucceeded, run_completed_at := Some now, run_revision_id := Some vid\<rparr>))
     (thenp (set_repository repository_id (\<lambda>r. r\<lparr>repo_latest_indexed_revision_id := Some vid, repo_status := Ready\<rparr>))
     (thenp (set_revision vid (\<lambda>v. v\<lparr>rev_status := Ready, rev_indexed_at := snap_indexed_at existing\<rparr>))
     (ret (snap_id existing)))))"

definition start_index_run :: "index_env \<Rightarrow> uuid \<Rightarrow> unit session" where
  "start_index_run env rid =
     thenp (set_run rid (\<lambda>q. q\<lparr>run_status := RunRunning\<rparr>))
     (bindp (utcnow (ix_clock env)) (\<lambda>now.
      thenp (set_run rid (\<lambda>q. q\<lparr>run_started_at := Some now\<rparr>))
      (index_event (ix_clock env) rid ''started'' ''Repository indexing started'')))"

definition index_revision ::
    "index_env \<Rightarrow> repository \<Rightarrow> uuid \<Rightarrow> repository_revision \<Rightarrow> uuid session" where
  "index_revision env repository rid revision =
     thenp (start_index_run env rid)
     (bindp (snapshot_by_revision (repo_id repository) (rev_id revision)) (\<lambda>existing. case existing of
        Some e \<Rightarrow> if snap_status e = SnapReady then reuse_index env (repo_id repository) rid (rev_id revision) e
                  else build_index env repository rid revision
      | None \<Rightarrow> build_index env repository rid revision))"

definition index_repository :: "index_env \<Rightarrow> uuid \<Rightarrow> uuid \<Rightarrow> uuid session" where
  "index_repository env repository_id rid =
     bindp (get_repository_row repository_id) (\<lambda>r.
     bindp (get_run_row rid) (\<lambda>q. case (r, q) of
       (Some repository, Some run) \<Rightarrow>
         (case repo_latest_revision_id repository of
            None \<Rightarrow> raise (AppErr (Conflict ''Repository has no revision to index''))
          | Some vid \<Rightarrow>
             bindp (get_revision_row vid) (\<lambda>v. case v of
               None \<Rightarrow> raise (AppErr not_found)
             | Some revision \<Rightarrow> index_revision env repository rid revision))
     | _ \<Rightarrow> raise (AppErr not_found)))"

text \<open>\<^verbatim>\<open>app/workers/tasks.py\<close>: the task commits, or rolls back and raises.\<close>

definition worker_index :: "index_env \<Rightarrow> uuid \<Rightarrow> uuid \<Rightarrow> uuid session" where
  "worker_index env repository_id rid = commit_or_rollback (index_repository env repository_id rid)"

section \<open>Removing an index\<close>

definition cleanup_repository :: "uuid \<Rightarrow> unit session" where
  "cleanup_repository repository_id =
     thenp (delete_chunks_for_repository repository_id)
     (bindp (gets (\<lambda>s. rev_id ` set (filter (\<lambda>v. rev_repository_id v = repository_id) (revisions s)))) (\<lambda>revision_ids.
      bindp (gets (\<lambda>s. file_id ` set (filter (\<lambda>f. file_revision_id f \<in> revision_ids) (files s)))) (\<lambda>file_ids.
      thenp (modify (delete_symbols (\<lambda>c. sym_file_id c \<in> file_ids)))
      (modify (delete_snapshots (\<lambda>n. snap_repository_id n = repository_id))))))"

definition cleanup_repository_workspace :: "ingest_env \<Rightarrow> uuid \<Rightarrow> unit session" where
  "cleanup_repository_workspace env repository_id = commit_or_rollback
     (thenp (delete_workspace_and_mark_deleted env repository_id) (cleanup_repository repository_id))"

end
