(* ===== verification/IndexRuns.thy ===== *)
theory IndexRuns
  imports Indexing
begin

text \<open>
  What the indexing service guarantees: its event log, the state it leaves when it succeeds
  and when it raises, the chunks it writes and the vectors it reuses, and the removal of an
  index; and what it does to a file with a repeated text.
\<close>

section \<open>Frames\<close>

interpretation indexing_log: event_log "index_event clock" for clock
proof unfold_locales
  fix rid ty msg s res t
  assume "index_event clock rid ty msg s = (res, t)"
  then show "events t = events s
    \<or> (\<exists>e. events t = events s @ [e] \<and> event_run_id e = rid \<and> event_event_type e = ty
           \<and> event_sequence e = highest_sequence rid s + 1)"
    by (auto simp: index_event_def next_sequence_app insert_event_def add_row_app split: if_splits)
qed

lemmas [pres] = indexing_log.add_preserves

lemma preserves_external [pres]: "(\<And>s n. I s \<Longrightarrow> I (s\<lparr>ticks := n\<rparr>)) \<Longrightarrow> preserves I (external f)"
  by (simp add: preserves_def external_def)

lemma preserves_monotonic [pres]: "(\<And>s n. I s \<Longrightarrow> I (s\<lparr>ticks := n\<rparr>)) \<Longrightarrow> preserves I (monotonic env)"
  unfolding monotonic_def by (intro pres)

lemma preserves_index_queries [pres]:
  "preserves I (latest_ready_snapshot i)" "preserves I (snapshot_by_revision i v)"
  "preserves I (chunks_for_snapshot n)" "preserves I (accepted_for_revision v)"
  "preserves I (files_for_revision v)"
  by (simp_all add: preserves_def latest_ready_snapshot_def snapshot_by_revision_def
      chunks_for_snapshot_def accepted_for_revision_def files_for_revision_def)

lemma preserves_previous [pres]:
  "preserves I (previous_files_of p)" "preserves I (previous_chunks_of p)"
  unfolding previous_files_of_def previous_chunks_of_def by (intro pres)+

lemma preserves_embed_loop [pres]:
  "(\<And>s n. I s \<Longrightarrow> I (s\<lparr>ticks := n\<rparr>)) \<Longrightarrow> preserves I (embed_loop env limit bs vs)"
proof (induction env limit bs vs rule: embed_loop.induct)
  case (2 env limit b bs vs)
  then show ?case by (auto intro!: pres)
qed (simp add: pres)

lemma preserves_embed_drafts [pres]:
  "(\<And>s n. I s \<Longrightarrow> I (s\<lparr>ticks := n\<rparr>)) \<Longrightarrow> preserves I (embed_drafts env previous drafts st)"
  unfolding embed_drafts_def Let_def by (intro pres)

lemma numbered_index_rows [pres]:
  "preserves numbered (insert_symbol c)" "preserves numbered (insert_snapshot n)"
  "preserves numbered (insert_chunk x)" "preserves numbered (set_symbol i f)"
  "preserves numbered (set_snapshot i g)" "preserves numbered (modify (delete_symbols P))"
  "preserves numbered (modify (delete_chunks Q))" "preserves numbered (modify (delete_snapshots R))"
  by (rule preserves_events, simp add: insert_symbol_def insert_snapshot_def insert_chunk_def
      set_symbol_def set_snapshot_def add_row_def delete_symbols_def delete_chunks_def
      delete_snapshots_def Let_def)+

lemma numbered_ticks [pres]: "numbered s \<Longrightarrow> numbered (s\<lparr>ticks := n\<rparr>)"
  by (simp add: numbered_def run_events_def)

lemma numbered_index_stages [pres]:
  "preserves numbered (new_index_run env own r v cid ip)"
  "preserves numbered (store_symbols rows)" "preserves numbered (add_chunks cs)"
  "preserves numbered (new_snapshot env repository revision)" "preserves numbered (start_index_run env rid)"
  "preserves numbered (finish_index env i rid vid sid st)"
  "preserves numbered (reuse_index env i rid vid n)"
  unfolding new_index_run_def store_symbols_def add_symbol_def add_chunks_def new_snapshot_def
    start_index_run_def finish_index_def reuse_index_def Let_def
  by (intro pres)+

lemma numbered_store_index [pres]: "preserves numbered (store_index env tg previous started)"
  unfolding store_index_def Let_def by (intro pres)

lemma numbered_build_index [pres]: "preserves numbered (build_index env r rid v)"
  unfolding build_index_def by (intro pres)

lemma numbered_index_revision [pres]: "preserves numbered (index_revision env r rid v)"
  unfolding index_revision_def by (intro pres)

lemma numbered_indexing [pres]:
  "preserves numbered (create_index_run env own i cid ip)" "preserves numbered (cleanup_repository i)"
  unfolding create_index_run_def cleanup_repository_def delete_chunks_for_repository_def
  by (intro pres)+

lemma numbered_index_repository [pres]: "preserves numbered (index_repository env i rid)"
proof -
  have "preserves numbered (case (r, q) of (Some repository, Some run) \<Rightarrow> f repository run | _ \<Rightarrow> raise e)"
    if "\<And>x y. preserves numbered (f x y)" for r :: "repository option" and q :: "agent_run option"
      and f :: "repository \<Rightarrow> agent_run \<Rightarrow> uuid session" and e
    using that by (auto split: option.splits intro: pres)
  then show ?thesis unfolding index_repository_def by (intro pres)
qed

section \<open>The whole pipeline\<close>

datatype pipeline_call =
    CallIngestion ingest_call
  | CallCreateIndexRun uuid uuid string string
  | CallIndex uuid uuid
  | CallCleanup uuid

fun pipeline_exec :: "ingest_env \<Rightarrow> index_env \<Rightarrow> pipeline_call \<Rightarrow> db \<Rightarrow> db" where
  "pipeline_exec ienv env (CallIngestion c) s = ingest_exec ienv c s"
| "pipeline_exec ienv env (CallCreateIndexRun own i cid ip) s =
     snd (commit_or_rollback (create_index_run env own i cid ip) s)"
| "pipeline_exec ienv env (CallIndex i rid) s = snd (worker_index env i rid s)"
| "pipeline_exec ienv env (CallCleanup i) s = snd (cleanup_repository_workspace ienv i s)"

definition pipeline_step :: "ingest_env \<Rightarrow> index_env \<Rightarrow> db \<Rightarrow> db \<Rightarrow> bool" where
  "pipeline_step ienv env s t = (\<exists>c. t = pipeline_exec ienv env c s)"

lemma numbered_pipeline:
  assumes "numbered s"
  shows "numbered (pipeline_exec ienv env c s)"
proof -
  have P: "numbered (snd (commit_or_rollback m s))" if "preserves numbered m" for m :: "'x session"
    using presD [where I = numbered, OF numbered_commit [OF that] assms] .
  have clean: "preserves numbered (thenp (delete_workspace_and_mark_deleted ienv i) (cleanup_repository i))" for i
    by (intro pres)
  show ?thesis
    by (cases c) (simp_all add: numbered_exec assms worker_index_def cleanup_repository_workspace_def P
        numbered_indexing numbered_index_repository clean)
qed

interpretation pipeline_events: invariant_system "\<lambda>s. events s = []" "pipeline_step ienv env" numbered for ienv env
  by unfold_locales (auto simp: pipeline_step_def numbered_pipeline, simp add: numbered_def run_events_def)

text \<open>
  Whatever requests, ingestion, indexing and cleanup tasks run, in any order, failing or
  not, the events of every run are numbered 1, 2, 3, ... in the order they were added.
\<close>

theorem pipeline_events_numbered:
  assumes "events s = []" "reaches (pipeline_step ienv env) s t"
  shows "map event_sequence (run_events rid t) = map int [1..<Suc (length (run_events rid t))]"
  using pipeline_events.safe [OF assms] by (simp add: numbered_def)

section \<open>How an index run ends\<close>

definition has_snapshot :: "uuid \<Rightarrow> uuid \<Rightarrow> uuid \<Rightarrow> db \<Rightarrow> bool" where
  "has_snapshot sid i vid s \<longleftrightarrow>
     (\<exists>n \<in> set (snapshots s). snap_id n = sid \<and> snap_repository_id n = i \<and> snap_revision_id n = vid)"

definition indexed :: "uuid \<Rightarrow> uuid \<Rightarrow> uuid \<Rightarrow> uuid \<Rightarrow> db \<Rightarrow> bool" where
  "indexed i rid vid sid s \<longleftrightarrow>
     (\<forall>r \<in> set (repositories s). repo_id r = i \<longrightarrow> repo_status r = Ready \<and> repo_latest_indexed_revision_id r = Some vid)
   \<and> (\<forall>q \<in> set (runs s). run_id q = rid \<longrightarrow> run_status q = RunSucceeded \<and> run_revision_id q = Some vid)
   \<and> (\<forall>v \<in> set (revisions s). rev_id v = vid \<longrightarrow> rev_status v = Ready)
   \<and> (\<exists>n \<in> set (snapshots s). snap_id n = sid \<and> snap_status n = SnapReady
         \<and> snap_repository_id n = i \<and> snap_revision_id n = vid)"

lemma index_event_frame:
  "index_event clock rid ty msg s = (r, t) \<Longrightarrow> repositories t = repositories s \<and> runs t = runs s
   \<and> revisions t = revisions s \<and> snapshots t = snapshots s \<and> chunks t = chunks s \<and> symbols t = symbols s
   \<and> files t = files s"
  by (auto simp: index_event_def next_sequence_app insert_event_def add_row_app split: if_splits)

lemma indexed_frame:
  "repositories t = repositories s \<Longrightarrow> runs t = runs s \<Longrightarrow> revisions t = revisions s \<Longrightarrow>
   snapshots t = snapshots s \<Longrightarrow> indexed i rid vid sid s \<Longrightarrow> indexed i rid vid sid t"
  by (simp add: indexed_def)

lemma updated_rows:
  assumes "\<And>r. k (f r) = k r" "\<And>r. P (f r)"
  shows "\<forall>r \<in> set (update_where (\<lambda>r. k r = i) f rows). k r = i \<longrightarrow> P r"
proof (intro ballI impI)
  fix r assume r: "r \<in> set (update_where (\<lambda>r. k r = i) f rows)" "k r = i"
  then obtain q where q: "r = (if k q = i then f q else q)" unfolding in_update_where by blast
  show "P r"
  proof (cases "k q = i")
    case True
    with q assms(2) show ?thesis by simp
  next
    case False
    with q r(2) show ?thesis by simp
  qed
qed

lemma finish_index_indexed:
  assumes f: "finish_index env i rid vid sid st s = (Inr (), t)" and n: "has_snapshot sid i vid s"
  shows "indexed i rid vid sid t"
proof -
  let ?now = "ix_clock env (ticks s)"
  let ?sn = "\<lambda>n. n\<lparr>snap_status := SnapReady, snap_statistics := statistics_to_dict st, snap_indexed_at := Some ?now\<rparr>"
  let ?rp = "\<lambda>r. r\<lparr>repo_latest_indexed_revision_id := Some vid, repo_status := Ready\<rparr>"
  let ?rv = "\<lambda>v. v\<lparr>rev_status := Ready, rev_indexed_at := Some ?now\<rparr>"
  let ?rn = "\<lambda>q. q\<lparr>run_status := RunSucceeded, run_revision_id := Some vid, run_completed_at := Some ?now,
        run_input_units := Some (int (st_files_seen st)), run_output_units := Some (int (st_chunks_produced st))\<rparr>"
  let ?u = "s\<lparr>ticks := Suc (ticks s), snapshots := update_where (\<lambda>n. snap_id n = sid) ?sn (snapshots s),
      repositories := update_where (\<lambda>r. repo_id r = i) ?rp (repositories s),
      revisions := update_where (\<lambda>v. rev_id v = vid) ?rv (revisions s),
      runs := update_where (\<lambda>q. run_id q = rid) ?rn (runs s)\<rparr>"
  have e: "index_event (ix_clock env) rid ''completed'' ''Repository indexing completed'' ?u = (Inr (), t)"
    using f by (simp add: finish_index_def set_snapshot_def set_repository_def set_revision_def set_run_def)
  obtain m where m: "m \<in> set (snapshots s)" "snap_id m = sid" "snap_repository_id m = i" "snap_revision_id m = vid"
    using n by (auto simp: has_snapshot_def)
  have "?sn m \<in> set (snapshots ?u)" using m by (auto simp: in_update_where intro!: bexI [of _ m])
  moreover have "\<forall>r \<in> set (repositories ?u). repo_id r = i \<longrightarrow> repo_status r = Ready \<and> repo_latest_indexed_revision_id r = Some vid"
    by (simp, rule updated_rows) simp_all
  moreover have "\<forall>q \<in> set (runs ?u). run_id q = rid \<longrightarrow> run_status q = RunSucceeded \<and> run_revision_id q = Some vid"
    by (simp, rule updated_rows) simp_all
  moreover have "\<forall>v \<in> set (revisions ?u). rev_id v = vid \<longrightarrow> rev_status v = Ready"
    by (simp, rule updated_rows) simp_all
  ultimately have iu: "indexed i rid vid sid ?u"
    unfolding indexed_def by (intro conjI bexI [of _ "?sn m"]) (use m in simp_all)
  show ?thesis
    using index_event_frame [OF e] by (intro indexed_frame [OF _ _ _ _ iu]) blast+
qed

lemma preserves_snapshots: "(\<And>s. snapshots (snd (m s)) = snapshots s) \<Longrightarrow> preserves (has_snapshot sid i vid) m"
  by (simp add: preserves_def has_snapshot_def)

lemma snapshot_rows [pres]:
  "preserves (has_snapshot sid i vid) uuid4" "preserves (has_snapshot sid i vid) (insert_symbol c)"
  "preserves (has_snapshot sid i vid) (insert_chunk x)" "preserves (has_snapshot sid i vid) (set_symbol j f)"
  by (rule preserves_snapshots, simp add: insert_symbol_def insert_chunk_def set_symbol_def add_row_def)+

lemma snapshot_ticks [pres]: "has_snapshot sid i vid s \<Longrightarrow> has_snapshot sid i vid (s\<lparr>ticks := n\<rparr>)"
  by (simp add: has_snapshot_def)

lemma snapshot_store [pres]:
  "preserves (has_snapshot sid i vid) (store_symbols rows)" "preserves (has_snapshot sid i vid) (add_chunks cs)"
  unfolding store_symbols_def add_symbol_def add_chunks_def Let_def by (intro pres)+

lemma snapshot_store_index [pres]: "preserves (has_snapshot sid i vid) (store_index env tg previous started)"
  unfolding store_index_def Let_def by (intro pres)

lemma new_snapshot_has:
  "new_snapshot env repository revision s = (Inr sid, t) \<Longrightarrow> has_snapshot sid (repo_id repository) (rev_id revision) t"
  by (auto simp: new_snapshot_def insert_snapshot_def add_row_app thenp_eq_Inr has_snapshot_def split: if_splits)

lemma build_index_indexed:
  assumes "build_index env repository rid revision s = (Inr sid, t)"
  shows "indexed (repo_id repository) rid (rev_id revision) sid t"
proof -
  from assms obtain a b c d started e prev f st g where
    n: "new_snapshot env repository revision a = (Inr sid, b)"
    and m: "monotonic env b = (Inr started, c)"
    and l: "latest_ready_snapshot (repo_id repository) c = (Inr prev, d)"
    and st: "store_index env (target_of repository revision sid) prev started d = (Inr st, e)"
    and f: "finish_index env (repo_id repository) rid (rev_id revision) sid st e = (Inr (), t)"
    by (auto simp: build_index_def bindp_eq_Inr thenp_eq_Inr)
  let ?H = "has_snapshot sid (repo_id repository) (rev_id revision)"
  have "?H b" using new_snapshot_has [OF n] .
  then have "?H c" using preservesD [where I = ?H, OF preserves_monotonic _ m] snapshot_ticks by blast
  then have "?H d" using preservesD [where I = ?H, OF preserves_index_queries(1) _ l] by blast
  then have "?H e" using preservesD [where I = ?H, OF snapshot_store_index _ st] by blast
  then show ?thesis by (rule finish_index_indexed [OF f])
qed

lemma reuse_index_indexed:
  assumes r: "reuse_index env i rid vid n s = (Inr sid, t)"
    and n: "n \<in> set (snapshots s)" "snap_status n = SnapReady" "snap_repository_id n = i" "snap_revision_id n = vid"
  shows "indexed i rid vid sid t"
proof -
  let ?now = "ix_clock env (ticks s)"
  let ?rp = "\<lambda>r. r\<lparr>repo_latest_indexed_revision_id := Some vid, repo_status := Ready\<rparr>"
  let ?rv = "\<lambda>v. v\<lparr>rev_status := Ready, rev_indexed_at := snap_indexed_at n\<rparr>"
  let ?rn = "\<lambda>q. q\<lparr>run_status := RunSucceeded, run_completed_at := Some ?now, run_revision_id := Some vid\<rparr>"
  have t: "t = s\<lparr>ticks := Suc (ticks s), runs := update_where (\<lambda>q. run_id q = rid) ?rn (runs s),
      repositories := update_where (\<lambda>r. repo_id r = i) ?rp (repositories s),
      revisions := update_where (\<lambda>v. rev_id v = vid) ?rv (revisions s)\<rparr>" and sid: "sid = snap_id n"
    using r by (simp_all add: reuse_index_def set_repository_def set_revision_def set_run_def)
  have "\<forall>r \<in> set (repositories t). repo_id r = i \<longrightarrow> repo_status r = Ready \<and> repo_latest_indexed_revision_id r = Some vid"
    unfolding t by (simp, rule updated_rows) simp_all
  moreover have "\<forall>q \<in> set (runs t). run_id q = rid \<longrightarrow> run_status q = RunSucceeded \<and> run_revision_id q = Some vid"
    unfolding t by (simp, rule updated_rows) simp_all
  moreover have "\<forall>v \<in> set (revisions t). rev_id v = vid \<longrightarrow> rev_status v = Ready"
    unfolding t by (simp, rule updated_rows) simp_all
  moreover have "n \<in> set (snapshots t)" using n(1) by (simp add: t)
  ultimately show ?thesis using n sid unfolding indexed_def by blast
qed

lemma snapshot_by_revision_in:
  "snapshot_by_revision i vid s = (Inr (Some n), t) \<Longrightarrow>
   t = s \<and> n \<in> set (snapshots s) \<and> snap_repository_id n = i \<and> snap_revision_id n = vid"
  by (auto simp: snapshot_by_revision_def scalar_one_or_none_Some filter_eq_Cons_iff)

lemma index_revision_indexed:
  assumes "index_revision env repository rid revision s = (Inr sid, t)"
  shows "indexed (repo_id repository) rid (rev_id revision) sid t"
proof -
  from assms obtain u existing w where
    "snapshot_by_revision (repo_id repository) (rev_id revision) u = (Inr existing, w)"
    "(case existing of
        Some e \<Rightarrow> if snap_status e = SnapReady then reuse_index env (repo_id repository) rid (rev_id revision) e
                  else build_index env repository rid revision
      | None \<Rightarrow> build_index env repository rid revision) w = (Inr sid, t)"
    by (auto simp: index_revision_def bindp_eq_Inr thenp_eq_Inr)
  then show ?thesis
    by (cases existing) (auto split: if_splits dest!: snapshot_by_revision_in
        intro: build_index_indexed reuse_index_indexed)
qed

lemma index_repository_Inr:
  assumes "index_repository env i rid s = (Inr sid, t)"
  obtains repository run vid revision where
    "repository \<in> set (repositories s)" "repo_id repository = i" "repo_latest_revision_id repository = Some vid"
    "run \<in> set (runs s)" "run_id run = rid"
    "revision \<in> set (revisions s)" "rev_id revision = vid"
    "index_revision env repository rid revision s = (Inr sid, t)"
  using assms unfolding index_repository_def
  by (auto simp: bindp_eq_Inr get_repository_row_def get_run_row_def get_revision_row_def
      split: option.splits dest!: scalars_first_in)

text \<open>
  An index run that returns has finished: the repository is ready and indexed at the
  revision that was its latest, the run succeeded for that revision, the revision is ready,
  and a ready snapshot of exactly this repository and revision exists.
\<close>

theorem index_settles:
  assumes "worker_index env i rid s = (Inr sid, t)"
  shows "\<exists>repository \<in> set (repositories s). \<exists>vid. repo_id repository = i
    \<and> repo_latest_revision_id repository = Some vid \<and> indexed i rid vid sid t"
proof -
  have "index_repository env i rid s = (Inr sid, t)"
    using assms by (auto simp: worker_index_def commit_or_rollback_def split: prod.splits sum.splits)
  then show ?thesis by (rule index_repository_Inr) (use index_revision_indexed in blast)
qed

text \<open>
  C29: an index run that raises is rolled back and never marked as failed: it stays queued,
  and from then on every request to index the repository answers with this dead run and
  starts none.
\<close>

theorem failed_index_blocks_reindex:
  assumes fail: "worker_index env i rid s = (Inl e, t)"
    and q: "runs s = qs @ [q]" "run_id q = rid" "run_repository_id q = i" "run_status q = RunQueued"
      "run_run_type q = run_type_indexing"
      "\<And>p. p \<in> set qs \<Longrightarrow> run_repository_id p = i \<Longrightarrow> run_run_type p = run_type_indexing \<Longrightarrow>
          run_status p \<notin> {RunQueued, RunRunning}"
    and r: "distinct (map repo_id (repositories s))" "r \<in> set (repositories s)" "repo_id r = i"
      "repo_deleted_at r = None" "repo_latest_revision_id r = Some vid"
  shows "rows_of t = rows_of s
    \<and> create_index_run env2 (repo_owner_id r) i cid ip t = (Inr (i, rid, False), t)"
proof -
  have rows: "rows_of t = rows_of s"
    using fail by (auto simp: worker_index_def commit_or_rollback_def split: prod.splits sum.splits)
  note fields = rows_of_fields [OF rows]
  have own: "repository_owned_by_id (repo_owner_id r) i t = (Inr (Some r), t)"
    using owned_lookup [of t r] r fields by simp
  have "filter (\<lambda>p. run_repository_id p = i \<and> run_status p \<in> {RunQueued, RunRunning} \<and> run_run_type p = run_type_indexing) qs = []"
    using q(6) by (auto simp: filter_empty_conv)
  then have "active_for_repository i (Some run_type_indexing) t = (Inr (Some q), t)"
    using q(1-5) by (simp add: active_for_repository_def fields desc_by_def)
  with own rows r(3,5) q(2) show ?thesis
    by (simp add: create_index_run_def)
qed

section \<open>What is stored\<close>

lemma index_file_step:
  assumes "index_file env tg previous f (st, rows, drafts) = Inr (st1, rows1, drafts1)"
  shows "\<exists>p. registry_parse (ix_ast env) (file_normalized_path f) (or_else (file_content f) []) = Inr p
    \<and> rows1 = rows @ fst (materialize_file (ix_chunks env) tg f p)
    \<and> drafts1 = drafts @ snd (materialize_file (ix_chunks env) tg f p)
    \<and> st_files_changed st1 + st_files_unchanged st1 = st_files_changed st + st_files_unchanged st + 1
    \<and> st_parse_successes st1 + st_parse_failures st1 = st_parse_successes st + st_parse_failures st + 1
    \<and> st_symbols_extracted st1 + length rows = st_symbols_extracted st + length rows1
    \<and> st_chunks_produced st1 + length drafts = st_chunks_produced st + length drafts1
    \<and> st_files_accepted st1 = st_files_accepted st \<and> st_reused_vectors st1 = st_reused_vectors st
    \<and> st_embedding_vectors st1 = st_embedding_vectors st"
proof -
  obtain p where p: "registry_parse (ix_ast env) (file_normalized_path f) (or_else (file_content f) []) = Inr p"
    using assms by (auto simp: index_file_def bindr_eq_Inr)
  obtain a b where m: "materialize_file (ix_chunks env) tg f p = (a, b)" by fastforce
  show ?thesis
    by (rule exI [of _ p]) (use assms p m in \<open>auto simp: index_file_def Let_def\<close>)
qed

lemma foldr_exn_index:
  assumes "foldr_exn (index_file env tg previous) fs (st, rows, drafts) = Inr (st', rows', drafts')"
  shows "\<exists>ps. list_all2 (\<lambda>f p. registry_parse (ix_ast env) (file_normalized_path f) (or_else (file_content f) []) = Inr p) fs ps
    \<and> rows' = rows @ concat (map2 (\<lambda>f p. fst (materialize_file (ix_chunks env) tg f p)) fs ps)
    \<and> drafts' = drafts @ concat (map2 (\<lambda>f p. snd (materialize_file (ix_chunks env) tg f p)) fs ps)
    \<and> st_files_changed st' + st_files_unchanged st' = st_files_changed st + st_files_unchanged st + length fs
    \<and> st_parse_successes st' + st_parse_failures st' = st_parse_successes st + st_parse_failures st + length fs
    \<and> st_symbols_extracted st' + length rows = st_symbols_extracted st + length rows'
    \<and> st_chunks_produced st' + length drafts = st_chunks_produced st + length drafts'
    \<and> st_files_accepted st' = st_files_accepted st \<and> st_reused_vectors st' = st_reused_vectors st
    \<and> st_embedding_vectors st' = st_embedding_vectors st"
  using assms
proof (induction fs arbitrary: st rows drafts)
  case (Cons f fs)
  obtain acc where "index_file env tg previous f (st, rows, drafts) = Inr acc"
      "foldr_exn (index_file env tg previous) fs acc = Inr (st', rows', drafts')"
    using Cons.prems by (auto simp: bindr_eq_Inr)
  then obtain st1 rows1 drafts1 where
      step: "index_file env tg previous f (st, rows, drafts) = Inr (st1, rows1, drafts1)"
    and rest: "foldr_exn (index_file env tg previous) fs (st1, rows1, drafts1) = Inr (st', rows', drafts')"
    by (cases acc) auto
  from index_file_step [OF step] obtain p where p:
    "registry_parse (ix_ast env) (file_normalized_path f) (or_else (file_content f) []) = Inr p"
    "rows1 = rows @ fst (materialize_file (ix_chunks env) tg f p)"
    "drafts1 = drafts @ snd (materialize_file (ix_chunks env) tg f p)"
    "st_files_changed st1 + st_files_unchanged st1 = st_files_changed st + st_files_unchanged st + 1"
    "st_parse_successes st1 + st_parse_failures st1 = st_parse_successes st + st_parse_failures st + 1"
    "st_symbols_extracted st1 + length rows = st_symbols_extracted st + length rows1"
    "st_chunks_produced st1 + length drafts = st_chunks_produced st + length drafts1"
    "st_files_accepted st1 = st_files_accepted st" "st_reused_vectors st1 = st_reused_vectors st"
    "st_embedding_vectors st1 = st_embedding_vectors st" by blast
  from Cons.IH [OF rest] obtain ps where ps:
      "list_all2 (\<lambda>f p. registry_parse (ix_ast env) (file_normalized_path f) (or_else (file_content f) []) = Inr p) fs ps"
      "rows' = rows1 @ concat (map2 (\<lambda>f p. fst (materialize_file (ix_chunks env) tg f p)) fs ps)"
      "drafts' = drafts1 @ concat (map2 (\<lambda>f p. snd (materialize_file (ix_chunks env) tg f p)) fs ps)"
      "st_files_changed st' + st_files_unchanged st' = st_files_changed st1 + st_files_unchanged st1 + length fs"
      "st_parse_successes st' + st_parse_failures st' = st_parse_successes st1 + st_parse_failures st1 + length fs"
      "st_symbols_extracted st' + length rows1 = st_symbols_extracted st1 + length rows'"
      "st_chunks_produced st' + length drafts1 = st_chunks_produced st1 + length drafts'"
      "st_files_accepted st' = st_files_accepted st1" "st_reused_vectors st' = st_reused_vectors st1"
      "st_embedding_vectors st' = st_embedding_vectors st1" by blast
  show ?case
    by (rule exI [of _ "p # ps"]) (use ps p in simp)
qed simp

lemmas index_files_result = foldr_exn_index [of env tg previous fs st "[]" "[]" for env tg previous fs st, folded index_files_def]

text \<open>
  The statistics of an index run add up: every accepted file is changed or unchanged and
  parsed or cut by the fallback, and the symbols and chunks counted are those produced.
\<close>

theorem index_statistics_add_up:
  assumes "index_files env tg previous fs new_statistics = Inr (st, rows, drafts)"
  shows "st_files_changed st + st_files_unchanged st = length fs
    \<and> st_parse_successes st + st_parse_failures st = length fs
    \<and> st_symbols_extracted st = length rows \<and> st_chunks_produced st = length drafts
    \<and> length fs \<le> length drafts"
proof -
  from index_files_result [OF assms] obtain ps where ps:
    "list_all2 (\<lambda>f p. registry_parse (ix_ast env) (file_normalized_path f) (or_else (file_content f) []) = Inr p) fs ps"
    "drafts = concat (map2 (\<lambda>f p. snd (materialize_file (ix_chunks env) tg f p)) fs ps)"
    "st_files_changed st + st_files_unchanged st = length fs"
    "st_parse_successes st + st_parse_failures st = length fs"
    "st_symbols_extracted st = length rows" "st_chunks_produced st = length drafts"
    by (auto simp: new_statistics_def)
  have "length fs \<le> length (concat (map2 (\<lambda>f p. snd (materialize_file (ix_chunks env) tg f p)) fs ps))"
    using ps(1)
  proof (induction rule: list_all2_induct)
    case (Cons f fs p ps)
    have "snd (materialize_file (ix_chunks env) tg f p) \<noteq> []" by (rule materialize_nonempty)
    then have "1 \<le> length (snd (materialize_file (ix_chunks env) tg f p))" by (simp add: Suc_le_eq)
    with Cons.IH show ?case by simp
  qed simp
  with ps show ?thesis by simp
qed

section \<open>Vectors\<close>

text \<open>Embedding a draft changes its vector only.\<close>

definition same_draft :: "indexed_chunk_draft \<Rightarrow> indexed_chunk_draft \<Rightarrow> bool" where
  "same_draft d e \<longleftrightarrow> e = d\<lparr>dr_dense_embedding := dr_dense_embedding e\<rparr>"

lemma same_draft_refl [simp]: "same_draft d d"
  by (simp add: same_draft_def)

lemma same_draft_vector [simp]: "same_draft d (d\<lparr>dr_dense_embedding := v\<rparr>)"
  by (simp add: same_draft_def)

lemma same_draft_zero [simp]: "same_draft d (zero_fill n e) \<longleftrightarrow> same_draft d e"
  by (cases d; cases e) (simp add: same_draft_def zero_fill_def)

lemma same_draft_fields:
  "same_draft d e \<Longrightarrow> dr_chunk_id e = dr_chunk_id d \<and> dr_snapshot_id e = dr_snapshot_id d
   \<and> dr_owner_id e = dr_owner_id d \<and> dr_repository_id e = dr_repository_id d
   \<and> dr_revision_id e = dr_revision_id d \<and> dr_file_id e = dr_file_id d
   \<and> dr_content_hash e = dr_content_hash d \<and> dr_exact_content e = dr_exact_content d"
  by (cases d; cases e) (simp add: same_draft_def)

lemma place_vectors_same: "list_all2 same_draft ds (place_vectors previous ds vs)"
  by (induction previous ds vs rule: place_vectors.induct) (auto simp: reuse_vector_def split: option.splits list.splits)

lemma embed_drafts_same:
  assumes "embed_drafts env previous ds st s = (Inr (st', out), t)"
  shows "list_all2 same_draft ds out"
proof -
  obtain vs where "out = map (zero_fill (ix_dimensions env)) (place_vectors previous ds vs)"
    using assms by (auto simp: embed_drafts_def Let_def bindp_eq_Inr split: if_splits)
  then show ?thesis using place_vectors_same [of ds previous vs]
    by (simp add: list_all2_conv_all_nth)
qed

text \<open>
  Indexing is incremental. When every chunk has a chunk of the same key with a vector in
  the previous index, the provider is not called at all: the chunks get the previous
  vectors, all of them are counted as reused, and nothing else of the state changes.
\<close>

theorem unchanged_index_calls_no_provider:
  assumes "\<And>d. d \<in> set ds \<Longrightarrow> previous_vector previous d \<noteq> None"
  shows "embed_drafts env previous ds st s
    = (Inr (st\<lparr>st_reused_vectors := st_reused_vectors st + length ds\<rparr>,
            map (\<lambda>d. d\<lparr>dr_dense_embedding := previous_vector previous d\<rparr>) ds), s)"
proof -
  have "to_embed previous ds = []" using assms by (simp add: to_embed_def filter_empty_conv)
  moreover have "map (zero_fill (ix_dimensions env)) (place_vectors previous ds [])
      = map (\<lambda>d. d\<lparr>dr_dense_embedding := previous_vector previous d\<rparr>) ds"
    using assms
  proof (induction ds)
    case (Cons d ds)
    then obtain v where "previous_vector previous d = Some v" by fastforce
    with Cons show ?case by (simp add: reuse_vector_def zero_fill_def)
  qed simp
  ultimately show ?thesis by (simp add: embed_drafts_def bindp_def)
qed

text \<open>The vectors of a provider that keeps the full contract fill every draft.\<close>

lemma place_vectors_sized:
  assumes "length vs = length (to_embed previous ds)" "\<And>v. v \<in> set vs \<Longrightarrow> int (length v) = n"
    and "\<And>d v. previous_vector previous d = Some v \<Longrightarrow> int (length v) = n"
  shows "list_all (\<lambda>d. \<exists>v. dr_dense_embedding d = Some v \<and> int (length v) = n) (place_vectors previous ds vs)"
  using assms
proof (induction previous ds vs rule: place_vectors.induct)
  case (2 previous d ds vs)
  then show ?case
    by (cases "previous_vector previous d"; cases vs) (auto simp: to_embed_def reuse_vector_def)
qed simp

context embedding_provider
begin

lemma embed_loop_vectors:
  assumes "ix_embed env = embed" "embed_loop env limit bs vs s = (Inr qs, t)"
  shows "length qs = length vs + length (concat bs)
    \<and> (\<forall>w \<in> set qs. w \<in> set vs \<or> int (length w) = dimensions)"
  using assms(2)
proof (induction bs arbitrary: vs s)
  case (Cons b bs)
  then obtain us u where us: "embed (ticks s) b = Inr us" "embed_loop env limit bs (vs @ us) u = (Inr qs, t)"
    by (auto simp: bindp_eq_Inr external_def assms(1) split: if_splits)
  show ?case
    using Cons.IH [OF us(2)] vector_count [OF us(1)] vector_size [OF us(1)] by auto
qed simp

text \<open>Every draft ends up with a vector of the configured size, reused or computed.\<close>

lemma embed_drafts_complete:
  assumes env: "ix_embed env = embed" "ix_dimensions env = dimensions" "0 < ix_batch_size env"
    and prev: "\<And>d v. previous_vector previous d = Some v \<Longrightarrow> int (length v) = dimensions"
    and run: "embed_drafts env previous ds st s = (Inr (st', out), t)"
  shows "(\<forall>d \<in> set out. \<exists>v. dr_dense_embedding d = Some v \<and> int (length v) = dimensions)
    \<and> st_embedding_vectors st' = st_embedding_vectors st + length (to_embed previous ds)
    \<and> st_reused_vectors st' + length (to_embed previous ds) = st_reused_vectors st + length ds"
proof -
  let ?todo = "to_embed previous ds"
  have short: "length ?todo \<le> length ds" by (simp add: to_embed_def)
  obtain vs where vs: "out = map (zero_fill dimensions) (place_vectors previous ds vs)"
      "length vs = length ?todo" "\<forall>v \<in> set vs. int (length v) = dimensions"
      "st_embedding_vectors st' = st_embedding_vectors st + length vs"
      "st_reused_vectors st' = st_reused_vectors st + (length ds - length ?todo)"
  proof (cases "?todo = []")
    case True
    then show ?thesis using run that [of "[]"] by (auto simp: embed_drafts_def env(2) bindp_def)
  next
    case False
    obtain bs where bs: "batch_texts (map dr_search_text ?todo) (ix_batch_size env) = Inr bs"
        "concat bs = map dr_search_text ?todo"
      using env(3) by (simp add: batch_texts_def concat_batches)
    then obtain vs where "embed_loop env (length ?todo) bs [] s = (Inr vs, t)"
        "out = map (zero_fill dimensions) (place_vectors previous ds vs)"
        "st_embedding_vectors st' = st_embedding_vectors st + length vs"
        "st_reused_vectors st' = st_reused_vectors st + (length ds - length ?todo)"
      using run False by (auto simp: embed_drafts_def Let_def bindp_eq_Inr env(2))
    with embed_loop_vectors [OF env(1)] bs(2) that [of vs] show ?thesis
      by (metis (no_types, lifting) add_0 empty_iff length_map list.set(1) list.size(3))
  qed
  have placed: "list_all (\<lambda>d. \<exists>v. dr_dense_embedding d = Some v \<and> int (length v) = dimensions)
      (place_vectors previous ds vs)"
    by (rule place_vectors_sized) (use vs prev in auto)
  have same: "zero_fill dimensions d = d" if "d \<in> set (place_vectors previous ds vs)" for d
    using placed that by (auto simp: list_all_iff zero_fill_def)
  have "out = place_vectors previous ds vs" unfolding vs(1) by (rule map_idI) (rule same)
  with placed vs short show ?thesis by (simp add: list_all_iff)
qed

end

text \<open>
  With the provider the service uses by default every chunk of an index gets a vector of
  the configured size: reused from the previous index when the chunk has not changed, and
  computed otherwise, and the two counts add up to the number of chunks.
\<close>

theorem index_vectors_complete:
  assumes "ix_embed env = deterministic_texts digest (int n)" "ix_dimensions env = int n" "0 < ix_batch_size env"
    and "\<And>c v. c \<in> set previous \<Longrightarrow> chunk_dense_embedding c = Some v \<Longrightarrow> length v = n"
    and "embed_drafts env previous ds st s = (Inr (st', out), t)"
  shows "(\<forall>d \<in> set out. \<exists>v. dr_dense_embedding d = Some v \<and> length v = n)
    \<and> st_embedding_vectors st' = st_embedding_vectors st + length (to_embed previous ds)
    \<and> st_reused_vectors st' + length (to_embed previous ds) = st_reused_vectors st + length ds"
proof -
  have "int (length v) = int n" if "previous_vector previous d = Some v" for d v
    using that assms(4) by (auto simp: previous_vector_def split: option.splits dest!: map_of_SomeD)
  from deterministic.embed_drafts_complete [OF assms(1-3) this assms(5)] show ?thesis by auto
qed

section \<open>The chunks of an index\<close>

lemma add_chunks_spec:
  "add_chunks cs s = (Inr (), t) \<Longrightarrow>
   chunks t = chunks s @ cs \<and> distinct (map chunk_id cs) \<and> chunk_id ` set cs \<inter> chunk_id ` set (chunks s) = {}
   \<and> files t = files s \<and> snapshots t = snapshots s"
proof (induction cs arbitrary: s)
  case Nil
  then show ?case by (simp add: add_chunks_def)
next
  case (Cons c cs)
  then have c: "chunk_id c \<notin> chunk_id ` set (chunks s)"
    and rest: "add_chunks cs (s\<lparr>chunks := chunks s @ [c]\<rparr>) = (Inr (), t)"
    by (auto simp: add_chunks_def thenp_eq_Inr insert_chunk_def add_row_app split: if_splits)
  from Cons.IH [OF rest] c show ?case by auto
qed

lemma preserves_chunks: "(\<And>s. chunks (snd (m s)) = chunks s) \<Longrightarrow> preserves (\<lambda>s. chunks s = C) m"
  by (simp add: preserves_def)

lemma chunks_store_symbols: "preserves (\<lambda>s. chunks s = C) (store_symbols rows)"
proof -
  have "preserves (\<lambda>s. chunks s = C) (insert_symbol c)" "preserves (\<lambda>s. chunks s = C) (set_symbol i f)" for c i f
    by (rule preserves_chunks, simp add: insert_symbol_def set_symbol_def add_row_def)+
  then show ?thesis unfolding store_symbols_def add_symbol_def Let_def by (intro pres) simp_all
qed

lemma files_store_symbols: "preserves (\<lambda>s. files s = F) (store_symbols rows)"
proof -
  have "preserves (\<lambda>s. files s = F) (insert_symbol c)" "preserves (\<lambda>s. files s = F) (set_symbol i f)" for c i f
    by (simp_all add: preserves_def insert_symbol_def set_symbol_def add_row_def)
  then show ?thesis unfolding store_symbols_def add_symbol_def Let_def by (intro pres) simp_all
qed

definition accepted_files :: "uuid \<Rightarrow> db \<Rightarrow> repository_file list" where
  "accepted_files vid s = sort_key file_normalized_path
     (filter (\<lambda>f. file_revision_id f = vid \<and> file_indexing_status f = ''accepted'') (files s))"

text \<open>The stages of a successful \<open>store_index\<close>.\<close>

lemma store_index_stages:
  assumes "store_index env tg previous started s = (Inr st, t)"
  obtains previous_files previous_chunks st0 st1 rows drafts st2 out where
    "index_files env tg previous_files (accepted_files (tg_revision_id tg) s) st0 = Inr (st1, rows, drafts)"
    "st_chunks_produced st0 = 0"
    "list_all2 same_draft drafts out" "chunks t = chunks s @ map chunk_of_draft out"
    "distinct (map dr_chunk_id out)" "st_chunks_produced st = length out"
proof -
  from assms obtain pc pf st1 rows drafts u v st2 out w x y z k l where
    p: "previous_chunks_of previous s = (Inr pc, u)" and pf: "previous_files_of previous u = (Inr pf, v)"
    and i: "index_files env tg pf (accepted_files (tg_revision_id tg) u)
      (new_statistics\<lparr>st_files_seen := length (sort_key file_normalized_path (filter (\<lambda>f. file_revision_id f = tg_revision_id tg) (files u))),
         st_files_accepted := length (accepted_files (tg_revision_id tg) u),
         st_files_excluded := length (sort_key file_normalized_path (filter (\<lambda>f. file_revision_id f = tg_revision_id tg) (files u)))
           - length (accepted_files (tg_revision_id tg) u),
         st_files_deleted := card (distinct_paths pf - distinct_paths (accepted_files (tg_revision_id tg) u))\<rparr>)
      = Inr (st1, rows, drafts)"
    and sy: "store_symbols rows v = (Inr (), w)"
    and em: "embed_drafts env pc drafts st1 w = (Inr (st2, out), x)"
    and m1: "monotonic env x = (Inr k, y)"
    and ch: "add_chunks (map chunk_of_draft out) y = (Inr (), z)"
    and tail: "st_chunks_produced st = st_chunks_produced st2" "chunks t = chunks z"
    unfolding store_index_def Let_def accepted_files_def
    by (auto simp: bindp_eq_Inr thenp_eq_Inr accepted_for_revision_def files_for_revision_def
        monotonic_def external_def split: prod.splits)
  have u: "u = s" using p by (auto simp: previous_chunks_of_def chunks_for_snapshot_def split: option.splits)
  have v: "v = u" using pf
    by (auto simp: previous_files_of_def files_for_revision_def bindp_eq_Inr split: option.splits)
  let ?P = "\<lambda>q. chunks q = chunks s"
  have "?P v" using u v by simp
  then have "?P w" using preservesD [where I = ?P, OF chunks_store_symbols _ sy] by blast
  then have "?P x" using preservesD [where I = ?P, OF preserves_embed_drafts _ em] by simp
  then have y: "chunks y = chunks s" using m1 by (auto simp: monotonic_def external_def)
  have same: "list_all2 same_draft drafts out" using embed_drafts_same [OF em] .
  have "st_chunks_produced st2 = st_chunks_produced st1"
    using em by (auto simp: embed_drafts_def Let_def bindp_eq_Inr split: if_splits)
  moreover have "st_chunks_produced st1 = length drafts"
    using index_files_result [OF i] by (auto simp: new_statistics_def)
  ultimately have "st_chunks_produced st = length out" using tail same by (simp add: list_all2_lengthD)
  moreover have "distinct (map dr_chunk_id out)"
    using add_chunks_spec [OF ch] by (simp add: chunk_of_draft_def comp_def)
  moreover have "chunks t = chunks s @ map chunk_of_draft out"
    using add_chunks_spec [OF ch] tail y by simp
  ultimately show ?thesis
    using that [OF i [unfolded u]] same by (simp add: new_statistics_def)
qed

lemma in_accepted_files:
  "f \<in> set (accepted_files vid s) \<longleftrightarrow> f \<in> set (files s) \<and> file_revision_id f = vid \<and> file_indexing_status f = ''accepted''"
  by (simp add: accepted_files_def)

text \<open>A chunk of the target, of one of the given files, carrying the hash of its text.\<close>

definition chunk_of_file :: "chunk_env \<Rightarrow> index_target \<Rightarrow> repository_file \<Rightarrow> code_chunk \<Rightarrow> bool" where
  "chunk_of_file env tg f c \<longleftrightarrow>
     chunk_snapshot_id c = tg_snapshot_id tg \<and> chunk_owner_id c = tg_owner_id tg
   \<and> chunk_repository_id c = tg_repository_id tg \<and> chunk_revision_id c = tg_revision_id tg
   \<and> chunk_file_id c = file_id f
   \<and> chunk_content_hash c = ce_sha256 env (utf8 (chunk_exact_content c))"

lemma draft_chunk_of_file:
  "draft_ok env tg f d \<Longrightarrow> same_draft d e \<Longrightarrow> chunk_of_file env tg f (chunk_of_draft e)"
  using same_draft_fields [of d e] by (simp add: draft_ok_def chunk_of_file_def chunk_of_draft_def)

lemma map2_member:
  "list_all2 P fs ps \<Longrightarrow> x \<in> set (concat (map2 g fs ps)) \<Longrightarrow> \<exists>f p. f \<in> set fs \<and> P f p \<and> x \<in> set (g f p)"
  by (induction rule: list_all2_induct) auto

lemma map2_nth_in: "length fs = length ps \<Longrightarrow> n < length fs \<Longrightarrow> g (fs ! n) (ps ! n) \<in> set (map2 g fs ps)"
  using nth_mem [of n "map2 g fs ps"] by simp

lemma map2_memberI:
  assumes "list_all2 P fs ps" "f \<in> set fs"
  shows "\<exists>p. P f p \<and> set (g f p) \<subseteq> set (concat (map2 g fs ps))"
proof -
  obtain n where n: "n < length fs" "fs ! n = f" using assms(2) by (auto simp: in_set_conv_nth)
  have len: "length fs = length ps" using assms(1) by (rule list_all2_lengthD)
  have "g f (ps ! n) \<in> set (map2 g fs ps)" using map2_nth_in [OF len n(1), of g] n(2) by simp
  then have "set (g f (ps ! n)) \<subseteq> set (concat (map2 g fs ps))" by (metis Union_upper image_eqI set_concat)
  moreover have "P f (ps ! n)" using assms(1) n by (auto simp: list_all2_conv_all_nth)
  ultimately show ?thesis by blast
qed

text \<open>
  C6: a successful index adds chunks and removes none. Each new chunk belongs to the
  snapshot, owner, repository and revision being indexed and to an accepted file of that
  revision, and carries the hash of its text; every accepted file has at least one; their
  ids are distinct and the statistics count them.
\<close>

theorem index_writes_chunks:
  assumes "store_index env tg previous started s = (Inr st, t)"
  shows "\<exists>new. chunks t = chunks s @ new \<and> st_chunks_produced st = length new
    \<and> distinct (map chunk_id new)
    \<and> (\<forall>c \<in> set new. \<exists>f \<in> set (files s). file_revision_id f = tg_revision_id tg
         \<and> file_indexing_status f = ''accepted'' \<and> chunk_of_file (ix_chunks env) tg f c)
    \<and> (\<forall>f \<in> set (files s). file_revision_id f = tg_revision_id tg \<and> file_indexing_status f = ''accepted''
         \<longrightarrow> (\<exists>c \<in> set new. chunk_file_id c = file_id f))"
  using assms
proof (rule store_index_stages)
  fix pf pc st0 st1 rows drafts st2 out
  assume i: "index_files env tg pf (accepted_files (tg_revision_id tg) s) st0 = Inr (st1, rows, drafts)"
    and same: "list_all2 same_draft drafts out" and ch: "chunks t = chunks s @ map chunk_of_draft out"
    and dist: "distinct (map dr_chunk_id out)" and count: "st_chunks_produced st = length out"
  let ?fs = "accepted_files (tg_revision_id tg) s"
  let ?g = "\<lambda>f p. snd (materialize_file (ix_chunks env) tg f p)"
  from index_files_result [OF i] obtain ps where ps:
    "list_all2 (\<lambda>f p. registry_parse (ix_ast env) (file_normalized_path f) (or_else (file_content f) []) = Inr p) ?fs ps"
    "drafts = concat (map2 ?g ?fs ps)" by auto
  have new: "\<exists>f \<in> set (files s). file_revision_id f = tg_revision_id tg
      \<and> file_indexing_status f = ''accepted'' \<and> chunk_of_file (ix_chunks env) tg f (chunk_of_draft e)"
    if e: "e \<in> set out" for e
  proof -
    obtain d where d: "d \<in> set drafts" "same_draft d e" by (rule list_all2_memberE [OF same e])
    from map2_member [OF ps(1), of d ?g] d(1) ps(2) obtain f p where
      f: "f \<in> set ?fs" "d \<in> set (snd (materialize_file (ix_chunks env) tg f p))" by auto
    have "chunk_of_file (ix_chunks env) tg f (chunk_of_draft e)"
      using materialize_drafts_ok [OF f(2)] d(2) by (rule draft_chunk_of_file)
    with f(1) show ?thesis by (auto simp: in_accepted_files)
  qed
  have cover: "\<exists>e \<in> set out. dr_file_id e = file_id f" if "f \<in> set ?fs" for f
  proof -
    from map2_memberI [OF ps(1) that, of ?g] obtain p where
      p: "set (snd (materialize_file (ix_chunks env) tg f p)) \<subseteq> set drafts" using ps(2) by auto
    obtain d where d: "d \<in> set (snd (materialize_file (ix_chunks env) tg f p))"
      using materialize_nonempty [of "ix_chunks env" tg f p] by (meson list.set_sel(1))
    from d p same obtain e where "e \<in> set out" "same_draft d e"
      by (metis in_set_conv_nth list_all2_conv_all_nth subsetD)
    then show ?thesis using materialize_drafts_ok [OF d] same_draft_fields [of d e] by (auto simp: draft_ok_def)
  qed
  show ?thesis
    using ch dist count new cover
    by (intro exI [of _ "map chunk_of_draft out"])
      (auto simp: in_accepted_files chunk_of_draft_def comp_def)
qed

section \<open>Repeated text\<close>

text \<open>
  The id of a chunk depends on the revision, the path, the text and the position within its
  symbol, not on the symbol or on where the symbol is.
\<close>

lemma symbol_chunks_ids:
  assumes "symbol_source t a = symbol_source t b"
  shows "map dr_chunk_id (symbol_chunks env tg f p t a) = map dr_chunk_id (symbol_chunks env tg f p t b)"
  using assms by (simp add: symbol_chunks_def Let_def symbol_chunk_def case_prod_beta comp_def)

lemma not_distinct_twice: "a \<noteq> [] \<Longrightarrow> \<not> distinct (x @ a @ y @ a @ z)"
  by (cases a) auto

lemma repeated_source_ids:
  assumes sym: "pf_symbols p = xs @ a # ys @ b # zs"
    and same: "symbol_source (or_else (file_content f) []) a = symbol_source (or_else (file_content f) []) b"
  shows "\<not> distinct (map dr_chunk_id (snd (materialize_file env tg f p)))"
proof -
  let ?t = "or_else (file_content f) []"
  let ?c = "\<lambda>s. map dr_chunk_id (symbol_chunks env tg f p ?t s)"
  have "?c a \<noteq> []" by (simp add: symbol_chunks_nonempty)
  then have "\<not> distinct (concat (map ?c xs) @ ?c a @ concat (map ?c ys) @ ?c b @ concat (map ?c zs))"
    unfolding symbol_chunks_ids [OF same, of env tg f p] by (rule not_distinct_twice)
  then show ?thesis by (simp add: materialize_file_def Let_def sym map_concat comp_def)
qed

lemma same_draft_ids: "list_all2 same_draft ds es \<Longrightarrow> map dr_chunk_id es = map dr_chunk_id ds"
  by (induction rule: list_all2_induct) (auto dest: same_draft_fields)

lemma distinct_concat_member: "distinct (concat xss) \<Longrightarrow> xs \<in> set xss \<Longrightarrow> distinct xs"
  by (induction xss) auto

lemma store_index_no_repeats:
  assumes run: "store_index env tg previous started s = (Inr st, t)"
    and f: "f \<in> set (files s)" "file_revision_id f = tg_revision_id tg" "file_indexing_status f = ''accepted''"
    and p: "registry_parse (ix_ast env) (file_normalized_path f) (or_else (file_content f) []) = Inr p"
  shows "distinct (map dr_chunk_id (snd (materialize_file (ix_chunks env) tg f p)))"
  using run
proof (rule store_index_stages)
  fix pf pc st0 st1 rows drafts st2 out
  assume i: "index_files env tg pf (accepted_files (tg_revision_id tg) s) st0 = Inr (st1, rows, drafts)"
    and same: "list_all2 same_draft drafts out" and dist: "distinct (map dr_chunk_id out)"
  let ?fs = "accepted_files (tg_revision_id tg) s"
  let ?P = "\<lambda>f p. registry_parse (ix_ast env) (file_normalized_path f) (or_else (file_content f) []) = Inr p"
  from index_files_result [OF i] obtain ps where ps: "list_all2 ?P ?fs ps"
    "drafts = concat (map2 (\<lambda>f p. snd (materialize_file (ix_chunks env) tg f p)) ?fs ps)" by auto
  have "f \<in> set ?fs" using f by (simp add: in_accepted_files)
  then obtain n where n: "n < length ?fs" "?fs ! n = f" by (auto simp: in_set_conv_nth)
  then have "n < length ps" "ps ! n = p" using ps(1) p by (auto simp: list_all2_conv_all_nth)
  then have "snd (materialize_file (ix_chunks env) tg f p)
      \<in> set (map2 (\<lambda>f p. snd (materialize_file (ix_chunks env) tg f p)) ?fs ps)"
    using map2_nth_in [OF list_all2_lengthD [OF ps(1)] n(1), of "\<lambda>f p. snd (materialize_file (ix_chunks env) tg f p)"]
      n(2) by simp
  moreover have "distinct (concat (map (map dr_chunk_id)
      (map2 (\<lambda>f p. snd (materialize_file (ix_chunks env) tg f p)) ?fs ps)))"
    using dist same_draft_ids [OF same] ps(2) by (simp add: map_concat)
  ultimately show ?thesis using distinct_concat_member by (metis (no_types, lifting) image_eqI list.set_map)
qed

lemma preserves_files: "(\<And>s. files (snd (m s)) = files s) \<Longrightarrow> preserves (\<lambda>s. files s = F) m"
  by (simp add: preserves_def)

lemma files_rows:
  "preserves (\<lambda>s. files s = F) uuid4" "preserves (\<lambda>s. files s = F) (set_run i f)"
  "preserves (\<lambda>s. files s = F) (set_repository i g)" "preserves (\<lambda>s. files s = F) (set_revision i h)"
  "preserves (\<lambda>s. files s = F) (insert_snapshot n)" "preserves (\<lambda>s. files s = F) (insert_event ev)"
  "preserves (\<lambda>s. files s = F) (utcnow c)" "preserves (\<lambda>s. files s = F) (external x)"
  by (rule preserves_files, simp add: set_run_def set_repository_def set_revision_def
      insert_snapshot_def insert_event_def add_row_def external_def)+

lemma files_stages:
  "preserves (\<lambda>s. files s = F) (start_index_run env rid)"
  "preserves (\<lambda>s. files s = F) (transition i st)"
  "preserves (\<lambda>s. files s = F) (new_snapshot env r v)"
  "preserves (\<lambda>s. files s = F) (monotonic env)"
  unfolding start_index_run_def index_event_def transition_def new_snapshot_def monotonic_def
  by (intro pres files_rows; simp)+

lemma start_index_run_frame:
  "start_index_run env rid s = (Inr (), t) \<Longrightarrow> snapshots t = snapshots s \<and> files t = files s
    \<and> chunks t = chunks s \<and> symbols t = symbols s"
  by (auto simp: start_index_run_def thenp_eq_Inr set_run_def dest!: index_event_frame)

lemma build_index_stores:
  assumes "build_index env repository rid revision s = (Inr sid, t)"
  obtains previous started d st e where
    "store_index env (target_of repository revision sid) previous started d = (Inr st, e)" "files d = files s"
proof -
  from assms obtain a b c v started previous d st e where
    x: "external (ix_validate env) s = (Inr (), a)"
    and tr: "transition (repo_id repository) Indexing a = (Inr (), b)"
    and sr: "set_revision (rev_id revision) (\<lambda>v. v\<lparr>rev_status := Indexing\<rparr>) b = (Inr (), v)"
    and n: "new_snapshot env repository revision v = (Inr sid, c)"
    and m: "monotonic env c = (Inr started, d)"
    and l: "latest_ready_snapshot (repo_id repository) d = (Inr previous, e)"
    and rest: "\<exists>st e'. store_index env (target_of repository revision sid) previous started e = (Inr st, e')"
    by (auto simp: build_index_def bindp_eq_Inr thenp_eq_Inr)
  let ?P = "\<lambda>q. files q = files s"
  have "?P a" using preservesD [where I = ?P, OF files_rows(8) _ x] by simp
  then have "?P b" using preservesD [where I = ?P, OF files_stages(2) _ tr] by blast
  then have "?P v" using preservesD [where I = ?P, OF files_rows(4) _ sr] by blast
  then have "?P c" using preservesD [where I = ?P, OF files_stages(3) _ n] by blast
  then have "?P d" using preservesD [where I = ?P, OF files_stages(4) _ m] by blast
  then have "?P e" using preservesD [where I = ?P, OF preserves_index_queries(1) _ l] by blast
  with rest that show ?thesis by blast
qed

lemma worker_index_Inl:
  "worker_index env i rid s = (Inl e, t) \<Longrightarrow> rows_of t = rows_of s"
  by (auto simp: worker_index_def commit_or_rollback_def split: prod.splits sum.splits)

lemma index_run_reaches_build:
  assumes r: "distinct (map repo_id (repositories s))" "r \<in> set (repositories s)" "repo_id r = i"
      "repo_latest_revision_id r = Some vid"
    and fresh: "\<And>n. n \<in> set (snapshots s) \<Longrightarrow> snap_repository_id n = i \<Longrightarrow> snap_revision_id n = vid \<Longrightarrow>
      snap_status n \<noteq> SnapReady"
    and run: "index_repository env i rid s = (Inr sid, t)"
  obtains revision u where "build_index env r rid revision u = (Inr sid, t)" "rev_id revision = vid"
    "snapshots u = snapshots s" "files u = files s"
  using run
proof (rule index_repository_Inr)
  fix repository run vid' revision
  assume q: "repository \<in> set (repositories s)" "repo_id repository = i"
      "repo_latest_revision_id repository = Some vid'" "rev_id revision = vid'"
    and ir: "index_revision env repository rid revision s = (Inr sid, t)"
  have rq: "repository = r" using r q distinct_map_eqD [OF r(1)] by metis
  then have vid: "vid' = vid" using q(3) r(4) by simp
  from ir obtain u existing w where
    u: "start_index_run env rid s = (Inr (), u)"
    and ex: "snapshot_by_revision i vid u = (Inr existing, w)"
    and body: "(case existing of
        Some e \<Rightarrow> if snap_status e = SnapReady then reuse_index env i rid vid e
                  else build_index env r rid revision
      | None \<Rightarrow> build_index env r rid revision) w = (Inr sid, t)"
    using q(4) vid rq r(3) by (auto simp: index_revision_def bindp_eq_Inr thenp_eq_Inr)
  note frame = start_index_run_frame [OF u]
  have w: "w = u" using ex by (auto simp: snapshot_by_revision_def)
  have "build_index env r rid revision w = (Inr sid, t)"
    using body ex fresh frame by (cases existing) (auto dest!: snapshot_by_revision_in split: if_splits)
  then show ?thesis using that w frame q(4) vid by simp
qed

lemma index_run_builds:
  assumes r: "distinct (map repo_id (repositories s))" "r \<in> set (repositories s)" "repo_id r = i"
      "repo_latest_revision_id r = Some vid"
    and fresh: "\<And>n. n \<in> set (snapshots s) \<Longrightarrow> snap_repository_id n = i \<Longrightarrow> snap_revision_id n = vid \<Longrightarrow>
      snap_status n \<noteq> SnapReady"
    and run: "index_repository env i rid s = (Inr sid, t)"
  obtains previous started d st e tg where "store_index env tg previous started d = (Inr st, e)"
    "files d = files s" "tg_revision_id tg = vid"
  using r fresh run
proof (rule index_run_reaches_build)
  fix revision u
  assume b: "build_index env r rid revision u = (Inr sid, t)" "rev_id revision = vid" "files u = files s"
  from b(1) show ?thesis by (rule build_index_stores) (use that b in \<open>auto simp: target_of_def\<close>)
qed

text \<open>
  C31: a file in which two symbols have the same text cannot be indexed, nor can its
  repository: the chunks of the two symbols get the same id, the database refuses the second
  one, and the run raises and is rolled back. Two assignments in one statement and two equal
  one-line members of two classes are such symbols.
\<close>

theorem repeated_text_breaks_indexing:
  assumes r: "distinct (map repo_id (repositories s))" "r \<in> set (repositories s)" "repo_id r = i"
      "repo_latest_revision_id r = Some vid"
    and fresh: "\<And>n. n \<in> set (snapshots s) \<Longrightarrow> snap_repository_id n = i \<Longrightarrow> snap_revision_id n = vid \<Longrightarrow>
      snap_status n \<noteq> SnapReady"
    and f: "f \<in> set (files s)" "file_revision_id f = vid" "file_indexing_status f = ''accepted''"
    and p: "registry_parse (ix_ast env) (file_normalized_path f) (or_else (file_content f) []) = Inr p"
      "pf_symbols p = xs @ a # ys @ b # zs"
      "symbol_source (or_else (file_content f) []) a = symbol_source (or_else (file_content f) []) b"
  shows "\<exists>e t. worker_index env i rid s = (Inl e, t) \<and> rows_of t = rows_of s"
proof (cases "worker_index env i rid s")
  case (Pair x t)
  show ?thesis
  proof (cases x)
    case (Inl e)
    with Pair show ?thesis using worker_index_Inl by blast
  next
    case (Inr sid)
    with Pair have "index_repository env i rid s = (Inr sid, t)"
      by (auto simp: worker_index_def commit_or_rollback_def split: prod.splits sum.splits)
    from r fresh this show ?thesis
    proof (rule index_run_builds)
      fix previous started d st e and tg
      assume st: "store_index env tg previous started d = (Inr st, e)" and d: "files d = files s" "tg_revision_id tg = vid"
      have "distinct (map dr_chunk_id (snd (materialize_file (ix_chunks env) tg f p)))"
        by (rule store_index_no_repeats [OF st _ _ f(3) p(1)]) (use f d in auto)
      with repeated_source_ids [OF p(2,3)] show ?thesis by blast
    qed
  qed
qed

section \<open>Removing and replacing an index\<close>

definition symbol_of_repository :: "uuid \<Rightarrow> db \<Rightarrow> code_symbol \<Rightarrow> bool" where
  "symbol_of_repository i s c \<longleftrightarrow> (\<exists>f \<in> set (files s). \<exists>v \<in> set (revisions s).
     file_id f = sym_file_id c \<and> rev_id v = file_revision_id f \<and> rev_repository_id v = i)"

lemma symbol_of_repository_ids:
  "sym_file_id c \<in> file_id ` {f \<in> set (files s). file_revision_id f \<in> rev_id ` {v \<in> set (revisions s). rev_repository_id v = i}}
     \<longleftrightarrow> symbol_of_repository i s c"
  unfolding symbol_of_repository_def by (auto simp: image_iff) metis+

lemma symbol_of_repository_chunks [simp]:
  "symbol_of_repository i (s\<lparr>chunks := x\<rparr>) c = symbol_of_repository i s c"
  by (simp add: symbol_of_repository_def)

text \<open>
  Removing the index of a repository removes exactly its chunks (and those of its
  snapshots), its snapshots and the symbols of its files, and nothing of any other table.
\<close>

theorem cleanup_removes_index:
  "\<exists>t. cleanup_repository i s = (Inr (), t)
    \<and> snapshots t = filter (\<lambda>n. snap_repository_id n \<noteq> i) (snapshots s)
    \<and> chunks t = filter (\<lambda>c. chunk_repository_id c \<noteq> i
          \<and> chunk_snapshot_id c \<notin> snap_id ` set (filter (\<lambda>n. snap_repository_id n = i) (snapshots s))) (chunks s)
    \<and> map sym_id (symbols t) = map sym_id (filter (\<lambda>c. \<not> symbol_of_repository i s c) (symbols s))
    \<and> files t = files s \<and> revisions t = revisions s \<and> repositories t = repositories s
    \<and> runs t = runs s \<and> events t = events s \<and> users t = users s"
proof -
  have drop: "sym_id (drop_symbol_parent g c) = sym_id c" for g c
    by (simp add: drop_symbol_parent_def split: option.splits)
  show ?thesis
    by (auto simp: cleanup_repository_def delete_chunks_for_repository_def delete_symbols_def
        delete_snapshots_def delete_chunks_def Let_def bindp_def thenp_def drop comp_def
        symbol_of_repository_ids intro!: filter_cong)
qed

lemma replace_frame:
  "replace_for_revision vid fs s = (r, t) \<Longrightarrow>
   chunks t = filter (\<lambda>c. chunk_file_id c \<notin> file_id ` {f \<in> set (files s). file_revision_id f = vid}) (chunks s)
   \<and> snapshots t = snapshots s \<and> repositories t = repositories s"
proof -
  assume a: "replace_for_revision vid fs s = (r, t)"
  have ins: "preserves (\<lambda>q. chunks q = C \<and> snapshots q = N \<and> repositories q = R)
      (forp fs (\<lambda>f. bindp uuid4 (\<lambda>i. insert_file (file_row i vid f))))" for C N R
    by (intro pres) (simp_all add: insert_file_def add_row_def preserves_def)
  obtain u where u: "u = snd (modify (delete_files (\<lambda>f. file_revision_id f = vid)) s)" by simp
  have "chunks u = filter (\<lambda>c. chunk_file_id c \<notin> file_id ` {f \<in> set (files s). file_revision_id f = vid}) (chunks s)
      \<and> snapshots u = snapshots s \<and> repositories u = repositories s"
    by (simp add: u delete_files_def delete_symbols_def delete_chunks_def Let_def)
  moreover have "forp fs (\<lambda>f. bindp uuid4 (\<lambda>i. insert_file (file_row i vid f))) u = (r, t)"
    using a u by (simp add: replace_for_revision_def)
  ultimately show ?thesis using preservesD [OF ins] by blast
qed

lemma reuse_index_frame:
  "reuse_index env i rid vid n s = (r, t) \<Longrightarrow> r = Inr (snap_id n) \<and> chunks t = chunks s \<and> symbols t = symbols s"
  by (auto simp: reuse_index_def set_repository_def set_revision_def set_run_def)


end
