(* ===== verification/IndexWitnesses.thy ===== *)
theory IndexWitnesses
  imports IndexRuns
begin

text \<open>
  Concrete runs of the indexing service: a repository with a revision and at most one file,
  providers that answer or fail, and the theorems of \<open>IndexRuns\<close> applied to them.
\<close>

definition sample_chunk_env :: chunk_env where
  "sample_chunk_env = \<lparr>ce_sha256 = (\<lambda>s. s), ce_uuid5 = length, ce_max_chars = 4000,
     ce_max_lines = 160, ce_overlap_lines = 20\<rparr>"

definition sample_index_env :: index_env where
  "sample_index_env = \<lparr>ix_clock = int, ix_monotonic = real, ix_ast = sample_ast,
     ix_chunks = sample_chunk_env, ix_provider_name = ''deterministic'', ix_model_identifier = ''hash'',
     ix_dimensions = 1, ix_batch_size = 16, ix_timeout_seconds = 30,
     ix_validate = (\<lambda>_. Inr ()), ix_embed = (\<lambda>_ ts. Inr (map (\<lambda>_. [1]) ts))\<rparr>"

definition down_env :: index_env where
  "down_env = sample_index_env\<lparr>ix_validate := (\<lambda>_. Inl (RuntimeError ''down''))\<rparr>"

definition sample_index_repository :: repository where
  "sample_index_repository = (sample_repository 1 0)\<lparr>repo_status := ReadyForIndexing, repo_latest_revision_id := Some 3\<rparr>"

definition sample_revision :: repository_revision where
  "sample_revision = \<lparr>rev_id = 3, rev_repository_id = 1, rev_commit_sha = ''c'', rev_ref = None,
     rev_status = ReadyForIndexing, rev_cloned_at = None, rev_indexed_at = None, rev_file_count = 0,
     rev_total_bytes = 0, rev_error_code = None, rev_error_summary = None, rev_created_at = 0\<rparr>"

definition sample_file_row :: "string \<Rightarrow> repository_file" where
  "sample_file_row path = \<lparr>file_id = 4, file_revision_id = 3, file_normalized_path = path,
     file_language = None, file_size = 0, file_content_hash = [], file_line_count = 0,
     file_indexing_status = ''accepted'', file_excluded_reason = None, file_content = None\<rparr>"

definition sample_index_run :: agent_run where
  "sample_index_run = (sample_run 2 0 1)\<lparr>run_run_type := run_type_indexing\<rparr>"

definition sample_index_db :: "repository_file list \<Rightarrow> db" where
  "sample_index_db fs = empty_db\<lparr>users := [sample_user], repositories := [sample_index_repository],
     runs := [sample_index_run], revisions := [sample_revision], files := fs, next_uuid := 10\<rparr>"

lemma sample_index_rows [simp]:
  "users (sample_index_db fs) = [sample_user]" "repositories (sample_index_db fs) = [sample_index_repository]"
  "runs (sample_index_db fs) = [sample_index_run]" "revisions (sample_index_db fs) = [sample_revision]"
  "files (sample_index_db fs) = fs" "events (sample_index_db fs) = []" "snapshots (sample_index_db fs) = []"
  "chunks (sample_index_db fs) = []" "symbols (sample_index_db fs) = []"
  "next_uuid (sample_index_db fs) = 10" "ticks (sample_index_db fs) = 0"
  by (simp_all add: sample_index_db_def empty_db_def)

lemma sample_fields [simp]:
  "repo_id sample_index_repository = 1" "repo_owner_id sample_index_repository = 0"
  "repo_latest_revision_id sample_index_repository = Some 3" "repo_deleted_at sample_index_repository = None"
  "repo_status sample_index_repository = ReadyForIndexing"
  "run_id sample_index_run = 2" "run_owner_id sample_index_run = 0" "run_repository_id sample_index_run = 1"
  "run_status sample_index_run = RunQueued" "run_run_type sample_index_run = run_type_indexing"
  "rev_id sample_revision = 3" "rev_repository_id sample_revision = 1" "rev_commit_sha sample_revision = ''c''"
  "file_id (sample_file_row p) = 4" "file_revision_id (sample_file_row p) = 3"
  "file_normalized_path (sample_file_row p) = p" "file_indexing_status (sample_file_row p) = ''accepted''"
  "file_content (sample_file_row p) = None" "user_id sample_user = 0"
  by (simp_all add: sample_index_repository_def sample_repository_def sample_index_run_def sample_run_def
      sample_revision_def sample_file_row_def sample_user_def)

lemmas index_run_evals = index_repository_def index_revision_def start_index_run_def index_event_def
  get_repository_row_def get_run_row_def get_revision_row_def next_sequence_def insert_event_def add_row_def
  exists_run_def set_run_def snapshot_by_revision_def build_index_def external_def transition_def loaded_def
  allowed_state_transitions_def set_repository_def set_revision_def

lemma sample_index_down:
  "fst (worker_index down_env 1 2 (sample_index_db [])) = Inl (RuntimeError ''down'')"
  by (simp add: worker_index_def commit_or_rollback_def index_run_evals down_env_def sample_index_env_def
      cong: weak_congs)

lemma failed_index_blocks_reindex_witness:
  "\<exists>t. worker_index down_env 1 2 (sample_index_db []) = (Inl (RuntimeError ''down''), t)
     \<and> create_index_run sample_index_env 0 1 ''c'' ''ip'' t = (Inr (1, 2, False), t)"
proof -
  obtain t where t: "worker_index down_env 1 2 (sample_index_db []) = (Inl (RuntimeError ''down''), t)"
    using sample_index_down by (metis surjective_pairing)
  from failed_index_blocks_reindex [OF t, of "[]" sample_index_run sample_index_repository 3
      sample_index_env "''c''" "''ip''"] t
  show ?thesis by simp
qed

lemma pipeline_events_numbered_witness:
  "map event_sequence (run_events 2 (pipeline_exec sample_ingest_env down_env (CallIndex 1 2) (sample_index_db []))) =
   map int [1..<Suc (length (run_events 2 (pipeline_exec sample_ingest_env down_env (CallIndex 1 2) (sample_index_db []))))]"
proof (rule pipeline_events_numbered)
  show "events (sample_index_db []) = []" by simp
  show "reaches (pipeline_step sample_ingest_env down_env) (sample_index_db [])
      (pipeline_exec sample_ingest_env down_env (CallIndex 1 2) (sample_index_db []))"
    by (rule reaches_one) (auto simp only: pipeline_step_def)
qed

text \<open>A run over a revision without files succeeds.\<close>

definition empty_statistics :: "index_env \<Rightarrow> index_target \<Rightarrow> real \<Rightarrow> db \<Rightarrow> index_statistics" where
  "empty_statistics env tg started s = projr (fst (store_index env tg None started s))"

lemma store_empty_index:
  assumes "files s = []"
  shows "store_index env tg None started s
    = (Inr (empty_statistics env tg started s), s\<lparr>ticks := Suc (Suc (Suc (ticks s)))\<rparr>)"
proof -
  have "embed_drafts env [] [] st s = (Inr (st, []), s)" for st :: index_statistics and s :: db
    by (simp add: embed_drafts_def to_embed_def)
  then have "\<exists>st. store_index env tg None started s = (Inr st, s\<lparr>ticks := Suc (Suc (Suc (ticks s)))\<rparr>)"
    using assms by (simp add: store_index_def previous_chunks_of_def accepted_for_revision_def files_for_revision_def
      previous_files_of_def index_files_def store_symbols_def whenp_def add_chunks_def monotonic_def external_def
      Let_def cong: weak_congs)
  then show ?thesis by (auto simp: empty_statistics_def)
qed

lemma sample_index_succeeds:
  "\<not> isl (fst (worker_index sample_index_env 1 2 (sample_index_db [])))"
  by (simp add: worker_index_def commit_or_rollback_def index_run_evals sample_index_env_def
      new_snapshot_def insert_snapshot_def exists_user_def monotonic_def latest_ready_snapshot_def
      desc_nullslast_def desc_by_def store_empty_index finish_index_def set_snapshot_def
      cong: weak_congs)

lemma index_settles_witness:
  "\<exists>sid t. worker_index sample_index_env 1 2 (sample_index_db []) = (Inr sid, t) \<and> indexed 1 2 3 sid t"
proof -
  obtain sid t where t: "worker_index sample_index_env 1 2 (sample_index_db []) = (Inr sid, t)"
    using sample_index_succeeds by (cases "worker_index sample_index_env 1 2 (sample_index_db [])") (auto simp: isl_def, metis obj_sumE)
  from index_settles [OF t] t show ?thesis by auto
qed


text \<open>A run over one file of an unknown language: the fallback cuts it into one chunk.\<close>

definition note_file :: repository_file where
  "note_file = (sample_file_row ''a'')\<lparr>file_content := Some ''hello''\<rparr>"

definition sample_target :: index_target where
  "sample_target = \<lparr>tg_snapshot_id = 10, tg_owner_id = 0, tg_repository_id = 1, tg_revision_id = 3, tg_commit_sha = ''c''\<rparr>"

lemma note_file_fields [simp]:
  "file_id note_file = 4" "file_revision_id note_file = 3" "file_normalized_path note_file = ''a''"
  "file_indexing_status note_file = ''accepted''" "file_content note_file = Some ''hello''"
  by (simp_all add: note_file_def)

definition note_parsed :: parsed_file where
  "note_parsed = projr (registry_parse sample_ast ''a'' ''hello'')"

lemma note_parse: "registry_parse sample_ast ''a'' ''hello'' = Inr note_parsed"
  "pf_fallback_used note_parsed"
  unfolding note_parsed_def by code_simp+

definition note_drafts :: "indexed_chunk_draft list" where
  "note_drafts = snd (materialize_file sample_chunk_env sample_target note_file note_parsed)"

definition note_rows :: "code_symbol list" where
  "note_rows = fst (materialize_file sample_chunk_env sample_target note_file note_parsed)"

definition note_statistics :: index_statistics where
  "note_statistics = fst (projr (index_files sample_index_env sample_target [] [note_file] new_statistics))"

lemma note_index:
  "index_files sample_index_env sample_target [] [note_file] new_statistics = Inr (note_statistics, note_rows, note_drafts)"
  by (simp add: note_statistics_def note_rows_def note_drafts_def index_files_def index_file_def note_parse
      sample_index_env_def Let_def or_else_def split: prod.splits)

lemma index_statistics_add_up_witness:
  "st_files_changed note_statistics + st_files_unchanged note_statistics = 1
   \<and> st_symbols_extracted note_statistics = length note_rows \<and> 1 \<le> length note_drafts"
  using index_statistics_add_up [OF note_index] by simp

definition note_draft :: indexed_chunk_draft where
  "note_draft = whole_file_chunk sample_chunk_env sample_target note_file note_parsed ''hello''"

definition note_chunk :: code_chunk where
  "note_chunk = (chunk_of_draft note_draft)\<lparr>chunk_dense_embedding := Some [1]\<rparr>"

lemma note_chunk_key: "embedding_key note_chunk = embedding_key_from_draft note_draft"
  by (simp add: note_chunk_def chunk_of_draft_def embedding_key_def embedding_key_from_draft_def)

lemma unchanged_index_calls_no_provider_witness:
  "embed_drafts down_env [note_chunk] [note_draft] new_statistics empty_db
    = (Inr (new_statistics\<lparr>st_reused_vectors := 1\<rparr>, [note_draft\<lparr>dr_dense_embedding := Some [1]\<rparr>]), empty_db)"
proof -
  have v: "previous_vector [note_chunk] note_draft = Some [1]"
    by (simp add: previous_vector_def note_chunk_key) (simp add: note_chunk_def)
  show ?thesis
    using unchanged_index_calls_no_provider [of "[note_draft]" "[note_chunk]" down_env new_statistics empty_db] v
    by (simp add: new_statistics_def)
qed

definition hash_env :: index_env where
  "hash_env = sample_index_env\<lparr>ix_embed := deterministic_texts (\<lambda>_. ''ab'') (int 2), ix_dimensions := int 2\<rparr>"

lemma index_vectors_complete_witness:
  "\<exists>st out t. embed_drafts hash_env [] [note_draft] new_statistics empty_db = (Inr (st, out), t)
    \<and> list_all (\<lambda>d. \<exists>v. dr_dense_embedding d = Some v \<and> length v = 2) out
    \<and> st_embedding_vectors st = 1"
proof -
  have "\<not> isl (fst (embed_drafts hash_env [] [note_draft] new_statistics empty_db))"
  proof -
    obtain v where "mapr (deterministic_embed (\<lambda>_. ''ab'') 2) [dr_search_text note_draft] = Inr [v]"
      by (simp add: deterministic_embed_def Let_def)
    then have "ix_embed hash_env n [dr_search_text note_draft] = Inr [v]" for n
      by (simp add: hash_env_def deterministic_texts_def)
    moreover have "batch_texts [dr_search_text note_draft] (ix_batch_size hash_env) = Inr [[dr_search_text note_draft]]"
      by (simp add: hash_env_def sample_index_env_def batch_texts_def batches_from.simps Let_def)
    ultimately show ?thesis
      by (simp add: embed_drafts_def to_embed_def previous_vector_def Let_def external_def lift_res_def bindp_def)
  qed
  then obtain st out t where e: "embed_drafts hash_env [] [note_draft] new_statistics empty_db = (Inr (st, out), t)"
    by (metis isl_def prod.collapse sum.exhaust_sel)
  have "(\<forall>d \<in> set out. \<exists>v. dr_dense_embedding d = Some v \<and> length v = 2)
    \<and> st_embedding_vectors st = st_embedding_vectors new_statistics + length (to_embed [] [note_draft])
    \<and> st_reused_vectors st + length (to_embed [] [note_draft]) = st_reused_vectors new_statistics + length [note_draft]"
    by (rule index_vectors_complete [OF _ _ _ _ e]) (simp_all add: hash_env_def sample_index_env_def)
  then show ?thesis using e by (auto simp: list_all_iff to_embed_def previous_vector_def new_statistics_def)
qed


lemma sample_target_fields [simp]:
  "tg_snapshot_id sample_target = 10" "tg_revision_id sample_target = 3"
  by (simp_all add: sample_target_def)

text \<open>The same run with a stored snapshot writes the chunk of the file.\<close>

definition note_snapshot :: index_snapshot where
  "note_snapshot = \<lparr>snap_id = 10, snap_owner_id = 0, snap_repository_id = 1, snap_revision_id = 3,
     snap_commit_sha = ''c'', snap_status = SnapReady, snap_parser_name = [], snap_embedding_provider = [],
     snap_embedding_model = [], snap_embedding_dimensions = 1, snap_embedding_config = [], snap_statistics = [],
     snap_error_code = None, snap_error_summary = None, snap_indexed_at = None, snap_created_at = 0\<rparr>"

definition note_db :: db where
  "note_db = (sample_index_db [note_file])\<lparr>snapshots := [note_snapshot]\<rparr>"

lemma note_row:
  obtains r where "note_rows = [r]" "sym_file_id r = 4" "sym_start_line r = 1" "sym_end_line r = 1"
    "sym_parent_symbol_id r = None" "parent_name r = None"
proof -
  have "map (\<lambda>c. (sym_file_id c, sym_start_line c, sym_end_line c, sym_parent_symbol_id c, parent_name c)) note_rows
    = [(4, 1, 1, None, None)]" by code_simp
  then show ?thesis using that by (auto simp: map_eq_Cons_conv)
qed

lemma note_draft_row:
  obtains d where "note_drafts = [d]" "dr_snapshot_id d = 10" "dr_owner_id d = 0" "dr_repository_id d = 1"
    "dr_revision_id d = 3" "dr_file_id d = 4" "dr_dense_embedding d = None"
proof -
  have "map (\<lambda>d. (dr_snapshot_id d, dr_owner_id d, dr_repository_id d, dr_revision_id d, dr_file_id d,
      dr_dense_embedding d = None)) note_drafts = [(10, 0, 1, 3, 4, True)]" by code_simp
  then show ?thesis using that by (auto simp: map_eq_Cons_conv)
qed

lemma embed_one:
  assumes "dr_dense_embedding d = None"
  shows "embed_drafts sample_index_env [] [d] st s =
    (Inr (st\<lparr>st_embedding_batches := st_embedding_batches st + 1, st_embedding_vectors := st_embedding_vectors st + 1\<rparr>,
          [d\<lparr>dr_dense_embedding := Some [1]\<rparr>]), s\<lparr>ticks := Suc (ticks s)\<rparr>)"
  by (simp add: embed_drafts_def to_embed_def previous_vector_def sample_index_env_def batch_texts_def
      batches_from.simps Let_def external_def zero_fill_def bindp_def)

lemma parent_name_id [simp]: "parent_name (r\<lparr>sym_id := i\<rparr>) = parent_name r"
  by (simp add: parent_name_def)

lemma store_one_symbol:
  assumes "symbols s = []" "parent_name r = None" "sym_parent_symbol_id r = None" "sym_start_line r = 1"
    "sym_end_line r = 1" "sym_file_id r \<in> file_id ` set (files s)"
  shows "store_symbols [r] s
    = (Inr (), s\<lparr>next_uuid := Suc (next_uuid s), symbols := [r\<lparr>sym_id := next_uuid s\<rparr>]\<rparr>)"
  using assms by (simp add: store_symbols_def whenp_def add_symbol_def insert_symbol_def add_row_def set_symbol_def
      parent_link_def opt_ref_def update_where_def Let_def bindp_def thenp_def)

lemma store_note_index: "\<not> isl (fst (store_index sample_index_env sample_target None 0 note_db))"
proof -
  obtain r where r: "note_rows = [r]" "sym_file_id r = 4" "sym_start_line r = 1" "sym_end_line r = 1"
    "sym_parent_symbol_id r = None" "parent_name r = None" by (rule note_row)
  obtain d where d: "note_drafts = [d]" "dr_snapshot_id d = 10" "dr_owner_id d = 0" "dr_repository_id d = 1"
    "dr_revision_id d = 3" "dr_file_id d = 4" "dr_dense_embedding d = None" by (rule note_draft_row)
  have "\<exists>st'. index_files sample_index_env sample_target [] [note_file] st = Inr (st', note_rows, note_drafts)" for st
    by (simp add: note_rows_def note_drafts_def index_files_def index_file_def note_parse
        sample_index_env_def Let_def or_else_def split: prod.splits)
  then obtain f where i: "\<And>st. index_files sample_index_env sample_target [] [note_file] st = Inr (f st, [r], [d])"
    using r(1) d(1) by metis
  show ?thesis
    by (simp add: i store_index_def previous_chunks_of_def accepted_for_revision_def files_for_revision_def
      previous_files_of_def store_one_symbol add_chunks_def monotonic_def external_def
      insert_chunk_def add_row_def embed_one r d note_db_def
      exists_user_def chunk_of_draft_def note_snapshot_def distinct_paths_def
      Let_def cong: weak_congs)
qed

lemma index_writes_chunks_witness:
  "\<exists>st t. store_index sample_index_env sample_target None 0 note_db = (Inr st, t)
     \<and> (\<exists>c \<in> set (chunks t). chunk_file_id c = 4 \<and> chunk_snapshot_id c = 10)"
proof -
  obtain st t where t: "store_index sample_index_env sample_target None 0 note_db = (Inr st, t)"
    using store_note_index by (metis isl_def prod.collapse sum.exhaust_sel)
  from index_writes_chunks [OF t] obtain c where "c \<in> set (chunks t)" "chunk_file_id c = 4"
      "chunk_snapshot_id c = 10"
    by (auto simp: note_db_def chunk_of_file_def)
  with t show ?thesis by blast
qed

text \<open>Two constants of one assignment have the same text.\<close>

definition twin_ast :: py_ast where
  "twin_ast = \<lparr>ast_parse = (\<lambda>_. Inr [PyAssign [PyName ''a'', PyName ''b''] (PyName ''c'') 1 1]), ast_unparse = (\<lambda>_. None)\<rparr>"

definition twin_parsed :: parsed_file where
  "twin_parsed = projr (registry_parse twin_ast ''m.py'' [])"

lemma twin_parse: "registry_parse twin_ast ''m.py'' [] = Inr twin_parsed"
  "pf_symbols twin_parsed = [] @ hd (pf_symbols twin_parsed) # [] @ last (pf_symbols twin_parsed) # []"
  "symbol_source [] (hd (pf_symbols twin_parsed)) = symbol_source [] (last (pf_symbols twin_parsed))"
proof -
  have lang: "map_of supported_languages (casefold (path_suffix ''m.py'')) = Some ''Python''" by code_simp
  have m: "module_of ''m.py'' = Inr (Some ''m'')" by code_simp
  note evals = registry_parse_def lang parsers_def python_parse_def m twin_ast_def python_file_def twin_parsed_def
  show "registry_parse twin_ast ''m.py'' [] = Inr twin_parsed" by (simp add: evals)
  show "pf_symbols twin_parsed = [] @ hd (pf_symbols twin_parsed) # [] @ last (pf_symbols twin_parsed) # []" by code_simp
  show "symbol_source [] (hd (pf_symbols twin_parsed)) = symbol_source [] (last (pf_symbols twin_parsed))"
    by code_simp
qed

lemma repeated_text_breaks_indexing_witness:
  "\<exists>e t. worker_index (sample_index_env\<lparr>ix_ast := twin_ast\<rparr>) 1 2 (sample_index_db [sample_file_row ''m.py'']) = (Inl e, t)"
proof -
  have "\<exists>e t. worker_index (sample_index_env\<lparr>ix_ast := twin_ast\<rparr>) 1 2 (sample_index_db [sample_file_row ''m.py'']) = (Inl e, t)
      \<and> rows_of t = rows_of (sample_index_db [sample_file_row ''m.py''])"
    by (rule repeated_text_breaks_indexing [where r = sample_index_repository and vid = 3
          and f = "sample_file_row ''m.py''" and p = twin_parsed and a = "hd (pf_symbols twin_parsed)"
          and b = "last (pf_symbols twin_parsed)" and xs = "[]" and ys = "[]" and zs = "[]"])
      (use twin_parse in \<open>simp_all add: or_else_def\<close>)
  then show ?thesis by blast
qed


end
