(* ===== verification/Search.thy ===== *)
theory Search
  imports IndexWitnesses
begin

text \<open>
  The reading half of \<^verbatim>\<open>IndexingService\<close> (\<^verbatim>\<open>app/services/indexing.py\<close>): the status of an
  index, the list of symbols, and search with its three ranking methods and the selection of
  one piece of evidence per path. Real numbers stand for floats.
\<close>

section \<open>Ranking\<close>

text \<open>\<^verbatim>\<open>sorted(..., key=..., reverse=True)\<close> is stable: equal elements keep their order.\<close>

definition sorted_reverse :: "('a \<Rightarrow> real) \<Rightarrow> 'a list \<Rightarrow> 'a list" where
  "sorted_reverse k xs = sort_key (\<lambda>x. - k x) xs"

type_synonym ranked_chunks = "(code_chunk \<times> real) list"

definition dense_ranked :: "real list \<Rightarrow> code_chunk list \<Rightarrow> ranked_chunks" where
  "dense_ranked query_vector cs = sorted_reverse snd
     (map (\<lambda>c. (c, cosine_similarity query_vector
                   (case chunk_dense_embedding c of None \<Rightarrow> [] | Some v \<Rightarrow> v))) cs)"

definition lexical_ranked :: "string \<Rightarrow> code_chunk list \<Rightarrow> ranked_chunks" where
  "lexical_ranked query cs = sorted_reverse snd
     (map (\<lambda>c. (c, lexical_score query (chunk_search_text c) (chunk_symbol_name c) (chunk_qualified_name c))) cs)"

text \<open>Reciprocal ranks, added up over the two rankings.\<close>

definition add_rank :: "int \<times> (code_chunk \<times> real) \<Rightarrow> (uuid \<rightharpoonup> real) \<Rightarrow> (uuid \<rightharpoonup> real)" where
  "add_rank x m = (case x of (rank, c, _) \<Rightarrow>
     m(chunk_id c \<mapsto> (case m (chunk_id c) of None \<Rightarrow> 0 | Some y \<Rightarrow> y) + 1 / (60 + real_of_int rank)))"

definition add_ranks :: "ranked_chunks \<Rightarrow> (uuid \<rightharpoonup> real) \<Rightarrow> (uuid \<rightharpoonup> real)" where
  "add_ranks ranked m = fold add_rank (enumerate1 ranked) m"

definition ordered_map :: "real list \<Rightarrow> string \<Rightarrow> code_chunk list \<Rightarrow> (uuid \<rightharpoonup> real)" where
  "ordered_map query_vector query cs =
     add_ranks (lexical_ranked query cs) (add_ranks (dense_ranked query_vector cs) (\<lambda>_. None))"

definition hybrid_ranked :: "real list \<Rightarrow> string \<Rightarrow> code_chunk list \<Rightarrow> ranked_chunks" where
  "hybrid_ranked query_vector query cs =
     (let m = ordered_map query_vector query cs
      in sorted_reverse snd [(c, the (m (chunk_id c))). c \<leftarrow> cs, m (chunk_id c) \<noteq> None])"

definition ordered :: "string \<Rightarrow> real list \<Rightarrow> string \<Rightarrow> code_chunk list \<Rightarrow> ranked_chunks" where
  "ordered meth query_vector query cs =
     (if meth = ''dense'' then dense_ranked query_vector cs
      else if meth = ''lexical'' then lexical_ranked query cs
      else hybrid_ranked query_vector query cs)"

section \<open>Evidence\<close>

record search_evidence =
  ev_path :: string
  ev_language :: "string option"
  ev_start_line :: int
  ev_end_line :: int
  ev_symbol :: "string option"
  ev_score :: real
  ev_retrieval_method :: string
  ev_exact_content :: string
  ev_revision_id :: string
  ev_commit_sha :: string
  ev_symbol_type :: string
  ev_qualified_name :: "string option"
  ev_chunk_id :: string

definition evidence_of :: "string \<Rightarrow> code_chunk \<times> real \<Rightarrow> search_evidence" where
  "evidence_of meth x = (case x of (c, score) \<Rightarrow>
     \<lparr>ev_path = chunk_normalized_path c, ev_language = chunk_language c,
      ev_start_line = chunk_start_line c, ev_end_line = chunk_end_line c,
      ev_symbol = chunk_symbol_name c, ev_score = score, ev_retrieval_method = meth,
      ev_exact_content = chunk_exact_content c, ev_revision_id = uuid_str (chunk_revision_id c),
      ev_commit_sha = chunk_commit_sha c, ev_symbol_type = chunk_symbol_type c,
      ev_qualified_name = chunk_qualified_name c, ev_chunk_id = uuid_str (chunk_id c)\<rparr>)"

text \<open>The loop over the ranking with the paths seen and the number of pieces found so far.\<close>

fun evidence_loop :: "int \<Rightarrow> string \<Rightarrow> string set \<Rightarrow> nat \<Rightarrow> ranked_chunks \<Rightarrow> search_evidence list" where
  "evidence_loop limit meth seen n [] = []"
| "evidence_loop limit meth seen n (x # rest) =
     (if chunk_normalized_path (fst x) \<in> seen then evidence_loop limit meth seen n rest
      else evidence_of meth x #
        (if limit \<le> int (Suc n) then []
         else evidence_loop limit meth (insert (chunk_normalized_path (fst x)) seen) (Suc n) rest))"

definition evidence :: "int \<Rightarrow> string \<Rightarrow> ranked_chunks \<Rightarrow> search_evidence list" where
  "evidence limit meth ranked = evidence_loop limit meth {} 0 ranked"

section \<open>Search\<close>

record search_env = index_env +
  ix_top_k :: int

definition search_limit :: "search_env \<Rightarrow> int option \<Rightarrow> int" where
  "search_limit env top_k = (case top_k of None \<Rightarrow> ix_top_k env | Some k \<Rightarrow> if k = 0 then ix_top_k env else k)"

definition query_vector :: "search_env \<Rightarrow> string \<Rightarrow> real list session" where
  "query_vector env query = bindp (external (\<lambda>n. ix_embed env n [query])) (\<lambda>vs. case vs of
     [] \<Rightarrow> raise (IndexError ''list index out of range'') | v # _ \<Rightarrow> ret v)"

definition search_chunks ::
    "search_env \<Rightarrow> uuid \<Rightarrow> uuid \<Rightarrow> string \<Rightarrow> string option \<Rightarrow> string option \<Rightarrow> int \<Rightarrow> string \<Rightarrow>
     search_evidence list session" where
  "search_chunks env repository_id revision_id query path_prefix language limit meth =
     bindp (chunks_for_repository_revision repository_id revision_id path_prefix language) (\<lambda>cs.
     if cs = [] then ret []
     else bindp (query_vector env query) (\<lambda>v. ret (evidence limit meth (ordered meth v query cs))))"

definition search ::
    "search_env \<Rightarrow> uuid \<Rightarrow> uuid \<Rightarrow> string \<Rightarrow> uuid option \<Rightarrow> string option \<Rightarrow> string option \<Rightarrow>
     int option \<Rightarrow> string \<Rightarrow> search_evidence list session" where
  "search env owner_id repository_id query revision_id path_prefix language top_k meth =
     bindp (require (repository_owned_by_id owner_id repository_id)) (\<lambda>repository.
     case (case revision_id of Some v \<Rightarrow> Some v | None \<Rightarrow> repo_latest_indexed_revision_id repository) of
       None \<Rightarrow> ret []
     | Some target \<Rightarrow> search_chunks env (repo_id repository) target query path_prefix language
                        (search_limit env top_k) meth)"

section \<open>Symbols\<close>

record symbol_view =
  sv_id :: string
  sv_file_id :: string
  sv_revision_id :: string
  sv_normalized_path :: string
  sv_language :: "string option"
  sv_symbol_type :: string
  sv_name :: string
  sv_qualified_name :: string
  sv_start_line :: int
  sv_end_line :: int
  sv_signature :: "string option"
  sv_parent_symbol_id :: "string option"
  sv_symbol_metadata :: json_object

definition symbol_view_of :: "code_symbol \<times> repository_file \<Rightarrow> symbol_view" where
  "symbol_view_of x = (case x of (c, f) \<Rightarrow>
     \<lparr>sv_id = uuid_str (sym_id c), sv_file_id = uuid_str (sym_file_id c),
      sv_revision_id = uuid_str (file_revision_id f), sv_normalized_path = file_normalized_path f,
      sv_language = file_language f, sv_symbol_type = sym_symbol_type c, sv_name = sym_name c,
      sv_qualified_name = sym_qualified_name c, sv_start_line = sym_start_line c,
      sv_end_line = sym_end_line c, sv_signature = sym_signature c,
      sv_parent_symbol_id = map_option uuid_str (sym_parent_symbol_id c),
      sv_symbol_metadata = sym_symbol_metadata c\<rparr>)"

definition list_symbols ::
    "uuid \<Rightarrow> uuid \<Rightarrow> uuid option \<Rightarrow> string option \<Rightarrow> string option \<Rightarrow> string option \<Rightarrow> nat \<Rightarrow> nat \<Rightarrow>
     symbol_view list session" where
  "list_symbols owner_id repository_id revision_id symbol_type name_query normalized_path limit offset =
     bindp (require (repository_owned_by_id owner_id repository_id)) (\<lambda>repository.
     case (case revision_id of Some v \<Rightarrow> Some v | None \<Rightarrow> repo_latest_indexed_revision_id repository) of
       None \<Rightarrow> ret []
     | Some target \<Rightarrow>
         bindp (symbols_for_repository_revision (repo_id repository) target symbol_type name_query
                  normalized_path (Some limit) offset) (\<lambda>rows.
         ret (map symbol_view_of rows)))"

section \<open>Index status\<close>

record snapshot_view =
  nv_id :: string
  nv_revision_id :: string
  nv_commit_sha :: string
  nv_status :: snapshot_status
  nv_embedding_model :: string
  nv_embedding_dimensions :: int
  nv_statistics :: json_object
  nv_indexed_at :: "timestamp option"
  nv_error_code :: "string option"
  nv_error_summary :: "string option"

record index_status =
  is_repository_id :: string
  is_latest_revision_id :: "string option"
  is_latest_indexed_revision_id :: "string option"
  is_status :: repo_state
  is_snapshot :: "snapshot_view option"
  is_ready_snapshot_id :: "string option"

definition snapshot_view_of :: "index_snapshot \<Rightarrow> snapshot_view" where
  "snapshot_view_of n =
     \<lparr>nv_id = uuid_str (snap_id n), nv_revision_id = uuid_str (snap_revision_id n),
      nv_commit_sha = snap_commit_sha n, nv_status = snap_status n,
      nv_embedding_model = snap_embedding_model n, nv_embedding_dimensions = snap_embedding_dimensions n,
      nv_statistics = snap_statistics n, nv_indexed_at = snap_indexed_at n,
      nv_error_code = snap_error_code n, nv_error_summary = snap_error_summary n\<rparr>"

definition get_index_status :: "uuid \<Rightarrow> uuid \<Rightarrow> index_status session" where
  "get_index_status owner_id repository_id =
     bindp (require (repository_owned_by_id owner_id repository_id)) (\<lambda>repository.
     bindp (latest_snapshot (repo_id repository)) (\<lambda>latest.
     bindp (latest_ready_snapshot (repo_id repository)) (\<lambda>ready.
     ret \<lparr>is_repository_id = uuid_str (repo_id repository),
          is_latest_revision_id = map_option uuid_str (repo_latest_revision_id repository),
          is_latest_indexed_revision_id = map_option uuid_str (repo_latest_indexed_revision_id repository),
          is_status = repo_status repository,
          is_snapshot = map_option snapshot_view_of latest,
          is_ready_snapshot_id = map_option (\<lambda>n. uuid_str (snap_id n)) ready\<rparr>)))"

section \<open>One piece of evidence per path\<close>

text \<open>What the loop computes: the first chunk of every path, cut off at the limit.\<close>

abbreviation path_of :: "code_chunk \<times> real \<Rightarrow> string" where
  "path_of x \<equiv> chunk_normalized_path (fst x)"

fun first_per_path :: "ranked_chunks \<Rightarrow> ranked_chunks" where
  "first_per_path [] = []"
| "first_per_path (x # xs) = x # filter (\<lambda>y. path_of y \<noteq> path_of x) (first_per_path xs)"

lemma evidence_loop_take:
  assumes "int n < max 1 limit"
  shows "evidence_loop limit meth seen n xs
    = map (evidence_of meth) (take (nat (max 1 limit) - n) (filter (\<lambda>x. path_of x \<notin> seen) (first_per_path xs)))"
  using assms
proof (induction xs arbitrary: seen n)
  case (Cons x xs)
  show ?case
  proof (cases "path_of x \<in> seen")
    case True
    then have "filter (\<lambda>y. path_of y \<notin> seen) (filter (\<lambda>y. path_of y \<noteq> path_of x) (first_per_path xs))
        = filter (\<lambda>y. path_of y \<notin> seen) (first_per_path xs)" by (auto simp: filter_filter intro: filter_cong)
    with True Cons show ?thesis by simp
  next
    case False
    have f: "filter (\<lambda>y. path_of y \<notin> seen) (filter (\<lambda>y. path_of y \<noteq> path_of x) (first_per_path xs))
        = filter (\<lambda>y. path_of y \<notin> insert (path_of x) seen) (first_per_path xs)"
      by (auto simp: filter_filter intro: filter_cong)
    show ?thesis
    proof (cases "limit \<le> int (Suc n)")
      case True
      then have "nat (max 1 limit) - n = 1" using Cons.prems by linarith
      with True False show ?thesis by simp
    next
      case more: False
      then have "nat (max 1 limit) - n = Suc (nat (max 1 limit) - Suc n)" "int (Suc n) < max 1 limit"
        by linarith+
      with more False f Cons.IH show ?thesis by simp
    qed
  qed
qed simp

lemma evidence_take:
  "evidence limit meth xs = map (evidence_of meth) (take (nat (max 1 limit)) (first_per_path xs))"
  using evidence_loop_take [of 0 limit meth "{}" xs] by (simp add: evidence_def)

lemma first_per_path_subset: "set (first_per_path xs) \<subseteq> set xs"
  by (induction xs) auto

lemma first_per_path_distinct: "distinct (map path_of (first_per_path xs))"
  by (induction xs) (auto simp: distinct_map_filter)

definition descending :: "ranked_chunks \<Rightarrow> bool" where
  "descending xs = sorted_wrt (\<lambda>x y. snd y \<le> snd x) xs"

lemma first_per_path_descending: "descending xs \<Longrightarrow> descending (first_per_path xs)"
proof (induction xs)
  case (Cons x xs)
  then have "\<forall>y \<in> set (first_per_path xs). snd y \<le> snd x"
    using first_per_path_subset [of xs] by (auto simp: descending_def)
  with Cons show ?case by (simp add: descending_def sorted_wrt_filter)
qed (simp add: descending_def)

lemma first_per_path_covers:
  "descending xs \<Longrightarrow> x \<in> set xs \<Longrightarrow> \<exists>y \<in> set (first_per_path xs). path_of y = path_of x \<and> snd x \<le> snd y"
proof (induction xs)
  case (Cons a xs)
  show ?case
  proof (cases "path_of x = path_of a")
    case True
    with Cons.prems show ?thesis by (auto simp: descending_def)
  next
    case False
    with Cons obtain y where "y \<in> set (first_per_path xs)" "path_of y = path_of x" "snd x \<le> snd y"
      by (auto simp: descending_def)
    with False show ?thesis by (intro bexI [of _ y]) auto
  qed
qed simp

lemma descending_take:
  assumes "descending xs" "y \<in> set xs" "y \<notin> set (take n xs)"
  shows "n < length xs \<and> (\<forall>z \<in> set (take n xs). snd y \<le> snd z)"
proof -
  have "y \<in> set (drop n xs)" using assms(2,3) by (metis Un_iff append_take_drop_id set_append)
  moreover have "sorted_wrt (\<lambda>x y. snd y \<le> snd x) (take n xs @ drop n xs)"
    using assms(1) by (simp add: descending_def)
  ultimately show ?thesis by (auto simp only: sorted_wrt_append) (metis drop_all empty_iff empty_set not_le)
qed

section \<open>Rankings\<close>

text \<open>The contract of a ranking method: it permutes the chunks and puts better ones first.\<close>

locale ranking =
  fixes rank :: "code_chunk list \<Rightarrow> ranked_chunks"
  assumes permutes: "mset (map fst (rank cs)) = mset cs"
    and best_first: "descending (rank cs)"
begin

lemma ranks_all: "fst ` set (rank cs) = set cs"
  using arg_cong [OF permutes [of cs], of set_mset] by simp

text \<open>
  The evidence has one entry per path, in descending order, at most \<open>limit\<close> many, each of a
  ranked chunk; and a chunk without an entry as good as it was pushed out by a full list of
  better ones.
\<close>

lemma evidence_facts:
  "distinct (map ev_path (evidence limit meth (rank cs)))"
  "sorted_wrt (\<lambda>a b. ev_score b \<le> ev_score a) (evidence limit meth (rank cs))"
  "int (length (evidence limit meth (rank cs))) \<le> max 1 limit"
  "e \<in> set (evidence limit meth (rank cs)) \<Longrightarrow> \<exists>c \<in> set cs. (c, ev_score e) \<in> set (rank cs) \<and> e = evidence_of meth (c, ev_score e)"
proof -
  let ?xs = "take (nat (max 1 limit)) (first_per_path (rank cs))"
  have paths: "ev_path \<circ> evidence_of meth = path_of" "ev_score \<circ> evidence_of meth = snd"
    by (auto simp: evidence_of_def fun_eq_iff)
  show "distinct (map ev_path (evidence limit meth (rank cs)))"
    using first_per_path_distinct [of "rank cs"] by (simp add: evidence_take paths take_map [symmetric])
  have "descending ?xs" using first_per_path_descending [OF best_first] by (simp add: descending_def sorted_wrt_take)
  then show "sorted_wrt (\<lambda>a b. ev_score b \<le> ev_score a) (evidence limit meth (rank cs))"
    by (simp add: evidence_take sorted_wrt_map descending_def evidence_of_def case_prod_beta)
  show "int (length (evidence limit meth (rank cs))) \<le> max 1 limit"
    by (simp add: evidence_take)
  assume "e \<in> set (evidence limit meth (rank cs))"
  then obtain c x where "(c, x) \<in> set (rank cs)" "e = evidence_of meth (c, x)"
    using first_per_path_subset [of "rank cs"] by (auto simp: evidence_take dest!: in_set_takeD)
  moreover from this(1) have "c \<in> set cs" using ranks_all [of cs] by force
  ultimately show "\<exists>c \<in> set cs. (c, ev_score e) \<in> set (rank cs) \<and> e = evidence_of meth (c, ev_score e)"
    by (auto simp: evidence_of_def)
qed

lemma evidence_best:
  assumes "c \<in> set cs" "(c, x) \<in> set (rank cs)"
  shows "(\<exists>e \<in> set (evidence limit meth (rank cs)). ev_path e = chunk_normalized_path c \<and> x \<le> ev_score e)
    \<or> (int (length (evidence limit meth (rank cs))) = max 1 limit
       \<and> (\<forall>e \<in> set (evidence limit meth (rank cs)). x \<le> ev_score e))"
proof -
  let ?fs = "first_per_path (rank cs)" and ?n = "nat (max 1 limit)"
  from first_per_path_covers [OF best_first assms(2)] obtain y where
    y: "y \<in> set ?fs" "path_of y = chunk_normalized_path c" "x \<le> snd y" by auto
  show ?thesis
  proof (cases "y \<in> set (take ?n ?fs)")
    case True
    then have "evidence_of meth y \<in> set (evidence limit meth (rank cs))" by (simp add: evidence_take)
    moreover have "ev_path (evidence_of meth y) = path_of y" "ev_score (evidence_of meth y) = snd y"
      by (simp_all add: evidence_of_def case_prod_beta)
    ultimately show ?thesis using y by metis
  next
    case False
    note full = descending_take [OF first_per_path_descending [OF best_first] y(1) False]
    then have "x \<le> ev_score e" if "e \<in> set (evidence limit meth (rank cs))" for e
      using that y(3) by (force simp: evidence_take evidence_of_def case_prod_beta)
    moreover have "int (length (evidence limit meth (rank cs))) = max 1 limit"
      using full by (simp add: evidence_take)
    ultimately show ?thesis by blast
  qed
qed

end

lemma descending_reverse: "descending (sorted_reverse snd xs)"
  using sorted_sort_key [of "\<lambda>x. - snd x" xs]
  by (simp add: descending_def sorted_reverse_def sorted_map)

lemma mset_reverse [simp]: "mset (sorted_reverse k xs) = mset xs"
  by (simp add: sorted_reverse_def)

lemma mset_map_reverse: "mset (map fst (sorted_reverse k (map (\<lambda>c. (c, f c)) cs))) = mset cs"
  by (simp add: multiset.map_comp comp_def)

interpretation dense: ranking "dense_ranked v" for v
  by unfold_locales (simp_all only: dense_ranked_def mset_map_reverse descending_reverse)

interpretation lexical: ranking "lexical_ranked q" for q
  by unfold_locales (simp_all only: lexical_ranked_def mset_map_reverse descending_reverse)

section \<open>Reciprocal ranks\<close>

lemma enumerate1_snd [simp]: "map snd (enumerate1 xs) = xs"
  by (simp add: enumerate1_def del: upt_Suc)

lemma add_ranks_dom:
  "dom (add_ranks ranked m) = dom m \<union> chunk_id ` fst ` set ranked"
proof -
  have "dom (fold add_rank xs m) = dom m \<union> chunk_id ` fst ` snd ` set xs" for xs m
    by (induction xs arbitrary: m) (auto simp: add_rank_def split: prod.splits)
  moreover have "snd ` set (enumerate1 ranked) = set ranked"
    by (metis enumerate1_snd set_map)
  ultimately show ?thesis by (simp add: add_ranks_def)
qed

lemma ordered_map_dom: "dom (ordered_map v q cs) = chunk_id ` set cs"
  by (auto simp: ordered_map_def add_ranks_dom dense.ranks_all lexical.ranks_all)

lemma hybrid_ranked_all:
  "hybrid_ranked v q cs = sorted_reverse snd (map (\<lambda>c. (c, the (ordered_map v q cs (chunk_id c)))) cs)"
proof -
  have "ordered_map v q cs (chunk_id c) \<noteq> None" if "c \<in> set cs" for c
    using that ordered_map_dom [of v q cs] by (auto simp: dom_def set_eq_iff)
  then have "[(c, the (ordered_map v q cs (chunk_id c))). c \<leftarrow> xs, ordered_map v q cs (chunk_id c) \<noteq> None]
      = map (\<lambda>c. (c, the (ordered_map v q cs (chunk_id c)))) xs" if "set xs \<subseteq> set cs" for xs
    using that by (induction xs) auto
  then show ?thesis by (simp add: hybrid_ranked_def Let_def)
qed

interpretation hybrid: ranking "hybrid_ranked v q" for v q
  by unfold_locales (simp_all only: hybrid_ranked_all mset_map_reverse descending_reverse)

interpretation every_method: ranking "ordered meth v q" for meth v q
  by unfold_locales
    (simp_all add: ordered_def dense.permutes lexical.permutes hybrid.permutes
      dense.best_first lexical.best_first hybrid.best_first del: mset_map)

text \<open>The score a ranking adds to the chunk at position \<open>i\<close>.\<close>

lemma add_rank_upd: "add_rank x m = m(chunk_id (fst (snd x)) \<mapsto>
    (case m (chunk_id (fst (snd x))) of None \<Rightarrow> 0 | Some y \<Rightarrow> y) + 1 / (60 + real_of_int (fst x)))"
  by (simp add: add_rank_def case_prod_beta)

lemma fold_add_rank:
  assumes "distinct (map (\<lambda>x. chunk_id (fst (snd x))) xs)"
  shows "fold add_rank xs m i = (case map_of (map (\<lambda>x. (chunk_id (fst (snd x)), fst x)) xs) i of
     None \<Rightarrow> m i | Some rank \<Rightarrow> Some ((case m i of None \<Rightarrow> 0 | Some y \<Rightarrow> y) + 1 / (60 + real_of_int rank)))"
  using assms
proof (induction xs arbitrary: m)
  case (Cons x xs)
  show ?case
  proof (cases "i = chunk_id (fst (snd x))")
    case True
    with Cons.prems have "map_of (map (\<lambda>x. (chunk_id (fst (snd x)), fst x)) xs) i = None"
      by (simp add: map_of_eq_None_iff image_image)
    with True Cons show ?thesis by (simp add: add_rank_upd)
  next
    case False
    then have "add_rank x m i = m i" by (simp add: add_rank_upd)
    with False Cons show ?thesis by (simp split: option.split)
  qed
qed simp

lemma enumerate1_nth: "n < length xs \<Longrightarrow> enumerate1 xs ! n = (int (Suc n), xs ! n)"
  by (simp add: enumerate1_def del: upt_Suc)

lemma add_ranks_nth:
  assumes "distinct (map (chunk_id \<circ> fst) ranked)" "n < length ranked"
  shows "add_ranks ranked m (chunk_id (fst (ranked ! n)))
    = Some ((case m (chunk_id (fst (ranked ! n))) of None \<Rightarrow> 0 | Some y \<Rightarrow> y) + 1 / (61 + real n))"
proof -
  let ?xs = "enumerate1 ranked"
  have keys: "map (\<lambda>x. chunk_id (fst (snd x))) ?xs = map (chunk_id \<circ> fst) ranked"
    by (metis (mono_tags, lifting) comp_def enumerate1_snd map_eq_conv map_map)
  have len: "length ?xs = length ranked" by (simp add: enumerate1_def del: upt_Suc)
  have "(chunk_id (fst (ranked ! n)), int (Suc n)) \<in> set (map (\<lambda>x. (chunk_id (fst (snd x)), fst x)) ?xs)"
    using nth_mem [of n ?xs] assms(2) len enumerate1_nth [OF assms(2)] by (force simp: image_iff)
  moreover have "distinct (map fst (map (\<lambda>x. (chunk_id (fst (snd x)), fst x)) ?xs))"
    using assms(1) keys by (simp add: comp_def)
  ultimately have "map_of (map (\<lambda>x. (chunk_id (fst (snd x)), fst x)) ?xs) (chunk_id (fst (ranked ! n))) = Some (int (Suc n))"
    by (rule map_of_is_SomeI [rotated])
  then show ?thesis
    using fold_add_rank [of ?xs m] assms(1) keys by (simp add: add_ranks_def)
qed

section \<open>What search returns\<close>

text \<open>
  The abstract specification: one piece of evidence per path, best first, no more than the
  limit, each of a ranked chunk with its score; and a ranked chunk is either beaten by the
  evidence of its path or left out because the list is full of evidence at least as good.
\<close>

definition best_evidence :: "int \<Rightarrow> string \<Rightarrow> ranked_chunks \<Rightarrow> search_evidence list \<Rightarrow> bool" where
  "best_evidence limit meth ranked out \<longleftrightarrow>
     distinct (map ev_path out) \<and> sorted_wrt (\<lambda>a b. ev_score b \<le> ev_score a) out
   \<and> int (length out) \<le> max 1 limit
   \<and> (\<forall>e \<in> set out. \<exists>x \<in> set ranked. e = evidence_of meth x)
   \<and> (\<forall>(c, x) \<in> set ranked.
        (\<exists>e \<in> set out. ev_path e = chunk_normalized_path c \<and> x \<le> ev_score e)
      \<or> (int (length out) = max 1 limit \<and> (\<forall>e \<in> set out. x \<le> ev_score e)))"

context ranking
begin

lemma rank_length: "length (rank cs) = length cs"
  using arg_cong [OF permutes [of cs], of size] by simp

lemma rank_distinct: "distinct (map chunk_id cs) \<Longrightarrow> distinct (map (chunk_id \<circ> fst) (rank cs))"
proof -
  have "mset (map chunk_id (map fst (rank cs))) = mset (map chunk_id cs)"
    using permutes [of cs] by (metis mset_map)
  then show "distinct (map chunk_id cs) \<Longrightarrow> distinct (map (chunk_id \<circ> fst) (rank cs))"
    using mset_eq_imp_distinct_iff by (metis map_map)
qed

lemma best: "best_evidence limit meth (rank cs) (evidence limit meth (rank cs))"
proof -
  have "(\<exists>e \<in> set (evidence limit meth (rank cs)). ev_path e = chunk_normalized_path c \<and> x \<le> ev_score e)
      \<or> (int (length (evidence limit meth (rank cs))) = max 1 limit
         \<and> (\<forall>e \<in> set (evidence limit meth (rank cs)). x \<le> ev_score e))"
    if "(c, x) \<in> set (rank cs)" for c x
    by (rule evidence_best [OF _ that]) (use that ranks_all [of cs] in force)
  moreover have "\<exists>x \<in> set (rank cs). e = evidence_of meth x"
    if "e \<in> set (evidence limit meth (rank cs))" for e
    using evidence_facts(4) [OF that] by blast
  ultimately show ?thesis
    unfolding best_evidence_def using evidence_facts(1-3) [of limit meth cs] by blast
qed

end

definition selected_chunks :: "uuid \<Rightarrow> uuid \<Rightarrow> string option \<Rightarrow> string option \<Rightarrow> db \<Rightarrow> code_chunk list" where
  "selected_chunks i v path_prefix language s = order_chunks (filter (chunk_selected i v path_prefix language) (chunks s))"

lemma query_vector_Inr:
  "query_vector env q s = (Inr v, t) \<Longrightarrow>
     t = s\<lparr>ticks := Suc (ticks s)\<rparr> \<and> (\<exists>vs. ix_embed env (ticks s) [q] = Inr (v # vs))"
  unfolding query_vector_def bindp_eq_Inr external_def
  by (elim exE conjE) (auto split: list.split_asm)

lemma search_cases:
  assumes "search env own i q rv path_prefix language k meth s = (Inr out, t)"
  obtains (no_index) r where "owns_repository s own r" "repo_id r = i" "rv = None"
      "repo_latest_indexed_revision_id r = None" "out = []" "t = s"
  | (chunks) r v target where "owns_repository s own r" "repo_id r = i"
      "(case rv of Some x \<Rightarrow> Some x | None \<Rightarrow> repo_latest_indexed_revision_id r) = Some target"
      "out = evidence (search_limit env k) meth
         (ordered meth v q (selected_chunks i target path_prefix language s))"
      "t = s\<lparr>ticks := ticks t\<rparr>"
      "selected_chunks i target path_prefix language s = [] \<or> (\<exists>vs. ix_embed env (ticks s) [q] = Inr (v # vs))"
proof -
  from assms obtain r u where r: "require (repository_owned_by_id own i) s = (Inr r, u)"
    and rest: "(case (case rv of Some x \<Rightarrow> Some x | None \<Rightarrow> repo_latest_indexed_revision_id r) of
       None \<Rightarrow> ret []
     | Some target \<Rightarrow> search_chunks env (repo_id r) target q path_prefix language (search_limit env k) meth) u
       = (Inr out, t)"
    by (auto simp: search_def bindp_eq_Inr)
  from repo_lookup.require_sound [OF r] have own: "repo_id r = i" "owns_repository s own r" "u = s" by auto
  show ?thesis
  proof (cases "case rv of Some x \<Rightarrow> Some x | None \<Rightarrow> repo_latest_indexed_revision_id r")
    case None
    with own rest show ?thesis by (intro no_index) (auto split: option.splits)
  next
    case (Some target)
    have empty: "evidence l m (ordered m v q []) = []" for l m v
    proof -
      have "fst ` set (ordered m v q []) = {}" using every_method.ranks_all [of m v q "[]"] by simp
      then show ?thesis by (simp add: evidence_def)
    qed
    from Some own rest have sc: "search_chunks env i target q path_prefix language (search_limit env k) meth s = (Inr out, t)"
      by simp
    then obtain v where "out = evidence (search_limit env k) meth
         (ordered meth v q (selected_chunks i target path_prefix language s))" "t = s\<lparr>ticks := ticks t\<rparr>"
         "selected_chunks i target path_prefix language s = [] \<or> (\<exists>vs. ix_embed env (ticks s) [q] = Inr (v # vs))"
      using empty by (auto simp: search_chunks_def selected_chunks_def chunks_for_repository_revision_def
          bindp_eq_Inr split: if_splits dest!: query_vector_Inr)
    with own Some show ?thesis by (intro chunks) auto
  qed
qed

text \<open>
  C3: search refines its specification: with the vector the provider gives the query (needed
  only when some chunk passes the filters), the result is a best-first list with one piece of evidence per path, at most the limit
  long, of the chunks of the revision that pass the filters, and nothing better is left out;
  it is computed without changing a row.
\<close>

theorem search_returns_best:
  assumes "search env own i q (Some target) path_prefix language k meth s = (Inr out, t)"
  shows "\<exists>v. best_evidence (search_limit env k) meth
      (ordered meth v q (selected_chunks i target path_prefix language s)) out
    \<and> (selected_chunks i target path_prefix language s = [] \<or> (\<exists>vs. ix_embed env (ticks s) [q] = Inr (v # vs)))
    \<and> rows_of t = rows_of s"
  using assms
proof (cases rule: search_cases)
  case (chunks r v target')
  have "rows_of t = rows_of s" using chunks(5) rows_of_updates(2) by metis
  moreover have "best_evidence (search_limit env k) meth
      (ordered meth v q (selected_chunks i target path_prefix language s)) out"
    using chunks(3) every_method.best unfolding chunks(4) by simp
  ultimately show ?thesis using chunks(3,6) by auto
qed simp

text \<open>
  C7: search stays within one repository: the requester owns it and it is not deleted, and
  every piece of evidence is, field by field, a chunk of that repository and of the revision
  searched, in the language asked for.
\<close>

theorem search_within_repository:
  assumes "search env own i q rv path_prefix language k meth s = (Inr out, t)" "e \<in> set out"
  shows "\<exists>r \<in> set (repositories s). repo_id r = i \<and> repo_owner_id r = own \<and> repo_deleted_at r = None
    \<and> (\<exists>c \<in> set (chunks s). chunk_repository_id c = i \<and> e = evidence_of meth (c, ev_score e)
        \<and> Some (chunk_revision_id c) = (case rv of Some v \<Rightarrow> Some v | None \<Rightarrow> repo_latest_indexed_revision_id r)
        \<and> opt_eq (map_option Some language) (chunk_language c))"
  using assms
proof (cases rule: search_cases)
  case (chunks r v target)
  from every_method.evidence_facts(4) [OF assms(2) [unfolded chunks(4)]] obtain c where
    "c \<in> set (selected_chunks i target path_prefix language s)" "e = evidence_of meth (c, ev_score e)" by blast
  then have "c \<in> set (Domain.chunks s)" "chunk_selected i target path_prefix language c"
    by (auto simp: selected_chunks_def order_chunks_def)
  with chunks \<open>e = evidence_of meth (c, ev_score e)\<close> show ?thesis
    by (intro bexI [of _ r] conjI bexI [of _ c])
      (auto simp: owns_repository_def chunk_selected_def opt_eq_def split: option.splits)
qed simp

text \<open>
  Somebody else's repository, a deleted one and one that does not exist look alike to
  the three readers of an index: NotFound, with nothing read, embedded or changed.
\<close>

theorem foreign_index_hidden:
  assumes "\<not> (\<exists>r \<in> set (repositories s). repo_id r = i \<and> repo_owner_id r = own \<and> repo_deleted_at r = None)"
  shows "search env own i q rv path_prefix language k meth s = (Inl (AppErr not_found), s)
    \<and> list_symbols own i rv ty name path limit offset s = (Inl (AppErr not_found), s)
    \<and> get_index_status own i s = (Inl (AppErr not_found), s)"
proof -
  have "filter (\<lambda>r. repo_id r = i \<and> repo_owner_id r = own \<and> repo_deleted_at r = None) (repositories s) = []"
    using assms by (auto simp: filter_empty_conv)
  then have "require (repository_owned_by_id own i) s = (Inl (AppErr not_found), s)"
    by (simp add: repository_owned_by_id_def require_def)
  then show ?thesis by (simp add: search_def list_symbols_def get_index_status_def bindp_def)
qed

text \<open>
  Hybrid search scores by reciprocal ranks: a chunk at position \<open>m\<close> of the dense and
  \<open>n\<close> of the lexical ranking, counted from 0, gets \<open>1 / (61 + m) + 1 / (61 + n)\<close>.
\<close>

theorem hybrid_score_by_ranks:
  assumes "distinct (map chunk_id cs)"
    and "m < length cs" "fst (dense_ranked v cs ! m) = c"
    and "n < length cs" "fst (lexical_ranked q cs ! n) = c"
  shows "(c, 1 / (61 + real m) + 1 / (61 + real n)) \<in> set (hybrid_ranked v q cs)"
proof -
  have "add_ranks (dense_ranked v cs) (\<lambda>_. None) (chunk_id c) = Some (1 / (61 + real m))"
    using add_ranks_nth [of "dense_ranked v cs" m "\<lambda>_. None"] dense.rank_distinct dense.rank_length assms by simp
  then have "ordered_map v q cs (chunk_id c) = Some (1 / (61 + real m) + 1 / (61 + real n))"
    using add_ranks_nth [of "lexical_ranked q cs" n "add_ranks (dense_ranked v cs) (\<lambda>_. None)"]
      lexical.rank_distinct lexical.rank_length assms by (simp add: ordered_map_def)
  moreover have "c \<in> set cs"
    using assms dense.ranks_all [of v cs] dense.rank_length [of v cs] nth_mem [of m "dense_ranked v cs"] by force
  ultimately show ?thesis
    by (simp add: hybrid_ranked_all sorted_reverse_def image_iff)
qed

section \<open>More than one snapshot\<close>

definition ready_snapshots :: "uuid \<Rightarrow> db \<Rightarrow> index_snapshot list" where
  "ready_snapshots i s = filter (\<lambda>n. snap_repository_id n = i \<and> snap_status n = SnapReady) (snapshots s)"

lemma scalar_one_many: "2 \<le> length rows \<Longrightarrow> scalar_one_or_none rows = Inl MultipleResultsFound"
  by (cases rows rule: scalar_one_or_none.cases) simp_all

lemma desc_nullslast_length: "length (desc_nullslast k rows) = length rows"
  using sum_length_filter_compl [of "\<lambda>r. k r = None" rows] by (simp add: desc_nullslast_def desc_by_def)

lemma preserves_ready: "(\<And>s. snapshots (snd (m s)) = snapshots s) \<Longrightarrow> preserves (\<lambda>s. ready_snapshots i s = N) m"
  by (simp add: preserves_def ready_snapshots_def)

lemma ready_new_snapshot: "new_snapshot env r v s = (Inr sid, t) \<Longrightarrow> ready_snapshots i t = ready_snapshots i s"
  by (auto simp: new_snapshot_def insert_snapshot_def add_row_app thenp_eq_Inr ready_snapshots_def split: if_splits)

lemma transition_frame: "transition i st s = (Inr (), t) \<Longrightarrow> snapshots t = snapshots s"
  by (auto simp: transition_def loaded_def bindp_eq_Inr set_repository_def get_repository_row_def
      split: option.splits if_splits)

lemma build_needs_one_snapshot:
  assumes "build_index env r rid revision u = (Inr sid, t)"
  shows "length (ready_snapshots (repo_id r) u) < 2"
proof (rule ccontr)
  assume "\<not> length (ready_snapshots (repo_id r) u) < 2"
  then have two: "2 \<le> length (ready_snapshots (repo_id r) u)" by simp
  from assms obtain a b v c started d previous e where
    x: "external (ix_validate env) u = (Inr (), a)"
    and tr: "transition (repo_id r) Indexing a = (Inr (), b)"
    and sr: "set_revision (rev_id revision) (\<lambda>v. v\<lparr>rev_status := Indexing\<rparr>) b = (Inr (), v)"
    and n: "new_snapshot env r revision v = (Inr sid, c)"
    and m: "monotonic env c = (Inr started, d)"
    and l: "latest_ready_snapshot (repo_id r) d = (Inr previous, e)"
    by (auto simp: build_index_def bindp_eq_Inr thenp_eq_Inr)
  have "snapshots a = snapshots u" using x by (auto simp: external_def)
  moreover have "snapshots b = snapshots a" using tr by (rule transition_frame)
  moreover have "snapshots v = snapshots b" using sr by (auto simp: set_revision_def)
  moreover have "snapshots d = snapshots c" using m by (auto simp: monotonic_def external_def)
  ultimately have "ready_snapshots (repo_id r) d = ready_snapshots (repo_id r) u"
    using ready_new_snapshot [OF n] by (simp add: ready_snapshots_def)
  then have "latest_ready_snapshot (repo_id r) d = (Inl MultipleResultsFound, d)"
    using two by (simp add: latest_ready_snapshot_def scalar_one_many desc_nullslast_length ready_snapshots_def)
  with l show False by simp
qed

text \<open>
  C32: a repository can be indexed at two commits at most. From the second snapshot on its
  index status cannot be read any more, since \<^verbatim>\<open>latest_for_repository\<close> expects at most one
  row, and every index run for a further revision raises and is rolled back, since
  \<^verbatim>\<open>latest_ready_for_repository\<close> does.
\<close>

theorem third_index_impossible:
  assumes r: "distinct (map repo_id (repositories s))" "r \<in> set (repositories s)" "repo_id r = i"
      "repo_deleted_at r = None" "repo_latest_revision_id r = Some vid"
    and two: "2 \<le> length (ready_snapshots i s)"
    and fresh: "\<And>n. n \<in> set (snapshots s) \<Longrightarrow> snap_repository_id n = i \<Longrightarrow> snap_revision_id n \<noteq> vid"
  shows "get_index_status (repo_owner_id r) i s = (Inl MultipleResultsFound, s)
    \<and> (\<exists>e t. worker_index env i rid s = (Inl e, t) \<and> rows_of t = rows_of s)"
proof
  have "ready_snapshots i s = filter (\<lambda>n. snap_status n = SnapReady) (filter (\<lambda>n. snap_repository_id n = i) (snapshots s))"
    by (simp add: ready_snapshots_def conj_commute)
  then have "2 \<le> length (filter (\<lambda>n. snap_repository_id n = i) (snapshots s))"
    using two le_trans [OF _ length_filter_le] by metis
  moreover have "require (repository_owned_by_id (repo_owner_id r) i) s = (Inr r, s)"
    using owned_lookup [OF r(1,2,4)] r(3) by (simp add: require_def)
  ultimately show "get_index_status (repo_owner_id r) i s = (Inl MultipleResultsFound, s)"
    using r(3) by (simp add: get_index_status_def latest_snapshot_def scalar_one_many desc_by_def)
  show "\<exists>e t. worker_index env i rid s = (Inl e, t) \<and> rows_of t = rows_of s"
  proof (cases "worker_index env i rid s")
    case (Pair x t)
    show ?thesis
    proof (cases x)
      case (Inl e)
      with Pair show ?thesis using worker_index_Inl by blast
    next
      case (Inr sid)
      with Pair have run: "index_repository env i rid s = (Inr sid, t)"
        by (auto simp: worker_index_def commit_or_rollback_def split: prod.splits sum.splits)
      have ready: "snap_status n \<noteq> SnapReady" if "n \<in> set (snapshots s)" "snap_repository_id n = i"
          "snap_revision_id n = vid" for n using that fresh by blast
      from ready run show ?thesis
      proof (rule index_run_reaches_build [OF r(1-3,5)])
        fix revision u
        assume "build_index env r rid revision u = (Inr sid, t)" "snapshots u = snapshots s"
        then show ?thesis using build_needs_one_snapshot two r(3) by (fastforce simp: ready_snapshots_def)
      qed
    qed
  qed
qed

section \<open>Listing symbols\<close>

text \<open>
  A page of symbols holds at most \<open>limit\<close> views, each of a symbol of a file of the
  requested revision of the requested repository, of the kind and path asked for.
\<close>

theorem symbols_within_revision:
  assumes "list_symbols own i (Some v) ty name path limit offset s = (Inr out, t)"
  shows "t = s \<and> length out \<le> limit \<and> list_all (\<lambda>x. \<exists>c \<in> set (symbols s). \<exists>f \<in> set (files s). \<exists>w \<in> set (revisions s).
      x = symbol_view_of (c, f) \<and> sym_file_id c = file_id f \<and> file_revision_id f = v
      \<and> rev_id w = v \<and> rev_repository_id w = i
      \<and> opt_eq ty (sym_symbol_type c) \<and> opt_eq path (file_normalized_path f)) out"
proof -
  from assms obtain r u rows where r: "require (repository_owned_by_id own i) s = (Inr r, u)"
    and q: "symbols_for_repository_revision (repo_id r) v ty name path (Some limit) offset u = (Inr rows, t)"
    and out: "out = map symbol_view_of rows"
    by (auto simp: list_symbols_def bindp_eq_Inr)
  from repo_lookup.require_sound [OF r] have u: "repo_id r = i" "u = s" by auto
  define all_rows where "all_rows = [(c, f). c \<leftarrow> symbols s, f \<leftarrow> files s, w \<leftarrow> revisions s,
                     sym_file_id c = file_id f \<and> file_revision_id f = rev_id w
                     \<and> file_revision_id f = v \<and> rev_repository_id w = i]"
  have rows: "t = s" "length rows \<le> limit" "\<And>c f. (c, f) \<in> set rows \<Longrightarrow> (c, f) \<in> set all_rows
      \<and> opt_eq ty (sym_symbol_type c) \<and> opt_eq path (file_normalized_path f)"
    using q u by (auto simp: symbols_for_repository_revision_def Let_def all_rows_def [symmetric]
        dest!: in_set_takeD in_set_dropD)
  have "list_all (\<lambda>x. \<exists>c \<in> set (symbols s). \<exists>f \<in> set (files s). \<exists>w \<in> set (revisions s).
      x = symbol_view_of (c, f) \<and> sym_file_id c = file_id f \<and> file_revision_id f = v
      \<and> rev_id w = v \<and> rev_repository_id w = i
      \<and> opt_eq ty (sym_symbol_type c) \<and> opt_eq path (file_normalized_path f)) (map symbol_view_of rows)"
    unfolding list_all_iff
  proof
    fix x assume "x \<in> set (map symbol_view_of rows)"
    then obtain c f where x: "(c, f) \<in> set rows" "x = symbol_view_of (c, f)" by auto
    from rows(3) [OF x(1)] obtain w where "c \<in> set (symbols s)" "f \<in> set (files s)" "w \<in> set (revisions s)"
      "sym_file_id c = file_id f" "file_revision_id f = rev_id w" "file_revision_id f = v" "rev_repository_id w = i"
      by (auto simp: all_rows_def)
    with x rows(3) [OF x(1)] show "\<exists>c \<in> set (symbols s). \<exists>f \<in> set (files s). \<exists>w \<in> set (revisions s).
      x = symbol_view_of (c, f) \<and> sym_file_id c = file_id f \<and> file_revision_id f = v
      \<and> rev_id w = v \<and> rev_repository_id w = i
      \<and> opt_eq ty (sym_symbol_type c) \<and> opt_eq path (file_normalized_path f)" by metis
  qed
  with rows out show ?thesis by simp
qed

section \<open>Concrete searches\<close>

definition sample_search_env :: search_env where
  "sample_search_env = index_env.extend sample_index_env \<lparr>ix_top_k = 5\<rparr>"

definition sample_chunk :: "uuid \<Rightarrow> string \<Rightarrow> code_chunk" where
  "sample_chunk i path = note_chunk\<lparr>chunk_id := i, chunk_normalized_path := path\<rparr>"

definition sample_search_db :: db where
  "sample_search_db = note_db\<lparr>chunks := [sample_chunk 1 ''a'', sample_chunk 2 ''b'', sample_chunk 3 ''a'']\<rparr>"

lemma sample_chunk_fields [simp]:
  "chunk_id (sample_chunk i p) = i" "chunk_normalized_path (sample_chunk i p) = p"
  "chunk_repository_id (sample_chunk i p) = 1" "chunk_revision_id (sample_chunk i p) = 3"
  "chunk_start_line (sample_chunk i p) = 1" "chunk_part_number (sample_chunk i p) = 1"
  by (simp_all add: sample_chunk_def note_chunk_def chunk_of_draft_def note_draft_def whole_file_chunk_def
      sample_target_def Let_def)

lemma evidence_nonempty: "xs \<noteq> [] \<Longrightarrow> evidence limit meth xs \<noteq> []"
  by (cases xs) (simp_all add: evidence_take)

lemma sample_search_run:
  obtains out t where "search sample_search_env 0 1 ''q'' (Some 3) None None (Some 2) ''hybrid'' sample_search_db = (Inr out, t)"
    "out \<noteq> []"
proof -
  let ?cs = "selected_chunks 1 3 None None sample_search_db"
  have c: "chunks_for_repository_revision 1 3 None None sample_search_db = (Inr ?cs, sample_search_db)"
    by (simp add: chunks_for_repository_revision_def selected_chunks_def)
  have "length ?cs = 3" by (simp add: selected_chunks_def order_chunks_def chunk_selected_def sample_search_db_def)
  then have ne: "?cs \<noteq> []" by auto
  have v: "query_vector sample_search_env ''q'' s = (Inr [1], s\<lparr>ticks := Suc (ticks s)\<rparr>)" for s
    by (simp add: query_vector_def external_def sample_search_env_def sample_index_env_def index_env.defs bindp_def)
  have r: "require (repository_owned_by_id 0 1) sample_search_db = (Inr sample_index_repository, sample_search_db)"
    by (simp add: require_def repository_owned_by_id_def sample_search_db_def note_db_def)
  have "search sample_search_env 0 1 ''q'' (Some 3) None None (Some 2) ''hybrid'' sample_search_db
      = (Inr (evidence (search_limit sample_search_env (Some 2)) ''hybrid'' (ordered ''hybrid'' [1] ''q'' ?cs)),
         sample_search_db\<lparr>ticks := Suc (ticks sample_search_db)\<rparr>)"
    using c ne v r by (simp add: search_def search_chunks_def bindp_def)
  moreover have "ordered ''hybrid'' [1] ''q'' ?cs \<noteq> []"
    using ne every_method.rank_length [of "''hybrid''" "[1]" "''q''" ?cs] by (metis length_0_conv)
  ultimately show ?thesis using that evidence_nonempty by blast
qed

lemma search_returns_best_witness:
  "\<exists>out t v. search sample_search_env 0 1 ''q'' (Some 3) None None (Some 2) ''hybrid'' sample_search_db = (Inr out, t)
     \<and> best_evidence 2 ''hybrid'' (ordered ''hybrid'' v ''q'' (selected_chunks 1 3 None None sample_search_db)) out"
proof -
  obtain out t where o: "search sample_search_env 0 1 ''q'' (Some 3) None None (Some 2) ''hybrid'' sample_search_db = (Inr out, t)"
    by (rule sample_search_run)
  from search_returns_best [OF o] o show ?thesis by (auto simp: search_limit_def)
qed

lemma search_within_repository_witness:
  "\<exists>out t. search sample_search_env 0 1 ''q'' (Some 3) None None (Some 2) ''hybrid'' sample_search_db = (Inr out, t)
     \<and> (\<exists>c \<in> set (chunks sample_search_db). hd out = evidence_of ''hybrid'' (c, ev_score (hd out)))"
proof -
  obtain out t where o: "search sample_search_env 0 1 ''q'' (Some 3) None None (Some 2) ''hybrid'' sample_search_db = (Inr out, t)"
    and n: "out \<noteq> []" by (rule sample_search_run)
  from search_within_repository [OF o list.set_sel(1) [OF n]] o show ?thesis by blast
qed

lemma foreign_index_hidden_witness:
  "search sample_search_env 7 1 ''q'' None None None None ''dense'' sample_search_db = (Inl (AppErr not_found), sample_search_db)"
  using foreign_index_hidden [of sample_search_db 1 7 sample_search_env "''q''"]
  by (simp add: sample_search_db_def note_db_def)

lemma hybrid_score_by_ranks_witness:
  "(sample_chunk 1 ''a'', 1 / 61 + 1 / 61) \<in> set (hybrid_ranked [1] ''q'' [sample_chunk 1 ''a''])"
proof -
  have one: "fst (xs ! 0) = sample_chunk 1 ''a''" if "fst ` set xs = set [sample_chunk 1 ''a'']" "length xs = 1" for xs
    using that by (cases xs) auto
  show ?thesis
    using hybrid_score_by_ranks [of "[sample_chunk 1 ''a'']" 0 "[1]" "sample_chunk 1 ''a''" 0 "''q''"]
      one [OF dense.ranks_all [of "[1]" "[sample_chunk 1 ''a'']"]] one [OF lexical.ranks_all [of "''q''" "[sample_chunk 1 ''a'']"]]
    by (simp add: dense.rank_length lexical.rank_length)
qed

definition two_snapshots_db :: db where
  "two_snapshots_db = (sample_index_db [note_file])\<lparr>snapshots :=
     [note_snapshot\<lparr>snap_revision_id := 8\<rparr>, note_snapshot\<lparr>snap_id := 11, snap_revision_id := 9\<rparr>]\<rparr>"

lemma third_index_impossible_witness:
  "get_index_status 0 1 two_snapshots_db = (Inl MultipleResultsFound, two_snapshots_db)"
proof -
  have "get_index_status (repo_owner_id sample_index_repository) 1 two_snapshots_db = (Inl MultipleResultsFound, two_snapshots_db)
    \<and> (\<exists>e t. worker_index sample_index_env 1 2 two_snapshots_db = (Inl e, t) \<and> rows_of t = rows_of two_snapshots_db)"
    by (rule third_index_impossible [where vid = 3])
      (auto simp: two_snapshots_db_def ready_snapshots_def note_snapshot_def)
  then show ?thesis by simp
qed

lemma symbols_within_revision_witness:
  "\<exists>out. list_symbols 0 1 (Some 3) None None None 10 0 sample_search_db = (Inr out, sample_search_db) \<and> length out \<le> 10"
proof -
  obtain out t where o: "list_symbols 0 1 (Some 3) None None None 10 0 sample_search_db = (Inr out, t)"
    by (simp add: list_symbols_def require_def repository_owned_by_id_def sample_search_db_def note_db_def
        symbols_for_repository_revision_def bindp_def Let_def)
  from symbols_within_revision [OF o] o show ?thesis by blast
qed

end
