(* ===== verification/Schema.thy ===== *)
theory Schema
  imports Prelude
begin

text \<open>
  The database schema: the Alembic migrations of \<^verbatim>\<open>migrations/versions\<close> as lists of operations
  on a schema, and the mapped classes of \<^verbatim>\<open>app/models\<close> as the tables SQLAlchemy derives from
  them. What PostgreSQL refuses (a duplicate or unknown name, dropping a table that others
  refer to) is an error of the operation.
\<close>

section \<open>Tables\<close>

datatype sql_type =
    UuidType | StringType nat | TextType | IntegerType | BigIntegerType | BooleanType
  | DateTimeType | JsonType | BinaryType nat

text \<open>Name, type, whether NULL is allowed, and the server default.\<close>

datatype column = Column (column_name: string) (column_type: sql_type) (column_nullable: bool)
  (column_server_default: "string option")

text \<open>A name of \<open>None\<close> is made up by the naming convention of \<^verbatim>\<open>app/db/base.py\<close>.\<close>

datatype table_constraint =
    PrimaryKey "string option" "string list"
  | ForeignKey "string option" "string list" string "string list" string
  | Unique "string option" "string list"
  | Check "string option" string

datatype table_index = TableIndex (index_name: string) (index_columns: "string list") (index_unique: bool)

record table_def =
  tb_columns :: "column list"
  tb_constraints :: "table_constraint list"
  tb_indexes :: "table_index list"

type_synonym schema = "(string \<times> table_def) list"

section \<open>Migration operations\<close>

datatype migration_op =
    CreateTable string "column list" "table_constraint list"
  | DropTable string
  | CreateIndex string string "string list" bool
  | DropIndex string string
  | AddColumn string column
  | DropColumn string string
  | CreateForeignKey string string "string list" string "string list" string
  | DropConstraint string string

datatype migration_error =
    DuplicateTable string
  | UndefinedTable string
  | DuplicateColumn string string
  | UndefinedColumn string
  | DuplicateObject string
  | UndefinedObject string
  | DependentObjectsStillExist string

fun underscored :: "string list \<Rightarrow> string" where
  "underscored [] = []"
| "underscored [x] = x"
| "underscored (x # xs) = x @ ''_'' @ underscored xs"

text \<open>\<^verbatim>\<open>NAMING_CONVENTION\<close>, for the constraints that are not named.\<close>

fun constraint_name :: "string \<Rightarrow> table_constraint \<Rightarrow> string" where
  "constraint_name t (PrimaryKey (Some n) cs) = n"
| "constraint_name t (PrimaryKey None cs) = underscored [''pk'', t]"
| "constraint_name t (ForeignKey (Some n) cs rt rcs od) = n"
| "constraint_name t (ForeignKey None cs rt rcs od) = underscored [''fk'', t, hd cs, rt]"
| "constraint_name t (Unique (Some n) cs) = n"
| "constraint_name t (Unique None cs) = underscored [''uq'', t, hd cs]"
| "constraint_name t (Check (Some n) e) = n"
| "constraint_name t (Check None e) = underscored [''ck'', t]"

fun constraint_columns :: "table_constraint \<Rightarrow> string list" where
  "constraint_columns (PrimaryKey n cs) = cs"
| "constraint_columns (ForeignKey n cs rt rcs od) = cs"
| "constraint_columns (Unique n cs) = cs"
| "constraint_columns (Check n e) = []"

definition column_names :: "table_def \<Rightarrow> string list" where
  "column_names t = map column_name (tb_columns t)"

definition has_columns :: "table_def \<Rightarrow> string list \<Rightarrow> bool" where
  "has_columns t cs = list_all (\<lambda>c. c \<in> set (column_names t)) cs"

text \<open>The target of a foreign key of table \<open>n\<close> exists, possibly in the table itself.\<close>

fun reference_ok :: "schema \<Rightarrow> table_constraint \<Rightarrow> bool" where
  "reference_ok s (ForeignKey n cs rt rcs od) =
     (case map_of s rt of None \<Rightarrow> False | Some t \<Rightarrow> has_columns t rcs \<and> length rcs = length cs)"
| "reference_ok s _ = True"

fun refers_to :: "string \<Rightarrow> table_constraint \<Rightarrow> bool" where
  "refers_to t (ForeignKey n cs rt rcs od) = (rt = t)"
| "refers_to t _ = False"

fun refers_to_column :: "string \<Rightarrow> string \<Rightarrow> table_constraint \<Rightarrow> bool" where
  "refers_to_column t c (ForeignKey n cs rt rcs od) = (rt = t \<and> c \<in> set rcs)"
| "refers_to_column t c _ = False"

definition all_indexes :: "schema \<Rightarrow> string list" where
  "all_indexes s = concat (map (\<lambda>(n, t). map index_name (tb_indexes t)) s)"

definition table_ok :: "schema \<Rightarrow> table_def \<Rightarrow> bool" where
  "table_ok s t \<longleftrightarrow> distinct (column_names t)
     \<and> list_all (\<lambda>c. has_columns t (constraint_columns c) \<and> reference_ok s c) (tb_constraints t)
     \<and> list_all (\<lambda>i. has_columns t (index_columns i)) (tb_indexes t)"

definition replace_table :: "string \<Rightarrow> table_def \<Rightarrow> schema \<Rightarrow> schema" where
  "replace_table n t s = map (\<lambda>(m, q). if m = n then (m, t) else (m, q)) s"

definition with_table :: "schema \<Rightarrow> string \<Rightarrow> (table_def \<Rightarrow> migration_error + schema) \<Rightarrow> migration_error + schema" where
  "with_table s n f = (case map_of s n of None \<Rightarrow> Inl (UndefinedTable n) | Some t \<Rightarrow> f t)"

definition create_table :: "string \<Rightarrow> column list \<Rightarrow> table_constraint list \<Rightarrow> schema \<Rightarrow> migration_error + schema" where
  "create_table n cols cons s =
     (let t = \<lparr>tb_columns = cols, tb_constraints = cons, tb_indexes = []\<rparr>; s' = s @ [(n, t)] in
      if n \<in> fst ` set s then Inl (DuplicateTable n)
      else if \<not> distinct (map column_name cols) then Inl (DuplicateColumn n [])
      else if \<not> list_all (\<lambda>c. has_columns t (constraint_columns c)) cons then Inl (UndefinedColumn n)
      else if \<not> list_all (reference_ok s') cons then Inl (UndefinedTable n)
      else Inr s')"

definition drop_table :: "string \<Rightarrow> schema \<Rightarrow> migration_error + schema" where
  "drop_table n s = with_table s n (\<lambda>t.
     if list_ex (\<lambda>(m, q). m \<noteq> n \<and> list_ex (refers_to n) (tb_constraints q)) s
     then Inl (DependentObjectsStillExist n)
     else Inr (filter (\<lambda>(m, q). m \<noteq> n) s))"

definition create_index :: "string \<Rightarrow> string \<Rightarrow> string list \<Rightarrow> bool \<Rightarrow> schema \<Rightarrow> migration_error + schema" where
  "create_index i n cs u s = with_table s n (\<lambda>t.
     if i \<in> set (all_indexes s) then Inl (DuplicateObject i)
     else if \<not> has_columns t cs then Inl (UndefinedColumn n)
     else Inr (replace_table n (t\<lparr>tb_indexes := tb_indexes t @ [TableIndex i cs u]\<rparr>) s))"

definition drop_index :: "string \<Rightarrow> string \<Rightarrow> schema \<Rightarrow> migration_error + schema" where
  "drop_index i n s = with_table s n (\<lambda>t.
     if i \<notin> index_name ` set (tb_indexes t) then Inl (UndefinedObject i)
     else Inr (replace_table n (t\<lparr>tb_indexes := filter (\<lambda>x. index_name x \<noteq> i) (tb_indexes t)\<rparr>) s))"

definition add_column :: "string \<Rightarrow> column \<Rightarrow> schema \<Rightarrow> migration_error + schema" where
  "add_column n c s = with_table s n (\<lambda>t.
     if column_name c \<in> set (column_names t) then Inl (DuplicateColumn n (column_name c))
     else Inr (replace_table n (t\<lparr>tb_columns := tb_columns t @ [c]\<rparr>) s))"

text \<open>Dropping a column drops the constraints and indexes of its table that use it.\<close>

definition drop_column :: "string \<Rightarrow> string \<Rightarrow> schema \<Rightarrow> migration_error + schema" where
  "drop_column n c s = with_table s n (\<lambda>t.
     if c \<notin> set (column_names t) then Inl (UndefinedColumn c)
     else if list_ex (\<lambda>(m, q). list_ex (refers_to_column n c) (tb_constraints q)) s
     then Inl (DependentObjectsStillExist c)
     else Inr (replace_table n
       (t\<lparr>tb_columns := filter (\<lambda>x. column_name x \<noteq> c) (tb_columns t),
          tb_constraints := filter (\<lambda>x. c \<notin> set (constraint_columns x)) (tb_constraints t),
          tb_indexes := filter (\<lambda>x. c \<notin> set (index_columns x)) (tb_indexes t)\<rparr>) s))"

definition add_constraint :: "string \<Rightarrow> table_constraint \<Rightarrow> schema \<Rightarrow> migration_error + schema" where
  "add_constraint n c s = with_table s n (\<lambda>t.
     if constraint_name n c \<in> constraint_name n ` set (tb_constraints t) then Inl (DuplicateObject (constraint_name n c))
     else if \<not> has_columns t (constraint_columns c) then Inl (UndefinedColumn n)
     else if \<not> reference_ok s c then Inl (UndefinedTable n)
     else Inr (replace_table n (t\<lparr>tb_constraints := tb_constraints t @ [c]\<rparr>) s))"

definition drop_constraint :: "string \<Rightarrow> string \<Rightarrow> schema \<Rightarrow> migration_error + schema" where
  "drop_constraint n k s = with_table s n (\<lambda>t.
     if k \<notin> constraint_name n ` set (tb_constraints t) then Inl (UndefinedObject k)
     else Inr (replace_table n (t\<lparr>tb_constraints := filter (\<lambda>c. constraint_name n c \<noteq> k) (tb_constraints t)\<rparr>) s))"

fun apply_op :: "migration_op \<Rightarrow> schema \<Rightarrow> migration_error + schema" where
  "apply_op (CreateTable n cols cons) s = create_table n cols cons s"
| "apply_op (DropTable n) s = drop_table n s"
| "apply_op (CreateIndex i n cs u) s = create_index i n cs u s"
| "apply_op (DropIndex i n) s = drop_index i n s"
| "apply_op (AddColumn n c) s = add_column n c s"
| "apply_op (DropColumn n c) s = drop_column n c s"
| "apply_op (CreateForeignKey n k cs rt rcs od) s = add_constraint n (ForeignKey (Some k) cs rt rcs od) s"
| "apply_op (DropConstraint n k) s = drop_constraint n k s"

fun migrate :: "migration_op list \<Rightarrow> schema \<Rightarrow> migration_error + schema" where
  "migrate [] s = Inr s"
| "migrate (x # xs) s = (case apply_op x s of Inl e \<Rightarrow> Inl e | Inr t \<Rightarrow> migrate xs t)"

section \<open>Mapped classes\<close>

text \<open>
  Name, type, nullable, Python-side default, server default, unique, index, foreign key
  (table, column, ON DELETE).
\<close>

datatype mapped_column = MappedColumn (mc_name: string) (mc_type: sql_type) (mc_nullable: bool)
  (mc_default: bool) (mc_server_default: "string option") (mc_unique: bool) (mc_index: bool)
  (mc_foreign_key: "(string \<times> string \<times> string) option")

datatype table_arg =
    UniqueArg string "string list"
  | CheckArg string string
  | IndexArg string "string list"

datatype model_class = ModelClass (mo_table: string) (mo_columns: "mapped_column list") (mo_args: "table_arg list")

definition uuid_primary_key_mixin :: "mapped_column list" where
  "uuid_primary_key_mixin = [MappedColumn ''id'' UuidType False True None False False None]"

definition created_at_mixin :: "mapped_column list" where
  "created_at_mixin = [MappedColumn ''created_at'' DateTimeType False False (Some ''now()'') False False None]"

definition timestamp_mixin :: "mapped_column list" where
  "timestamp_mixin =
    [MappedColumn ''created_at'' DateTimeType False False (Some ''now()'') False False None,
     MappedColumn ''updated_at'' DateTimeType False False (Some ''now()'') False False None]"

definition column_of :: "mapped_column \<Rightarrow> column" where
  "column_of c = Column (mc_name c) (mc_type c) (mc_nullable c) (mc_server_default c)"

text \<open>
  A column that is unique and indexed gets a unique index, one that is only unique a unique
  constraint. The names follow the convention; a check constraint's given name is completed
  by it.
\<close>

definition column_constraints :: "mapped_column \<Rightarrow> table_constraint list" where
  "column_constraints c =
     (case mc_foreign_key c of None \<Rightarrow> [] | Some (t, r, od) \<Rightarrow> [ForeignKey None [mc_name c] t [r] od]) @
     (if mc_unique c \<and> \<not> mc_index c then [Unique None [mc_name c]] else [])"

definition column_indexes :: "string \<Rightarrow> mapped_column \<Rightarrow> table_index list" where
  "column_indexes t c =
     (if mc_index c then [TableIndex (underscored [''ix'', t, mc_name c]) [mc_name c] (mc_unique c)] else [])"

fun arg_constraints :: "string \<Rightarrow> table_arg \<Rightarrow> table_constraint list" where
  "arg_constraints t (UniqueArg n cs) = [Unique (Some n) cs]"
| "arg_constraints t (CheckArg n e) = [Check (Some (underscored [''ck'', t, n])) e]"
| "arg_constraints t (IndexArg n cs) = []"

fun arg_indexes :: "table_arg \<Rightarrow> table_index list" where
  "arg_indexes (IndexArg n cs) = [TableIndex n cs False]"
| "arg_indexes _ = []"

definition table_of_model :: "model_class \<Rightarrow> string \<times> table_def" where
  "table_of_model m = (let t = mo_table m in (t,
     \<lparr>tb_columns = map column_of (mo_columns m),
      tb_constraints = PrimaryKey None [''id''] # concat (map column_constraints (mo_columns m))
        @ concat (map (arg_constraints t) (mo_args m)),
      tb_indexes = concat (map (column_indexes t) (mo_columns m)) @ concat (map arg_indexes (mo_args m))\<rparr>))"

section \<open>The migrations and the classes\<close>

definition create_system_metadata :: migration_op where
  "create_system_metadata = CreateTable ''system_metadata''
    [Column ''id'' UuidType False None, Column ''metadata_key'' (StringType 255) False None,
     Column ''metadata_value'' JsonType False (Some ''{}''),
     Column ''created_at'' DateTimeType False (Some ''CURRENT_TIMESTAMP''),
     Column ''updated_at'' DateTimeType False (Some ''CURRENT_TIMESTAMP'')]
    [PrimaryKey None [''id''], Unique (Some ''uq_system_metadata_metadata_key'') [''metadata_key'']]"

definition system_metadata_block :: "migration_op list" where
  "system_metadata_block =
    [create_system_metadata,
     CreateIndex ''ix_system_metadata_metadata_key'' ''system_metadata'' [''metadata_key''] False]"

definition metadata_upgrade :: "migration_op list" where
  "metadata_upgrade =
    system_metadata_block"

definition metadata_downgrade :: "migration_op list" where
  "metadata_downgrade =
    [DropIndex ''ix_system_metadata_metadata_key'' ''system_metadata'',
     DropTable ''system_metadata'']"

definition create_users :: migration_op where
  "create_users = CreateTable ''users''
    [Column ''email'' (StringType 320) False None,
     Column ''password_hash'' (StringType 512) False None,
     Column ''display_name'' (StringType 120) False None,
     Column ''role'' (StringType 32) False (Some ''user''),
     Column ''is_active'' BooleanType False (Some ''1''),
     Column ''email_verified'' BooleanType False (Some ''0''),
     Column ''failed_login_count'' IntegerType False (Some ''0''),
     Column ''last_failed_login_at'' DateTimeType True None,
     Column ''last_login_at'' DateTimeType True None, Column ''id'' UuidType False None,
     Column ''created_at'' DateTimeType False (Some ''(CURRENT_TIMESTAMP)''),
     Column ''updated_at'' DateTimeType False (Some ''(CURRENT_TIMESTAMP)'')]
    [PrimaryKey (Some ''pk_users'') [''id'']]"

definition create_audit_logs :: migration_op where
  "create_audit_logs = CreateTable ''audit_logs''
    [Column ''actor_user_id'' UuidType True None, Column ''action'' (StringType 128) False None,
     Column ''resource_type'' (StringType 64) False None,
     Column ''resource_id'' UuidType True None, Column ''result'' (StringType 32) False None,
     Column ''correlation_id'' (StringType 128) False None,
     Column ''ip_hash'' (BinaryType 32) True None, Column ''details'' JsonType False None,
     Column ''id'' UuidType False None,
     Column ''created_at'' DateTimeType False (Some ''(CURRENT_TIMESTAMP)'')]
    [ForeignKey (Some ''fk_audit_logs_actor_user_id_users'') [''actor_user_id''] ''users'' [''id''] ''SET NULL'',
     PrimaryKey (Some ''pk_audit_logs'') [''id'']]"

definition create_refresh_tokens :: migration_op where
  "create_refresh_tokens = CreateTable ''refresh_tokens''
    [Column ''user_id'' UuidType False None, Column ''token_hash'' (BinaryType 32) False None,
     Column ''family_id'' UuidType False None, Column ''expires_at'' DateTimeType False None,
     Column ''revoked_at'' DateTimeType True None, Column ''replaced_by_id'' UuidType True None,
     Column ''user_agent_hash'' (BinaryType 32) True None, Column ''id'' UuidType False None,
     Column ''created_at'' DateTimeType False (Some ''(CURRENT_TIMESTAMP)''),
     Column ''updated_at'' DateTimeType False (Some ''(CURRENT_TIMESTAMP)'')]
    [ForeignKey (Some ''fk_refresh_tokens_replaced_by_id_refresh_tokens'') [''replaced_by_id''] ''refresh_tokens'' [''id''] ''SET NULL'',
     ForeignKey (Some ''fk_refresh_tokens_user_id_users'') [''user_id''] ''users'' [''id''] ''CASCADE'',
     PrimaryKey (Some ''pk_refresh_tokens'') [''id''],
     Unique (Some ''uq_refresh_tokens_token_hash'') [''token_hash'']]"

definition create_repositories :: migration_op where
  "create_repositories = CreateTable ''repositories''
    [Column ''owner_id'' UuidType False None, Column ''name'' (StringType 255) False None,
     Column ''normalized_clone_url'' (StringType 2048) False None,
     Column ''default_branch'' (StringType 255) True None,
     Column ''status'' (StringType 32) False None,
     Column ''latest_revision_id'' UuidType True None,
     Column ''indexing_config'' JsonType False None, Column ''deleted_at'' DateTimeType True None,
     Column ''deleted_by_id'' UuidType True None, Column ''id'' UuidType False None,
     Column ''created_at'' DateTimeType False (Some ''(CURRENT_TIMESTAMP)''),
     Column ''updated_at'' DateTimeType False (Some ''(CURRENT_TIMESTAMP)'')]
    [ForeignKey (Some ''fk_repositories_deleted_by_id_users'') [''deleted_by_id''] ''users'' [''id''] ''SET NULL'',
     ForeignKey (Some ''fk_repositories_owner_id_users'') [''owner_id''] ''users'' [''id''] ''CASCADE'',
     PrimaryKey (Some ''pk_repositories'') [''id''],
     Unique (Some ''uq_repositories_owner_url'') [''owner_id'', ''normalized_clone_url'']]"

definition create_repository_revisions :: migration_op where
  "create_repository_revisions = CreateTable ''repository_revisions''
    [Column ''repository_id'' UuidType False None,
     Column ''commit_sha'' (StringType 64) False None, Column ''ref'' (StringType 255) True None,
     Column ''status'' (StringType 32) False None, Column ''cloned_at'' DateTimeType True None,
     Column ''indexed_at'' DateTimeType True None, Column ''file_count'' IntegerType False None,
     Column ''total_bytes'' BigIntegerType False None,
     Column ''error_code'' (StringType 64) True None,
     Column ''error_summary'' (StringType 1000) True None, Column ''id'' UuidType False None,
     Column ''created_at'' DateTimeType False (Some ''(CURRENT_TIMESTAMP)''),
     Column ''updated_at'' DateTimeType False (Some ''(CURRENT_TIMESTAMP)'')]
    [Check (Some ''ck_repository_revisions_file_count_nonnegative'') ''file_count >= 0'',
     Check (Some ''ck_repository_revisions_total_bytes_nonnegative'') ''total_bytes >= 0'',
     ForeignKey (Some ''fk_repository_revisions_repository_id_repositories'') [''repository_id''] ''repositories'' [''id''] ''CASCADE'',
     PrimaryKey (Some ''pk_repository_revisions'') [''id''],
     Unique (Some ''uq_revision_repository_sha'') [''repository_id'', ''commit_sha'']]"

definition create_agent_runs :: migration_op where
  "create_agent_runs = CreateTable ''agent_runs''
    [Column ''owner_id'' UuidType False None, Column ''repository_id'' UuidType False None,
     Column ''revision_id'' UuidType True None, Column ''run_type'' (StringType 64) False None,
     Column ''status'' (StringType 32) False None, Column ''input_summary'' TextType False None,
     Column ''model_provider'' (StringType 64) False None,
     Column ''model_identifier'' (StringType 255) False None,
     Column ''prompt_version'' (StringType 64) False None,
     Column ''started_at'' DateTimeType True None, Column ''completed_at'' DateTimeType True None,
     Column ''cancellation_metadata'' JsonType True None,
     Column ''error_code'' (StringType 64) True None,
     Column ''error_message'' (StringType 1000) True None,
     Column ''input_units'' BigIntegerType True None,
     Column ''output_units'' BigIntegerType True None, Column ''id'' UuidType False None,
     Column ''created_at'' DateTimeType False (Some ''(CURRENT_TIMESTAMP)''),
     Column ''updated_at'' DateTimeType False (Some ''(CURRENT_TIMESTAMP)'')]
    [ForeignKey (Some ''fk_agent_runs_owner_id_users'') [''owner_id''] ''users'' [''id''] ''CASCADE'',
     ForeignKey (Some ''fk_agent_runs_repository_id_repositories'') [''repository_id''] ''repositories'' [''id''] ''CASCADE'',
     ForeignKey (Some ''fk_agent_runs_revision_id_repository_revisions'') [''revision_id''] ''repository_revisions'' [''id''] ''SET NULL'',
     PrimaryKey (Some ''pk_agent_runs'') [''id'']]"

definition create_repository_files :: migration_op where
  "create_repository_files = CreateTable ''repository_files''
    [Column ''revision_id'' UuidType False None,
     Column ''normalized_path'' (StringType 2048) False None,
     Column ''language'' (StringType 64) True None, Column ''size'' BigIntegerType False None,
     Column ''content_hash'' (StringType 128) False None,
     Column ''line_count'' IntegerType False None,
     Column ''indexing_status'' (StringType 32) False None,
     Column ''excluded_reason'' (StringType 255) True None, Column ''id'' UuidType False None,
     Column ''created_at'' DateTimeType False (Some ''(CURRENT_TIMESTAMP)''),
     Column ''updated_at'' DateTimeType False (Some ''(CURRENT_TIMESTAMP)'')]
    [Check (Some ''ck_repository_files_line_count_nonnegative'') ''line_count >= 0'',
     Check (Some ''ck_repository_files_size_nonnegative'') ''size >= 0'',
     ForeignKey (Some ''fk_repository_files_revision_id_repository_revisions'') [''revision_id''] ''repository_revisions'' [''id''] ''CASCADE'',
     PrimaryKey (Some ''pk_repository_files'') [''id''],
     Unique (Some ''uq_file_revision_path'') [''revision_id'', ''normalized_path'']]"

definition create_agent_run_events :: migration_op where
  "create_agent_run_events = CreateTable ''agent_run_events''
    [Column ''run_id'' UuidType False None, Column ''sequence'' IntegerType False None,
     Column ''event_type'' (StringType 64) False None,
     Column ''public_message'' (StringType 2000) False None,
     Column ''private_metadata'' JsonType False None,
     Column ''created_at'' DateTimeType False (Some ''(CURRENT_TIMESTAMP)''),
     Column ''id'' UuidType False None]
    [ForeignKey (Some ''fk_agent_run_events_run_id_agent_runs'') [''run_id''] ''agent_runs'' [''id''] ''CASCADE'',
     PrimaryKey (Some ''pk_agent_run_events'') [''id''],
     Unique (Some ''uq_run_event_sequence'') [''run_id'', ''sequence'']]"

definition create_artifacts :: migration_op where
  "create_artifacts = CreateTable ''artifacts''
    [Column ''run_id'' UuidType False None, Column ''artifact_type'' (StringType 64) False None,
     Column ''storage_path'' (StringType 2048) True None,
     Column ''content_reference'' (StringType 2048) True None,
     Column ''media_type'' (StringType 255) False None, Column ''size'' BigIntegerType False None,
     Column ''checksum'' (StringType 128) False None,
     Column ''artifact_metadata'' JsonType False None, Column ''id'' UuidType False None,
     Column ''created_at'' DateTimeType False (Some ''(CURRENT_TIMESTAMP)''),
     Column ''updated_at'' DateTimeType False (Some ''(CURRENT_TIMESTAMP)'')]
    [ForeignKey (Some ''fk_artifacts_run_id_agent_runs'') [''run_id''] ''agent_runs'' [''id''] ''CASCADE'',
     PrimaryKey (Some ''pk_artifacts'') [''id'']]"

definition create_code_symbols :: migration_op where
  "create_code_symbols = CreateTable ''code_symbols''
    [Column ''file_id'' UuidType False None, Column ''symbol_type'' (StringType 64) False None,
     Column ''name'' (StringType 512) False None,
     Column ''qualified_name'' (StringType 2048) False None,
     Column ''start_line'' IntegerType False None, Column ''end_line'' IntegerType False None,
     Column ''signature'' TextType True None, Column ''parent_symbol_id'' UuidType True None,
     Column ''symbol_metadata'' JsonType False None, Column ''id'' UuidType False None,
     Column ''created_at'' DateTimeType False (Some ''(CURRENT_TIMESTAMP)''),
     Column ''updated_at'' DateTimeType False (Some ''(CURRENT_TIMESTAMP)'')]
    [Check (Some ''ck_code_symbols_line_range_valid'') ''end_line >= start_line'',
     Check (Some ''ck_code_symbols_start_line_positive'') ''start_line > 0'',
     ForeignKey (Some ''fk_code_symbols_file_id_repository_files'') [''file_id''] ''repository_files'' [''id''] ''CASCADE'',
     ForeignKey (Some ''fk_code_symbols_parent_symbol_id_code_symbols'') [''parent_symbol_id''] ''code_symbols'' [''id''] ''SET NULL'',
     PrimaryKey (Some ''pk_code_symbols'') [''id'']]"

definition create_patches :: migration_op where
  "create_patches = CreateTable ''patches''
    [Column ''run_id'' UuidType False None, Column ''status'' (StringType 32) False None,
     Column ''base_commit_sha'' (StringType 64) False None,
     Column ''unified_diff'' TextType False None,
     Column ''diff_checksum'' (StringType 128) False None,
     Column ''affected_file_count'' IntegerType False None,
     Column ''approval_metadata'' JsonType True None,
     Column ''validation_metadata'' JsonType True None,
     Column ''applied_at'' DateTimeType True None, Column ''reverted_at'' DateTimeType True None,
     Column ''id'' UuidType False None,
     Column ''created_at'' DateTimeType False (Some ''(CURRENT_TIMESTAMP)''),
     Column ''updated_at'' DateTimeType False (Some ''(CURRENT_TIMESTAMP)'')]
    [ForeignKey (Some ''fk_patches_run_id_agent_runs'') [''run_id''] ''agent_runs'' [''id''] ''CASCADE'',
     PrimaryKey (Some ''pk_patches'') [''id''],
     Unique (Some ''uq_patches_diff_checksum'') [''diff_checksum'']]"

definition create_test_executions :: migration_op where
  "create_test_executions = CreateTable ''test_executions''
    [Column ''run_id'' UuidType False None, Column ''patch_id'' UuidType True None,
     Column ''status'' (StringType 32) False None,
     Column ''command_identifier'' (StringType 255) False None,
     Column ''exit_code'' IntegerType True None, Column ''duration_ms'' BigIntegerType True None,
     Column ''stdout'' TextType True None, Column ''stderr'' TextType True None,
     Column ''resource_summary'' JsonType True None, Column ''id'' UuidType False None,
     Column ''created_at'' DateTimeType False (Some ''(CURRENT_TIMESTAMP)''),
     Column ''updated_at'' DateTimeType False (Some ''(CURRENT_TIMESTAMP)'')]
    [ForeignKey (Some ''fk_test_executions_patch_id_patches'') [''patch_id''] ''patches'' [''id''] ''SET NULL'',
     ForeignKey (Some ''fk_test_executions_run_id_agent_runs'') [''run_id''] ''agent_runs'' [''id''] ''CASCADE'',
     PrimaryKey (Some ''pk_test_executions'') [''id'']]"

definition users_block :: "migration_op list" where
  "users_block =
    [create_users,
     CreateIndex ''ix_users_email'' ''users'' [''email''] True]"

definition audit_logs_block :: "migration_op list" where
  "audit_logs_block =
    [create_audit_logs,
     CreateIndex ''ix_audit_actor_created'' ''audit_logs'' [''actor_user_id'', ''created_at''] False,
     CreateIndex ''ix_audit_logs_action'' ''audit_logs'' [''action''] False,
     CreateIndex ''ix_audit_logs_correlation_id'' ''audit_logs'' [''correlation_id''] False,
     CreateIndex ''ix_audit_resource'' ''audit_logs'' [''resource_type'', ''resource_id''] False]"

definition refresh_tokens_block :: "migration_op list" where
  "refresh_tokens_block =
    [create_refresh_tokens,
     CreateIndex ''ix_refresh_tokens_expires_at'' ''refresh_tokens'' [''expires_at''] False,
     CreateIndex ''ix_refresh_tokens_family_id'' ''refresh_tokens'' [''family_id''] False,
     CreateIndex ''ix_refresh_tokens_user_id'' ''refresh_tokens'' [''user_id''] False]"

definition repositories_block :: "migration_op list" where
  "repositories_block =
    [create_repositories,
     CreateIndex ''ix_repositories_deleted_at'' ''repositories'' [''deleted_at''] False,
     CreateIndex ''ix_repositories_owner_status'' ''repositories'' [''owner_id'', ''status''] False]"

definition repository_revisions_block :: "migration_op list" where
  "repository_revisions_block =
    [create_repository_revisions,
     CreateIndex ''ix_repository_revisions_repository_id'' ''repository_revisions'' [''repository_id''] False,
     CreateIndex ''ix_repository_revisions_status'' ''repository_revisions'' [''status''] False]"

definition agent_runs_block :: "migration_op list" where
  "agent_runs_block =
    [create_agent_runs,
     CreateIndex ''ix_agent_runs_owner_status'' ''agent_runs'' [''owner_id'', ''status''] False,
     CreateIndex ''ix_agent_runs_repository_id'' ''agent_runs'' [''repository_id''] False,
     CreateIndex ''ix_agent_runs_run_type'' ''agent_runs'' [''run_type''] False,
     CreateIndex ''ix_agent_runs_status'' ''agent_runs'' [''status''] False]"

definition repository_files_block :: "migration_op list" where
  "repository_files_block =
    [create_repository_files,
     CreateIndex ''ix_repository_files_indexing_status'' ''repository_files'' [''indexing_status''] False,
     CreateIndex ''ix_repository_files_language'' ''repository_files'' [''language''] False,
     CreateIndex ''ix_repository_files_revision_id'' ''repository_files'' [''revision_id''] False]"

definition agent_run_events_block :: "migration_op list" where
  "agent_run_events_block =
    [create_agent_run_events,
     CreateIndex ''ix_agent_run_events_created_at'' ''agent_run_events'' [''created_at''] False,
     CreateIndex ''ix_agent_run_events_event_type'' ''agent_run_events'' [''event_type''] False]"

definition artifacts_block :: "migration_op list" where
  "artifacts_block =
    [create_artifacts,
     CreateIndex ''ix_artifacts_artifact_type'' ''artifacts'' [''artifact_type''] False,
     CreateIndex ''ix_artifacts_run_id'' ''artifacts'' [''run_id''] False]"

definition code_symbols_block :: "migration_op list" where
  "code_symbols_block =
    [create_code_symbols,
     CreateIndex ''ix_code_symbols_file_id'' ''code_symbols'' [''file_id''] False,
     CreateIndex ''ix_code_symbols_name'' ''code_symbols'' [''name''] False,
     CreateIndex ''ix_code_symbols_symbol_type'' ''code_symbols'' [''symbol_type''] False,
     CreateIndex ''ix_symbols_file_qualified_name'' ''code_symbols'' [''file_id'', ''qualified_name''] False]"

definition patches_block :: "migration_op list" where
  "patches_block =
    [create_patches,
     CreateIndex ''ix_patches_run_id'' ''patches'' [''run_id''] False,
     CreateIndex ''ix_patches_status'' ''patches'' [''status''] False]"

definition test_executions_block :: "migration_op list" where
  "test_executions_block =
    [create_test_executions,
     CreateIndex ''ix_test_executions_run_id'' ''test_executions'' [''run_id''] False,
     CreateIndex ''ix_test_executions_status'' ''test_executions'' [''status''] False]"

definition domain_upgrade :: "migration_op list" where
  "domain_upgrade =
    users_block @ audit_logs_block @ refresh_tokens_block @ repositories_block @
    repository_revisions_block @
    [CreateForeignKey ''repositories'' ''fk_repositories_latest_revision_id_repository_revisions''
       [''latest_revision_id''] ''repository_revisions'' [''id''] ''SET NULL''] @
    agent_runs_block @ repository_files_block @ agent_run_events_block @ artifacts_block @
    code_symbols_block @ patches_block @ test_executions_block"

definition domain_downgrade :: "migration_op list" where
  "domain_downgrade =
    [DropIndex ''ix_test_executions_status'' ''test_executions'',
     DropIndex ''ix_test_executions_run_id'' ''test_executions'', DropTable ''test_executions'',
     DropIndex ''ix_patches_status'' ''patches'', DropIndex ''ix_patches_run_id'' ''patches'',
     DropTable ''patches'', DropIndex ''ix_symbols_file_qualified_name'' ''code_symbols'',
     DropIndex ''ix_code_symbols_symbol_type'' ''code_symbols'',
     DropIndex ''ix_code_symbols_name'' ''code_symbols'',
     DropIndex ''ix_code_symbols_file_id'' ''code_symbols'', DropTable ''code_symbols'',
     DropIndex ''ix_artifacts_run_id'' ''artifacts'',
     DropIndex ''ix_artifacts_artifact_type'' ''artifacts'', DropTable ''artifacts'',
     DropIndex ''ix_agent_run_events_event_type'' ''agent_run_events'',
     DropIndex ''ix_agent_run_events_created_at'' ''agent_run_events'',
     DropTable ''agent_run_events'',
     DropIndex ''ix_repository_files_revision_id'' ''repository_files'',
     DropIndex ''ix_repository_files_language'' ''repository_files'',
     DropIndex ''ix_repository_files_indexing_status'' ''repository_files'',
     DropTable ''repository_files'', DropIndex ''ix_agent_runs_status'' ''agent_runs'',
     DropIndex ''ix_agent_runs_run_type'' ''agent_runs'',
     DropIndex ''ix_agent_runs_repository_id'' ''agent_runs'',
     DropIndex ''ix_agent_runs_owner_status'' ''agent_runs'', DropTable ''agent_runs'',
     DropConstraint ''repositories'' ''fk_repositories_latest_revision_id_repository_revisions'',
     DropIndex ''ix_repository_revisions_status'' ''repository_revisions'',
     DropIndex ''ix_repository_revisions_repository_id'' ''repository_revisions'',
     DropTable ''repository_revisions'',
     DropIndex ''ix_repositories_owner_status'' ''repositories'',
     DropIndex ''ix_repositories_deleted_at'' ''repositories'', DropTable ''repositories'',
     DropIndex ''ix_refresh_tokens_user_id'' ''refresh_tokens'',
     DropIndex ''ix_refresh_tokens_family_id'' ''refresh_tokens'',
     DropIndex ''ix_refresh_tokens_expires_at'' ''refresh_tokens'', DropTable ''refresh_tokens'',
     DropIndex ''ix_audit_resource'' ''audit_logs'',
     DropIndex ''ix_audit_logs_correlation_id'' ''audit_logs'',
     DropIndex ''ix_audit_logs_action'' ''audit_logs'',
     DropIndex ''ix_audit_actor_created'' ''audit_logs'', DropTable ''audit_logs'',
     DropIndex ''ix_users_email'' ''users'', DropTable ''users'']"

definition create_repository_index_snapshots :: migration_op where
  "create_repository_index_snapshots = CreateTable ''repository_index_snapshots''
    [Column ''id'' UuidType False None, Column ''created_at'' DateTimeType False None,
     Column ''updated_at'' DateTimeType False None, Column ''owner_id'' UuidType False None,
     Column ''repository_id'' UuidType False None, Column ''revision_id'' UuidType False None,
     Column ''commit_sha'' (StringType 64) False None,
     Column ''status'' (StringType 32) False None,
     Column ''parser_name'' (StringType 64) False None,
     Column ''embedding_provider'' (StringType 64) False None,
     Column ''embedding_model'' (StringType 255) False None,
     Column ''embedding_dimensions'' IntegerType False None,
     Column ''embedding_config'' JsonType False None, Column ''statistics'' JsonType False None,
     Column ''error_code'' (StringType 64) True None,
     Column ''error_summary'' (StringType 1000) True None,
     Column ''indexed_at'' DateTimeType True None]
    [ForeignKey None [''owner_id''] ''users'' [''id''] ''CASCADE'',
     ForeignKey None [''repository_id''] ''repositories'' [''id''] ''CASCADE'',
     ForeignKey None [''revision_id''] ''repository_revisions'' [''id''] ''CASCADE'',
     PrimaryKey (Some ''pk_repository_index_snapshots'') [''id''],
     Unique (Some ''uq_repository_index_snapshot_identity'') [''repository_id'', ''revision_id'', ''embedding_model'', ''embedding_dimensions'']]"

definition create_code_chunks :: migration_op where
  "create_code_chunks = CreateTable ''code_chunks''
    [Column ''id'' UuidType False None, Column ''created_at'' DateTimeType False None,
     Column ''updated_at'' DateTimeType False None, Column ''snapshot_id'' UuidType False None,
     Column ''owner_id'' UuidType False None, Column ''repository_id'' UuidType False None,
     Column ''revision_id'' UuidType False None, Column ''file_id'' UuidType False None,
     Column ''commit_sha'' (StringType 64) False None,
     Column ''normalized_path'' (StringType 2048) False None,
     Column ''language'' (StringType 64) True None,
     Column ''symbol_name'' (StringType 512) True None,
     Column ''qualified_name'' (StringType 2048) True None,
     Column ''symbol_type'' (StringType 64) False None,
     Column ''start_line'' IntegerType False None, Column ''end_line'' IntegerType False None,
     Column ''part_number'' IntegerType False None, Column ''part_count'' IntegerType False None,
     Column ''content_hash'' (StringType 128) False None,
     Column ''exact_content'' TextType False None, Column ''search_text'' TextType False None,
     Column ''dense_embedding'' JsonType True None, Column ''chunk_metadata'' JsonType False None]
    [ForeignKey None [''snapshot_id''] ''repository_index_snapshots'' [''id''] ''CASCADE'',
     ForeignKey None [''owner_id''] ''users'' [''id''] ''CASCADE'',
     ForeignKey None [''repository_id''] ''repositories'' [''id''] ''CASCADE'',
     ForeignKey None [''revision_id''] ''repository_revisions'' [''id''] ''CASCADE'',
     ForeignKey None [''file_id''] ''repository_files'' [''id''] ''CASCADE'',
     PrimaryKey (Some ''pk_code_chunks'') [''id'']]"

definition repository_index_snapshots_block :: "migration_op list" where
  "repository_index_snapshots_block =
    [create_repository_index_snapshots,
     CreateIndex ''ix_repository_index_snapshots_repository_status'' ''repository_index_snapshots'' [''repository_id'', ''status''] False,
     CreateIndex ''ix_repository_index_snapshots_owner_repository'' ''repository_index_snapshots'' [''owner_id'', ''repository_id''] False,
     CreateIndex ''ix_repository_index_snapshots_revision'' ''repository_index_snapshots'' [''revision_id''] False]"

definition code_chunks_block :: "migration_op list" where
  "code_chunks_block =
    [create_code_chunks,
     CreateIndex ''ix_code_chunks_snapshot_path'' ''code_chunks'' [''snapshot_id'', ''normalized_path''] False,
     CreateIndex ''ix_code_chunks_repository_revision'' ''code_chunks'' [''repository_id'', ''revision_id''] False,
     CreateIndex ''ix_code_chunks_owner_repository'' ''code_chunks'' [''owner_id'', ''repository_id''] False,
     CreateIndex ''ix_code_chunks_language'' ''code_chunks'' [''language''] False,
     CreateIndex ''ix_code_chunks_symbol_type'' ''code_chunks'' [''symbol_type''] False,
     CreateIndex ''ix_code_chunks_content_hash'' ''code_chunks'' [''content_hash''] False]"

definition indexing_upgrade :: "migration_op list" where
  "indexing_upgrade =
    [AddColumn ''repositories'' (Column ''latest_indexed_revision_id'' UuidType True None),
     CreateForeignKey ''repositories'' ''fk_repositories_latest_indexed_revision_id_repository_revisions''
       [''latest_indexed_revision_id''] ''repository_revisions'' [''id''] ''SET NULL'',
     AddColumn ''repository_files'' (Column ''content'' TextType True None)] @
    repository_index_snapshots_block @ code_chunks_block"

definition indexing_downgrade :: "migration_op list" where
  "indexing_downgrade =
    [DropIndex ''ix_code_chunks_content_hash'' ''code_chunks'',
     DropIndex ''ix_code_chunks_symbol_type'' ''code_chunks'',
     DropIndex ''ix_code_chunks_language'' ''code_chunks'',
     DropIndex ''ix_code_chunks_owner_repository'' ''code_chunks'',
     DropIndex ''ix_code_chunks_repository_revision'' ''code_chunks'',
     DropIndex ''ix_code_chunks_snapshot_path'' ''code_chunks'', DropTable ''code_chunks'',
     DropIndex ''ix_repository_index_snapshots_revision'' ''repository_index_snapshots'',
     DropIndex ''ix_repository_index_snapshots_owner_repository'' ''repository_index_snapshots'',
     DropIndex ''ix_repository_index_snapshots_repository_status'' ''repository_index_snapshots'',
     DropTable ''repository_index_snapshots'', DropColumn ''repository_files'' ''content'',
     DropConstraint ''repositories'' ''fk_repositories_latest_indexed_revision_id_repository_revisions'',
     DropColumn ''repositories'' ''latest_indexed_revision_id'']"

definition system_metadata_model :: model_class where
  "system_metadata_model = ModelClass ''system_metadata'' (uuid_primary_key_mixin @ timestamp_mixin @
    [MappedColumn ''metadata_key'' (StringType 255) False False None True True None,
     MappedColumn ''metadata_value'' JsonType False True None False False None])
    []"

definition user_model :: model_class where
  "user_model = ModelClass ''users'' (uuid_primary_key_mixin @ timestamp_mixin @
    [MappedColumn ''email'' (StringType 320) False False None True True None,
     MappedColumn ''password_hash'' (StringType 512) False False None False False None,
     MappedColumn ''display_name'' (StringType 120) False False None False False None,
     MappedColumn ''role'' (StringType 32) False True (Some ''user'') False False None,
     MappedColumn ''is_active'' BooleanType False True (Some ''1'') False False None,
     MappedColumn ''email_verified'' BooleanType False True (Some ''0'') False False None,
     MappedColumn ''failed_login_count'' IntegerType False True (Some ''0'') False False None,
     MappedColumn ''last_failed_login_at'' DateTimeType True False None False False None,
     MappedColumn ''last_login_at'' DateTimeType True False None False False None])
    []"

definition refresh_token_model :: model_class where
  "refresh_token_model = ModelClass ''refresh_tokens'' (uuid_primary_key_mixin @ timestamp_mixin @
    [MappedColumn ''user_id'' UuidType False False None False True (Some (''users'', ''id'', ''CASCADE'')),
     MappedColumn ''token_hash'' (BinaryType 32) False False None True False None,
     MappedColumn ''family_id'' UuidType False False None False True None,
     MappedColumn ''expires_at'' DateTimeType False False None False True None,
     MappedColumn ''revoked_at'' DateTimeType True False None False False None,
     MappedColumn ''replaced_by_id'' UuidType True False None False False (Some (''refresh_tokens'', ''id'', ''SET NULL'')),
     MappedColumn ''user_agent_hash'' (BinaryType 32) True False None False False None])
    []"

definition repository_model :: model_class where
  "repository_model = ModelClass ''repositories'' (uuid_primary_key_mixin @ timestamp_mixin @
    [MappedColumn ''owner_id'' UuidType False False None False False (Some (''users'', ''id'', ''CASCADE'')),
     MappedColumn ''name'' (StringType 255) False False None False False None,
     MappedColumn ''normalized_clone_url'' (StringType 2048) False False None False False None,
     MappedColumn ''default_branch'' (StringType 255) True False None False False None,
     MappedColumn ''status'' (StringType 32) False True None False False None,
     MappedColumn ''latest_revision_id'' UuidType True False None False False (Some (''repository_revisions'', ''id'', ''SET NULL'')),
     MappedColumn ''latest_indexed_revision_id'' UuidType True False None False False (Some (''repository_revisions'', ''id'', ''SET NULL'')),
     MappedColumn ''indexing_config'' JsonType False True None False False None,
     MappedColumn ''deleted_at'' DateTimeType True False None False True None,
     MappedColumn ''deleted_by_id'' UuidType True False None False False (Some (''users'', ''id'', ''SET NULL''))])
    [UniqueArg ''uq_repositories_owner_url'' [''owner_id'', ''normalized_clone_url''],
     IndexArg ''ix_repositories_owner_status'' [''owner_id'', ''status'']]"

definition repository_revision_model :: model_class where
  "repository_revision_model = ModelClass ''repository_revisions'' (uuid_primary_key_mixin @ timestamp_mixin @
    [MappedColumn ''repository_id'' UuidType False False None False True (Some (''repositories'', ''id'', ''CASCADE'')),
     MappedColumn ''commit_sha'' (StringType 64) False False None False False None,
     MappedColumn ''ref'' (StringType 255) True False None False False None,
     MappedColumn ''status'' (StringType 32) False True None False True None,
     MappedColumn ''cloned_at'' DateTimeType True False None False False None,
     MappedColumn ''indexed_at'' DateTimeType True False None False False None,
     MappedColumn ''file_count'' IntegerType False True None False False None,
     MappedColumn ''total_bytes'' BigIntegerType False True None False False None,
     MappedColumn ''error_code'' (StringType 64) True False None False False None,
     MappedColumn ''error_summary'' (StringType 1000) True False None False False None])
    [UniqueArg ''uq_revision_repository_sha'' [''repository_id'', ''commit_sha''],
     CheckArg ''file_count_nonnegative'' ''file_count >= 0'',
     CheckArg ''total_bytes_nonnegative'' ''total_bytes >= 0'']"

definition repository_file_model :: model_class where
  "repository_file_model = ModelClass ''repository_files'' (uuid_primary_key_mixin @ timestamp_mixin @
    [MappedColumn ''revision_id'' UuidType False False None False True (Some (''repository_revisions'', ''id'', ''CASCADE'')),
     MappedColumn ''normalized_path'' (StringType 2048) False False None False False None,
     MappedColumn ''language'' (StringType 64) True False None False False None,
     MappedColumn ''size'' BigIntegerType False False None False False None,
     MappedColumn ''content_hash'' (StringType 128) False False None False False None,
     MappedColumn ''line_count'' IntegerType False False None False False None,
     MappedColumn ''indexing_status'' (StringType 32) False False None False True None,
     MappedColumn ''excluded_reason'' (StringType 255) True False None False False None,
     MappedColumn ''content'' TextType True False None False False None])
    [UniqueArg ''uq_file_revision_path'' [''revision_id'', ''normalized_path''],
     CheckArg ''size_nonnegative'' ''size >= 0'',
     CheckArg ''line_count_nonnegative'' ''line_count >= 0'']"

definition code_symbol_model :: model_class where
  "code_symbol_model = ModelClass ''code_symbols'' (uuid_primary_key_mixin @ timestamp_mixin @
    [MappedColumn ''file_id'' UuidType False False None False True (Some (''repository_files'', ''id'', ''CASCADE'')),
     MappedColumn ''symbol_type'' (StringType 64) False False None False False None,
     MappedColumn ''name'' (StringType 512) False False None False True None,
     MappedColumn ''qualified_name'' (StringType 2048) False False None False False None,
     MappedColumn ''start_line'' IntegerType False False None False False None,
     MappedColumn ''end_line'' IntegerType False False None False False None,
     MappedColumn ''signature'' TextType True False None False False None,
     MappedColumn ''parent_symbol_id'' UuidType True False None False False (Some (''code_symbols'', ''id'', ''SET NULL'')),
     MappedColumn ''symbol_metadata'' JsonType False True None False False None])
    [CheckArg ''start_line_positive'' ''start_line > 0'',
     CheckArg ''line_range_valid'' ''end_line >= start_line'',
     IndexArg ''ix_symbols_file_qualified_name'' [''file_id'', ''qualified_name'']]"

definition repository_index_snapshot_model :: model_class where
  "repository_index_snapshot_model = ModelClass ''repository_index_snapshots'' (uuid_primary_key_mixin @ timestamp_mixin @
    [MappedColumn ''owner_id'' UuidType False False None False True (Some (''users'', ''id'', ''CASCADE'')),
     MappedColumn ''repository_id'' UuidType False False None False True (Some (''repositories'', ''id'', ''CASCADE'')),
     MappedColumn ''revision_id'' UuidType False False None False True (Some (''repository_revisions'', ''id'', ''CASCADE'')),
     MappedColumn ''commit_sha'' (StringType 64) False False None False False None,
     MappedColumn ''status'' (StringType 32) False True None False True None,
     MappedColumn ''parser_name'' (StringType 64) False False None False False None,
     MappedColumn ''embedding_provider'' (StringType 64) False False None False False None,
     MappedColumn ''embedding_model'' (StringType 255) False False None False False None,
     MappedColumn ''embedding_dimensions'' IntegerType False False None False False None,
     MappedColumn ''embedding_config'' JsonType False True None False False None,
     MappedColumn ''statistics'' JsonType False True None False False None,
     MappedColumn ''error_code'' (StringType 64) True False None False False None,
     MappedColumn ''error_summary'' (StringType 1000) True False None False False None,
     MappedColumn ''indexed_at'' DateTimeType True False None False False None])
    [UniqueArg ''uq_repository_index_snapshot_identity'' [''repository_id'', ''revision_id'', ''embedding_model'', ''embedding_dimensions''],
     IndexArg ''ix_repository_index_snapshots_repository_status'' [''repository_id'', ''status''],
     IndexArg ''ix_repository_index_snapshots_owner_repository'' [''owner_id'', ''repository_id''],
     IndexArg ''ix_repository_index_snapshots_revision'' [''revision_id'']]"

definition code_chunk_model :: model_class where
  "code_chunk_model = ModelClass ''code_chunks'' (uuid_primary_key_mixin @ timestamp_mixin @
    [MappedColumn ''snapshot_id'' UuidType False False None False True (Some (''repository_index_snapshots'', ''id'', ''CASCADE'')),
     MappedColumn ''owner_id'' UuidType False False None False True (Some (''users'', ''id'', ''CASCADE'')),
     MappedColumn ''repository_id'' UuidType False False None False True (Some (''repositories'', ''id'', ''CASCADE'')),
     MappedColumn ''revision_id'' UuidType False False None False True (Some (''repository_revisions'', ''id'', ''CASCADE'')),
     MappedColumn ''file_id'' UuidType False False None False True (Some (''repository_files'', ''id'', ''CASCADE'')),
     MappedColumn ''commit_sha'' (StringType 64) False False None False False None,
     MappedColumn ''normalized_path'' (StringType 2048) False False None False True None,
     MappedColumn ''language'' (StringType 64) True False None False False None,
     MappedColumn ''symbol_name'' (StringType 512) True False None False True None,
     MappedColumn ''qualified_name'' (StringType 2048) True False None False False None,
     MappedColumn ''symbol_type'' (StringType 64) False False None False False None,
     MappedColumn ''start_line'' IntegerType False False None False False None,
     MappedColumn ''end_line'' IntegerType False False None False False None,
     MappedColumn ''part_number'' IntegerType False True None False False None,
     MappedColumn ''part_count'' IntegerType False True None False False None,
     MappedColumn ''content_hash'' (StringType 128) False False None False True None,
     MappedColumn ''exact_content'' TextType False False None False False None,
     MappedColumn ''search_text'' TextType False False None False False None,
     MappedColumn ''dense_embedding'' JsonType True False None False False None,
     MappedColumn ''chunk_metadata'' JsonType False True None False False None])
    [IndexArg ''ix_code_chunks_snapshot_path'' [''snapshot_id'', ''normalized_path''],
     IndexArg ''ix_code_chunks_repository_revision'' [''repository_id'', ''revision_id''],
     IndexArg ''ix_code_chunks_owner_repository'' [''owner_id'', ''repository_id''],
     IndexArg ''ix_code_chunks_language'' [''language''],
     IndexArg ''ix_code_chunks_symbol_type'' [''symbol_type'']]"

definition agent_run_model :: model_class where
  "agent_run_model = ModelClass ''agent_runs'' (uuid_primary_key_mixin @ timestamp_mixin @
    [MappedColumn ''owner_id'' UuidType False False None False False (Some (''users'', ''id'', ''CASCADE'')),
     MappedColumn ''repository_id'' UuidType False False None False True (Some (''repositories'', ''id'', ''CASCADE'')),
     MappedColumn ''revision_id'' UuidType True False None False False (Some (''repository_revisions'', ''id'', ''SET NULL'')),
     MappedColumn ''run_type'' (StringType 64) False False None False True None,
     MappedColumn ''status'' (StringType 32) False False None False True None,
     MappedColumn ''input_summary'' TextType False False None False False None,
     MappedColumn ''model_provider'' (StringType 64) False False None False False None,
     MappedColumn ''model_identifier'' (StringType 255) False False None False False None,
     MappedColumn ''prompt_version'' (StringType 64) False False None False False None,
     MappedColumn ''started_at'' DateTimeType True False None False False None,
     MappedColumn ''completed_at'' DateTimeType True False None False False None,
     MappedColumn ''cancellation_metadata'' JsonType True False None False False None,
     MappedColumn ''error_code'' (StringType 64) True False None False False None,
     MappedColumn ''error_message'' (StringType 1000) True False None False False None,
     MappedColumn ''input_units'' BigIntegerType True False None False False None,
     MappedColumn ''output_units'' BigIntegerType True False None False False None])
    [IndexArg ''ix_agent_runs_owner_status'' [''owner_id'', ''status'']]"

definition agent_run_event_model :: model_class where
  "agent_run_event_model = ModelClass ''agent_run_events'' (uuid_primary_key_mixin @
    [MappedColumn ''run_id'' UuidType False False None False False (Some (''agent_runs'', ''id'', ''CASCADE'')),
     MappedColumn ''sequence'' IntegerType False False None False False None,
     MappedColumn ''event_type'' (StringType 64) False False None False True None,
     MappedColumn ''public_message'' (StringType 2000) False False None False False None,
     MappedColumn ''private_metadata'' JsonType False True None False False None,
     MappedColumn ''created_at'' DateTimeType False False (Some ''now()'') False True None])
    [UniqueArg ''uq_run_event_sequence'' [''run_id'', ''sequence'']]"

definition artifact_model :: model_class where
  "artifact_model = ModelClass ''artifacts'' (uuid_primary_key_mixin @ timestamp_mixin @
    [MappedColumn ''run_id'' UuidType False False None False True (Some (''agent_runs'', ''id'', ''CASCADE'')),
     MappedColumn ''artifact_type'' (StringType 64) False False None False True None,
     MappedColumn ''storage_path'' (StringType 2048) True False None False False None,
     MappedColumn ''content_reference'' (StringType 2048) True False None False False None,
     MappedColumn ''media_type'' (StringType 255) False False None False False None,
     MappedColumn ''size'' BigIntegerType False False None False False None,
     MappedColumn ''checksum'' (StringType 128) False False None False False None,
     MappedColumn ''artifact_metadata'' JsonType False True None False False None])
    []"

definition patch_model :: model_class where
  "patch_model = ModelClass ''patches'' (uuid_primary_key_mixin @ timestamp_mixin @
    [MappedColumn ''run_id'' UuidType False False None False True (Some (''agent_runs'', ''id'', ''CASCADE'')),
     MappedColumn ''status'' (StringType 32) False False None False True None,
     MappedColumn ''base_commit_sha'' (StringType 64) False False None False False None,
     MappedColumn ''unified_diff'' TextType False False None False False None,
     MappedColumn ''diff_checksum'' (StringType 128) False False None True False None,
     MappedColumn ''affected_file_count'' IntegerType False False None False False None,
     MappedColumn ''approval_metadata'' JsonType True False None False False None,
     MappedColumn ''validation_metadata'' JsonType True False None False False None,
     MappedColumn ''applied_at'' DateTimeType True False None False False None,
     MappedColumn ''reverted_at'' DateTimeType True False None False False None])
    []"

definition test_execution_model :: model_class where
  "test_execution_model = ModelClass ''test_executions'' (uuid_primary_key_mixin @ timestamp_mixin @
    [MappedColumn ''run_id'' UuidType False False None False True (Some (''agent_runs'', ''id'', ''CASCADE'')),
     MappedColumn ''patch_id'' UuidType True False None False False (Some (''patches'', ''id'', ''SET NULL'')),
     MappedColumn ''status'' (StringType 32) False False None False True None,
     MappedColumn ''command_identifier'' (StringType 255) False False None False False None,
     MappedColumn ''exit_code'' IntegerType True False None False False None,
     MappedColumn ''duration_ms'' BigIntegerType True False None False False None,
     MappedColumn ''stdout'' TextType True False None False False None,
     MappedColumn ''stderr'' TextType True False None False False None,
     MappedColumn ''resource_summary'' JsonType True False None False False None])
    []"

definition audit_log_model :: model_class where
  "audit_log_model = ModelClass ''audit_logs'' (uuid_primary_key_mixin @ created_at_mixin @
    [MappedColumn ''actor_user_id'' UuidType True False None False False (Some (''users'', ''id'', ''SET NULL'')),
     MappedColumn ''action'' (StringType 128) False False None False True None,
     MappedColumn ''resource_type'' (StringType 64) False False None False False None,
     MappedColumn ''resource_id'' UuidType True False None False False None,
     MappedColumn ''result'' (StringType 32) False False None False False None,
     MappedColumn ''correlation_id'' (StringType 128) False False None False True None,
     MappedColumn ''ip_hash'' (BinaryType 32) True False None False False None,
     MappedColumn ''details'' JsonType False True None False False None])
    [IndexArg ''ix_audit_actor_created'' [''actor_user_id'', ''created_at''],
     IndexArg ''ix_audit_resource'' [''resource_type'', ''resource_id'']]"

definition models :: "model_class list" where
  "models = [system_metadata_model, user_model, refresh_token_model, repository_model,
     repository_revision_model, repository_file_model, code_symbol_model,
     repository_index_snapshot_model, code_chunk_model, agent_run_model, agent_run_event_model,
     artifact_model, patch_model, test_execution_model, audit_log_model]"
section \<open>Well-formed schemas\<close>

definition wf_schema :: "schema \<Rightarrow> bool" where
  "wf_schema s \<longleftrightarrow> distinct (map fst s) \<and> (\<forall>(n, t) \<in> set s. table_ok s t)"

lemma wf_schemaD:
  "wf_schema s \<Longrightarrow> distinct (map fst s)"
  "wf_schema s \<Longrightarrow> map_of s n = Some t \<Longrightarrow> table_ok s t"
  by (auto simp: wf_schema_def dest!: map_of_SomeD)

lemma has_columns_iff: "has_columns t cs \<longleftrightarrow> set cs \<subseteq> set (column_names t)"
  by (auto simp: has_columns_def list_all_iff)

text \<open>A schema that keeps every table a constraint may refer to, with at least its columns.\<close>

definition extends :: "schema \<Rightarrow> schema \<Rightarrow> bool" where
  "extends s s' \<longleftrightarrow> (\<forall>n t. map_of s n = Some t \<longrightarrow>
     (\<exists>t'. map_of s' n = Some t' \<and> set (column_names t) \<subseteq> set (column_names t')))"

lemma reference_ok_iff: "reference_ok s c \<longleftrightarrow> (\<forall>n cs rt rcs od. c = ForeignKey n cs rt rcs od \<longrightarrow>
    (\<exists>t. map_of s rt = Some t \<and> set rcs \<subseteq> set (column_names t) \<and> length rcs = length cs))"
  by (cases "(s, c)" rule: reference_ok.cases) (auto simp: has_columns_iff split: option.splits)

lemma reference_ok_extends: "extends s s' \<Longrightarrow> reference_ok s c \<Longrightarrow> reference_ok s' c"
  by (cases c) (simp_all add: reference_ok_iff extends_def, meson subset_trans)

lemma table_ok_extends: "extends s s' \<Longrightarrow> table_ok s t \<Longrightarrow> table_ok s' t"
  using reference_ok_extends [of s s'] by (auto simp: table_ok_def list_all_iff)

lemma replace_table_names [simp]: "map fst (replace_table n t s) = map fst s"
  by (induction s) (auto simp: replace_table_def)

lemma replace_table_other: "m \<noteq> n \<Longrightarrow> map_of (replace_table n t s) m = map_of s m"
  by (induction s) (auto simp: replace_table_def)

lemma replace_table_same: "n \<in> fst ` set s \<Longrightarrow> map_of (replace_table n t s) n = Some t"
  by (induction s) (auto simp: replace_table_def)

lemma replace_table_map_of:
  "map_of s n = Some q \<Longrightarrow> map_of (replace_table n t s) m = (if m = n then Some t else map_of s m)"
  using replace_table_same [of n s t] map_of_SomeD [of s n q] by (force simp: replace_table_other)

lemma replace_table_in:
  "(m, q) \<in> set (replace_table n t s) \<Longrightarrow> (m = n \<and> q = t) \<or> (m \<noteq> n \<and> (m, q) \<in> set s)"
  by (auto simp: replace_table_def split: if_splits)

lemma replace_table_back:
  "distinct (map fst s) \<Longrightarrow> map_of s n = Some t \<Longrightarrow> replace_table n t (replace_table n q s) = s"
proof -
  assume a: "distinct (map fst s)" "map_of s n = Some t"
  have "(case x of (m, p) \<Rightarrow> if m = n then (m, t) else (m, p)) = x" if "x \<in> set s" for x
    using map_of_is_SomeI [OF a(1), of "fst x" "snd x"] a(2) that by (cases x) auto
  moreover have "replace_table n t (replace_table n q s) = map (\<lambda>x. case x of (m, p) \<Rightarrow> if m = n then (m, t) else (m, p)) s"
    by (auto simp: replace_table_def)
  ultimately show ?thesis by (simp add: map_idI)
qed

lemma extends_replace:
  "map_of s n = Some t \<Longrightarrow> set (column_names t) \<subseteq> set (column_names t') \<Longrightarrow> extends s (replace_table n t' s)"
  by (auto simp: extends_def replace_table_map_of)

text \<open>Replacing a table by one with at least its columns, well-formed if it was.\<close>

lemma wf_replace_table:
  assumes wf: "wf_schema s" and n: "map_of s n = Some t"
    and cols: "set (column_names t) \<subseteq> set (column_names t')"
    and ok: "table_ok (replace_table n t' s) t \<Longrightarrow> table_ok (replace_table n t' s) t'"
  shows "wf_schema (replace_table n t' s)"
proof -
  note ext = extends_replace [OF n cols]
  then have "table_ok (replace_table n t' s) q" if "(m, q) \<in> set s" for m q
    using that wf table_ok_extends by (auto simp: wf_schema_def)
  moreover from this map_of_SomeD [OF n] ok have "table_ok (replace_table n t' s) t'" by blast
  ultimately show ?thesis
    using wf replace_table_in by (fastforce simp: wf_schema_def)
qed

lemma wf_create_table:
  assumes "wf_schema s" "create_table n cols cons s = Inr s'"
  shows "wf_schema s'"
proof -
  let ?t = "\<lparr>tb_columns = cols, tb_constraints = cons, tb_indexes = []\<rparr>"
  have new: "n \<notin> fst ` set s" and s': "s' = s @ [(n, ?t)]"
    and ok: "distinct (map column_name cols)" "list_all (\<lambda>c. has_columns ?t (constraint_columns c)) cons"
      "list_all (reference_ok s') cons"
    using assms(2) by (auto simp: create_table_def Let_def split: if_splits)
  have "extends s s'" using new by (auto simp: s' extends_def map_add_def split: option.splits)
  then have "table_ok s' q" if "(m, q) \<in> set s" for m q
    using that assms(1) table_ok_extends by (auto simp: wf_schema_def)
  moreover have "table_ok s' ?t" using ok by (simp add: table_ok_def list_all_iff column_names_def)
  moreover have "distinct (map fst s')" using new assms(1) by (auto simp: s' wf_schema_def)
  ultimately show ?thesis by (auto simp: wf_schema_def s')
qed

lemma wf_drop_table:
  assumes "wf_schema s" "drop_table n s = Inr s'"
  shows "wf_schema s'"
proof -
  from assms(2) have s': "s' = filter (\<lambda>(m, q). m \<noteq> n) s"
    and free: "\<And>m q c. (m, q) \<in> set s \<Longrightarrow> m \<noteq> n \<Longrightarrow> c \<in> set (tb_constraints q) \<Longrightarrow> \<not> refers_to n c"
    by (auto simp: drop_table_def with_table_def list_ex_iff split: option.splits if_splits)
  have "map_of s' m = map_of s m" if "m \<noteq> n" for m
    using that unfolding s' by (induction s) auto
  then have keep: "reference_ok s' c" if "reference_ok s c" "\<not> refers_to n c" for c
    using that by (cases "(s, c)" rule: reference_ok.cases) (auto split: option.splits)
  have "distinct (map fst s')" using assms(1) by (simp add: s' wf_schema_def distinct_map_filter)
  moreover have "table_ok s' q" if "(m, q) \<in> set s'" for m q
    using that assms(1) free keep by (auto simp: s' wf_schema_def table_ok_def list_all_iff)
  ultimately show ?thesis by (auto simp: wf_schema_def)
qed

lemma with_table_Inr: "with_table s n f = Inr s' \<longleftrightarrow> (\<exists>t. map_of s n = Some t \<and> f t = Inr s')"
  by (simp add: with_table_def split: option.splits)

lemma wf_drop_column:
  assumes "wf_schema s" "drop_column n c s = Inr s'"
  shows "wf_schema s'"
proof -
  from assms(2) obtain t where t: "map_of s n = Some t"
    and free: "\<And>m q k. (m, q) \<in> set s \<Longrightarrow> k \<in> set (tb_constraints q) \<Longrightarrow> \<not> refers_to_column n c k"
    and s': "s' = replace_table n
       (t\<lparr>tb_columns := filter (\<lambda>x. column_name x \<noteq> c) (tb_columns t),
          tb_constraints := filter (\<lambda>x. c \<notin> set (constraint_columns x)) (tb_constraints t),
          tb_indexes := filter (\<lambda>x. c \<notin> set (index_columns x)) (tb_indexes t)\<rparr>) s"
    by (auto simp: drop_column_def with_table_Inr list_ex_iff split: if_splits)
  let ?t = "t\<lparr>tb_columns := filter (\<lambda>x. column_name x \<noteq> c) (tb_columns t),
          tb_constraints := filter (\<lambda>x. c \<notin> set (constraint_columns x)) (tb_constraints t),
          tb_indexes := filter (\<lambda>x. c \<notin> set (index_columns x)) (tb_indexes t)\<rparr>"
  have cols: "column_names ?t = filter (\<lambda>x. x \<noteq> c) (column_names t)"
    by (simp add: column_names_def filter_map comp_def)
  have keep: "reference_ok s' k" if "reference_ok s k" "\<not> refers_to_column n c k" for k
    using that by (cases "(s, k)" rule: reference_ok.cases)
      (auto simp: s' replace_table_map_of [OF t] has_columns_iff cols t split: option.splits if_splits)
  have "table_ok s' q" if "(m, q) \<in> set s" for m q
    using that assms(1) free keep by (auto simp: wf_schema_def table_ok_def list_all_iff)
  moreover have "table_ok s' ?t"
    using wf_schemaD(2) [OF assms(1) t] free keep map_of_SomeD [OF t]
    by (auto simp: table_ok_def list_all_iff has_columns_iff cols)
  ultimately show ?thesis
    using assms(1) replace_table_in by (fastforce simp: wf_schema_def s')
qed

lemma wf_apply_op:
  assumes wf: "wf_schema s" and x: "apply_op x s = Inr s'"
  shows "wf_schema s'"
proof (cases x)
  case (CreateIndex i n cs u)
  with x obtain t where t: "map_of s n = Some t" "has_columns t cs"
      "s' = replace_table n (t\<lparr>tb_indexes := tb_indexes t @ [TableIndex i cs u]\<rparr>) s"
    by (auto simp: create_index_def with_table_Inr split: if_splits)
  show ?thesis unfolding t(3)
    by (rule wf_replace_table [OF wf t(1)]) (use t(2) in \<open>auto simp: table_ok_def has_columns_def column_names_def\<close>)
next
  case (DropIndex i n)
  with x obtain t where t: "map_of s n = Some t"
      "s' = replace_table n (t\<lparr>tb_indexes := filter (\<lambda>x. index_name x \<noteq> i) (tb_indexes t)\<rparr>) s"
    by (auto simp: drop_index_def with_table_Inr split: if_splits)
  show ?thesis unfolding t(2)
    by (rule wf_replace_table [OF wf t(1)]) (auto simp: table_ok_def has_columns_def column_names_def list_all_iff)
next
  case (AddColumn n c)
  with x obtain t where t: "map_of s n = Some t" "column_name c \<notin> set (column_names t)"
      "s' = replace_table n (t\<lparr>tb_columns := tb_columns t @ [c]\<rparr>) s"
    by (auto simp: add_column_def with_table_Inr split: if_splits)
  show ?thesis unfolding t(3)
    by (rule wf_replace_table [OF wf t(1)]) (use t(2) in \<open>auto simp: table_ok_def has_columns_iff column_names_def list_all_iff\<close>)
next
  case (CreateForeignKey n k cs rt rcs od)
  let ?k = "ForeignKey (Some k) cs rt rcs od"
  from CreateForeignKey x obtain t where t: "map_of s n = Some t" "has_columns t (constraint_columns ?k)" "reference_ok s ?k"
      "s' = replace_table n (t\<lparr>tb_constraints := tb_constraints t @ [?k]\<rparr>) s"
    unfolding CreateForeignKey apply_op.simps add_constraint_def with_table_Inr by (auto simp only: split: if_splits)
  have "extends s s'" unfolding t(4) by (rule extends_replace [OF t(1)]) (simp add: column_names_def)
  then have "reference_ok s' ?k" using t(3) by (rule reference_ok_extends)
  then show ?thesis unfolding t(4)
    by (intro wf_replace_table [OF wf t(1)]) (use t(2) in \<open>simp_all add: table_ok_def has_columns_def column_names_def\<close>)
next
  case (DropConstraint n k)
  with x obtain t where t: "map_of s n = Some t"
      "s' = replace_table n (t\<lparr>tb_constraints := filter (\<lambda>c. constraint_name n c \<noteq> k) (tb_constraints t)\<rparr>) s"
    by (auto simp: drop_constraint_def with_table_Inr split: if_splits)
  show ?thesis unfolding t(2)
    by (rule wf_replace_table [OF wf t(1)]) (auto simp: table_ok_def has_columns_def column_names_def list_all_iff)
qed (use assms in \<open>auto dest: wf_create_table wf_drop_table wf_drop_column\<close>)

lemma migrate_append: "migrate (xs @ ys) s = (case migrate xs s of Inl e \<Rightarrow> Inl e | Inr t \<Rightarrow> migrate ys t)"
  by (induction xs arbitrary: s) (auto split: sum.splits)


section \<open>Undoing a migration\<close>

fun undo :: "migration_op \<Rightarrow> migration_op" where
  "undo (CreateTable n cols cons) = DropTable n"
| "undo (CreateIndex i n cs u) = DropIndex i n"
| "undo (AddColumn n c) = DropColumn n (column_name c)"
| "undo (CreateForeignKey n k cs rt rcs od) = DropConstraint n k"
| "undo x = x"

fun constructive :: "migration_op \<Rightarrow> bool" where
  "constructive (DropTable n) = False"
| "constructive (DropIndex i n) = False"
| "constructive (DropColumn n c) = False"
| "constructive (DropConstraint n k) = False"
| "constructive _ = True"

lemma wf_reference: "wf_schema s \<Longrightarrow> (m, q) \<in> set s \<Longrightarrow> k \<in> set (tb_constraints q) \<Longrightarrow> reference_ok s k"
  by (fastforce simp: wf_schema_def table_ok_def list_all_iff simp del: reference_ok.simps)

lemma undo_apply_op:
  assumes wf: "wf_schema s" and x: "apply_op x s = Inr s'" and c: "constructive x"
  shows "apply_op (undo x) s' = Inr s"
proof (cases x)
  case (CreateTable n cols cons)
  with x have new: "n \<notin> fst ` set s" and s': "s' = s @ [(n, \<lparr>tb_columns = cols, tb_constraints = cons, tb_indexes = []\<rparr>)]"
    by (auto simp: create_table_def Let_def split: if_splits)
  have "\<not> refers_to n k" if "(m, q) \<in> set s" "k \<in> set (tb_constraints q)" for m q k
  proof (cases k)
    case (ForeignKey a cs rt rcs od)
    from wf_reference [OF wf that] have "reference_ok s k" .
    with ForeignKey new show ?thesis by (force simp: reference_ok_iff dest: map_of_SomeD)
  qed simp_all
  moreover have "filter (\<lambda>(m, q). m \<noteq> n) s = s" using new by (force simp: filter_id_conv)
  moreover have "map_of s n = None" using new by (simp add: map_of_eq_None_iff)
  ultimately show ?thesis
    by (auto simp: CreateTable drop_table_def with_table_def s' list_ex_iff map_add_def)
next
  case (CreateIndex i n cs u)
  with x obtain t where t: "map_of s n = Some t" "i \<notin> set (all_indexes s)"
      "s' = replace_table n (t\<lparr>tb_indexes := tb_indexes t @ [TableIndex i cs u]\<rparr>) s"
    by (auto simp: create_index_def with_table_Inr split: if_splits)
  have "i \<notin> index_name ` set (tb_indexes t)" using t(2) map_of_SomeD [OF t(1)] by (force simp: all_indexes_def)
  then have "filter (\<lambda>x. index_name x \<noteq> i) (tb_indexes t) = tb_indexes t" by (force simp: filter_id_conv)
  then show ?thesis
    using replace_table_back [OF wf_schemaD(1) [OF wf] t(1)]
    by (simp add: CreateIndex drop_index_def with_table_def t(3) replace_table_map_of [OF t(1)])
next
  case (AddColumn n c)
  with x obtain t where t: "map_of s n = Some t" "column_name c \<notin> set (column_names t)"
      "s' = replace_table n (t\<lparr>tb_columns := tb_columns t @ [c]\<rparr>) s"
    by (auto simp: add_column_def with_table_Inr split: if_splits)
  let ?t = "t\<lparr>tb_columns := tb_columns t @ [c]\<rparr>"
  note ok = wf_schemaD(2) [OF wf t(1)]
  have "filter (\<lambda>x. column_name x \<noteq> column_name c) (tb_columns t) = tb_columns t"
    by (rule filter_True) (use t(2) in \<open>force simp: column_names_def intro: rev_image_eqI\<close>)
  moreover have "filter (\<lambda>x. column_name c \<notin> set (constraint_columns x)) (tb_constraints t) = tb_constraints t"
      "filter (\<lambda>x. column_name c \<notin> set (index_columns x)) (tb_indexes t) = tb_indexes t"
    using ok t(2) by (auto simp: filter_id_conv table_ok_def list_all_iff has_columns_iff)
  moreover have "\<not> refers_to_column n (column_name c) k" if "(m, q) \<in> set s'" "k \<in> set (tb_constraints q)" for m q k
  proof (cases k)
    case (ForeignKey a cs rt rcs od)
    have "\<exists>p. (m, p) \<in> set s \<and> k \<in> set (tb_constraints p)"
      using that t(3) map_of_SomeD [OF t(1)] by (auto dest!: replace_table_in)
    with wf_reference [OF wf] have "reference_ok s k" by blast
    with ForeignKey t(1,2) show ?thesis by (auto simp: reference_ok_iff)
  qed simp_all
  then have "\<not> list_ex (\<lambda>(m, q). list_ex (refers_to_column n (column_name c)) (tb_constraints q)) s'"
    by (auto simp: list_ex_iff)
  moreover have "map_of s' n = Some ?t" by (simp add: t(3) replace_table_map_of [OF t(1)])
  moreover have "replace_table n t s' = s"
    unfolding t(3) by (rule replace_table_back [OF wf_schemaD(1) [OF wf] t(1)])
  ultimately show ?thesis by (simp add: AddColumn drop_column_def with_table_def column_names_def)
next
  case (CreateForeignKey n k cs rt rcs od)
  let ?k = "ForeignKey (Some k) cs rt rcs od"
  from CreateForeignKey x obtain t where t: "map_of s n = Some t" "k \<notin> constraint_name n ` set (tb_constraints t)"
      "s' = replace_table n (t\<lparr>tb_constraints := tb_constraints t @ [?k]\<rparr>) s"
    unfolding CreateForeignKey apply_op.simps add_constraint_def with_table_Inr
    by (auto simp only: constraint_name.simps split: if_splits)
  then have "filter (\<lambda>c. constraint_name n c \<noteq> k) (tb_constraints t) = tb_constraints t"
    by (force simp: filter_id_conv)
  then show ?thesis
    using replace_table_back [OF wf_schemaD(1) [OF wf] t(1)]
    by (simp add: CreateForeignKey drop_constraint_def with_table_def t(3) replace_table_map_of [OF t(1)])
qed (use c in simp_all)

lemma undo_migrate:
  assumes "wf_schema s" "migrate ops s = Inr t" "list_all constructive ops"
  shows "migrate (rev (map undo ops)) t = Inr s"
  using assms
proof (induction ops arbitrary: s)
  case (Cons x ops)
  then obtain u where u: "apply_op x s = Inr u" "migrate ops u = Inr t" by (auto split: sum.splits)
  with Cons have "migrate (rev (map undo ops)) t = Inr u" by (auto dest: wf_apply_op)
  moreover have "apply_op (undo x) u = Inr s" using undo_apply_op [OF Cons.prems(1) u(1)] Cons.prems(3) by simp
  ultimately show ?case by (simp add: migrate_append)
qed simp

lemma downgrades:
  "metadata_downgrade = rev (map undo metadata_upgrade)" "list_all constructive metadata_upgrade"
  "domain_downgrade = rev (map undo domain_upgrade)" "list_all constructive domain_upgrade"
  "indexing_downgrade = rev (map undo indexing_upgrade)" "list_all constructive indexing_upgrade"
  by (simp_all add: system_metadata_block_def users_block_def audit_logs_block_def refresh_tokens_block_def repositories_block_def repository_revisions_block_def agent_runs_block_def repository_files_block_def agent_run_events_block_def artifacts_block_def code_symbols_block_def patches_block_def test_executions_block_def repository_index_snapshots_block_def code_chunks_block_def
      metadata_downgrade_def metadata_upgrade_def domain_downgrade_def domain_upgrade_def
      indexing_downgrade_def indexing_upgrade_def create_system_metadata_def create_users_def create_audit_logs_def
      create_refresh_tokens_def create_repositories_def create_repository_revisions_def create_agent_runs_def
      create_repository_files_def create_agent_run_events_def create_artifacts_def create_code_symbols_def
      create_patches_def create_test_executions_def create_repository_index_snapshots_def create_code_chunks_def)

text \<open>
  C14: each of the three revisions can be undone: whatever well-formed schema an upgrade was
  applied to, its downgrade restores exactly that schema.
\<close>

theorem downgrade_undoes_upgrade:
  assumes "wf_schema s"
    and "(upgrade, downgrade) \<in> {(metadata_upgrade, metadata_downgrade), (domain_upgrade, domain_downgrade),
      (indexing_upgrade, indexing_downgrade)}"
    and "migrate upgrade s = Inr t"
  shows "migrate downgrade t = Inr s"
proof -
  from assms(2) consider "upgrade = metadata_upgrade" "downgrade = metadata_downgrade"
    | "upgrade = domain_upgrade" "downgrade = domain_downgrade"
    | "upgrade = indexing_upgrade" "downgrade = indexing_downgrade" by blast
  then have "downgrade = rev (map undo upgrade)" "list_all constructive upgrade"
    by (cases, simp only: downgrades, simp only: downgrades, simp only: downgrades)+
  with undo_migrate [OF assms(1,3)] show ?thesis by simp
qed

section \<open>The migrations run\<close>

text \<open>
  A block creates a table and its indexes. Whether it applies to a schema depends only on
  the names of the tables and indexes there, when every table has an \<open>id\<close>.
\<close>

fun index_of :: "migration_op \<Rightarrow> table_index" where
  "index_of (CreateIndex i n cs u) = TableIndex i cs u"
| "index_of _ = TableIndex [] [] False"

fun block_table :: "migration_op list \<Rightarrow> string \<times> table_def" where
  "block_table (CreateTable n cols cons # ixs) =
     (n, \<lparr>tb_columns = cols, tb_constraints = cons, tb_indexes = map index_of ixs\<rparr>)"
| "block_table _ = ([], \<lparr>tb_columns = [], tb_constraints = [], tb_indexes = []\<rparr>)"

fun reference_known :: "string list \<Rightarrow> table_constraint \<Rightarrow> bool" where
  "reference_known names (ForeignKey n cs rt rcs od) = (rt \<in> set names \<and> rcs = [''id''] \<and> length cs = 1)"
| "reference_known names _ = True"

fun indexes_table :: "string \<Rightarrow> migration_op \<Rightarrow> bool" where
  "indexes_table n (CreateIndex i m cs u) = (m = n)"
| "indexes_table n _ = False"

definition fresh_names :: "string list \<Rightarrow> string list \<Rightarrow> bool" where
  "fresh_names old new = (list_all (\<lambda>i. i \<notin> set old) new \<and> distinct new)"

fun block_ok :: "string list \<Rightarrow> string list \<Rightarrow> migration_op list \<Rightarrow> bool" where
  "block_ok names ixnames (CreateTable n cols cons # ixs) =
     (let t = \<lparr>tb_columns = cols, tb_constraints = cons, tb_indexes = []\<rparr> in
      n \<notin> set names \<and> distinct (column_names t) \<and> has_columns t [''id'']
      \<and> list_all (\<lambda>c. has_columns t (constraint_columns c) \<and> reference_known (n # names) c) cons
      \<and> list_all (\<lambda>x. indexes_table n x \<and> has_columns t (index_columns (index_of x))) ixs
      \<and> fresh_names ixnames (map (index_name \<circ> index_of) ixs))"
| "block_ok names ixnames _ = False"

fun blocks_ok :: "string list \<Rightarrow> string list \<Rightarrow> migration_op list list \<Rightarrow> bool" where
  "blocks_ok names ixnames [] = True"
| "blocks_ok names ixnames (b # bs) =
     (block_ok names ixnames b
      \<and> blocks_ok (names @ [fst (block_table b)]) (ixnames @ map index_name (tb_indexes (snd (block_table b)))) bs)"

definition have_ids :: "schema \<Rightarrow> bool" where
  "have_ids s \<longleftrightarrow> distinct (map fst s) \<and> (\<forall>(n, t) \<in> set s. ''id'' \<in> set (column_names t))"

lemma all_indexes_append [simp]: "all_indexes (s @ [(n, t)]) = all_indexes s @ map index_name (tb_indexes t)"
  by (simp add: all_indexes_def)

lemma migrate_indexes:
  assumes "n \<notin> fst ` set s"
    and "list_all (\<lambda>x. indexes_table n x \<and> has_columns t (index_columns (index_of x))) ixs"
    and "fresh_names (all_indexes (s @ [(n, t)])) (map (index_name \<circ> index_of) ixs)"
  shows "migrate ixs (s @ [(n, t)]) = Inr (s @ [(n, t\<lparr>tb_indexes := tb_indexes t @ map index_of ixs\<rparr>)])"
  using assms
proof (induction ixs arbitrary: t)
  case (Cons x ixs)
  then obtain i cs u where x: "x = CreateIndex i n cs u" by (cases x) auto
  let ?t = "t\<lparr>tb_indexes := tb_indexes t @ [TableIndex i cs u]\<rparr>"
  have m: "map_of s n = None" using Cons.prems(1) by (simp add: map_of_eq_None_iff)
  have r: "replace_table n q (s @ [(n, t)]) = s @ [(n, q)]" for q
    using Cons.prems(1) by (induction s) (auto simp: replace_table_def)
  have "apply_op x (s @ [(n, t)]) = Inr (s @ [(n, ?t)])"
    using Cons.prems by (simp add: x create_index_def with_table_def map_add_def m r fresh_names_def)
  moreover have "migrate ixs (s @ [(n, ?t)]) = Inr (s @ [(n, ?t\<lparr>tb_indexes := tb_indexes ?t @ map index_of ixs\<rparr>)])"
    by (rule Cons.IH [OF Cons.prems(1)])
      (use Cons.prems in \<open>auto simp: x fresh_names_def list_all_iff has_columns_def column_names_def\<close>)
  ultimately show ?case by (simp add: x)
qed simp

lemma migrate_block:
  assumes "block_ok (map fst s) (all_indexes s) b" "have_ids s"
  shows "migrate b s = Inr (s @ [block_table b]) \<and> have_ids (s @ [block_table b])"
proof -
  obtain n cols cons ixs where b: "b = CreateTable n cols cons # ixs"
    using assms(1) by (cases "(map fst s, all_indexes s, b)" rule: block_ok.cases) auto
  let ?t = "\<lparr>tb_columns = cols, tb_constraints = cons, tb_indexes = []\<rparr>"
  have new: "n \<notin> fst ` set s" and ok: "distinct (column_names ?t)" "has_columns ?t [''id'']"
      "list_all (\<lambda>c. has_columns ?t (constraint_columns c)) cons" "list_all (reference_known (n # map fst s)) cons"
      "list_all (\<lambda>x. indexes_table n x \<and> has_columns ?t (index_columns (index_of x))) ixs"
      "fresh_names (all_indexes s) (map (index_name \<circ> index_of) ixs)"
    using assms(1) by (auto simp: b Let_def list_all_iff)
  have "reference_ok (s @ [(n, ?t)]) c" if "c \<in> set cons" for c
  proof (cases c)
    case (ForeignKey a cs rt rcs od)
    with ok(4) that have k: "rt = n \<or> rt \<in> fst ` set s" "rcs = [''id'']" "length cs = 1" by (auto simp: list_all_iff)
    obtain q where "map_of (s @ [(n, ?t)]) rt = Some q" "''id'' \<in> set (column_names q)"
    proof (cases "rt = n")
      case True
      have "map_of s n = None" using new by (simp add: map_of_eq_None_iff)
      with True show ?thesis using that [of ?t] ok(2) by (simp add: map_add_def has_columns_iff)
    next
      case False
      then obtain q where q: "(rt, q) \<in> set s" using k(1) by auto
      then have "map_of s rt = Some q" "''id'' \<in> set (column_names q)"
        using assms(2) by (auto simp: have_ids_def)
      with False that show ?thesis by (simp add: map_add_def)
    qed
    with k ForeignKey show ?thesis by (simp add: has_columns_iff)
  qed simp_all
  then have c: "create_table n cols cons s = Inr (s @ [(n, ?t)])"
    using new ok(1,3) by (simp add: create_table_def Let_def list_all_iff column_names_def)
  have "migrate ixs (s @ [(n, ?t)]) = Inr (s @ [(n, ?t\<lparr>tb_indexes := tb_indexes ?t @ map index_of ixs\<rparr>)])"
    by (rule migrate_indexes [OF new ok(5)]) (use ok(6) in simp)
  with c have "migrate b s = Inr (s @ [block_table b])" by (simp add: b)
  moreover have "have_ids (s @ [block_table b])"
    using assms(2) new ok(2) by (auto simp: b have_ids_def has_columns_iff column_names_def)
  ultimately show ?thesis ..
qed

lemma migrate_blocks:
  assumes "blocks_ok (map fst s) (all_indexes s) bs" "have_ids s"
  shows "migrate (concat bs) s = Inr (s @ map block_table bs) \<and> have_ids (s @ map block_table bs)"
  using assms
proof (induction bs arbitrary: s)
  case (Cons b bs)
  then have b: "migrate b s = Inr (s @ [block_table b])" "have_ids (s @ [block_table b])"
    using migrate_block by auto
  moreover have "blocks_ok (map fst (s @ [block_table b])) (all_indexes (s @ [block_table b])) bs"
    using Cons.prems(1) by (cases "block_table b") simp
  ultimately show ?case using Cons.IH [of "s @ [block_table b]"] by (simp add: migrate_append)
qed simp

text \<open>Altering a table keeps the names of tables and indexes.\<close>

fun alters :: "migration_op \<Rightarrow> bool" where
  "alters (AddColumn n c) = True"
| "alters (CreateForeignKey n k cs rt rcs od) = True"
| "alters _ = False"

lemma replace_table_indexes:
  assumes "map_of s n = Some t" "distinct (map fst s)" "tb_indexes u = tb_indexes t"
  shows "all_indexes (replace_table n u s) = all_indexes s"
proof -
  have "p = t" if "(n, p) \<in> set s" for p
    using map_of_is_SomeI [OF assms(2) that] assms(1) by simp
  then show ?thesis
    unfolding all_indexes_def replace_table_def map_map using assms(3)
    by (intro arg_cong [where f = concat] map_cong) auto
qed

lemma apply_alters:
  assumes "alters x" "apply_op x s = Inr t" "have_ids s"
  shows "map fst t = map fst s \<and> all_indexes t = all_indexes s \<and> have_ids t"
proof -
  obtain n q u where q: "map_of s n = Some q" and u: "tb_indexes u = tb_indexes q"
      "set (column_names q) \<subseteq> set (column_names u)" and t: "t = replace_table n u s"
  proof (cases x)
    case (AddColumn m c)
    with assms(2) obtain q where "map_of s m = Some q" "t = replace_table m (q\<lparr>tb_columns := tb_columns q @ [c]\<rparr>) s"
      by (auto simp: add_column_def with_table_Inr split: if_splits)
    then show ?thesis by (intro that) (auto simp: column_names_def)
  next
    case (CreateForeignKey m k cs rt rcs od)
    with assms(2) obtain q where "map_of s m = Some q"
        "t = replace_table m (q\<lparr>tb_constraints := tb_constraints q @ [ForeignKey (Some k) cs rt rcs od]\<rparr>) s"
      by (auto simp: add_constraint_def with_table_Inr split: if_splits)
    then show ?thesis by (intro that) (auto simp: column_names_def)
  qed (use assms(1) in simp_all)
  have d: "distinct (map fst s)" using assms(3) by (simp add: have_ids_def)
  have "''id'' \<in> set (column_names u)" using assms(3) map_of_SomeD [OF q] u(2) by (auto simp: have_ids_def)
  then have "''id'' \<in> set (column_names p)" if "(m, p) \<in> set t" for m p
    using that assms(3) unfolding t have_ids_def replace_table_def
    by (auto split: if_splits prod.splits)
  then show ?thesis
    using replace_table_indexes [OF q d u(1)] d unfolding t have_ids_def by auto
qed

fun succeeds :: "'e + 'a \<Rightarrow> bool" where
  "succeeds (Inl e) = False"
| "succeeds (Inr a) = True"

lemma succeedsE: "succeeds r \<Longrightarrow> \<exists>a. r = Inr a"
  by (cases r) auto

lemma migrate_alters:
  assumes "list_all alters xs" "migrate xs s = Inr t" "have_ids s"
  shows "map fst t = map fst s \<and> all_indexes t = all_indexes s \<and> have_ids t"
  using assms
proof (induction xs arbitrary: s)
  case (Cons x xs)
  then obtain u where u: "apply_op x s = Inr u" "migrate xs u = Inr t" by (auto split: sum.splits)
  have "map fst u = map fst s \<and> all_indexes u = all_indexes s \<and> have_ids u"
    by (rule apply_alters [OF _ u(1) Cons.prems(3)]) (use Cons.prems(1) in simp)
  then show ?case using Cons.IH [OF _ u(2)] Cons.prems(1) by simp
qed simp

text \<open>The tables before each of the altering operations.\<close>

definition first_blocks :: "migration_op list list" where
  "first_blocks = [system_metadata_block, users_block, audit_logs_block, refresh_tokens_block,
     repositories_block, repository_revisions_block]"

definition more_blocks :: "migration_op list list" where
  "more_blocks = [agent_runs_block, repository_files_block, agent_run_events_block, artifacts_block,
     code_symbols_block, patches_block, test_executions_block]"

definition link_repositories :: "migration_op list" where
  "link_repositories =
    [CreateForeignKey ''repositories'' ''fk_repositories_latest_revision_id_repository_revisions''
       [''latest_revision_id''] ''repository_revisions'' [''id''] ''SET NULL'']"

definition index_columns_added :: "migration_op list" where
  "index_columns_added =
    [AddColumn ''repositories'' (Column ''latest_indexed_revision_id'' UuidType True None),
     CreateForeignKey ''repositories'' ''fk_repositories_latest_indexed_revision_id_repository_revisions''
       [''latest_indexed_revision_id''] ''repository_revisions'' [''id''] ''SET NULL'',
     AddColumn ''repository_files'' (Column ''content'' TextType True None)]"

text \<open>All revisions in the order of their \<^verbatim>\<open>down_revision\<close> links.\<close>

definition all_upgrades :: "migration_op list" where
  "all_upgrades = metadata_upgrade @ domain_upgrade @ indexing_upgrade"

lemma all_upgrades_staged:
  "all_upgrades = concat first_blocks @ link_repositories @ concat more_blocks @ index_columns_added
    @ concat [repository_index_snapshots_block, code_chunks_block]"
  by (simp add: all_upgrades_def metadata_upgrade_def domain_upgrade_def indexing_upgrade_def first_blocks_def
      more_blocks_def link_repositories_def index_columns_added_def)

definition stage :: "migration_op list \<Rightarrow> schema \<Rightarrow> schema" where
  "stage xs s = (case migrate xs s of Inl e \<Rightarrow> [] | Inr t \<Rightarrow> t)"

lemma first_blocks_ok: "blocks_ok [] [] first_blocks"
  by code_simp

lemma link_ok: "succeeds (migrate link_repositories (map block_table first_blocks))"
  by code_simp

lemma more_blocks_ok:
  "blocks_ok (map fst (map block_table first_blocks)) (all_indexes (map block_table first_blocks)) more_blocks"
  by code_simp

lemma index_columns_ok:
  "succeeds (migrate index_columns_added (stage link_repositories (map block_table first_blocks) @ map block_table more_blocks))"
  by code_simp

lemma index_blocks_ok:
  "blocks_ok (map fst (map block_table (first_blocks @ more_blocks)))
    (all_indexes (map block_table (first_blocks @ more_blocks))) [repository_index_snapshots_block, code_chunks_block]"
  by code_simp

lemma all_upgrades_run: "\<exists>t. migrate all_upgrades [] = Inr t"
proof -
  let ?a = "map block_table first_blocks" and ?m = "map block_table more_blocks"
  let ?b = "stage link_repositories ?a"
  have a: "migrate (concat first_blocks) [] = Inr ?a" "have_ids ?a"
    using migrate_blocks [of "[]" first_blocks] first_blocks_ok by (simp_all add: all_indexes_def have_ids_def)
  have b: "migrate link_repositories ?a = Inr ?b"
    using succeedsE [OF link_ok] by (auto simp: stage_def)
  have nb: "map fst ?b = map fst ?a" "all_indexes ?b = all_indexes ?a" "have_ids ?b"
    using migrate_alters [OF _ b a(2)] by (simp_all add: link_repositories_def)
  have m: "migrate (concat more_blocks) ?b = Inr (?b @ ?m)" "have_ids (?b @ ?m)"
    using migrate_blocks [of ?b more_blocks] more_blocks_ok nb by simp_all
  obtain c where c: "migrate index_columns_added (?b @ ?m) = Inr c" using succeedsE [OF index_columns_ok] by blast
  have nc: "map fst c = map fst (?b @ ?m)" "all_indexes c = all_indexes (?b @ ?m)" "have_ids c"
    using migrate_alters [OF _ c m(2)] by (simp_all add: index_columns_added_def)
  have "all_indexes (?b @ ?m) = all_indexes (?a @ ?m)" using nb(2) by (simp add: all_indexes_def)
  then have "blocks_ok (map fst c) (all_indexes c) [repository_index_snapshots_block, code_chunks_block]"
    using index_blocks_ok nb(1) nc(1,2) by simp
  from migrate_blocks [OF this nc(3)] show ?thesis
    using a(1) b m(1) c by (simp add: all_upgrades_staged migrate_append)
qed

section \<open>The migrated tables and the classes\<close>

text \<open>The columns of every table, which only two kinds of operation change.\<close>

definition columns_of :: "schema \<Rightarrow> (string \<times> column list) list" where
  "columns_of s = map (\<lambda>(n, t). (n, tb_columns t)) s"

fun apply_columns :: "migration_op \<Rightarrow> (string \<times> column list) list \<Rightarrow> (string \<times> column list) list" where
  "apply_columns (CreateTable n cols cons) s = s @ [(n, cols)]"
| "apply_columns (AddColumn n c) s = map (\<lambda>(m, cs). if m = n then (m, cs @ [c]) else (m, cs)) s"
| "apply_columns _ s = s"

lemma map_of_columns_of: "map_of (columns_of s) n = map_option tb_columns (map_of s n)"
  by (induction s) (auto simp: columns_of_def)

lemma columns_of_replace:
  assumes "wf_schema s" "map_of s n = Some t" "tb_columns u = f (tb_columns t)"
  shows "columns_of (replace_table n u s) = map (\<lambda>(m, cs). if m = n then (m, f cs) else (m, cs)) (columns_of s)"
proof -
  have "p = t" if "(n, p) \<in> set s" for p
    using map_of_is_SomeI [OF wf_schemaD(1) [OF assms(1)] that] assms(2) by simp
  then show ?thesis
    unfolding columns_of_def replace_table_def map_map using assms(3) by (intro map_cong) auto
qed

lemma columns_of_same:
  assumes "wf_schema s" "map_of s n = Some t" "tb_columns u = tb_columns t"
  shows "columns_of (replace_table n u s) = columns_of s"
proof -
  have "map (\<lambda>(m, cs). if m = n then (m, id cs) else (m, cs)) (xs :: (string \<times> column list) list) = xs" for xs
    by (induction xs) auto
  then show ?thesis using columns_of_replace [OF assms(1,2), of u id] assms(3) by simp
qed

lemma columns_of_apply_op:
  assumes "wf_schema s" "apply_op x s = Inr t" "constructive x"
  shows "columns_of t = apply_columns x (columns_of s)"
proof (cases x)
  case (CreateTable n cols cons)
  with assms(2) show ?thesis by (auto simp: create_table_def Let_def columns_of_def split: if_splits)
next
  case (CreateIndex i n cs u)
  with assms(2) show ?thesis
    by (auto simp: create_index_def with_table_Inr columns_of_same [OF assms(1)] split: if_splits)
next
  case (AddColumn n c)
  with assms(2) show ?thesis
    by (auto simp: add_column_def with_table_Inr columns_of_replace [OF assms(1), where f = "\<lambda>cs. cs @ [c]"] split: if_splits)
next
  case (CreateForeignKey n k cs rt rcs od)
  with assms(2) show ?thesis
    by (auto simp: add_constraint_def with_table_Inr columns_of_same [OF assms(1)] split: if_splits)
qed (use assms(3) in simp_all)

lemma columns_of_migrate:
  "wf_schema s \<Longrightarrow> migrate xs s = Inr t \<Longrightarrow> list_all constructive xs \<Longrightarrow>
    columns_of t = fold apply_columns xs (columns_of s)"
proof (induction xs arbitrary: s)
  case (Cons x xs)
  then obtain u where u: "apply_op x s = Inr u" "migrate xs u = Inr t" by (auto split: sum.splits)
  have "columns_of u = apply_columns x (columns_of s)"
    by (rule columns_of_apply_op [OF Cons.prems(1) u(1)]) (use Cons.prems(3) in simp)
  then show ?case using Cons.IH [OF wf_apply_op [OF Cons.prems(1) u(1)] u(2)] Cons.prems(3) by simp
qed simp

definition migrated_columns :: "(string \<times> column list) list" where
  "migrated_columns = fold apply_columns all_upgrades []"

lemma columns_of_upgraded:
  assumes "migrate all_upgrades [] = Inr t"
  shows "columns_of t = migrated_columns"
  using columns_of_migrate [OF _ assms] downgrades
  by (simp add: wf_schema_def all_upgrades_def migrated_columns_def columns_of_def)

text \<open>A table holds exactly the columns of a class: same names, types and nullability.\<close>

definition same_columns :: "column list \<Rightarrow> mapped_column list \<Rightarrow> bool" where
  "same_columns cs ms \<longleftrightarrow> length cs = length ms \<and> list_all (\<lambda>m. list_ex (\<lambda>c. column_name c = mc_name m
     \<and> column_type c = mc_type m \<and> column_nullable c = mc_nullable m) cs) ms"

definition table_columns :: "schema \<Rightarrow> string \<Rightarrow> column list" where
  "table_columns s n = (case map_of s n of None \<Rightarrow> [] | Some t \<Rightarrow> tb_columns t)"

lemma table_columns_upgraded:
  "migrate all_upgrades [] = Inr t \<Longrightarrow>
    table_columns t n = (case map_of migrated_columns n of None \<Rightarrow> [] | Some cs \<Rightarrow> cs)"
  using map_of_columns_of [of t n] columns_of_upgraded [of t]
  by (auto simp: table_columns_def split: option.splits)

lemma migrated_columns_match:
  "list_all (\<lambda>m. same_columns (case map_of migrated_columns (mo_table m) of None \<Rightarrow> [] | Some cs \<Rightarrow> cs)
    (mo_columns m)) models \<and> length migrated_columns = length models"
  by code_simp

text \<open>
  C13: the three migrations, applied in order to an empty database, succeed, and the tables
  they leave are those of the mapped classes: as many, and each with exactly the columns of
  its class, of the same type and nullability.
\<close>

theorem migrations_build_models:
  "\<exists>t. migrate (metadata_upgrade @ domain_upgrade @ indexing_upgrade) [] = Inr t \<and> length t = length models
    \<and> list_all (\<lambda>m. same_columns (table_columns t (mo_table m)) (mo_columns m)) models"
proof -
  obtain t where t: "migrate all_upgrades [] = Inr t" using all_upgrades_run by blast
  moreover from columns_of_upgraded [OF t] have "length t = length migrated_columns"
    by (simp add: columns_of_def flip: length_map [of "\<lambda>(n, t). (n, tb_columns t)" t])
  ultimately show ?thesis
    using migrated_columns_match by (auto simp: all_upgrades_def table_columns_upgraded)
qed

text \<open>
  What an INSERT of a new object leaves to the database: the columns the constructor is not
  given, that have no Python default but a server default in the class.
\<close>

definition supplied :: "model_class \<Rightarrow> string list \<Rightarrow> string list" where
  "supplied m given = map mc_name (filter (\<lambda>c. mc_name c \<in> set given \<or> mc_default c) (mo_columns m))"

definition left_to_database :: "model_class \<Rightarrow> string list \<Rightarrow> string list" where
  "left_to_database m given =
     map mc_name (filter (\<lambda>c. mc_name c \<notin> set given \<and> \<not> mc_default c \<and> mc_server_default c \<noteq> None) (mo_columns m))"

definition null_violations :: "column list \<Rightarrow> model_class \<Rightarrow> string list \<Rightarrow> string list" where
  "null_violations cols m given =
     map column_name (filter (\<lambda>c. \<not> column_nullable c \<and> column_name c \<notin> set (supplied m given)
       \<and> \<not> (column_name c \<in> set (left_to_database m given) \<and> column_server_default c \<noteq> None)) cols)"

text \<open>What \<^verbatim>\<open>IndexingService\<close> gives to the two constructors.\<close>

definition snapshot_keywords :: "string list" where
  "snapshot_keywords = [''owner_id'', ''repository_id'', ''revision_id'', ''commit_sha'', ''status'',
     ''parser_name'', ''embedding_provider'', ''embedding_model'', ''embedding_dimensions'',
     ''embedding_config'', ''statistics'', ''error_code'', ''error_summary'', ''indexed_at'']"

definition chunk_keywords :: "string list" where
  "chunk_keywords = [''id'', ''snapshot_id'', ''owner_id'', ''repository_id'', ''revision_id'', ''file_id'',
     ''commit_sha'', ''normalized_path'', ''language'', ''symbol_name'', ''qualified_name'', ''symbol_type'',
     ''start_line'', ''end_line'', ''part_number'', ''part_count'', ''content_hash'', ''exact_content'',
     ''search_text'', ''dense_embedding'', ''chunk_metadata'']"

text \<open>The server defaults of the classes that the columns of the database lack.\<close>

definition lost_defaults :: "column list \<Rightarrow> model_class \<Rightarrow> (string \<times> string) list" where
  "lost_defaults cols m = map (\<lambda>c. (mo_table m, column_name c)) (filter (\<lambda>c. \<not> column_nullable c
     \<and> column_name c \<in> set (left_to_database m []) \<and> column_server_default c = None) cols)"

definition model_columns :: "model_class \<Rightarrow> column list" where
  "model_columns m = tb_columns (snd (table_of_model m))"

lemma index_inserts:
  "null_violations (the (map_of migrated_columns ''repository_index_snapshots'')) repository_index_snapshot_model
     snapshot_keywords = [''created_at'', ''updated_at'']"
  "null_violations (the (map_of migrated_columns ''code_chunks'')) code_chunk_model
     chunk_keywords = [''created_at'', ''updated_at'']"
  "null_violations (model_columns repository_index_snapshot_model) repository_index_snapshot_model snapshot_keywords = []"
  "null_violations (model_columns code_chunk_model) code_chunk_model chunk_keywords = []"
  by code_simp+

lemma index_tables_migrated:
  "map_of migrated_columns ''repository_index_snapshots'' \<noteq> None \<and> map_of migrated_columns ''code_chunks'' \<noteq> None"
  by code_simp

lemma all_lost_defaults:
  "concat (map (\<lambda>m. lost_defaults (case map_of migrated_columns (mo_table m) of None \<Rightarrow> [] | Some cs \<Rightarrow> cs) m) models) =
    [(''repository_index_snapshots'', ''created_at''), (''repository_index_snapshots'', ''updated_at''),
     (''code_chunks'', ''created_at''), (''code_chunks'', ''updated_at'')]"
  by code_simp

text \<open>
  C33: on a migrated database no index can be stored: the row an index run inserts for its
  snapshot, and every chunk row, leaves \<open>created_at\<close> and \<open>updated_at\<close> to the server,
  where they are NOT NULL without a default. Tables created from the classes accept the same
  rows. These four columns are the only server defaults of the classes the migrations lose.
\<close>

theorem index_rows_refused:
  "\<exists>t. migrate (metadata_upgrade @ domain_upgrade @ indexing_upgrade) [] = Inr t
    \<and> null_violations (table_columns t ''repository_index_snapshots'') repository_index_snapshot_model
        snapshot_keywords = [''created_at'', ''updated_at'']
    \<and> null_violations (table_columns t ''code_chunks'') code_chunk_model
        chunk_keywords = [''created_at'', ''updated_at'']
    \<and> null_violations (model_columns repository_index_snapshot_model) repository_index_snapshot_model snapshot_keywords = []
    \<and> null_violations (model_columns code_chunk_model) code_chunk_model chunk_keywords = []
    \<and> concat (map (\<lambda>m. lost_defaults (table_columns t (mo_table m)) m) models) =
        [(''repository_index_snapshots'', ''created_at''), (''repository_index_snapshots'', ''updated_at''),
         (''code_chunks'', ''created_at''), (''code_chunks'', ''updated_at'')]"
proof -
  obtain t where t: "migrate all_upgrades [] = Inr t" using all_upgrades_run by blast
  note c = table_columns_upgraded [OF t]
  have n: "table_columns t ''repository_index_snapshots'' = the (map_of migrated_columns ''repository_index_snapshots'')"
      "table_columns t ''code_chunks'' = the (map_of migrated_columns ''code_chunks'')"
    using index_tables_migrated by (auto simp: c)
  show ?thesis
    by (intro exI [of _ t] conjI t [unfolded all_upgrades_def] index_inserts [folded n] index_inserts(3,4)
        all_lost_defaults [folded c])
qed

text \<open>The two laws of migrations, on the first revision.\<close>

lemma metadata_upgrade_run: "migrate metadata_upgrade [] = Inr [block_table system_metadata_block]"
  using migrate_blocks [of "[]" "[system_metadata_block]"] first_blocks_ok
  by (simp add: metadata_upgrade_def all_indexes_def have_ids_def first_blocks_def)


lemma downgrade_undoes_upgrade_witness: "migrate metadata_downgrade [block_table system_metadata_block] = Inr []"
  by (rule downgrade_undoes_upgrade [OF _ _ metadata_upgrade_run]) (simp_all add: wf_schema_def)

end
