(* ===== verification/Json.thy ===== *)
theory Json
  imports Domain
begin

text \<open>
  \<^verbatim>\<open>dumps_json\<close> and \<^verbatim>\<open>loads_json\<close> of \<^verbatim>\<open>app/services/redis.py\<close>: the writer and the reader of
  Python's \<^verbatim>\<open>json\<close> module with the options the code passes (compact separators, ASCII
  only, no NaN). The texts of floats are parameters. A \<open>\\u\<close> escape beyond the characters of
  the model, and NaN or an infinity in the input, are read as an error.
\<close>

section \<open>Writing\<close>

text \<open>\<^verbatim>\<open>py_encode_basestring_ascii\<close>: what is not a printable ASCII character is escaped.\<close>

definition escape_char :: "char \<Rightarrow> string" where
  "escape_char c =
     (if c = CHR 0x22 \<or> c = CHR 0x5C then [CHR 0x5C, c]
      else if c = CHR 0x0A then [CHR 0x5C, CHR ''n'']
      else if c = CHR 0x0D then [CHR 0x5C, CHR ''r'']
      else if c = CHR 0x09 then [CHR 0x5C, CHR ''t'']
      else if c = CHR 0x0C then [CHR 0x5C, CHR ''f'']
      else if c = CHR 0x08 then [CHR 0x5C, CHR ''b'']
      else if 32 \<le> code c \<and> code c \<le> 126 then [c]
      else [CHR 0x5C, CHR ''u''] @ hex_width 4 (code c))"

definition dump_string :: "string \<Rightarrow> string" where
  "dump_string t = [CHR 0x22] @ concat (map escape_char t) @ [CHR 0x22]"

fun dumps_json :: "(rat \<Rightarrow> string) \<Rightarrow> json \<Rightarrow> string" where
  "dumps_json repr JNull = ''null''"
| "dumps_json repr (JBool b) = (if b then ''true'' else ''false'')"
| "dumps_json repr (JInt i) = int_str i"
| "dumps_json repr (JFloat x) = repr x"
| "dumps_json repr (JStr t) = dump_string t"
| "dumps_json repr (JArr vs) = ''['' @ join '','' (map (dumps_json repr) vs) @ '']''"
| "dumps_json repr (JObj kvs) =
     ''{'' @ join '','' (map (\<lambda>(k, v). dump_string k @ '':'' @ dumps_json repr v) kvs) @ ''}''"

section \<open>Reading\<close>

definition is_json_space :: "char \<Rightarrow> bool" where
  "is_json_space c = (code c \<in> {32, 9, 10, 13})"

definition skip_ws :: "string \<Rightarrow> string" where
  "skip_ws = dropWhile is_json_space"

definition hex_value :: "char \<Rightarrow> nat option" where
  "hex_value c =
     (if is_digit c then Some (code c - 48)
      else if 97 \<le> code c \<and> code c \<le> 102 then Some (code c - 87)
      else if 65 \<le> code c \<and> code c \<le> 70 then Some (code c - 55) else None)"

fun parse_hex :: "nat \<Rightarrow> string \<Rightarrow> nat option" where
  "parse_hex acc [] = Some acc"
| "parse_hex acc (c # cs) = (case hex_value c of None \<Rightarrow> None | Some d \<Rightarrow> parse_hex (16 * acc + d) cs)"

definition unescape :: "char \<Rightarrow> char option" where
  "unescape c = map_of [(CHR 0x22, CHR 0x22), (CHR 0x5C, CHR 0x5C), (CHR ''/'', CHR ''/''),
     (CHR ''b'', CHR 0x08), (CHR ''f'', CHR 0x0C), (CHR ''n'', CHR 0x0A), (CHR ''r'', CHR 0x0D),
     (CHR ''t'', CHR 0x09)] c"

text \<open>One character of a string literal and the text after it.\<close>

definition scan_char :: "string \<Rightarrow> (char \<times> string) option" where
  "scan_char s = (case s of
       [] \<Rightarrow> None
     | c # cs \<Rightarrow>
         if c \<noteq> CHR 0x5C then (if code c < 32 then None else Some (c, cs))
         else (case cs of
             [] \<Rightarrow> None
           | e # ds \<Rightarrow>
               if e \<noteq> CHR ''u'' then map_option (\<lambda>u. (u, ds)) (unescape e)
               else if length ds < 4 then None
               else (case parse_hex 0 (take 4 ds) of
                   None \<Rightarrow> None
                 | Some n \<Rightarrow> if n < 256 then Some (char_of n, drop 4 ds) else None)))"

lemma scan_char_shorter: "scan_char s = Some (c, r) \<Longrightarrow> length r < length s"
  by (auto simp: scan_char_def split: list.splits if_splits option.splits)

text \<open>The rest of a string literal after its opening quote.\<close>

function scan_string :: "string \<Rightarrow> (string \<times> string) option" where
  "scan_string s = (case s of
       [] \<Rightarrow> None
     | c # cs \<Rightarrow>
         if c = CHR 0x22 then Some ([], cs)
         else (case scan_char s of
             None \<Rightarrow> None
           | Some (d, r) \<Rightarrow> map_option (\<lambda>(t, q). (d # t, q)) (scan_string r)))"
  by pat_completeness auto
termination by (relation "measure length") (auto dest: scan_char_shorter)

declare scan_string.simps [simp del]

text \<open>The number pattern: integer part, optional fraction, optional exponent.\<close>

definition scan_fraction :: "string \<Rightarrow> string \<times> string" where
  "scan_fraction s = (case s of
       [] \<Rightarrow> ([], s)
     | c # cs \<Rightarrow> (let ds = takeWhile is_digit cs in
         if c = CHR ''.'' \<and> ds \<noteq> [] then (c # ds, dropWhile is_digit cs) else ([], s)))"

definition scan_exponent :: "string \<Rightarrow> string \<times> string" where
  "scan_exponent s = (case s of
       [] \<Rightarrow> ([], s)
     | c # cs \<Rightarrow>
         (let sign = (if cs \<noteq> [] \<and> hd cs \<in> {CHR ''+'', CHR ''-''} then [hd cs] else []);
              qs = drop (length sign) cs; ds = takeWhile is_digit qs in
          if c \<in> {CHR ''e'', CHR ''E''} \<and> ds \<noteq> [] then (c # sign @ ds, dropWhile is_digit qs) else ([], s)))"

definition scan_number :: "(string \<Rightarrow> rat) \<Rightarrow> string \<Rightarrow> (json \<times> string) option" where
  "scan_number to_float s =
     (let neg = startswith s ''-''; s1 = (if neg then tl s else s);
          ds = (if startswith s1 ''0'' then ''0'' else takeWhile is_digit s1);
          (fr, s2) = scan_fraction (drop (length ds) s1);
          (ex, s3) = scan_exponent s2;
          n = int (parse_nat 0 ds) in
      if ds = [] then None
      else if fr = [] \<and> ex = [] then Some (JInt (if neg then - n else n), s3)
      else Some (JFloat (to_float ((if neg then ''-'' else []) @ ds @ fr @ ex)), s3))"

text \<open>
  \<^verbatim>\<open>scan_once\<close> with the loops of \<^verbatim>\<open>JSONArray\<close> and \<^verbatim>\<open>JSONObject\<close>. The fuel bounds the depth of
  the calls; of two nested calls at least one has read a character, so twice the length of
  the text is enough (lemma \<open>scan_fuel\<close>).
\<close>

fun scan_value :: "(string \<Rightarrow> rat) \<Rightarrow> nat \<Rightarrow> string \<Rightarrow> (json \<times> string) option"
  and scan_elements :: "(string \<Rightarrow> rat) \<Rightarrow> nat \<Rightarrow> string \<Rightarrow> (json list \<times> string) option"
  and scan_members :: "(string \<Rightarrow> rat) \<Rightarrow> nat \<Rightarrow> string \<Rightarrow> ((string \<times> json) list \<times> string) option"
where
  "scan_value fl 0 s = None"
| "scan_value fl (Suc n) s = (case s of
       [] \<Rightarrow> None
     | c # cs \<Rightarrow>
         if c = CHR 0x22 then map_option (\<lambda>(t, r). (JStr t, r)) (scan_string cs)
         else if c = CHR ''{'' then
           (if startswith (skip_ws cs) ''}'' then Some (JObj [], tl (skip_ws cs))
            else map_option (\<lambda>(kvs, r). (JObj (foldl (\<lambda>d (k, v). dict_set d k v) [] kvs), r))
              (scan_members fl n (skip_ws cs)))
         else if c = CHR ''['' then
           (if startswith (skip_ws cs) '']'' then Some (JArr [], tl (skip_ws cs))
            else map_option (\<lambda>(vs, r). (JArr vs, r)) (scan_elements fl n (skip_ws cs)))
         else if startswith s ''null'' then Some (JNull, drop 4 s)
         else if startswith s ''true'' then Some (JBool True, drop 4 s)
         else if startswith s ''false'' then Some (JBool False, drop 5 s)
         else scan_number fl s)"
| "scan_elements fl 0 s = None"
| "scan_elements fl (Suc n) s = (case scan_value fl n s of
       None \<Rightarrow> None
     | Some (v, r) \<Rightarrow> (case skip_ws r of
           [] \<Rightarrow> None
         | d # q \<Rightarrow>
             if d = CHR '','' then map_option (\<lambda>(vs, t). (v # vs, t)) (scan_elements fl n (skip_ws q))
             else if d = CHR '']'' then Some ([v], q) else None))"
| "scan_members fl 0 s = None"
| "scan_members fl (Suc n) s = (if \<not> startswith s [CHR 0x22] then None else (case scan_string (tl s) of
       None \<Rightarrow> None
     | Some (k, r) \<Rightarrow>
         if \<not> startswith (skip_ws r) '':'' then None
         else (case scan_value fl n (skip_ws (tl (skip_ws r))) of
             None \<Rightarrow> None
           | Some (v, t) \<Rightarrow> (case skip_ws t of
                 [] \<Rightarrow> None
               | d # q \<Rightarrow>
                   if d = CHR '','' then map_option (\<lambda>(kvs, u). ((k, v) # kvs, u)) (scan_members fl n (skip_ws q))
                   else if d = CHR ''}'' then Some ([(k, v)], q) else None))))"

text \<open>A \<^verbatim>\<open>JSONDecodeError\<close> is a \<^verbatim>\<open>ValueError\<close>.\<close>

definition loads_json :: "(string \<Rightarrow> rat) \<Rightarrow> string \<Rightarrow> exn + json" where
  "loads_json fl s = (case scan_value fl (Suc (2 * length s)) (skip_ws s) of
       None \<Rightarrow> Inl (ValueError ''JSONDecodeError'')
     | Some (v, r) \<Rightarrow> if skip_ws r = [] then Inr v else Inl (ValueError ''JSONDecodeError''))"

section \<open>Enough fuel\<close>

lemma length_skip_ws: "length (skip_ws s) \<le> length s"
  by (simp add: skip_ws_def length_dropWhile_le)

lemma scan_string_shorter: "scan_string s = Some (t, r) \<Longrightarrow> length r < length s"
proof (induction s arbitrary: t rule: scan_string.induct)
  case (1 s)
  show ?case
  proof (cases "s = [] \<or> hd s = CHR 0x22")
    case True
    with "1.prems" show ?thesis by (subst (asm) scan_string.simps) (auto split: list.splits)
  next
    case False
    then obtain d q u where "scan_char s = Some (d, q)" "scan_string q = Some (u, r)"
      using "1.prems" by (subst (asm) scan_string.simps) (auto split: list.splits option.splits)
    with 1 False scan_char_shorter show ?thesis by (cases s) fastforce+
  qed
qed

lemma scan_number_shorter:
  assumes "scan_number fl s = Some (v, r)"
  shows "length r < length s"
proof -
  have f: "length (snd (scan_fraction q)) \<le> length q" for q
    by (auto simp: scan_fraction_def Let_def length_dropWhile_le le_SucI split: list.splits)
  have e: "length (snd (scan_exponent q)) \<le> length q" for q
    by (auto simp: scan_exponent_def Let_def split: list.splits intro!: le_SucI order_trans [OF length_dropWhile_le])
  define s1 where "s1 = (if startswith s ''-'' then tl s else s)"
  define ds where "ds = (if startswith s1 ''0'' then ''0'' else takeWhile is_digit s1)"
  have "length ds \<le> length s1" "length s1 \<le> length s"
    by (auto simp: ds_def s1_def startswith_def prefix_def length_takeWhile_le)
  moreover have "0 < length ds" "r = snd (scan_exponent (snd (scan_fraction (drop (length ds) s1))))"
    using assms unfolding scan_number_def Let_def s1_def [symmetric] ds_def [symmetric]
    by (auto split: prod.splits if_splits)
  moreover have "length r \<le> length s1 - length ds"
    using calculation(4) e [of "snd (scan_fraction (drop (length ds) s1))"] f [of "drop (length ds) s1"] by simp
  ultimately show ?thesis by linarith
qed

lemma startswith_length: "startswith s p \<Longrightarrow> length p \<le> length s"
  by (simp add: startswith_def prefix_length_le)

lemma scan_shorter:
  "scan_value fl n s = Some (v, r) \<Longrightarrow> length r < length s"
  "scan_elements fl n s = Some (vs, r) \<Longrightarrow> length r < length s"
  "scan_members fl n s = Some (kvs, r) \<Longrightarrow> length r < length s"
proof (induction fl n s and fl n s and fl n s arbitrary: v r and vs r and kvs r
    rule: scan_value_scan_elements_scan_members.induct)
  case (2 fl n s)
  obtain c cs where s: "s = c # cs" using "2.prems" by (cases s) auto
  have ws: "length (skip_ws cs) < length s" using length_skip_ws [of cs] by (simp add: s)
  have lit: "length r < length s" if "startswith s p" "r = drop (length p) s" "p \<noteq> []" for p
    using that startswith_length [OF that(1)] by (cases p) (auto simp: s)
  show ?case
    using "2.prems" ws "2.IH"(1,2) [OF s] lit [of "''null''"] lit [of "''true''"] lit [of "''false''"]
      scan_string_shorter [of cs] scan_number_shorter [of fl s v r]
    by (fastforce simp: s split: if_splits)
next
  case (4 fl n s)
  then obtain v q where v: "scan_value fl n s = Some (v, q)" by (auto split: option.splits)
  obtain d ds where d: "skip_ws q = d # ds" using "4.prems" v by (auto split: list.splits)
  have "length q < length s" "length (skip_ws q) \<le> length q" "length (skip_ws ds) \<le> length ds"
    using "4.IH"(1) [OF v] length_skip_ws by auto
  with "4.prems" "4.IH"(2) [OF v refl d] show ?case by (fastforce simp: v d split: if_splits)
next
  case (6 fl n s)
  then have q: "startswith s [CHR 0x22]" by (auto split: if_splits)
  from "6.prems" q obtain k r1 where k: "scan_string (tl s) = Some (k, r1)" by (auto split: option.splits)
  with "6.prems" q have c: "startswith (skip_ws r1) '':''" by (auto split: if_splits)
  from "6.prems" q k c obtain v t where v: "scan_value fl n (skip_ws (tl (skip_ws r1))) = Some (v, t)"
    by (auto split: option.splits)
  obtain d ds where d: "skip_ws t = d # ds" using "6.prems" q k c v by (auto split: list.splits)
  have "length r1 < length s" using scan_string_shorter [OF k] by simp
  moreover have "length (skip_ws (tl (skip_ws r1))) \<le> length r1"
    using length_skip_ws [of "tl (skip_ws r1)"] length_skip_ws [of r1] by simp
  moreover have "length t < length (skip_ws (tl (skip_ws r1)))" using "6.IH"(1) q k c v by blast
  moreover have "length (skip_ws t) \<le> length t" "length (skip_ws ds) \<le> length ds" by (rule length_skip_ws)+
  ultimately show ?case
    using "6.prems" "6.IH"(2) [OF _ k refl _ v refl d] q c by (fastforce simp: k v d split: if_splits)
qed simp_all

lemma scan_fuel:
  "2 * length s < n \<Longrightarrow> 2 * length s < m \<Longrightarrow> scan_value fl m s = scan_value fl n s"
  "2 * length s + 1 < n \<Longrightarrow> 2 * length s + 1 < m \<Longrightarrow> scan_elements fl m s = scan_elements fl n s"
  "2 * length s + 1 < n \<Longrightarrow> 2 * length s + 1 < m \<Longrightarrow> scan_members fl m s = scan_members fl n s"
proof (induction fl n s and fl n s and fl n s arbitrary: m and m and m
    rule: scan_value_scan_elements_scan_members.induct)
  case (2 fl n s)
  obtain m' where m: "m = Suc m'" using "2.prems"(2) by (cases m) auto
  show ?case
  proof (cases s)
    case (Cons c cs)
    have "2 * length (skip_ws cs) + 1 < n" "2 * length (skip_ws cs) + 1 < m'"
      using length_skip_ws [of cs] "2.prems" by (simp_all add: Cons m)
    note enough = this
    have "scan_members fl m' (skip_ws cs) = scan_members fl n (skip_ws cs)" if "c = CHR ''{''" "\<not> startswith (skip_ws cs) ''}''"
      by (rule "2.IH"(1) [OF Cons _ that enough]) (simp add: that(1))
    moreover have "scan_elements fl m' (skip_ws cs) = scan_elements fl n (skip_ws cs)" if "c = CHR ''[''" "\<not> startswith (skip_ws cs) '']''"
      by (rule "2.IH"(2) [OF Cons _ _ that enough]) (simp_all add: that(1))
    ultimately show ?thesis
      unfolding m Cons scan_value.simps(2) list.case(2) by (intro if_cong refl arg_cong2 [where f = map_option]) simp_all
  qed (simp add: m)
next
  case (4 fl n s)
  obtain m' where m: "m = Suc m'" using "4.prems"(2) by (cases m) auto
  have v: "scan_value fl m' s = scan_value fl n s" by (rule "4.IH"(1)) (use "4.prems" in \<open>simp_all add: m\<close>)
  have "scan_elements fl m' (skip_ws ds) = scan_elements fl n (skip_ws ds)"
    if "scan_value fl n s = Some (v, q)" "skip_ws q = d # ds" "d = CHR '',''" for v q d ds
  proof -
    have "length (skip_ws ds) + 2 \<le> length s"
      using scan_shorter(1) [OF that(1)] length_skip_ws [of q] length_skip_ws [of ds] that(2) by simp
    then show ?thesis by (intro "4.IH"(2) [OF that(1) refl that(2,3)]) (use "4.prems" in \<open>simp_all add: m\<close>)
  qed
  then show ?case by (auto simp: m v split: option.split list.split)
next
  case (6 fl n s)
  obtain m' where m: "m = Suc m'" using "6.prems"(2) by (cases m) auto
  show ?case
  proof (cases "startswith s [CHR 0x22] \<and> scan_string (tl s) \<noteq> None")
    case True
    then obtain k r where k: "startswith s [CHR 0x22]" "scan_string (tl s) = Some (k, r)" by auto
    let ?q = "skip_ws (tl (skip_ws r))"
    have r: "length r < length s" using scan_string_shorter [OF k(2)] by simp
    have q: "length ?q \<le> length r"
      using length_skip_ws [of "tl (skip_ws r)"] length_skip_ws [of r] by simp
    show ?thesis
    proof (cases "startswith (skip_ws r) '':''")
      case c: True
      have v: "scan_value fl m' ?q = scan_value fl n ?q"
        by (rule "6.IH"(1) [OF _ k(2) refl]) (use k c "6.prems" r q in \<open>simp_all add: m\<close>)
      have "scan_members fl m' (skip_ws ds) = scan_members fl n (skip_ws ds)"
        if "scan_value fl n ?q = Some (v, t)" "skip_ws t = d # ds" "d = CHR '',''" for v t d ds
      proof -
        have "length (skip_ws ds) + 2 \<le> length s"
          using scan_shorter(1) [OF that(1)] length_skip_ws [of t] length_skip_ws [of ds] that(2) r q by simp
        then show ?thesis
          by (intro "6.IH"(2) [OF _ k(2) refl _ that(1) refl that(2,3)]) (use k c "6.prems" in \<open>simp_all add: m\<close>)
      qed
      then show ?thesis using k c by (auto simp: m v split: option.split list.split)
    qed (use k in \<open>simp add: m\<close>)
  qed (cases "scan_string (tl s)"; auto simp: m)
qed simp_all

section \<open>Strings are read back\<close>

lemma hex_digits_values:
  "map (\<lambda>d. hex_value (''0123456789abcdef'' ! d)) [0..<16] = map Some [0..<16]"
  by code_simp

lemma hex_value_digit: "hex_value (hex_digit n) = Some (n mod 16)"
proof -
  have "map (\<lambda>d. hex_value (''0123456789abcdef'' ! d)) [0..<16] ! (n mod 16) = map Some [0..<16] ! (n mod 16)"
    by (simp only: hex_digits_values)
  then show ?thesis unfolding hex_digit_def by (simp del: upt_Suc)
qed

lemma parse_hex4:
  assumes "n < 256"
  shows "parse_hex 0 (hex_width 4 n) = Some n" "length (hex_width 4 n) = 4"
proof -
  have "(4 :: nat) = Suc (Suc (Suc (Suc 0)))" by simp
  then have width: "hex_width 4 n =
      [hex_digit (n div 16 div 16 div 16), hex_digit (n div 16 div 16), hex_digit (n div 16), hex_digit n]"
    by (simp only: hex_width.simps append.simps)
  have "n div 16 < 16" using assms by (simp add: less_mult_imp_div_less)
  then have small: "n div 16 div 16 = 0" "n div 16 mod 16 = n div 16" by simp_all
  show "parse_hex 0 (hex_width 4 n) = Some n"
    unfolding width by (simp add: hex_value_digit small mult_div_mod_eq)
  show "length (hex_width 4 n) = 4" unfolding width by simp
qed

lemma char_of_code [simp]: "char_of (code c) = c"
  by (simp add: code_def)

lemma escape_special:
  "scan_char (escape_char c @ t) = Some (c, t)" "hd (escape_char c) \<noteq> CHR 0x22"
  if "c \<in> {CHR 0x22, CHR 0x5C, CHR 0x0A, CHR 0x0D, CHR 0x09, CHR 0x0C, CHR 0x08}"
  using that by (auto simp: escape_char_def scan_char_def unescape_def)

lemma escape_other:
  "scan_char (escape_char c @ t) = Some (c, t)" "hd (escape_char c) \<noteq> CHR 0x22"
  if "c \<notin> {CHR 0x22, CHR 0x5C, CHR 0x0A, CHR 0x0D, CHR 0x09, CHR 0x0C, CHR 0x08}"
  using that parse_hex4 [OF code_less_256 [of c]]
  by (auto simp: escape_char_def scan_char_def code_less_256 simp del: hex_width.simps)

lemma scan_escaped: "scan_char (escape_char c @ t) = Some (c, t)"
  using escape_special(1) [of c t] escape_other(1) [of c t] by blast

lemma escape_hd: "escape_char c \<noteq> [] \<and> hd (escape_char c) \<noteq> CHR 0x22"
  using escape_special(2) [of c] escape_other(2) [of c] by (auto simp: escape_char_def)

lemma scan_dumped: "scan_string (concat (map escape_char t) @ CHR 0x22 # r) = Some (t, r)"
proof (induction t)
  case Nil
  show ?case by (subst scan_string.simps) simp
next
  case (Cons c t)
  obtain d ds where d: "escape_char c = d # ds" "d \<noteq> CHR 0x22" using escape_hd [of c] by (cases "escape_char c") auto
  have "scan_char (d # ds @ concat (map escape_char t) @ CHR 0x22 # r) = Some (c, concat (map escape_char t) @ CHR 0x22 # r)"
    using scan_escaped [of c "concat (map escape_char t) @ CHR 0x22 # r"] by (simp add: d(1))
  then show ?case using d Cons by (subst scan_string.simps) simp
qed

section \<open>Numbers are read back\<close>

lemma is_digit_char: "d < 10 \<Longrightarrow> is_digit (digit_char d) \<and> code (digit_char d) = 48 + d"
  by (simp add: digit_char_def is_digit_def code_def)

lemma nat_str_digits: "list_all is_digit (nat_str n) \<and> nat_str n \<noteq> []"
proof (induction n rule: nat_str.induct)
  case (1 n)
  then show ?case by (subst (1 2) nat_str.simps) (simp add: is_digit_char)
qed

lemma parse_nat_append: "parse_nat a (xs @ ys) = parse_nat (parse_nat a xs) ys"
  by (induction xs arbitrary: a) simp_all

lemma parse_nat_str: "parse_nat 0 (nat_str n) = n"
  by (induction n rule: nat_str.induct) (subst nat_str.simps, simp add: parse_nat_append is_digit_char)

lemma digit_char_zero: "d < 10 \<Longrightarrow> digit_char d = CHR ''0'' \<longleftrightarrow> d = 0"
  using is_digit_char [of d] code_inject [of "digit_char d" "CHR ''0''"] by (auto simp: code_def)

lemma nat_str_leading_zero: "hd (nat_str n) = CHR ''0'' \<longleftrightarrow> n = 0"
proof (induction n rule: nat_str.induct)
  case (1 n)
  show ?case
  proof (cases "n < 10")
    case False
    then have "hd (nat_str n) = hd (nat_str (n div 10))"
      using nat_str_digits [of "n div 10"] by (subst nat_str.simps) simp
    with 1 False show ?thesis by simp
  qed (subst nat_str.simps, simp add: digit_char_zero)
qed

text \<open>What may follow a value in the texts written: nothing, a comma or a closing bracket.\<close>

definition ends_value :: "string \<Rightarrow> bool" where
  "ends_value r \<longleftrightarrow> r = [] \<or> hd r \<in> {CHR '','', CHR '']'', CHR ''}''}"

lemma ends_value_no_number:
  assumes "ends_value r"
  shows "takeWhile is_digit r = []" "dropWhile is_digit r = r" "scan_fraction r = ([], r)" "scan_exponent r = ([], r)"
  using assms by (cases r; auto simp: ends_value_def scan_fraction_def scan_exponent_def is_digit_def code_def Let_def)+

lemma scan_digits:
  assumes "ends_value r"
  shows "(if startswith (nat_str n @ r) ''0'' then ''0'' else takeWhile is_digit (nat_str n @ r)) = nat_str n"
proof (cases "n = 0")
  case True
  then have "nat_str n = ''0''" by (subst nat_str.simps) (simp add: digit_char_zero)
  then show ?thesis by (simp add: startswith_def)
next
  case False
  then have "hd (nat_str n) \<noteq> CHR ''0''" by (simp add: nat_str_leading_zero)
  then have "\<not> startswith (nat_str n @ r) ''0''"
    using nat_str_digits [of n] by (cases "nat_str n") (auto simp: startswith_def)
  then show ?thesis
    using nat_str_digits [of n] ends_value_no_number(1) [OF assms] by (simp add: takeWhile_append list_all_iff)
qed

lemma scan_number_steps:
  assumes "startswith s ''-'' = neg" "(if neg then tl s else s) = ds @ r"
    and "(if startswith (ds @ r) ''0'' then ''0'' else takeWhile is_digit (ds @ r)) = ds"
    and "ds \<noteq> []" "ends_value r"
  shows "scan_number fl s = Some (JInt (if neg then - int (parse_nat 0 ds) else int (parse_nat 0 ds)), r)"
proof -
  have "drop (length ds) (ds @ r) = r" by simp
  then show ?thesis
    unfolding scan_number_def Let_def assms(1,2,3) using assms(4) ends_value_no_number(3,4) [OF assms(5)] by simp
qed

lemma scan_number_dumped:
  assumes "ends_value r"
  shows "scan_number fl (int_str i @ r) = Some (JInt i, r)"
proof -
  have no_sign: "\<not> startswith (nat_str n @ r) ''-''" for n
    using nat_str_digits [of n] by (cases "nat_str n") (auto simp: startswith_def is_digit_def code_def)
  note steps = scan_number_steps [OF _ _ scan_digits [OF assms] conjunct2 [OF nat_str_digits] assms]
  show ?thesis
  proof (cases "i < 0")
    case True
    then show ?thesis using steps [of "''-'' @ nat_str (nat (- i)) @ r" True] by (simp add: int_str_def startswith_def parse_nat_str)
  next
    case False
    then show ?thesis using steps [of "nat_str (nat i) @ r" False] no_sign by (simp add: int_str_def parse_nat_str)
  qed
qed

section \<open>Values are read back\<close>

text \<open>Objects with distinct keys, as Python dictionaries have, and no floats.\<close>

fun json_exact :: "json \<Rightarrow> bool" where
  "json_exact (JFloat x) = False"
| "json_exact (JArr vs) = list_all json_exact vs"
| "json_exact (JObj kvs) = (distinct (map fst kvs) \<and> list_all (\<lambda>(k, v). json_exact v) kvs)"
| "json_exact _ = True"

lemma startswith_chars [simp]:
  "startswith (c # s) [d] \<longleftrightarrow> d = c" "\<not> startswith [] [d]"
  by (simp_all add: startswith_def)

lemma int_str_hd: "hd (int_str i) = CHR ''-'' \<or> is_digit (hd (int_str i))" "int_str i \<noteq> []"
  using nat_str_digits [of "nat i"] nat_str_digits [of "nat (- i)"]
  by (auto simp: int_str_def) (cases "nat_str (nat i)"; simp)

text \<open>No text starts with white space or closes a bracket.\<close>

definition value_start :: "char \<Rightarrow> bool" where
  "value_start c \<longleftrightarrow> \<not> is_json_space c \<and> c \<notin> {CHR '']'', CHR ''}''}"

lemma dumps_start:
  assumes "json_exact v"
  shows "dumps_json repr v \<noteq> [] \<and> value_start (hd (dumps_json repr v))"
proof (cases v)
  case (JInt i)
  have "value_start (hd (int_str i))"
    using int_str_hd(1) [of i] by (auto simp: value_start_def is_json_space_def is_digit_def code_def)
  then show ?thesis using int_str_hd(2) JInt by simp
qed (use assms in \<open>auto simp: dump_string_def value_start_def is_json_space_def code_def\<close>)

lemma skip_ws_dumped:
  assumes "json_exact v"
  shows "skip_ws (dumps_json repr v @ r) = dumps_json repr v @ r"
    "\<not> startswith (dumps_json repr v @ r) '']''"
proof -
  obtain c cs where c: "dumps_json repr v = c # cs" "\<not> is_json_space c" "c \<noteq> CHR '']''"
    using dumps_start [OF assms, of repr] by (cases "dumps_json repr v") (auto simp: value_start_def)
  show "skip_ws (dumps_json repr v @ r) = dumps_json repr v @ r" using c(2) by (simp add: c(1) skip_ws_def)
  show "\<not> startswith (dumps_json repr v @ r) '']''" using c(3) by (simp add: c(1))
qed

lemma skip_ws_other:
  "value_start c \<or> c \<in> {CHR '']'', CHR ''}'', CHR '',''} \<Longrightarrow> skip_ws (c # r) = c # r"
  by (auto simp: skip_ws_def value_start_def is_json_space_def code_def)

lemma join_Cons: "join s (x # xs) = (if xs = [] then x else x @ s @ join s xs)"
  by (cases xs) simp_all

lemma dict_set_fresh: "k \<notin> fst ` set d \<Longrightarrow> dict_set d k v = d @ [(k, v)]"
  by (induction d k v rule: dict_set.induct) auto

lemma dict_of_distinct: "distinct (map fst (d @ kvs)) \<Longrightarrow> foldl (\<lambda>d (k, v). dict_set d k v) d kvs = d @ kvs"
  by (induction kvs arbitrary: d) (auto simp: dict_set_fresh)

definition reads_back :: "(rat \<Rightarrow> string) \<Rightarrow> (string \<Rightarrow> rat) \<Rightarrow> json \<Rightarrow> bool" where
  "reads_back repr fl v \<longleftrightarrow> (\<forall>n r. length (dumps_json repr v) \<le> n \<longrightarrow> ends_value r \<longrightarrow>
     scan_value fl n (dumps_json repr v @ r) = Some (v, r))"

lemma reads_backD:
  "reads_back repr fl v \<Longrightarrow> length (dumps_json repr v) \<le> n \<Longrightarrow> ends_value r \<Longrightarrow>
    scan_value fl n (dumps_json repr v @ r) = Some (v, r)"
  by (simp add: reads_back_def)

lemma scan_elements_dumped:
  assumes "\<And>v. v \<in> set vs \<Longrightarrow> json_exact v \<and> reads_back repr fl v" "vs \<noteq> []"
    and "length (join '','' (map (dumps_json repr) vs)) < n"
  shows "scan_elements fl n (join '','' (map (dumps_json repr) vs) @ '']'' @ r) = Some (vs, r)"
  using assms
proof (induction vs arbitrary: n)
  case (Cons v vs)
  then obtain m where n: "n = Suc m" by (cases n) auto
  have v: "json_exact v" "reads_back repr fl v" using Cons.prems(1) by simp_all
  show ?case
  proof (cases "vs = []")
    case True
    then have "length (dumps_json repr v) \<le> m" using Cons.prems(3) n by simp
    from reads_backD [OF v(2) this, of "'']'' @ r"] show ?thesis
      by (simp add: n True ends_value_def skip_ws_other)
  next
    case False
    let ?rest = "join '','' (map (dumps_json repr) vs)"
    have len: "length (dumps_json repr v) \<le> m" "length ?rest < m" using Cons.prems(3) n False by (simp_all add: join_Cons)
    obtain w ws where w: "vs = w # ws" using False by (cases vs) auto
    have start: "skip_ws (?rest @ '']'' @ r) = ?rest @ '']'' @ r"
      using skip_ws_dumped(1) [of w repr] Cons.prems(1) by (simp add: w join_Cons)
    have "scan_elements fl m (?rest @ '']'' @ r) = Some (vs, r)"
      by (rule Cons.IH) (use Cons.prems(1) False len(2) in simp_all)
    moreover have "scan_value fl m (dumps_json repr v @ '','' @ ?rest @ '']'' @ r) = Some (v, '','' @ ?rest @ '']'' @ r)"
      by (rule reads_backD [OF v(2) len(1)]) (simp add: ends_value_def)
    ultimately show ?thesis using start by (simp add: n False join_Cons skip_ws_other)
  qed
qed simp

lemma scan_members_dumped:
  assumes "\<And>k v. (k, v) \<in> set kvs \<Longrightarrow> json_exact v \<and> reads_back repr fl v" "kvs \<noteq> []"
    and "length (join '','' (map (\<lambda>(k, v). dump_string k @ '':'' @ dumps_json repr v) kvs)) < n"
  shows "scan_members fl n (join '','' (map (\<lambda>(k, v). dump_string k @ '':'' @ dumps_json repr v) kvs) @ ''}'' @ r)
    = Some (kvs, r)"
  using assms
proof (induction kvs arbitrary: n)
  case (Cons kv kvs)
  obtain k v where kv: "kv = (k, v)" by (cases kv) auto
  let ?texts = "\<lambda>kvs. join '','' (map (\<lambda>(k, v). dump_string k @ '':'' @ dumps_json repr v) kvs)"
  obtain m where n: "n = Suc m" using Cons.prems(3) by (cases n) auto
  have v: "json_exact v" "reads_back repr fl v" using Cons.prems(1) [of k v] by (simp_all add: kv)
  have key: "scan_string (concat (map escape_char k) @ CHR 0x22 # CHR '':'' # q) = Some (k, CHR '':'' # q)" for q
    by (rule scan_dumped)
  have colon: "skip_ws (CHR '':'' # q) = CHR '':'' # q" for q
    by (rule skip_ws_other) (simp add: value_start_def is_json_space_def code_def)
  note step = n kv dump_string_def key colon skip_ws_dumped(1) [OF v(1)]
  show ?case
  proof (cases "kvs = []")
    case True
    then have "length (dumps_json repr v) \<le> m" using Cons.prems(3) by (simp add: n kv)
    from reads_backD [OF v(2) this, of "''}'' @ r"] show ?thesis
      by (simp add: step True ends_value_def skip_ws_other)
  next
    case False
    have len: "length (dumps_json repr v) \<le> m" "length (?texts kvs) < m" using Cons.prems(3) False by (simp_all add: n kv join_Cons)
    obtain k' v' kvs' where w: "kvs = (k', v') # kvs'" using False by (cases kvs) auto
    have start: "skip_ws (?texts kvs @ ''}'' @ r) = ?texts kvs @ ''}'' @ r"
      by (simp add: w join_Cons dump_string_def skip_ws_def is_json_space_def code_def)
    have "scan_members fl m (?texts kvs @ ''}'' @ r) = Some (kvs, r)"
      by (rule Cons.IH) (use Cons.prems(1) False len(2) in auto)
    moreover have "scan_value fl m (dumps_json repr v @ '','' @ ?texts kvs @ ''}'' @ r) = Some (v, '','' @ ?texts kvs @ ''}'' @ r)"
      by (rule reads_backD [OF v(2) len(1)]) (simp add: ends_value_def)
    ultimately show ?thesis using start by (simp add: step False join_Cons skip_ws_other)
  qed
qed simp

lemma scan_literals:
  "scan_value fl (Suc n) (''true'' @ r) = Some (JBool True, r)"
  "scan_value fl (Suc n) (''false'' @ r) = Some (JBool False, r)"
  by (simp_all add: startswith_def)

lemma reads_back_all: "json_exact v \<Longrightarrow> reads_back repr fl v"
proof (induction v rule: json.induct)
  case JNull
  show ?case unfolding reads_back_def by (intro allI impI) (case_tac n; simp add: startswith_def)
next
  case (JBool b)
  have "scan_value fl n (dumps_json repr (JBool b) @ r) = Some (JBool b, r)"
    if n: "length (dumps_json repr (JBool b)) \<le> n" for n r
  proof -
    obtain m where "n = Suc m" using n by (cases n) (auto split: if_splits)
    then show ?thesis using scan_literals by (cases b) simp_all
  qed
  then show ?case unfolding reads_back_def by blast
next
  case (JInt i)
  have "scan_value fl (Suc m) (int_str i @ r) = Some (JInt i, r)" if "ends_value r" for m r
  proof -
    obtain c cs where c: "int_str i = c # cs" "c = CHR ''-'' \<or> is_digit c"
      using int_str_hd [of i] by (cases "int_str i") auto
    then have "c \<notin> {CHR 0x22, CHR ''{'', CHR ''['', CHR ''n'', CHR ''t'', CHR ''f''}"
      by (auto simp: is_digit_def code_def)
    moreover have "\<not> startswith (c # cs @ r) (d # ds)" if "c \<noteq> d" for d ds using that by (simp add: startswith_def)
    ultimately show ?thesis using scan_number_dumped [OF that, of fl i] by (simp add: c(1))
  qed
  moreover have "n = Suc (n - 1)" if "length (int_str i) \<le> n" for n
    using that int_str_hd(2) [of i] by (cases n) simp_all
  ultimately show ?case unfolding reads_back_def by (metis dumps_json.simps(3))
next
  case (JStr t)
  show ?case
    unfolding reads_back_def by (intro allI impI) (case_tac n; simp add: dump_string_def scan_dumped)
next
  case (JArr vs)
  have "scan_value fl n (dumps_json repr (JArr vs) @ r) = Some (JArr vs, r)" if n: "length (dumps_json repr (JArr vs)) \<le> n" for n r
  proof (cases "vs = []")
    case True
    then show ?thesis using n by (cases n) (simp_all add: skip_ws_other)
  next
    case False
    obtain m where m: "n = Suc m" using n by (cases n) auto
    have el: "scan_elements fl m (join '','' (map (dumps_json repr) vs) @ '']'' @ r) = Some (vs, r)"
      by (rule scan_elements_dumped [OF _ False]) (use JArr n m in \<open>auto simp: list_all_iff\<close>)
    obtain w ws where w: "vs = w # ws" using False by (cases vs) auto
    have "json_exact w" using JArr.prems by (simp add: w)
    note ws = skip_ws_dumped [OF this, of repr]
    have "skip_ws (join '','' (map (dumps_json repr) vs) @ '']'' @ r) = join '','' (map (dumps_json repr) vs) @ '']'' @ r"
        "\<not> startswith (join '','' (map (dumps_json repr) vs) @ '']'' @ r) '']''"
      using ws by (simp_all add: w join_Cons)
    with el show ?thesis by (simp add: m)
  qed
  then show ?case unfolding reads_back_def by blast
next
  case (JObj kvs)
  have "scan_value fl n (dumps_json repr (JObj kvs) @ r) = Some (JObj kvs, r)" if n: "length (dumps_json repr (JObj kvs)) \<le> n" for n r
  proof (cases "kvs = []")
    case True
    then show ?thesis using n by (cases n) (simp_all add: skip_ws_other)
  next
    case False
    obtain m where m: "n = Suc m" using n by (cases n) auto
    let ?texts = "join '','' (map (\<lambda>(k, v). dump_string k @ '':'' @ dumps_json repr v) kvs)"
    have el: "scan_members fl m (?texts @ ''}'' @ r) = Some (kvs, r)"
      by (rule scan_members_dumped [OF _ False]) (use JObj n m in \<open>fastforce simp: list_all_iff\<close>)+
    obtain k v kvs' where w: "kvs = (k, v) # kvs'" using False by (cases kvs) auto
    have "skip_ws (?texts @ ''}'' @ r) = ?texts @ ''}'' @ r" "\<not> startswith (?texts @ ''}'' @ r) ''}''"
      by (simp_all add: w join_Cons dump_string_def skip_ws_def is_json_space_def code_def)
    with el dict_of_distinct [of "[]" kvs] JObj.prems show ?thesis by (simp add: m)
  qed
  then show ?case unfolding reads_back_def by blast
qed simp

lemma loads_dumped:
  assumes "json_exact v"
  shows "loads_json fl (dumps_json repr v) = Inr v"
  using reads_backD [OF reads_back_all [OF assms], where r = "[]"] skip_ws_dumped(1) [OF assms, where r = "[]"]
  by (simp add: loads_json_def ends_value_def skip_ws_def del: scan_value.simps)

lemma dumps_json_inject:
  "json_exact v \<Longrightarrow> json_exact w \<Longrightarrow> dumps_json repr v = dumps_json repr w \<longleftrightarrow> v = w"
  using loads_dumped [of v undefined repr] loads_dumped [of w undefined repr] by (metis sum.inject(2))

section \<open>The text written\<close>

definition printable :: "string \<Rightarrow> bool" where
  "printable t \<longleftrightarrow> list_all (\<lambda>c. 32 \<le> code c \<and> code c \<le> 126) t"

lemma printable_simps [simp]:
  "printable []" "printable (c # t) \<longleftrightarrow> (32 \<le> code c \<and> code c \<le> 126) \<and> printable t"
  "printable (t @ u) \<longleftrightarrow> printable t \<and> printable u"
  by (simp_all add: printable_def)

lemma printable_hex: "printable (hex_width w n)"
proof (induction w arbitrary: n)
  case (Suc w)
  have "hex_digit n \<in> set ''0123456789abcdef''"
    unfolding hex_digit_def by (rule nth_mem) simp
  then have "32 \<le> code (hex_digit n) \<and> code (hex_digit n) \<le> 126" by (auto simp: code_def)
  with Suc show ?case by simp
qed simp

lemma printable_escape: "printable (escape_char c)"
  using printable_hex by (auto simp: escape_char_def code_def simp del: hex_width.simps)

lemma printable_dump_string: "printable (dump_string t)"
  by (induction t) (use printable_escape in \<open>auto simp: dump_string_def code_def\<close>)

lemma printable_int_str: "printable (int_str i)"
proof -
  have "printable (nat_str n)" for n
    using nat_str_digits [of n] by (auto simp: printable_def list_all_iff is_digit_def)
  then show ?thesis by (simp add: int_str_def code_def)
qed

lemma printable_join: "printable s \<Longrightarrow> list_all printable ts \<Longrightarrow> printable (join s ts)"
  by (induction ts) (auto simp: join_Cons)

lemma printable_dumps: "json_exact v \<Longrightarrow> printable (dumps_json repr v)"
proof (induction repr v rule: dumps_json.induct)
  case (6 repr vs)
  then have "printable (join '','' (map (dumps_json repr) vs))"
    by (intro printable_join) (auto simp: list_all_iff code_def)
  then show ?case by (simp add: code_def)
next
  case (7 repr kvs)
  then have "printable (join '','' (map (\<lambda>(k, v). dump_string k @ '':'' @ dumps_json repr v) kvs))"
    by (intro printable_join) (fastforce simp: list_all_iff code_def printable_dump_string)+
  then show ?case by (simp add: code_def)
qed (auto simp: code_def printable_dump_string printable_int_str)



end
