(* ===== verification/RedisServices.thy ===== *)
theory RedisServices
  imports Json
begin

text \<open>
  The services over Redis: \<^verbatim>\<open>RedisManager\<close> (\<^verbatim>\<open>app/services/redis.py\<close>), \<^verbatim>\<open>RateLimitService\<close>
  (\<^verbatim>\<open>app/services/rate_limit.py\<close>) and \<^verbatim>\<open>IdempotencyService\<close>
  (\<^verbatim>\<open>app/services/idempotency.py\<close>). The Redis client is a parameter; what the services
  rely on of it are the assumptions of two locales, which the clients of the unit tests meet.
\<close>

section \<open>The Redis manager\<close>

record 'r redis_client =
  r_get :: "string \<Rightarrow> ('r, string option) py"
  r_set :: "string \<Rightarrow> string \<Rightarrow> int option \<Rightarrow> bool \<Rightarrow> ('r, bool) py"
  r_incr :: "string \<Rightarrow> ('r, int) py"
  r_expire :: "string \<Rightarrow> int \<Rightarrow> ('r, bool) py"

text \<open>The settings the services read, and the library functions they call.\<close>

record limits_env =
  le_environment :: string
  le_app_name :: string
  le_rate_window :: int
  le_idempotency_ttl :: int
  le_sha256 :: "string \<Rightarrow> string"
  le_float_repr :: "rat \<Rightarrow> string"
  le_float :: "string \<Rightarrow> rat"
  le_str :: "json \<Rightarrow> string"

definition app_slug :: "limits_env \<Rightarrow> string" where
  "app_slug env = map (\<lambda>c. if c = CHR '' '' then CHR ''-'' else c) (lower (le_app_name env))"

definition build_namespace :: "limits_env \<Rightarrow> string list \<Rightarrow> string" where
  "build_namespace env parts =
     join '':'' ([le_environment env, app_slug env]
       @ map (strip_by (\<lambda>c. c = CHR '':'')) (filter (\<lambda>p. p \<noteq> []) parts))"

text \<open>\<^verbatim>\<open>get_json\<close>: no value and the text \<^verbatim>\<open>null\<close> are both \<^verbatim>\<open>None\<close>.\<close>

definition get_json :: "'r redis_client \<Rightarrow> limits_env \<Rightarrow> string \<Rightarrow> ('r, json) py" where
  "get_json c env key = bindp (r_get c key) (\<lambda>payload.
     case payload of None \<Rightarrow> ret JNull | Some t \<Rightarrow> lift_res (loads_json (le_float env) t))"

definition set_json ::
  "'r redis_client \<Rightarrow> limits_env \<Rightarrow> string \<Rightarrow> json \<Rightarrow> int option \<Rightarrow> bool \<Rightarrow> ('r, bool) py" where
  "set_json c env key v ex nx = r_set c key (dumps_json (le_float_repr env) v) ex nx"

section \<open>Rate limits\<close>

definition enforce ::
  "'r redis_client \<Rightarrow> limits_env \<Rightarrow> string \<Rightarrow> string \<Rightarrow> int \<Rightarrow> bool \<Rightarrow> ('r, unit) py" where
  "enforce c env scope identity limit fail_closed =
     (let key = build_namespace env [''rate-limit'', scope, identity] in
      bindp
        (catch
          (bindp (r_incr c key) (\<lambda>count.
             thenp (if count = 1 then bindp (r_expire c key (le_rate_window env)) (\<lambda>_. ret ()) else ret ())
               (ret (Some count))))
          (\<lambda>e. if fail_closed
               then raise (AppErr (DependencyUnavailable ''Authentication temporarily unavailable''))
               else ret None))
        (\<lambda>count. case count of
            None \<Rightarrow> ret ()
          | Some n \<Rightarrow>
              if n > limit then raise (AppErr (RateLimited ''Too many requests; try again later''))
              else ret ()))"

section \<open>Idempotency\<close>

record idempotency_record =
  idem_key :: string
  idem_fingerprint :: string
  idem_status :: string
  idem_payload :: "json_object option"

record idempotency_result =
  idem_created :: bool
  idem_record :: idempotency_record

definition idempotency_key :: "limits_env \<Rightarrow> string \<Rightarrow> string" where
  "idempotency_key env k = build_namespace env [''idempotency'', k]"

definition hexdigest :: "string \<Rightarrow> string" where
  "hexdigest d = concat (map (\<lambda>c. hex_width 2 (code c)) d)"

definition fingerprint :: "limits_env \<Rightarrow> json_object \<Rightarrow> string" where
  "fingerprint env payload = hexdigest (le_sha256 env (utf8 (dumps_json (le_float_repr env) (JObj payload))))"

text \<open>\<^verbatim>\<open>str(existing.get(key, default))\<close>; of a number, list or dict it is a parameter.\<close>

definition get_str :: "limits_env \<Rightarrow> json_object \<Rightarrow> string \<Rightarrow> string \<Rightarrow> string" where
  "get_str env d k dflt = (case dict_get d k of
       None \<Rightarrow> dflt
     | Some (JStr t) \<Rightarrow> t
     | Some JNull \<Rightarrow> ''None''
     | Some (JBool b) \<Rightarrow> if b then ''True'' else ''False''
     | Some v \<Rightarrow> le_str env v)"

definition get_object :: "json_object \<Rightarrow> string \<Rightarrow> json_object option" where
  "get_object d k = (case dict_get d k of Some (JObj p) \<Rightarrow> Some p | _ \<Rightarrow> None)"

definition reserve ::
  "'r redis_client \<Rightarrow> limits_env \<Rightarrow> string \<Rightarrow> json_object \<Rightarrow> ('r, idempotency_result) py" where
  "reserve c env ikey payload =
     (let key = idempotency_key env ikey;
          fp = fingerprint env payload;
          row = JObj [(''key'', JStr ikey), (''fingerprint'', JStr fp), (''status'', JStr ''pending''),
            (''payload'', JNull)] in
      bindp (set_json c env key row (Some (le_idempotency_ttl env)) True) (\<lambda>created.
        if created
        then ret \<lparr>idem_created = True, idem_record =
          \<lparr>idem_key = ikey, idem_fingerprint = fp, idem_status = ''pending'', idem_payload = None\<rparr>\<rparr>
        else bindp (get_json c env key) (\<lambda>existing. case existing of
            JObj d \<Rightarrow>
              if dict_get d ''fingerprint'' \<noteq> Some (JStr fp)
              then raise (AppErr (Conflict ''Idempotency key already used for a different request''))
              else ret \<lparr>idem_created = False, idem_record =
                \<lparr>idem_key = get_str env d ''key'' ikey, idem_fingerprint = get_str env d ''fingerprint'' fp,
                 idem_status = get_str env d ''status'' ''pending'', idem_payload = get_object d ''payload''\<rparr>\<rparr>
          | _ \<Rightarrow> raise (AppErr (Conflict ''Idempotency record is corrupted'')))))"

definition store_result ::
  "'r redis_client \<Rightarrow> limits_env \<Rightarrow> string \<Rightarrow> json_object \<Rightarrow> ('r, unit) py" where
  "store_result c env ikey payload =
     (let key = idempotency_key env ikey in
      bindp (get_json c env key) (\<lambda>existing. case existing of
          JObj d \<Rightarrow>
            bindp (set_json c env key
                (JObj (dict_set (dict_set d ''status'' (JStr ''completed'')) ''payload'' (JObj payload)))
                (Some (le_idempotency_ttl env)) False)
              (\<lambda>_. ret ())
        | _ \<Rightarrow> raise (AppErr (Conflict ''Idempotency record is missing''))))"

section \<open>The contract of the client\<close>

text \<open>
  Documented behaviour of GET and SET [EX] [NX], while no key expires: GET reads, SET with
  NX writes only a key without value and says whether it did.
\<close>

locale redis_store =
  fixes c :: "'r redis_client" and store :: "'r \<Rightarrow> string \<Rightarrow> string option"
  assumes get: "\<exists>t. r_get c k s = (Inr (store s k), t) \<and> store t = store s"
    and set_new: "nx \<Longrightarrow> store s k \<noteq> None \<Longrightarrow> \<exists>t. r_set c k v ex nx s = (Inr False, t) \<and> store t = store s"
    and set_any: "\<not> (nx \<and> store s k \<noteq> None) \<Longrightarrow>
      \<exists>t. r_set c k v ex nx s = (Inr True, t) \<and> store t = (store s)(k \<mapsto> v)"

text \<open>
  Documented behaviour of INCR and EXPIRE: INCR adds one, counting from 0, and keeps the time
  to live; EXPIRE keeps the value and gives the key a time to live. A call that fails may or
  may not have had its effect. As time passes only keys with a time to live can change.
\<close>

locale redis_counter =
  fixes c :: "'r redis_client" and counter :: "'r \<Rightarrow> string \<Rightarrow> int" and has_ttl :: "'r \<Rightarrow> string \<Rightarrow> bool"
    and elapse :: "'r \<Rightarrow> 'r \<Rightarrow> bool"
  assumes incr: "r_incr c k s = (Inr n, t) \<Longrightarrow>
      n = counter s k + 1 \<and> counter t = (counter s)(k := counter s k + 1) \<and> has_ttl t = has_ttl s"
    and incr_fails: "r_incr c k s = (Inl e, t) \<Longrightarrow>
      counter t \<in> {counter s, (counter s)(k := counter s k + 1)} \<and> has_ttl t = has_ttl s"
    and expire: "snd (r_expire c k w s) = t \<Longrightarrow>
      counter t = counter s \<and> has_ttl t \<in> {has_ttl s, (has_ttl s)(k := True)}"
    and elapse: "elapse s t \<Longrightarrow> \<not> has_ttl s k \<Longrightarrow> counter t k = counter s k \<and> \<not> has_ttl t k"

section \<open>What a run of idempotency calls should do\<close>

text \<open>
  The specification: a table from Redis keys to the client's key, the fingerprint of the
  request and, once stored, its result.
\<close>

type_synonym idem_entry = "string \<times> string \<times> json_object option"

datatype idem_call = Reserve string json_object | StoreResult string json_object

datatype idem_answer = Reserved idempotency_result | Stored

definition idem_run :: "'r redis_client \<Rightarrow> limits_env \<Rightarrow> idem_call \<Rightarrow> ('r, idem_answer) py" where
  "idem_run c env call = (case call of
       Reserve k p \<Rightarrow> bindp (reserve c env k p) (\<lambda>r. ret (Reserved r))
     | StoreResult k p \<Rightarrow> bindp (store_result c env k p) (\<lambda>_. ret Stored))"

definition pending :: "idem_entry \<Rightarrow> idempotency_record" where
  "pending e = (case e of (k, fp, res) \<Rightarrow> \<lparr>idem_key = k, idem_fingerprint = fp,
     idem_status = (if res = None then ''pending'' else ''completed''), idem_payload = res\<rparr>)"

fun idem_spec :: "limits_env \<Rightarrow> idem_call \<Rightarrow> (string \<rightharpoonup> idem_entry) \<Rightarrow> (exn + idem_answer) \<times> (string \<rightharpoonup> idem_entry)" where
  "idem_spec env (Reserve k p) A =
     (let key = idempotency_key env k; fp = fingerprint env p in case A key of
         None \<Rightarrow> (Inr (Reserved \<lparr>idem_created = True, idem_record = pending (k, fp, None)\<rparr>), A(key \<mapsto> (k, fp, None)))
       | Some e \<Rightarrow>
           if fst (snd e) = fp then (Inr (Reserved \<lparr>idem_created = False, idem_record = pending e\<rparr>), A)
           else (Inl (AppErr (Conflict ''Idempotency key already used for a different request'')), A))"
| "idem_spec env (StoreResult k p) A =
     (let key = idempotency_key env k in case A key of
         None \<Rightarrow> (Inl (AppErr (Conflict ''Idempotency record is missing'')), A)
       | Some (k', fp, res) \<Rightarrow> (Inr Stored, A(key \<mapsto> (k', fp, Some p))))"

fun idem_specs :: "limits_env \<Rightarrow> idem_call list \<Rightarrow> (string \<rightharpoonup> idem_entry) \<Rightarrow> (exn + idem_answer) list \<times> (string \<rightharpoonup> idem_entry)" where
  "idem_specs env [] A = ([], A)"
| "idem_specs env (x # xs) A =
     (let (r, B) = idem_spec env x A; (rs, D) = idem_specs env xs B in (r # rs, D))"

definition row_json :: "idem_entry \<Rightarrow> json" where
  "row_json e = (case e of (k, fp, res) \<Rightarrow> JObj [(''key'', JStr k), (''fingerprint'', JStr fp),
     (''status'', JStr (if res = None then ''pending'' else ''completed'')),
     (''payload'', case res of None \<Rightarrow> JNull | Some p \<Rightarrow> JObj p)])"

text \<open>The table is what Redis holds under the keys of the service.\<close>

definition represents :: "limits_env \<Rightarrow> (string \<rightharpoonup> idem_entry) \<Rightarrow> (string \<rightharpoonup> string) \<Rightarrow> bool" where
  "represents env A f \<longleftrightarrow> (\<forall>k. let key = idempotency_key env k in
     f key = map_option (\<lambda>e. dumps_json (le_float_repr env) (row_json e)) (A key)
     \<and> (\<forall>e. A key = Some e \<longrightarrow> json_exact (row_json e)))"

fun call_exact :: "idem_call \<Rightarrow> bool" where
  "call_exact (Reserve k p) = json_exact (JObj p)"
| "call_exact (StoreResult k p) = json_exact (JObj p)"

lemma representsD:
  assumes "represents env A f"
  shows "f (idempotency_key env k) = map_option (\<lambda>e. dumps_json (le_float_repr env) (row_json e)) (A (idempotency_key env k))"
    "A (idempotency_key env k) = Some e \<Longrightarrow> json_exact (row_json e)"
  using assms by (cases e; auto simp: represents_def Let_def)+

lemma represents_upd:
  assumes "represents env A f" "json_exact (row_json e)"
  shows "represents env (A(key \<mapsto> e)) (f(key \<mapsto> dumps_json (le_float_repr env) (row_json e)))"
  using assms by (auto simp: represents_def Let_def)

lemma row_json_completed:
  "dict_set (dict_set [(''key'', JStr k), (''fingerprint'', JStr fp), (''status'', st), (''payload'', q)]
     ''status'' (JStr ''completed'')) ''payload'' (JObj p) =
   [(''key'', JStr k), (''fingerprint'', JStr fp), (''status'', JStr ''completed''), (''payload'', JObj p)]"
  by simp

context redis_store
begin

lemma get_json_row:
  assumes "represents env A (store s)"
  shows "\<exists>t. get_json c env (idempotency_key env k) s =
      (Inr (case A (idempotency_key env k) of None \<Rightarrow> JNull | Some e \<Rightarrow> row_json e), t) \<and> store t = store s"
proof -
  obtain t where t: "r_get c (idempotency_key env k) s = (Inr (store s (idempotency_key env k)), t)" "store t = store s"
    using get by blast
  show ?thesis
    using t representsD [OF assms, of k] loads_dumped
    by (cases "A (idempotency_key env k)") (simp_all add: get_json_def)
qed

lemma set_json_new:
  assumes "store s k = None"
  shows "\<exists>t. set_json c env k v ex nx s = (Inr True, t) \<and> store t = (store s)(k \<mapsto> dumps_json (le_float_repr env) v)"
  using set_any [of nx s k] assms by (simp add: set_json_def)

lemma set_json_kept:
  assumes "store s k \<noteq> None"
  shows "\<exists>t. set_json c env k v ex True s = (Inr False, t) \<and> store t = store s"
  using set_new [of True s k] assms by (simp add: set_json_def)

lemma set_json_over:
  "\<exists>t. set_json c env k v ex False s = (Inr True, t) \<and> store t = (store s)(k \<mapsto> dumps_json (le_float_repr env) v)"
  using set_any [of False s k] by (simp add: set_json_def)

lemma reserve_refines:
  assumes "represents env A (store s)"
  shows "\<exists>t. attempt (idem_run c env (Reserve k p)) s = (Inr (fst (idem_spec env (Reserve k p) A)), t)
    \<and> represents env (snd (idem_spec env (Reserve k p) A)) (store t)"
proof (cases "A (idempotency_key env k)")
  case None
  let ?e = "(k, fingerprint env p, None)"
  have e: "JObj [(''key'', JStr k), (''fingerprint'', JStr (fingerprint env p)), (''status'', JStr ''pending''), (''payload'', JNull)] = row_json ?e"
    by (simp add: row_json_def)
  have "store s (idempotency_key env k) = None" using representsD(1) [OF assms, of k] None by simp
  from set_json_new [OF this, of env "row_json ?e" "Some (le_idempotency_ttl env)" True]
  obtain t where t: "set_json c env (idempotency_key env k) (row_json ?e) (Some (le_idempotency_ttl env)) True s = (Inr True, t)"
      "store t = (store s)(idempotency_key env k \<mapsto> dumps_json (le_float_repr env) (row_json ?e))" by blast
  have "represents env (A(idempotency_key env k \<mapsto> ?e)) (store t)"
    unfolding t(2) by (rule represents_upd [OF assms]) (simp add: row_json_def)
  then show ?thesis
    by (simp add: idem_run_def reserve_def Let_def e t(1) attempt_app None pending_def)
next
  case (Some e)
  obtain k' fp res where e: "e = (k', fp, res)" by (cases e)
  have "store s (idempotency_key env k) \<noteq> None" using representsD(1) [OF assms, of k] Some by simp
  from set_json_kept [OF this] obtain t where
    t: "\<And>v ex. \<exists>t. set_json c env (idempotency_key env k) v ex True s = (Inr False, t) \<and> store t = store s" by blast
  then obtain t where t: "set_json c env (idempotency_key env k)
        (JObj [(''key'', JStr k), (''fingerprint'', JStr (fingerprint env p)), (''status'', JStr ''pending''), (''payload'', JNull)])
        (Some (le_idempotency_ttl env)) True s = (Inr False, t)" "store t = store s" by blast
  have "represents env A (store t)" using assms t(2) by simp
  from get_json_row [OF this, of k] obtain u where u: "get_json c env (idempotency_key env k) t = (Inr (row_json e), u)"
      "store u = store t" using Some by auto
  have "reserve c env k p s = (if fp = fingerprint env p then Inr \<lparr>idem_created = False, idem_record = pending e\<rparr>
      else Inl (AppErr (Conflict ''Idempotency key already used for a different request'')), u)"
    unfolding reserve_def Let_def
    by (subst bindp_Inr, rule t(1), simp only: if_False, subst bindp_Inr, rule u(1), cases res)
      (simp_all add: e pending_def row_json_def dict_get_def get_str_def get_object_def)
  then have "idem_run c env (Reserve k p) s = (fst (idem_spec env (Reserve k p) A), u)"
    by (simp add: idem_run_def Let_def Some e)
  moreover have "snd (idem_spec env (Reserve k p) A) = A" by (simp add: Let_def Some)
  ultimately show ?thesis using assms t(2) u(2) by (simp add: attempt_app)
qed

lemma store_result_refines:
  assumes "represents env A (store s)" "json_exact (JObj p)"
  shows "\<exists>t. attempt (idem_run c env (StoreResult k p)) s = (Inr (fst (idem_spec env (StoreResult k p) A)), t)
    \<and> represents env (snd (idem_spec env (StoreResult k p) A)) (store t)"
proof -
  from get_json_row [OF assms(1), of k] obtain t where
    t: "get_json c env (idempotency_key env k) s = (Inr (case A (idempotency_key env k) of None \<Rightarrow> JNull | Some e \<Rightarrow> row_json e), t)"
      "store t = store s" by blast
  show ?thesis
  proof (cases "A (idempotency_key env k)")
    case None
    then show ?thesis using assms(1) t by (simp add: idem_run_def store_result_def Let_def attempt_app)
  next
    case (Some e)
    obtain k' fp res where e: "e = (k', fp, res)" by (cases e)
    let ?e = "(k', fp, Some p)"
    from set_json_over [of env "idempotency_key env k" "row_json ?e" "Some (le_idempotency_ttl env)" t]
    obtain u where u: "set_json c env (idempotency_key env k) (row_json ?e) (Some (le_idempotency_ttl env)) False t = (Inr True, u)"
        "store u = (store t)(idempotency_key env k \<mapsto> dumps_json (le_float_repr env) (row_json ?e))" by blast
    have "represents env (A(idempotency_key env k \<mapsto> ?e)) (store u)"
      unfolding u(2) t(2) by (rule represents_upd [OF assms(1)]) (use assms(2) in \<open>simp add: row_json_def\<close>)
    moreover have "idem_run c env (StoreResult k p) s = (Inr Stored, u)"
      using t(1) u(1) by (simp add: idem_run_def store_result_def Let_def Some e row_json_def)
    ultimately show ?thesis by (simp add: attempt_app Some e)
  qed
qed

lemma runs_refine:
  assumes "represents env A (store s)" "list_all call_exact calls"
  shows "\<exists>t. mapp (\<lambda>x. attempt (idem_run c env x)) calls s = (Inr (fst (idem_specs env calls A)), t)
    \<and> represents env (snd (idem_specs env calls A)) (store t)"
  using assms
proof (induction calls arbitrary: A s)
  case (Cons x xs)
  have "\<exists>t. attempt (idem_run c env x) s = (Inr (fst (idem_spec env x A)), t) \<and> represents env (snd (idem_spec env x A)) (store t)"
    using Cons.prems reserve_refines store_result_refines by (cases x) auto
  then obtain t where t: "attempt (idem_run c env x) s = (Inr (fst (idem_spec env x A)), t)"
      "represents env (snd (idem_spec env x A)) (store t)" by blast
  from Cons.IH [OF t(2)] Cons.prems(2) obtain u where
    u: "mapp (\<lambda>x. attempt (idem_run c env x)) xs t = (Inr (fst (idem_specs env xs (snd (idem_spec env x A)))), u)"
      "represents env (snd (idem_specs env xs (snd (idem_spec env x A)))) (store u)" by auto
  then show ?case using t(1) by (simp add: case_prod_beta Let_def)
qed simp

end

section \<open>What a rate limit does\<close>

definition rate_key :: "limits_env \<Rightarrow> string \<Rightarrow> string \<Rightarrow> string" where
  "rate_key env scope identity = build_namespace env [''rate-limit'', scope, identity]"

abbreviation rate_limited :: exn where
  "rate_limited \<equiv> AppErr (RateLimited ''Too many requests; try again later'')"

definition redis_up :: "'r redis_client \<Rightarrow> bool" where
  "redis_up c \<longleftrightarrow> (\<forall>k s. \<exists>n t. r_incr c k s = (Inr n, t)) \<and> (\<forall>k w s. \<exists>b t. r_expire c k w s = (Inr b, t))"

text \<open>The state a call leaves, whatever it returns.\<close>

lemma enforce_state:
  "snd (enforce c env scope identity limit fail_closed s) =
     (case r_incr c (rate_key env scope identity) s of
        (Inl e, u) \<Rightarrow> u
      | (Inr n, u) \<Rightarrow> if n = 1 then snd (r_expire c (rate_key env scope identity) (le_rate_window env) u) else u)"
  by (auto simp: enforce_def Let_def rate_key_def bindp_def thenp_def catch_def ret_def raise_def
      split: prod.splits sum.splits option.splits if_splits)

lemma enforce_result:
  assumes "r_incr c (rate_key env scope identity) s = (Inr n, u)"
    and "n = 1 \<Longrightarrow> \<exists>b t. r_expire c (rate_key env scope identity) (le_rate_window env) u = (Inr b, t)"
  shows "fst (enforce c env scope identity limit fail_closed s) = (if n > limit then Inl rate_limited else Inr ())"
  using assms
  by (auto simp: enforce_def Let_def rate_key_def bindp_def thenp_def catch_def ret_def raise_def
      split: prod.splits sum.splits option.splits if_splits)

text \<open>When Redis raises, the caller's policy decides.\<close>

lemma enforce_outage:
  assumes "r_incr c (rate_key env scope identity) s = (Inl e, u)
    \<or> (\<exists>t. r_incr c (rate_key env scope identity) s = (Inr 1, t)
          \<and> r_expire c (rate_key env scope identity) (le_rate_window env) t = (Inl e, u))"
  shows "enforce c env scope identity limit fail_closed s =
    (if fail_closed then Inl (AppErr (DependencyUnavailable ''Authentication temporarily unavailable'')) else Inr (), u)"
  using assms by (auto simp: enforce_def Let_def rate_key_def)

text \<open>Time passing, and calls of the service by anybody.\<close>

inductive limiter_step :: "'r redis_client \<Rightarrow> limits_env \<Rightarrow> ('r \<Rightarrow> 'r \<Rightarrow> bool) \<Rightarrow> 'r \<Rightarrow> 'r \<Rightarrow> bool"
  for c env elapse where
  wait: "elapse s t \<Longrightarrow> limiter_step c env elapse s t"
| call: "limiter_step c env elapse s (snd (enforce c env scope identity limit fail_closed s))"

context redis_counter
begin

lemma enforce_counts:
  assumes "redis_up c"
  shows "fst (enforce c env scope identity limit fail_closed s) =
      (if counter s (rate_key env scope identity) + 1 > limit then Inl rate_limited else Inr ())"
    and "counter (snd (enforce c env scope identity limit fail_closed s)) =
      (counter s)(rate_key env scope identity := counter s (rate_key env scope identity) + 1)"
proof -
  let ?k = "rate_key env scope identity"
  obtain n u where u: "r_incr c ?k s = (Inr n, u)" using assms unfolding redis_up_def by blast
  note n = incr [OF u]
  have up: "\<exists>b t. r_expire c ?k (le_rate_window env) u = (Inr b, t)" using assms by (simp add: redis_up_def)
  show "fst (enforce c env scope identity limit fail_closed s) = (if counter s ?k + 1 > limit then Inl rate_limited else Inr ())"
    using enforce_result [OF u up] n by simp
  show "counter (snd (enforce c env scope identity limit fail_closed s)) = (counter s)(?k := counter s ?k + 1)"
    using n expire [OF refl, of ?k "le_rate_window env" u] by (simp add: enforce_state u)
qed

lemma enforce_window:
  assumes "redis_up c"
  shows "fst (mapp (\<lambda>_. attempt (enforce c env scope identity limit fail_closed)) (replicate m ()) s) =
    Inr (map (\<lambda>i. if counter s (rate_key env scope identity) + 1 + int i > limit then Inl rate_limited else Inr ()) [0..<m])"
proof (induction m arbitrary: s)
  case (Suc m)
  let ?e = "enforce c env scope identity limit fail_closed" and ?k = "rate_key env scope identity"
  obtain r t where t: "?e s = (r, t)" by fastforce
  have "counter t ?k = counter s ?k + 1" "r = (if counter s ?k + 1 > limit then Inl rate_limited else Inr ())"
    using enforce_counts [OF assms, of env scope identity limit fail_closed s] by (simp_all add: t)
  moreover have "fst (mapp (\<lambda>_. attempt ?e) (replicate (Suc m) ()) s) =
      (case fst (mapp (\<lambda>_. attempt ?e) (replicate m ()) t) of Inl e \<Rightarrow> Inl e | Inr ys \<Rightarrow> Inr (r # ys))"
    using attempt_app [where m = ?e, OF t] by (auto simp: bindp_def ret_def split: prod.splits sum.splits)
  ultimately show ?case
    using Suc [of t] by (simp add: upt_conv_Cons map_Suc_upt [symmetric] del: upt_Suc)
qed simp

lemma stuck_step:
  assumes "limiter_step c env elapse s t" "\<not> has_ttl s (rate_key env scope identity)" "1 \<le> counter s (rate_key env scope identity)"
  shows "\<not> has_ttl t (rate_key env scope identity)
    \<and> counter s (rate_key env scope identity) \<le> counter t (rate_key env scope identity)"
  using assms
proof (cases rule: limiter_step.cases)
  case wait
  then show ?thesis using elapse [OF wait assms(2)] by simp
next
  case (call scope' identity' limit' fail_closed')
  let ?k = "rate_key env scope identity" and ?j = "rate_key env scope' identity'"
  show ?thesis
  proof (cases "r_incr c ?j s")
    case (Pair r u)
    show ?thesis
    proof (cases r)
      case (Inl e)
      then have "t = u" using call Pair by (simp add: enforce_state)
      then show ?thesis using incr_fails [of ?j s e u] Pair Inl assms(2) by auto
    next
      case (Inr n)
      note n = incr [OF Pair [unfolded Inr]]
      have t: "t = (if n = 1 then snd (r_expire c ?j (le_rate_window env) u) else u)"
        using call Pair Inr by (simp add: enforce_state)
      show ?thesis
      proof (cases "n = 1")
        case True
        then have "?k \<noteq> ?j" using n assms(3) by auto
        then show ?thesis using expire [OF refl, of ?j "le_rate_window env" u] n t True assms(2) by auto
      next
        case False
        then show ?thesis using n t assms(2) by simp
      qed
    qed
  qed
qed

lemma stuck_steps:
  assumes "(limiter_step c env elapse)\<^sup>*\<^sup>* s t" "\<not> has_ttl s (rate_key env scope identity)"
    "1 \<le> counter s (rate_key env scope identity)"
  shows "\<not> has_ttl t (rate_key env scope identity)
    \<and> counter s (rate_key env scope identity) \<le> counter t (rate_key env scope identity)"
  using assms
proof (induction rule: rtranclp_induct)
  case (step t u)
  then show ?case using stuck_step [OF step.hyps(2), of scope identity] by force
qed simp

end

section \<open>The clients of the unit tests\<close>

text \<open>
  \<^verbatim>\<open>FakeRedisClient\<close> of \<^verbatim>\<open>tests/unit/test_redis.py\<close>: a dictionary. The one of
  \<^verbatim>\<open>tests/unit/test_auth_security.py\<close> counts; here it has one counter for each key and
  remembers which keys expire.
\<close>

definition fake_get :: "string \<Rightarrow> (string \<rightharpoonup> string, string option) py" where
  "fake_get k = gets (\<lambda>d. d k)"

definition fake_set :: "string \<Rightarrow> string \<Rightarrow> int option \<Rightarrow> bool \<Rightarrow> (string \<rightharpoonup> string, bool) py" where
  "fake_set k v ex nx = (\<lambda>d. if nx \<and> d k \<noteq> None then (Inr False, d) else (Inr True, d(k \<mapsto> v)))"

definition fake_client :: "(string \<rightharpoonup> string) redis_client" where
  "fake_client = \<lparr>r_get = fake_get, r_set = fake_set,
     r_incr = (\<lambda>k. raise (RuntimeError ''AttributeError'')), r_expire = (\<lambda>k w. raise (RuntimeError ''AttributeError''))\<rparr>"

interpretation fake: redis_store fake_client id
  by unfold_locales (simp_all add: fake_client_def fake_get_def fake_set_def)

type_synonym counters = "(string \<Rightarrow> int) \<times> (string \<Rightarrow> bool)"

definition counting_incr :: "string \<Rightarrow> (counters, int) py" where
  "counting_incr k = (\<lambda>(n, ttl). (Inr (n k + 1), (n(k := n k + 1), ttl)))"

text \<open>With \<open>fail\<close> every EXPIRE raises \<^verbatim>\<open>ConnectionError\<close>.\<close>

definition counting_expire :: "bool \<Rightarrow> string \<Rightarrow> int \<Rightarrow> (counters, bool) py" where
  "counting_expire fail k w =
     (\<lambda>(n, ttl). if fail then (Inl (OSError ''ConnectionError''), (n, ttl)) else (Inr True, (n, ttl(k := True))))"

definition counting_client :: "bool \<Rightarrow> counters redis_client" where
  "counting_client fail = \<lparr>r_get = (\<lambda>k. ret None), r_set = (\<lambda>k v ex nx. ret True),
     r_incr = counting_incr, r_expire = counting_expire fail\<rparr>"

text \<open>Time passes: keys with a time to live may vanish.\<close>

definition expiring :: "counters \<Rightarrow> counters \<Rightarrow> bool" where
  "expiring s t \<longleftrightarrow> (\<forall>k. \<not> snd s k \<longrightarrow> fst t k = fst s k \<and> \<not> snd t k)"

interpretation counting: redis_counter "counting_client fail" fst snd expiring for fail
  by unfold_locales
    (auto simp: counting_client_def counting_incr_def counting_expire_def expiring_def split: if_splits prod.splits)

section \<open>Properties\<close>

definition sample_limits_env :: limits_env where
  "sample_limits_env = \<lparr>le_environment = ''test'', le_app_name = ''Code Pilot'', le_rate_window = 60,
     le_idempotency_ttl = 86400, le_sha256 = (\<lambda>t. t), le_float_repr = (\<lambda>x. ''0.0''), le_float = (\<lambda>t. 0),
     le_str = (\<lambda>v. [])\<rparr>"

text \<open>
  C4: the idempotency service implements its specification, a table from keys to the request's
  fingerprint and its result: with a Redis client that keeps its documented contract, every
  sequence of reservations and stored results gives, call for call, the answers of the table,
  conflicts included, and leaves Redis holding the table, through the JSON text and back.
\<close>

theorem idempotency_refines_table:
  assumes "redis_store c store" "represents env A (store s)" "list_all call_exact calls"
  shows "\<exists>t. mapp (\<lambda>x. attempt (idem_run c env x)) calls s = (Inr (fst (idem_specs env calls A)), t)
    \<and> represents env (snd (idem_specs env calls A)) (store t)"
  by (rule redis_store.runs_refine [OF assms])

lemma represents_empty: "represents env Map.empty Map.empty"
  by (simp add: represents_def Let_def)

lemma idempotency_refines_table_witness:
  "\<exists>t. mapp (\<lambda>x. attempt (idem_run fake_client sample_limits_env x))
        [Reserve ''abc'' [(''kind'', JStr ''bug-fix'')], StoreResult ''abc'' [(''run'', JInt 7)]] Map.empty =
      (Inr (fst (idem_specs sample_limits_env
        [Reserve ''abc'' [(''kind'', JStr ''bug-fix'')], StoreResult ''abc'' [(''run'', JInt 7)]] Map.empty)), t)
    \<and> represents sample_limits_env (snd (idem_specs sample_limits_env
        [Reserve ''abc'' [(''kind'', JStr ''bug-fix'')], StoreResult ''abc'' [(''run'', JInt 7)]] Map.empty)) (id t)"
  by (rule idempotency_refines_table [OF fake.redis_store_axioms]) (simp_all add: represents_empty)

text \<open>How often the calls created a reservation under a Redis key.\<close>

fun creations :: "limits_env \<Rightarrow> string \<Rightarrow> idem_call list \<Rightarrow> (exn + idem_answer) list \<Rightarrow> nat" where
  "creations env key (Reserve k p # xs) (Inr (Reserved r) # rs) =
     (if idem_created r \<and> idempotency_key env k = key then 1 else 0) + creations env key xs rs"
| "creations env key (x # xs) (r # rs) = creations env key xs rs"
| "creations env key xs rs = 0"

lemma creations_spec:
  "creations env key calls (fst (idem_specs env calls A)) \<le> (if A key = None then 1 else 0)"
proof (induction calls arbitrary: A)
  case (Cons x xs)
  obtain r B where r: "idem_spec env x A = (r, B)" by fastforce
  have IH: "creations env key xs (fst (idem_specs env xs B)) \<le> (if B key = None then 1 else 0)" by (rule Cons.IH)
  show ?case
  proof (cases x)
    case (Reserve k p)
    with r IH show ?thesis by (auto simp: Let_def split: option.splits if_splits prod.splits)
  next
    case (StoreResult k p)
    with r IH show ?thesis by (auto simp: Let_def split: option.splits if_splits prod.splits)
  qed
qed simp

text \<open>
  A request is executed once: however reservations and results follow each other, under
  one key at most one reservation is told that it was created, and none when the key was
  taken before.
\<close>

theorem reserved_once:
  assumes "redis_store c store" "represents env A (store s)" "list_all call_exact calls"
    and "mapp (\<lambda>x. attempt (idem_run c env x)) calls s = (Inr rs, t)"
  shows "creations env key calls rs \<le> (if A key = None then 1 else 0)"
  using redis_store.runs_refine [OF assms(1-3)] assms(4) creations_spec [of env key calls A] by auto

lemma reserved_once_witness:
  "creations sample_limits_env (idempotency_key sample_limits_env ''abc'')
      [Reserve ''abc'' [(''kind'', JStr ''bug-fix'')], Reserve ''abc'' [(''kind'', JStr ''bug-fix'')]]
      (projr (fst (mapp (\<lambda>x. attempt (idem_run fake_client sample_limits_env x))
        [Reserve ''abc'' [(''kind'', JStr ''bug-fix'')], Reserve ''abc'' [(''kind'', JStr ''bug-fix'')]] Map.empty))) \<le> 1"
proof -
  let ?calls = "[Reserve ''abc'' [(''kind'', JStr ''bug-fix'')], Reserve ''abc'' [(''kind'', JStr ''bug-fix'')]]"
  have exact: "list_all call_exact ?calls" by simp
  have empty: "represents sample_limits_env Map.empty (id Map.empty)" by (simp add: represents_empty)
  obtain t where t: "mapp (\<lambda>x. attempt (idem_run fake_client sample_limits_env x)) ?calls Map.empty =
      (Inr (fst (idem_specs sample_limits_env ?calls Map.empty)), t)"
    using fake.runs_refine [OF empty exact] by blast
  show ?thesis
    using reserved_once [OF fake.redis_store_axioms empty exact t, of "idempotency_key sample_limits_env ''abc''"]
    by (simp only: t fst_conv sum.sel if_True simp_thms)
qed

text \<open>
  C26: in a window the limit is exact: with Redis available, from an unused key on, the first
  \<open>limit\<close> calls pass and every later one is refused, until the key expires.
\<close>

theorem rate_limit_exact:
  assumes "redis_counter c counter has_ttl elapse" "redis_up c"
    and "counter s (rate_key env scope identity) = 0"
  shows "fst (mapp (\<lambda>_. attempt (enforce c env scope identity (int limit) fail_closed)) (replicate m ()) s) =
    Inr (replicate (min m limit) (Inr ()) @ replicate (m - limit) (Inl rate_limited))"
proof -
  have "map (\<lambda>i. if 0 + 1 + int i > int limit then Inl rate_limited else Inr ()) [0..<m] =
      replicate (min m limit) (Inr ()) @ replicate (m - limit) (Inl rate_limited)"
    by (rule nth_equalityI) (auto simp: nth_append)
  then show ?thesis by (simp only: redis_counter.enforce_window [OF assms(1,2)] assms(3))
qed

lemma rate_limit_exact_witness:
  "fst (mapp (\<lambda>_. attempt (enforce (counting_client False) sample_limits_env ''login'' ''identity'' (int 1) True))
      (replicate 3 ()) (\<lambda>_. 0, \<lambda>_. False)) =
    Inr (replicate (min 3 1) (Inr ()) @ replicate (3 - 1) (Inl rate_limited))"
  by (rule rate_limit_exact [OF counting.redis_counter_axioms])
    (auto simp: redis_up_def counting_client_def counting_incr_def counting_expire_def)

text \<open>
  C27: a lost EXPIRE makes a limit permanent: when the call that opens a window adds one but its
  EXPIRE fails, the key has no time to live; once the counter has reached a limit, every later
  call with that limit is refused, however long nobody calls, although Redis works again.
\<close>

theorem lost_expire_limits_forever:
  assumes "redis_counter c counter has_ttl elapse"
    and "counter s (rate_key env scope identity) = 0" "\<not> has_ttl s (rate_key env scope identity)"
    and "r_incr c (rate_key env scope identity) s = (Inr n, u)"
    and "r_expire c (rate_key env scope identity) (le_rate_window env) u = (Inl e, v)"
    and "\<not> has_ttl v (rate_key env scope identity)"
    and "(limiter_step c env elapse)\<^sup>*\<^sup>* v t" "(limiter_step c env elapse)\<^sup>*\<^sup>* t w"
    and "limit \<le> counter t (rate_key env scope identity)"
    and "r_incr c (rate_key env scope identity) w = (Inr n', w')"
  shows "snd (enforce c env scope identity limit fail_closed s) = v
    \<and> fst (enforce c env scope identity limit fail_closed w) = Inl rate_limited"
proof -
  let ?k = "rate_key env scope identity"
  note incr = redis_counter.incr [OF assms(1)] and expire = redis_counter.expire [OF assms(1)]
  note steps = redis_counter.stuck_steps [OF assms(1)]
  have n: "n = 1" "counter u ?k = 1" using incr [OF assms(4)] assms(2) by simp_all
  have v: "counter v ?k = 1" using expire [of ?k "le_rate_window env" u v] assms(5) n(2) by simp
  have t: "\<not> has_ttl t ?k" "1 \<le> counter t ?k" using steps [OF assms(7,6)] v by simp_all
  have w: "counter t ?k \<le> counter w ?k" using steps [OF assms(8) t] by simp
  have n': "n' = counter w ?k + 1" using incr [OF assms(10)] by simp
  then have "fst (enforce c env scope identity limit fail_closed w) = (if n' > limit then Inl rate_limited else Inr ())"
    by (intro enforce_result [OF assms(10)]) (use t(2) w in simp)
  moreover have "snd (enforce c env scope identity limit fail_closed s) = v"
    by (simp add: enforce_state assms(4,5) n(1))
  ultimately show ?thesis using n' w assms(9) by simp
qed

lemma lost_expire_limits_forever_witness:
  "snd (enforce (counting_client True) sample_limits_env ''login'' ''identity'' 1 True (\<lambda>_. 0, \<lambda>_. False)) =
      ((\<lambda>_. 0)(rate_key sample_limits_env ''login'' ''identity'' := 1), \<lambda>_. False)
   \<and> fst (enforce (counting_client True) sample_limits_env ''login'' ''identity'' 1 True
      ((\<lambda>_. 0)(rate_key sample_limits_env ''login'' ''identity'' := 1), \<lambda>_. False)) = Inl rate_limited"
  by (rule lost_expire_limits_forever [OF counting.redis_counter_axioms])
    (auto simp: counting_client_def counting_incr_def counting_expire_def)

end
