(* ===== verification/Http.thy ===== *)
theory Http
  imports Settings
begin

text \<open>
  The HTTP shell of the API: the error envelope and the exception handlers of
  \<^verbatim>\<open>app/core/errors.py\<close>, the middleware of \<^verbatim>\<open>app/core/middleware.py\<close>, and their order in
  \<^verbatim>\<open>app/main.py\<close>. Starlette's own layers are parameters, with their documented behaviour as
  the assumptions of a locale. The context variable of the correlation id is an argument of
  the inner application: outside the middleware that sets it, it has its default.
\<close>

section \<open>Requests and responses\<close>

text \<open>Header names of a request are in lower case.\<close>

record request =
  rq_headers :: "(string \<times> string) list"
  rq_cookies :: "(string \<times> string) list"
  rq_client :: "string option"

record response =
  rs_status :: nat
  rs_headers :: "(string \<times> string) list"
  rs_body :: json

definition header :: "request \<Rightarrow> string \<Rightarrow> string option" where
  "header rq n = map_of (rq_headers rq) n"

text \<open>\<^verbatim>\<open>MutableHeaders\<close>: reading, assigning and \<^verbatim>\<open>setdefault\<close>, whatever the case of the name.\<close>

definition header_get :: "(string \<times> string) list \<Rightarrow> string \<Rightarrow> string option" where
  "header_get hs n = map_of (map (\<lambda>(k, v). (lower k, v)) hs) (lower n)"

fun header_set :: "string \<Rightarrow> string \<Rightarrow> (string \<times> string) list \<Rightarrow> (string \<times> string) list" where
  "header_set n v [] = [(n, v)]"
| "header_set n v ((m, x) # hs) =
     (if lower m = lower n then (m, v) # filter (\<lambda>(k, _). lower k \<noteq> lower n) hs else (m, x) # header_set n v hs)"

definition header_default :: "string \<Rightarrow> string \<Rightarrow> (string \<times> string) list \<Rightarrow> (string \<times> string) list" where
  "header_default n v hs = (if header_get hs n = None then hs @ [(n, v)] else hs)"

lemma header_get_set: "header_get (header_set n v hs) m = (if lower m = lower n then Some v else header_get hs m)"
proof (induction n v hs rule: header_set.induct)
  case (2 n v k x hs)
  have "map_of (map (\<lambda>(k, v). (lower k, v)) (filter (\<lambda>(k, _). lower k \<noteq> lower n) hs)) (lower m) =
      map_of (map (\<lambda>(k, v). (lower k, v)) hs) (lower m)" if "lower m \<noteq> lower n"
    using that by (induction hs) auto
  with 2 show ?case by (auto simp: header_get_def)
qed (simp add: header_get_def)

lemma header_get_default:
  "header_get (header_default n v hs) m =
    (case header_get hs m of Some x \<Rightarrow> Some x | None \<Rightarrow> if lower m = lower n then Some v else None)"
  by (auto simp: header_default_def header_get_def map_add_def split: option.splits)

section \<open>What the application raises\<close>

record validation_error =
  ve_loc :: "json list"
  ve_msg :: "string option"
  ve_type :: "string option"

datatype raised =
    RaisedApp app_error
  | RaisedHttp nat json
  | RaisedValidation "validation_error list"
  | RaisedOther exn

text \<open>The database, the Redis server and the tasks sent to the workers, with their arguments.\<close>

record 'r world =
  w_db :: db
  w_redis :: 'r
  w_tasks :: "(string \<times> string list) list"

text \<open>An application, given the correlation id of its context and a request.\<close>

type_synonym 'r app = "string \<Rightarrow> request \<Rightarrow> 'r world \<Rightarrow> (raised + response) \<times> 'r world"

section \<open>The error envelope\<close>

definition get_correlation_id :: "string \<Rightarrow> string" where
  "get_correlation_id ctx = (if ctx = [] then ''unknown'' else ctx)"

definition error_envelope :: "string \<Rightarrow> string \<Rightarrow> string \<Rightarrow> json \<Rightarrow> json" where
  "error_envelope ctx ecode message details =
     JObj [(''error'', JObj [(''code'', JStr ecode), (''message'', JStr message),
       (''correlation_id'', JStr (get_correlation_id ctx)), (''details'', details)])]"

definition build_error_envelope :: "string \<Rightarrow> string \<Rightarrow> string \<Rightarrow> json \<Rightarrow> nat \<Rightarrow> response" where
  "build_error_envelope ctx ecode message details status =
     \<lparr>rs_status = status, rs_headers = [(''content-type'', ''application/json'')],
      rs_body = error_envelope ctx ecode message details\<rparr>"

text \<open>\<^verbatim>\<open>str\<close> of the items of a location: field names and indexes.\<close>

fun loc_str :: "json \<Rightarrow> string" where
  "loc_str (JStr t) = t"
| "loc_str (JInt i) = int_str i"
| "loc_str _ = []"

definition format_validation_error :: "validation_error \<Rightarrow> json" where
  "format_validation_error e = JObj
     [(''location'', JStr (join ''.'' (map loc_str (ve_loc e)))),
      (''message'', JStr (case ve_msg e of None \<Rightarrow> ''Invalid value'' | Some m \<Rightarrow> m)),
      (''type'', JStr (case ve_type e of None \<Rightarrow> ''validation_error'' | Some t \<Rightarrow> t))]"

definition format_validation_errors :: "validation_error list \<Rightarrow> json" where
  "format_validation_errors es = JArr (map format_validation_error es)"

definition app_exception_handler :: "string \<Rightarrow> app_error \<Rightarrow> response" where
  "app_exception_handler ctx e = build_error_envelope ctx (err_code e) (err_message e) JNull (err_status e)"

definition http_exception_handler :: "string \<Rightarrow> nat \<Rightarrow> json \<Rightarrow> response" where
  "http_exception_handler ctx status detail =
     (case detail of
        JStr m \<Rightarrow> build_error_envelope ctx ''http_error'' m JNull status
      | _ \<Rightarrow> build_error_envelope ctx ''http_error'' ''HTTP request failed'' detail status)"

definition validation_exception_handler :: "string \<Rightarrow> validation_error list \<Rightarrow> response" where
  "validation_exception_handler ctx es =
     build_error_envelope ctx ''validation_error'' ''Request validation failed'' (format_validation_errors es) 422"

definition unhandled_exception_handler :: "string \<Rightarrow> response" where
  "unhandled_exception_handler ctx =
     build_error_envelope ctx ''internal_server_error'' ''An unexpected error occurred'' JNull 500"

text \<open>The handlers \<^verbatim>\<open>register_exception_handlers\<close> installs for the inner exception layer.\<close>

definition registered_handler :: "string \<Rightarrow> raised \<Rightarrow> response option" where
  "registered_handler ctx r = (case r of
       RaisedApp e \<Rightarrow> Some (app_exception_handler ctx e)
     | RaisedHttp n d \<Rightarrow> Some (http_exception_handler ctx n d)
     | RaisedValidation es \<Rightarrow> Some (validation_exception_handler ctx es)
     | RaisedOther e \<Rightarrow> None)"

section \<open>Middleware\<close>

text \<open>\<^verbatim>\<open>int(s)\<close>: blanks around, a sign, digits with single underscores between them.\<close>

fun digit_groups :: "string \<Rightarrow> bool" where
  "digit_groups [] = False"
| "digit_groups [c] = is_digit c"
| "digit_groups (c # d # cs) = (is_digit c \<and> (if d = CHR ''_'' then digit_groups cs else digit_groups (d # cs)))"

definition py_int :: "string \<Rightarrow> int option" where
  "py_int s =
     (let t = strip s; neg = startswith t ''-''; ds = (if neg \<or> startswith t ''+'' then tl t else t);
          n = int (parse_nat 0 (filter is_digit ds)) in
      if digit_groups ds then Some (if neg then - n else n) else None)"

definition request_id :: "request \<Rightarrow> 'r world \<Rightarrow> string" where
  "request_id rq w = (case header rq ''x-request-id'' of None \<Rightarrow> uuid_str (next_uuid (w_db w)) | Some i \<Rightarrow> i)"

text \<open>The default of \<^verbatim>\<open>headers.get\<close> is evaluated, and a UUID drawn, in either case.\<close>

definition drawn_uuid :: "'r world \<Rightarrow> 'r world" where
  "drawn_uuid w = w\<lparr>w_db := (w_db w)\<lparr>next_uuid := Suc (next_uuid (w_db w))\<rparr>\<rparr>"

definition correlation_id_dispatch :: "'r app \<Rightarrow> 'r app" where
  "correlation_id_dispatch call_next ctx rq w =
     (let rid = request_id rq w in
      case call_next rid rq (drawn_uuid w) of
        (Inl e, t) \<Rightarrow> (Inl e, t)
      | (Inr resp, t) \<Rightarrow> (Inr (resp\<lparr>rs_headers := header_set ''X-Request-ID'' rid (rs_headers resp)\<rparr>), t))"

definition request_size_dispatch :: "int \<Rightarrow> 'r app \<Rightarrow> 'r app" where
  "request_size_dispatch limit call_next ctx rq w =
     (case header rq ''content-length'' of
        None \<Rightarrow> call_next ctx rq w
      | Some v \<Rightarrow> (case py_int v of
            None \<Rightarrow> (Inr (build_error_envelope ctx ''invalid_request'' ''Invalid Content-Length header'' JNull 400), w)
          | Some n \<Rightarrow>
              if n > limit
              then (Inr (build_error_envelope ctx ''request_too_large'' ''Request body exceeds the configured limit''
                (JObj [(''max_request_size_bytes'', JInt limit)]) 413), w)
              else call_next ctx rq w))"

definition security_headers :: "(string \<times> string) list" where
  "security_headers = [(''X-Content-Type-Options'', ''nosniff''), (''X-Frame-Options'', ''DENY''),
     (''Referrer-Policy'', ''no-referrer''), (''Permissions-Policy'', ''geolocation=(), microphone=(), camera=()'')]"

definition security_headers_dispatch :: "'r app \<Rightarrow> 'r app" where
  "security_headers_dispatch call_next ctx rq w =
     (case call_next ctx rq w of
        (Inl e, t) \<Rightarrow> (Inl e, t)
      | (Inr resp, t) \<Rightarrow> (Inr (resp\<lparr>rs_headers := fold (\<lambda>(n, v). header_default n v) security_headers (rs_headers resp)\<rparr>), t))"

section \<open>The application\<close>

text \<open>Starlette's layers: handlers by exception class, the last resort, CORS, trusted hosts.\<close>

record 'r layers =
  exception_layer :: "(string \<Rightarrow> raised \<Rightarrow> response option) \<Rightarrow> 'r app \<Rightarrow> 'r app"
  server_error_layer :: "(string \<Rightarrow> response) \<Rightarrow> 'r app \<Rightarrow> 'r app"
  cors_layer :: "string list \<Rightarrow> 'r app \<Rightarrow> 'r app"
  trusted_host_layer :: "string list \<Rightarrow> 'r app \<Rightarrow> 'r app"

text \<open>
  \<^verbatim>\<open>create_app\<close>: a middleware added later is further out, and the handler of \<^verbatim>\<open>Exception\<close> is
  outermost of all.
\<close>

definition create_app :: "'r layers \<Rightarrow> settings \<Rightarrow> 'r app \<Rightarrow> 'r app" where
  "create_app L s router =
     (let inner = exception_layer L registered_handler router;
          sized = request_size_dispatch (max_request_size_bytes s) inner;
          correlated = correlation_id_dispatch sized;
          secured = security_headers_dispatch correlated;
          cors = cors_layer L (cors_origins s) secured;
          hosts = (if environment s = ''production'' then trusted_host_layer L (trusted_hosts s) cors else cors)
      in server_error_layer L unhandled_exception_handler hosts)"

text \<open>
  What Starlette documents of its layers; a request without \<^verbatim>\<open>Origin\<close> passes CORS, and one for
  an allowed host passes the host check.
\<close>

locale starlette =
  fixes L :: "'r layers" and allowed :: "string list \<Rightarrow> request \<Rightarrow> bool"
  assumes exception_handled: "app ctx rq w = (Inl e, t) \<Longrightarrow> h ctx e = Some resp \<Longrightarrow> exception_layer L h app ctx rq w = (Inr resp, t)"
    and exception_passed: "app ctx rq w = (Inl e, t) \<Longrightarrow> h ctx e = None \<Longrightarrow> exception_layer L h app ctx rq w = (Inl e, t)"
    and exception_none: "app ctx rq w = (Inr resp, t) \<Longrightarrow> exception_layer L h app ctx rq w = (Inr resp, t)"
    and server_error: "app ctx rq w = (Inl e, t) \<Longrightarrow> server_error_layer L last_resort app ctx rq w = (Inr (last_resort ctx), t)"
    and server_ok: "app ctx rq w = (Inr resp, t) \<Longrightarrow> server_error_layer L last_resort app ctx rq w = (Inr resp, t)"
    and cors_passed: "header rq ''origin'' = None \<Longrightarrow> cors_layer L origins app ctx rq w = app ctx rq w"
    and host_passed: "allowed hosts rq \<Longrightarrow> trusted_host_layer L hosts app ctx rq w = app ctx rq w"

text \<open>What the middleware adds to a response on its way out.\<close>

definition finished :: "string \<Rightarrow> response \<Rightarrow> response" where
  "finished rid resp =
     (let r = resp\<lparr>rs_headers := header_set ''X-Request-ID'' rid (rs_headers resp)\<rparr>
      in r\<lparr>rs_headers := fold (\<lambda>(n, v). header_default n v) security_headers (rs_headers r)\<rparr>)"

lemma lower_names:
  "lower ''X-Request-ID'' = ''x-request-id''" "lower ''X-Content-Type-Options'' = ''x-content-type-options''"
  "lower ''X-Frame-Options'' = ''x-frame-options''" "lower ''Referrer-Policy'' = ''referrer-policy''"
  "lower ''Permissions-Policy'' = ''permissions-policy''"
  by code_simp+

lemma finished_fields [simp]: "rs_status (finished rid resp) = rs_status resp" "rs_body (finished rid resp) = rs_body resp"
  by (simp_all add: finished_def Let_def)

lemma finished_request_id: "header_get (rs_headers (finished rid resp)) ''X-Request-ID'' = Some rid"
  by (simp add: finished_def Let_def security_headers_def header_get_default header_get_set lower_names)

text \<open>Security headers are there: the application's own value, or else the default.\<close>

definition secured :: "(string \<times> string) list \<Rightarrow> (string \<times> string) list \<Rightarrow> bool" where
  "secured inner hs \<longleftrightarrow> list_all (\<lambda>(n, v). header_get hs n = Some (case header_get inner n of None \<Rightarrow> v | Some x \<Rightarrow> x)) security_headers"

lemma finished_secured: "secured (rs_headers resp) (rs_headers (finished rid resp))"
  by (simp add: secured_def finished_def Let_def security_headers_def header_get_default header_get_set lower_names
      split: option.splits)

text \<open>The host check is passed, where there is one.\<close>

definition host_accepted :: "(string list \<Rightarrow> request \<Rightarrow> bool) \<Rightarrow> settings \<Rightarrow> request \<Rightarrow> bool" where
  "host_accepted allowed s rq \<longleftrightarrow> environment s \<noteq> ''production'' \<or> allowed (trusted_hosts s) rq"

context starlette
begin

lemma outer_passes:
  assumes "header rq ''origin'' = None" "host_accepted allowed s rq"
  shows "create_app L s router ctx rq w = server_error_layer L unhandled_exception_handler
    (\<lambda>_ _ _. security_headers_dispatch (correlation_id_dispatch
      (request_size_dispatch (max_request_size_bytes s) (exception_layer L registered_handler router))) ctx rq w) ctx rq w"
proof -
  let ?a = "security_headers_dispatch (correlation_id_dispatch
      (request_size_dispatch (max_request_size_bytes s) (exception_layer L registered_handler router)))"
  let ?b = "if environment s = ''production'' then trusted_host_layer L (trusted_hosts s) (cors_layer L (cors_origins s) ?a)
    else cors_layer L (cors_origins s) ?a"
  have b: "?b ctx rq w = ?a ctx rq w" using assms host_passed cors_passed by (auto simp: host_accepted_def)
  show ?thesis
  proof (cases "?a ctx rq w")
    case (Pair r t)
    then show ?thesis
      using b server_error [of ?b ctx rq w _ t] server_ok [of ?b ctx rq w _ t]
        server_error [of "\<lambda>_ _ _. ?a ctx rq w" ctx rq w _ t] server_ok [of "\<lambda>_ _ _. ?a ctx rq w" ctx rq w _ t]
      by (cases r) (simp_all add: create_app_def Let_def)
  qed
qed

lemma inner_response:
  assumes "header rq ''origin'' = None" "host_accepted allowed s rq"
    and "request_size_dispatch (max_request_size_bytes s) (exception_layer L registered_handler router)
      (request_id rq w) rq (drawn_uuid w) = (Inr resp, t)"
  shows "create_app L s router ctx rq w = (Inr (finished (request_id rq w) resp), t)"
proof -
  have "security_headers_dispatch (correlation_id_dispatch
      (request_size_dispatch (max_request_size_bytes s) (exception_layer L registered_handler router))) ctx rq w
      = (Inr (finished (request_id rq w) resp), t)"
    using assms(3) by (simp add: security_headers_dispatch_def correlation_id_dispatch_def Let_def finished_def)
  then show ?thesis unfolding outer_passes [OF assms(1,2)] by (intro server_ok) simp
qed

lemma inner_exception:
  assumes "header rq ''origin'' = None" "host_accepted allowed s rq"
    and "request_size_dispatch (max_request_size_bytes s) (exception_layer L registered_handler router)
      (request_id rq w) rq (drawn_uuid w) = (Inl e, t)"
  shows "create_app L s router ctx rq w = (Inr (unhandled_exception_handler ctx), t)"
proof -
  have "security_headers_dispatch (correlation_id_dispatch
      (request_size_dispatch (max_request_size_bytes s) (exception_layer L registered_handler router))) ctx rq w = (Inl e, t)"
    using assms(3) by (simp add: security_headers_dispatch_def correlation_id_dispatch_def Let_def)
  then show ?thesis unfolding outer_passes [OF assms(1,2)] by (intro server_error) simp
qed

end

text \<open>The declared length of the body is a number within the limit, or not declared.\<close>

definition size_accepted :: "settings \<Rightarrow> request \<Rightarrow> bool" where
  "size_accepted s rq = (case header rq ''content-length'' of
       None \<Rightarrow> True
     | Some v \<Rightarrow> (case py_int v of None \<Rightarrow> False | Some n \<Rightarrow> n \<le> max_request_size_bytes s))"

lemma size_accepted_passes:
  "size_accepted s rq \<Longrightarrow> request_size_dispatch (max_request_size_bytes s) app ctx rq w = app ctx rq w"
  by (auto simp: size_accepted_def request_size_dispatch_def split: option.splits)

section \<open>A reference implementation of the layers\<close>

definition plain_layers :: "'r layers" where
  "plain_layers = \<lparr>
     exception_layer = (\<lambda>h app ctx rq w. case app ctx rq w of
         (Inl e, t) \<Rightarrow> (case h ctx e of None \<Rightarrow> (Inl e, t) | Some resp \<Rightarrow> (Inr resp, t))
       | (Inr resp, t) \<Rightarrow> (Inr resp, t)),
     server_error_layer = (\<lambda>last_resort app ctx rq w. case app ctx rq w of
         (Inl e, t) \<Rightarrow> (Inr (last_resort ctx), t) | (Inr resp, t) \<Rightarrow> (Inr resp, t)),
     cors_layer = (\<lambda>origins app. app), trusted_host_layer = (\<lambda>hosts app. app)\<rparr>"

interpretation plain: starlette plain_layers "\<lambda>hosts rq. True"
  by unfold_locales (simp_all add: plain_layers_def)

definition plain_request :: request where
  "plain_request = \<lparr>rq_headers = [(''x-request-id'', ''abc''), (''content-length'', ''12'')], rq_cookies = [], rq_client = None\<rparr>"

definition plain_world :: "unit world" where
  "plain_world = \<lparr>w_db = empty_db, w_redis = (), w_tasks = []\<rparr>"

lemma plain_size: "size_accepted default_settings plain_request"
  by code_simp

section \<open>Properties\<close>

text \<open>
  C39: every error the services raise reaches the client as an envelope: with the status and
  code of its class, its message, no details, and the correlation id of the request, which is
  the client's own or a fresh UUID and comes back in \<^verbatim>\<open>X-Request-ID\<close>; the security headers are set.
\<close>

theorem app_error_response:
  assumes "starlette L allowed" "header rq ''origin'' = None" "host_accepted allowed s rq" "size_accepted s rq"
    and "router (request_id rq w) rq (drawn_uuid w) = (Inl (RaisedApp e), t)"
  shows "\<exists>resp. create_app L s router [] rq w = (Inr resp, t) \<and> rs_status resp = err_status e
    \<and> rs_body resp = error_envelope (request_id rq w) (err_code e) (err_message e) JNull
    \<and> header_get (rs_headers resp) ''X-Request-ID'' = Some (request_id rq w)
    \<and> secured [(''content-type'', ''application/json'')] (rs_headers resp)"
proof -
  let ?resp = "app_exception_handler (request_id rq w) e"
  have "exception_layer L registered_handler router (request_id rq w) rq (drawn_uuid w) = (Inr ?resp, t)"
    by (rule starlette.exception_handled [where app = router, OF assms(1,5)]) (simp add: registered_handler_def)
  then have "create_app L s router [] rq w = (Inr (finished (request_id rq w) ?resp), t)"
    by (intro starlette.inner_response [OF assms(1-3)]) (simp add: size_accepted_passes [OF assms(4)])
  then show ?thesis
    using finished_request_id [of "request_id rq w" ?resp] finished_secured [of ?resp "request_id rq w"]
    by (simp add: app_exception_handler_def build_error_envelope_def)
qed

lemma app_error_response_witness:
  "\<exists>resp. create_app plain_layers default_settings (\<lambda>ctx rq w. (Inl (RaisedApp not_found), w)) [] plain_request plain_world
      = (Inr resp, drawn_uuid plain_world) \<and> rs_status resp = err_status not_found
    \<and> rs_body resp = error_envelope (request_id plain_request plain_world) (err_code not_found) (err_message not_found) JNull
    \<and> header_get (rs_headers resp) ''X-Request-ID'' = Some (request_id plain_request plain_world)
    \<and> secured [(''content-type'', ''application/json'')] (rs_headers resp)"
  by (rule app_error_response [OF plain.starlette_axioms _ _ plain_size])
    (simp_all add: plain_request_def header_def host_accepted_def)

text \<open>
  C40: an exception no handler knows tells the client nothing of itself, and nothing else
  either: the answer is always the same, status 500, and since the outermost layer is outside the
  middleware it carries correlation id \<open>unknown\<close>, no \<^verbatim>\<open>X-Request-ID\<close> and no security header.
\<close>

theorem unhandled_error_anonymous:
  assumes "starlette L allowed" "header rq ''origin'' = None" "host_accepted allowed s rq" "size_accepted s rq"
    and "router (request_id rq w) rq (drawn_uuid w) = (Inl (RaisedOther e), t)"
  shows "create_app L s router [] rq w = (Inr \<lparr>rs_status = 500, rs_headers = [(''content-type'', ''application/json'')],
    rs_body = error_envelope ''unknown'' ''internal_server_error'' ''An unexpected error occurred'' JNull\<rparr>, t)"
proof -
  have "exception_layer L registered_handler router (request_id rq w) rq (drawn_uuid w) = (Inl (RaisedOther e), t)"
    by (rule starlette.exception_passed [where app = router, OF assms(1,5)]) (simp add: registered_handler_def)
  then have "create_app L s router [] rq w = (Inr (unhandled_exception_handler []), t)"
    by (intro starlette.inner_exception [OF assms(1-3)]) (simp add: size_accepted_passes [OF assms(4)])
  then show ?thesis
    by (simp add: unhandled_exception_handler_def build_error_envelope_def error_envelope_def get_correlation_id_def)
qed

lemma unhandled_error_anonymous_witness:
  "create_app plain_layers default_settings (\<lambda>ctx rq w. (Inl (RaisedOther ZeroDivisionError), w)) [] plain_request plain_world
    = (Inr \<lparr>rs_status = 500, rs_headers = [(''content-type'', ''application/json'')],
        rs_body = error_envelope ''unknown'' ''internal_server_error'' ''An unexpected error occurred'' JNull\<rparr>,
       drawn_uuid plain_world)"
  by (rule unhandled_error_anonymous [OF plain.starlette_axioms _ _ plain_size]) (simp_all add: plain_request_def header_def host_accepted_def)

text \<open>
  A request that declares too long a body, or no number as its length, never reaches the
  application: the answer is 413 or 400 in the envelope, and nothing is read or written.
\<close>

theorem oversized_request_stopped:
  assumes "starlette L allowed" "header rq ''origin'' = None" "host_accepted allowed s rq"
    and "\<not> size_accepted s rq"
  shows "\<exists>resp. create_app L s router [] rq w = (Inr resp, drawn_uuid w)
    \<and> rs_status resp = (if py_int (the (header rq ''content-length'')) = None then 400 else 413)
    \<and> header_get (rs_headers resp) ''X-Request-ID'' = Some (request_id rq w)"
proof -
  let ?size = "request_size_dispatch (max_request_size_bytes s) (exception_layer L registered_handler router)
      (request_id rq w) rq (drawn_uuid w)"
  obtain resp where resp: "?size = (Inr resp, drawn_uuid w)"
      "rs_status resp = (if py_int (the (header rq ''content-length'')) = None then 400 else 413)"
    using assms(4) by (auto simp: size_accepted_def request_size_dispatch_def build_error_envelope_def split: option.splits)
  have "create_app L s router [] rq w = (Inr (finished (request_id rq w) resp), drawn_uuid w)"
    by (rule starlette.inner_response [OF assms(1-3) resp(1)])
  then show ?thesis using resp(2) finished_request_id [of "request_id rq w" resp] by simp
qed

lemma big_size: "\<not> size_accepted (default_settings\<lparr>max_request_size_bytes := 8\<rparr>) (plain_request\<lparr>rq_headers := [(''content-length'', ''64'')]\<rparr>)"
  by code_simp

lemma oversized_request_stopped_witness:
  "\<exists>resp. create_app plain_layers (default_settings\<lparr>max_request_size_bytes := 8\<rparr>) (\<lambda>ctx rq w. (Inl (RaisedOther ZeroDivisionError), w)) []
      (plain_request\<lparr>rq_headers := [(''content-length'', ''64'')]\<rparr>) plain_world = (Inr resp, drawn_uuid plain_world)
    \<and> rs_status resp = (if py_int (the (header (plain_request\<lparr>rq_headers := [(''content-length'', ''64'')]\<rparr>) ''content-length'')) = None then 400 else 413)
    \<and> header_get (rs_headers resp) ''X-Request-ID'' = Some (request_id (plain_request\<lparr>rq_headers := [(''content-length'', ''64'')]\<rparr>) plain_world)"
  by (rule oversized_request_stopped [OF plain.starlette_axioms _ _ big_size]) (simp_all add: header_def host_accepted_def)

end
