(* ===== verification/Endpoints.thy ===== *)
theory Endpoints
  imports Auth Search Http
begin

text \<open>
  The endpoints of \<^verbatim>\<open>app/api/v1\<close>: the dependencies that identify the user
  (\<^verbatim>\<open>dependencies.py\<close>, \<^verbatim>\<open>security/tokens.py\<close>), the session endpoints with their rate limits,
  CSRF check and cookies (\<^verbatim>\<open>auth.py\<close>), the endpoints over repositories, runs and indexes,
  and the tasks they send, which \<^verbatim>\<open>workers/celery_app.py\<close> may or may not know.
\<close>

section \<open>Effects of an endpoint\<close>

text \<open>An endpoint reads and writes the database, Redis and the queue.\<close>

definition on_db :: "'a session \<Rightarrow> ('r world, 'a) py" where
  "on_db m = (\<lambda>w. case m (w_db w) of (r, s) \<Rightarrow> (r, w\<lparr>w_db := s\<rparr>))"

definition on_redis :: "('r, 'a) py \<Rightarrow> ('r world, 'a) py" where
  "on_redis m = (\<lambda>w. case m (w_redis w) of (r, s) \<Rightarrow> (r, w\<lparr>w_redis := s\<rparr>))"

definition send_task :: "string \<Rightarrow> string list \<Rightarrow> ('r world, unit) py" where
  "send_task name args = modify (\<lambda>w. w\<lparr>w_tasks := w_tasks w @ [(name, args)]\<rparr>)"

lemma on_db_app: "m (w_db w) = (r, s) \<Longrightarrow> on_db m w = (r, w\<lparr>w_db := s\<rparr>)"
  by (simp add: on_db_def)

lemma on_redis_app: "m (w_redis w) = (r, s) \<Longrightarrow> on_redis m w = (r, w\<lparr>w_redis := s\<rparr>)"
  by (simp add: on_redis_def)

section \<open>Access tokens\<close>

text \<open>\<^verbatim>\<open>str.replace(p, "")\<close> and \<^verbatim>\<open>int(s, 16)\<close>: blanks, a sign, \<^verbatim>\<open>0x\<close>, digits with underscores.\<close>

function remove_all :: "string \<Rightarrow> string \<Rightarrow> string" where
  "remove_all p s = (case s of [] \<Rightarrow> [] | c # cs \<Rightarrow>
     if p \<noteq> [] \<and> startswith s p then remove_all p (drop (length p) s) else c # remove_all p cs)"
  by pat_completeness auto
termination by (relation "measure (\<lambda>(p, s). length s)") auto

declare remove_all.simps [simp del]

fun hex_groups :: "string \<Rightarrow> bool" where
  "hex_groups [] = False"
| "hex_groups [c] = (hex_value c \<noteq> None)"
| "hex_groups (c # d # cs) =
     (hex_value c \<noteq> None \<and> (if d = CHR ''_'' then hex_groups cs else hex_groups (d # cs)))"

definition py_int_hex :: "string \<Rightarrow> int option" where
  "py_int_hex s =
     (let t = strip s; neg = startswith t ''-''; u = (if neg \<or> startswith t ''+'' then tl t else t);
          prefixed = startswith u ''0x'' \<or> startswith u ''0X'';
          v = (if prefixed then drop 2 u else u);
          ds = (if prefixed \<and> startswith v ''_'' then tl v else v) in
      if \<not> hex_groups ds then None
      else map_option (\<lambda>n. if neg then - int n else int n) (parse_hex 0 (filter (\<lambda>c. c \<noteq> CHR ''_'') ds)))"

text \<open>\<^verbatim>\<open>UUID(s)\<close>; \<open>None\<close> is its \<^verbatim>\<open>ValueError\<close>.\<close>

definition parse_uuid :: "string \<Rightarrow> uuid option" where
  "parse_uuid s =
     (let h = filter (\<lambda>c. c \<noteq> CHR ''-'')
            (strip_by (\<lambda>c. c \<in> {CHR ''{'', CHR ''}''}) (remove_all ''uuid:'' (remove_all ''urn:'' s))) in
      if length h \<noteq> 32 then None
      else (case py_int_hex h of None \<Rightarrow> None | Some i \<Rightarrow> if 0 \<le> i then Some (nat i) else None))"

record access_token_claims =
  cl_user_id :: uuid
  cl_role :: string
  cl_expires_at :: timestamp

text \<open>
  The settings, the environments of the services, and what the libraries do: PyJWT checks
  signature, algorithm, required claims and expiry (\<open>None\<close> is an \<^verbatim>\<open>InvalidTokenError\<close>); FastAPI's
  bearer scheme takes the header apart; \<open>he_timestamp\<close> is \<^verbatim>\<open>float()\<close> and \<^verbatim>\<open>fromtimestamp\<close> of
  the expiry, \<open>he_str\<close> is \<^verbatim>\<open>str()\<close> of a claim that is no string.
\<close>

record 'r http_env =
  he_settings :: settings
  he_auth :: auth_env
  he_limits :: limits_env
  he_ingest :: ingest_env
  he_search :: search_env
  he_redis :: "'r redis_client"
  he_jwt_decode :: "string \<Rightarrow> string \<Rightarrow> string \<Rightarrow> json_object option"
  he_bearer :: "request \<Rightarrow> (string \<times> string) option"
  he_timestamp :: "json \<Rightarrow> timestamp option"
  he_str :: "json \<Rightarrow> string"

definition claim_str :: "'r http_env \<Rightarrow> json \<Rightarrow> string" where
  "claim_str env v = (case v of JStr t \<Rightarrow> t | _ \<Rightarrow> he_str env v)"

text \<open>A missing \<^verbatim>\<open>sub\<close> or \<^verbatim>\<open>exp\<close> would be a \<^verbatim>\<open>KeyError\<close>, which is not caught.\<close>

definition decode_access_token :: "'r http_env \<Rightarrow> string \<Rightarrow> exn + access_token_claims option" where
  "decode_access_token env token =
     (case he_jwt_decode env token (settings.secret_key (he_settings env))
             (settings.access_token_algorithm (he_settings env)) of
        None \<Rightarrow> Inr None
      | Some payload \<Rightarrow>
          if dict_get payload ''type'' \<noteq> Some (JStr ''access'') then Inr None
          else (case dict_get payload ''sub'' of
              None \<Rightarrow> Inl (RuntimeError ''KeyError'')
            | Some sub \<Rightarrow> (case parse_uuid (claim_str env sub) of
                None \<Rightarrow> Inr None
              | Some uid \<Rightarrow> (case dict_get payload ''exp'' of
                  None \<Rightarrow> Inl (RuntimeError ''KeyError'')
                | Some ex \<Rightarrow> Inr (map_option
                    (\<lambda>expiry. \<lparr>cl_user_id = uid,
                      cl_role = (case dict_get payload ''role'' of None \<Rightarrow> ''user'' | Some r \<Rightarrow> claim_str env r),
                      cl_expires_at = expiry\<rparr>) (he_timestamp env ex))))))"

section \<open>The current user\<close>

abbreviation unauthorized :: exn where
  "unauthorized \<equiv> AppErr (Unauthorized ''Authentication required'')"

definition get_current_user :: "'r http_env \<Rightarrow> request \<Rightarrow> ('r world, user) py" where
  "get_current_user env rq =
     (case he_bearer env rq of
        None \<Rightarrow> raise unauthorized
      | Some (scheme, token) \<Rightarrow>
          if casefold scheme \<noteq> ''bearer'' then raise unauthorized
          else bindp (lift_res (decode_access_token env token)) (\<lambda>claims. case claims of
              None \<Rightarrow> raise unauthorized
            | Some cl \<Rightarrow> bindp (on_db (user_by_id (cl_user_id cl))) (\<lambda>found. case found of
                None \<Rightarrow> raise unauthorized
              | Some u \<Rightarrow>
                  if \<not> user_is_active u then raise (AppErr (Forbidden ''Account is disabled''))
                  else thenp (on_redis (enforce (he_redis env) (he_limits env) ''authenticated'' (uuid_str (user_id u))
                      (authenticated_api_rate_limit (he_settings env)) False))
                    (ret u))))"

definition require_role :: "string list \<Rightarrow> user \<Rightarrow> exn + user" where
  "require_role roles u =
     (if user_role u \<notin> set roles then Inl (AppErr (Forbidden ''Insufficient permissions'')) else Inr u)"

section \<open>Sessions\<close>

definition client_ip :: "request \<Rightarrow> string" where
  "client_ip rq = (case rq_client rq of None \<Rightarrow> ''unknown'' | Some h \<Rightarrow> h)"

definition user_agent :: "request \<Rightarrow> string" where
  "user_agent rq = take 1000 (case header rq ''user-agent'' of None \<Rightarrow> ''unknown'' | Some a \<Rightarrow> a)"

definition rate_identity :: "'r http_env \<Rightarrow> request \<Rightarrow> string" where
  "rate_identity env rq =
     hexdigest (hash_metadata (sha256 (he_auth env)) (client_ip rq) (settings.secret_key (he_settings env)))"

record cookie =
  ck_name :: string
  ck_value :: string
  ck_max_age :: int
  ck_secure :: bool
  ck_httponly :: bool
  ck_path :: string

text \<open>Both are \<^verbatim>\<open>samesite="lax"\<close>; a deleted cookie is empty and expires at once.\<close>

definition generate_csrf_token :: "auth_env \<Rightarrow> string session" where
  "generate_csrf_token env = draw_secret (env_secret env)"

definition set_session_cookies :: "'r http_env \<Rightarrow> auth_result \<Rightarrow> cookie list session" where
  "set_session_cookies env result =
     (let s = he_settings env in
      bindp (generate_csrf_token (he_auth env)) (\<lambda>csrf. ret
        [\<lparr>ck_name = refresh_cookie_name s, ck_value = res_refresh_token result,
          ck_max_age = settings.refresh_token_ttl_seconds s, ck_secure = cookie_secure s, ck_httponly = True,
          ck_path = ''/api/v1/auth''\<rparr>,
         \<lparr>ck_name = csrf_cookie_name s, ck_value = csrf,
          ck_max_age = settings.refresh_token_ttl_seconds s, ck_secure = cookie_secure s, ck_httponly = False,
          ck_path = ''/''\<rparr>]))"

definition clear_session_cookies :: "'r http_env \<Rightarrow> cookie list" where
  "clear_session_cookies env =
     (let s = he_settings env in
        [\<lparr>ck_name = refresh_cookie_name s, ck_value = [], ck_max_age = 0, ck_secure = cookie_secure s,
          ck_httponly = False, ck_path = ''/api/v1/auth''\<rparr>,
         \<lparr>ck_name = csrf_cookie_name s, ck_value = [], ck_max_age = 0, ck_secure = cookie_secure s,
          ck_httponly = False, ck_path = ''/''\<rparr>])"

text \<open>\<^verbatim>\<open>secrets.compare_digest\<close> of two strings raises \<^verbatim>\<open>TypeError\<close> when one is not ASCII.\<close>

definition compare_digest :: "string \<Rightarrow> string \<Rightarrow> exn + bool" where
  "compare_digest a b =
     (if list_all is_ascii a \<and> list_all is_ascii b then Inr (a = b)
      else Inl (TypeError ''comparing strings with non-ASCII characters is not supported''))"

definition validate_csrf :: "'r http_env \<Rightarrow> request \<Rightarrow> exn + unit" where
  "validate_csrf env rq =
     (let failed = Inl (AppErr (Unauthorized ''CSRF validation failed''));
          cookie = map_of (rq_cookies rq) (csrf_cookie_name (he_settings env));
          csrf_header = header rq ''x-csrf-token'' in
      case (cookie, csrf_header) of
        (Some c, Some h) \<Rightarrow>
          if c = [] \<or> h = [] then failed
          else bindr (compare_digest c h) (\<lambda>same. if same then Inr () else failed)
      | _ \<Rightarrow> failed)"

record user_response =
  ur_id :: uuid
  ur_email :: string
  ur_display_name :: string
  ur_role :: string
  ur_is_active :: bool
  ur_email_verified :: bool

record session_response =
  sr_access_token :: string
  sr_token_type :: string
  sr_expires_at :: timestamp
  sr_user :: user_response

definition user_response_of :: "user \<Rightarrow> user_response" where
  "user_response_of u = \<lparr>ur_id = user_id u, ur_email = user_email u, ur_display_name = user_display_name u,
     ur_role = user_role u, ur_is_active = user_is_active u, ur_email_verified = user_email_verified u\<rparr>"

definition session_response_of :: "auth_result \<Rightarrow> session_response" where
  "session_response_of r = \<lparr>sr_access_token = res_access_token r, sr_token_type = ''bearer'',
     sr_expires_at = res_access_expires_at r, sr_user = user_response_of (res_user r)\<rparr>"

text \<open>The validation of \<^verbatim>\<open>RegisterRequest\<close> and \<^verbatim>\<open>LoginRequest\<close>; the address syntax is the library's.\<close>

definition normalize_display_name :: "string \<Rightarrow> string option" where
  "normalize_display_name v = (if strip v = [] then None else Some (strip v))"

definition register_request ::
  "(string \<Rightarrow> string option) \<Rightarrow> string \<Rightarrow> string \<Rightarrow> string \<Rightarrow> (string \<times> string \<times> string) option" where
  "register_request email_str email password display_name =
     (case email_str email of
        None \<Rightarrow> None
      | Some e \<Rightarrow>
          if length password < 12 \<or> 1024 < length password \<or> length display_name < 1 \<or> 120 < length display_name
          then None
          else map_option (\<lambda>n. (e, password, n)) (normalize_display_name display_name))"

definition login_request :: "(string \<Rightarrow> string option) \<Rightarrow> string \<Rightarrow> string \<Rightarrow> (string \<times> string) option" where
  "login_request email_str email password =
     (case email_str email of
        None \<Rightarrow> None
      | Some e \<Rightarrow> if length password < 1 \<or> 1024 < length password then None else Some (e, password))"

definition limit_auth :: "'r http_env \<Rightarrow> request \<Rightarrow> string \<Rightarrow> int \<Rightarrow> ('r world, unit) py" where
  "limit_auth env rq scope limit = on_redis (enforce (he_redis env) (he_limits env) scope (rate_identity env rq) limit
     (auth_rate_limit_fail_closed (he_settings env)))"

definition session_answer :: "'r http_env \<Rightarrow> auth_result session \<Rightarrow> ('r world, session_response \<times> cookie list) py" where
  "session_answer env operation = bindp (on_db operation) (\<lambda>result.
     bindp (on_db (set_session_cookies env result)) (\<lambda>cookies. ret (session_response_of result, cookies)))"

definition register_route ::
  "'r http_env \<Rightarrow> string \<Rightarrow> request \<Rightarrow> string \<Rightarrow> string \<Rightarrow> string \<Rightarrow> ('r world, session_response \<times> cookie list) py" where
  "register_route env ctx rq email password display_name =
     thenp (limit_auth env rq ''register'' (registration_rate_limit (he_settings env)))
       (session_answer env (register_endpoint (he_auth env) email password display_name
         (get_correlation_id ctx) (client_ip rq) (user_agent rq)))"

definition login_route ::
  "'r http_env \<Rightarrow> string \<Rightarrow> request \<Rightarrow> string \<Rightarrow> string \<Rightarrow> ('r world, session_response \<times> cookie list) py" where
  "login_route env ctx rq email password =
     thenp (limit_auth env rq ''login'' (login_rate_limit (he_settings env)))
     (thenp (limit_auth env rq ''password-verify'' (password_verify_rate_limit (he_settings env)))
       (session_answer env (commit_auth_operation (login (he_auth env) email password
         (get_correlation_id ctx) (client_ip rq) (user_agent rq)))))"

text \<open>The refresh cookie, when it is there and not empty.\<close>

definition refresh_cookie :: "'r http_env \<Rightarrow> request \<Rightarrow> string option" where
  "refresh_cookie env rq = (case map_of (rq_cookies rq) (refresh_cookie_name (he_settings env)) of
       None \<Rightarrow> None | Some t \<Rightarrow> if t = [] then None else Some t)"

definition refresh_route :: "'r http_env \<Rightarrow> string \<Rightarrow> request \<Rightarrow> ('r world, session_response \<times> cookie list) py" where
  "refresh_route env ctx rq =
     thenp (lift_res (validate_csrf env rq))
     (thenp (limit_auth env rq ''refresh'' (refresh_rate_limit (he_settings env)))
       (case refresh_cookie env rq of
          None \<Rightarrow> raise invalid_session
        | Some raw_token \<Rightarrow> session_answer env (commit_auth_operation (rotate_token (he_auth env) raw_token
            (get_correlation_id ctx) (client_ip rq) (user_agent rq)))))"

definition logout_route :: "'r http_env \<Rightarrow> string \<Rightarrow> request \<Rightarrow> ('r world, cookie list) py" where
  "logout_route env ctx rq =
     thenp (lift_res (validate_csrf env rq))
     (thenp (case refresh_cookie env rq of
          None \<Rightarrow> ret ()
        | Some raw_token \<Rightarrow> on_db (commit_or_rollback (logout (he_auth env) raw_token (get_correlation_id ctx) (client_ip rq))))
       (ret (clear_session_cookies env)))"

definition logout_all_route :: "'r http_env \<Rightarrow> string \<Rightarrow> request \<Rightarrow> ('r world, cookie list) py" where
  "logout_all_route env ctx rq =
     bindp (get_current_user env rq) (\<lambda>u.
     thenp (lift_res (validate_csrf env rq))
     (thenp (on_db (commit_or_rollback (logout_all (he_auth env) (user_id u) (get_correlation_id ctx) (client_ip rq))))
       (ret (clear_session_cookies env))))"

definition me_route :: "'r http_env \<Rightarrow> request \<Rightarrow> ('r world, user_response) py" where
  "me_route env rq = bindp (get_current_user env rq) (\<lambda>u. ret (user_response_of u))"

section \<open>What the responses show\<close>

text \<open>\<^verbatim>\<open>app/schemas/domain.py\<close>, without \<^verbatim>\<open>updated_at\<close>.\<close>

record repository_schema =
  rp_id :: uuid
  rp_owner_id :: uuid
  rp_name :: string
  rp_normalized_clone_url :: string
  rp_default_branch :: "string option"
  rp_status :: repo_state
  rp_latest_revision_id :: "uuid option"
  rp_indexing_config :: json_object
  rp_deleted_at :: "timestamp option"
  rp_created_at :: timestamp

definition repository_schema_of :: "repository \<Rightarrow> repository_schema" where
  "repository_schema_of r = \<lparr>rp_id = repo_id r, rp_owner_id = repo_owner_id r, rp_name = repo_name r,
     rp_normalized_clone_url = repo_normalized_clone_url r, rp_default_branch = repo_default_branch r,
     rp_status = repo_status r, rp_latest_revision_id = repo_latest_revision_id r,
     rp_indexing_config = repo_indexing_config r, rp_deleted_at = repo_deleted_at r,
     rp_created_at = repo_created_at r\<rparr>"

record repository_file_schema =
  rf_id :: uuid
  rf_revision_id :: uuid
  rf_normalized_path :: string
  rf_language :: "string option"
  rf_size :: int
  rf_content_hash :: string
  rf_line_count :: int
  rf_indexing_status :: string
  rf_excluded_reason :: "string option"

definition repository_file_schema_of :: "repository_file \<Rightarrow> repository_file_schema" where
  "repository_file_schema_of f = \<lparr>rf_id = file_id f, rf_revision_id = file_revision_id f,
     rf_normalized_path = file_normalized_path f, rf_language = file_language f, rf_size = file_size f,
     rf_content_hash = file_content_hash f, rf_line_count = file_line_count f,
     rf_indexing_status = file_indexing_status f, rf_excluded_reason = file_excluded_reason f\<rparr>"

record agent_run_schema =
  ra_id :: uuid
  ra_owner_id :: uuid
  ra_repository_id :: uuid
  ra_revision_id :: "uuid option"
  ra_run_type :: string
  ra_status :: run_state
  ra_input_summary :: string
  ra_model_provider :: string
  ra_model_identifier :: string
  ra_prompt_version :: string
  ra_started_at :: "timestamp option"
  ra_completed_at :: "timestamp option"
  ra_error_code :: "string option"
  ra_error_message :: "string option"
  ra_input_units :: "int option"
  ra_output_units :: "int option"

definition agent_run_schema_of :: "agent_run \<Rightarrow> agent_run_schema" where
  "agent_run_schema_of r = \<lparr>ra_id = run_id r, ra_owner_id = run_owner_id r, ra_repository_id = run_repository_id r,
     ra_revision_id = run_revision_id r, ra_run_type = run_run_type r, ra_status = run_status r,
     ra_input_summary = run_input_summary r, ra_model_provider = run_model_provider r,
     ra_model_identifier = run_model_identifier r, ra_prompt_version = run_prompt_version r,
     ra_started_at = run_started_at r, ra_completed_at = run_completed_at r, ra_error_code = run_error_code r,
     ra_error_message = run_error_message r, ra_input_units = run_input_units r, ra_output_units = run_output_units r\<rparr>"

text \<open>The private metadata of an event is not shown.\<close>

record agent_run_event_schema =
  re_id :: uuid
  re_run_id :: uuid
  re_sequence :: int
  re_event_type :: string
  re_public_message :: string
  re_created_at :: timestamp

definition agent_run_event_schema_of :: "agent_run_event \<Rightarrow> agent_run_event_schema" where
  "agent_run_event_schema_of e = \<lparr>re_id = event_id e, re_run_id = event_run_id e, re_sequence = event_sequence e,
     re_event_type = event_event_type e, re_public_message = event_public_message e, re_created_at = event_created_at e\<rparr>"

section \<open>Repositories\<close>

text \<open>\<^verbatim>\<open>except IngestionInputError: raise BadRequest\<close>, and reading back a row just written.\<close>

definition bad_request_on_input_error :: "'a session \<Rightarrow> 'a session" where
  "bad_request_on_input_error m = catch m (\<lambda>e. case e of
       IngestionInputError t \<Rightarrow> raise (AppErr (BadRequest t)) | _ \<Rightarrow> raise e)"

definition loaded_row :: "'r option session \<Rightarrow> 'r session" where
  "loaded_row lookup = bindp lookup (\<lambda>found. case found of
       None \<Rightarrow> raise (RuntimeError ''InvalidRequestError'') | Some r \<Rightarrow> ret r)"

definition enqueue_ingestion :: "uuid \<Rightarrow> uuid \<Rightarrow> ('r world, unit) py" where
  "enqueue_ingestion repository_id rid =
     send_task ''app.workers.tasks.ingest_repository'' [uuid_str repository_id, uuid_str rid]"

definition create_repository_answer ::
  "'r http_env \<Rightarrow> string \<Rightarrow> request \<Rightarrow> user \<Rightarrow> string \<Rightarrow> string option \<Rightarrow>
   (repository_schema \<times> agent_run_schema option) session" where
  "create_repository_answer env ctx rq u clone_url ref = commit_or_rollback
     (bindp (bad_request_on_input_error (create_repository (he_ingest env) (user_id u) clone_url ref
         (get_correlation_id ctx) (client_ip rq))) (\<lambda>(i, run).
      bindp (loaded_row (get_repository_row i)) (\<lambda>r.
      bindp (case run of None \<Rightarrow> ret None
        | Some k \<Rightarrow> bindp (loaded_row (get_run_row k)) (\<lambda>q. ret (Some (agent_run_schema_of q)))) (\<lambda>q.
      ret (repository_schema_of r, q)))))"

definition create_repository_route ::
  "'r http_env \<Rightarrow> string \<Rightarrow> request \<Rightarrow> string \<Rightarrow> string option \<Rightarrow>
   ('r world, repository_schema \<times> agent_run_schema option) py" where
  "create_repository_route env ctx rq clone_url ref =
     bindp (get_current_user env rq) (\<lambda>u.
     bindp (on_db (create_repository_answer env ctx rq u clone_url ref)) (\<lambda>(r, run).
     thenp (case run of None \<Rightarrow> ret () | Some q \<Rightarrow> enqueue_ingestion (rp_id r) (ra_id q))
       (ret (r, run))))"

definition list_repositories_route :: "'r http_env \<Rightarrow> request \<Rightarrow> ('r world, repository_schema list) py" where
  "list_repositories_route env rq =
     bindp (get_current_user env rq) (\<lambda>u.
     bindp (on_db (repositories_for_owner (user_id u))) (\<lambda>rs. ret (map repository_schema_of rs)))"

definition get_repository_route :: "'r http_env \<Rightarrow> request \<Rightarrow> uuid \<Rightarrow> ('r world, repository_schema) py" where
  "get_repository_route env rq i =
     bindp (get_current_user env rq) (\<lambda>u.
     bindp (on_db (require_repository (user_id u) i)) (\<lambda>r. ret (repository_schema_of r)))"

text \<open>With the \<^verbatim>\<open>Location\<close> header of the response.\<close>

definition delete_repository_route ::
  "'r http_env \<Rightarrow> string \<Rightarrow> request \<Rightarrow> uuid \<Rightarrow> ('r world, repository_schema \<times> string) py" where
  "delete_repository_route env ctx rq i =
     bindp (get_current_user env rq) (\<lambda>u.
     bindp (on_db (commit_or_rollback
       (bindp (mark_deleting (he_ingest env) (user_id u) i (get_correlation_id ctx) (client_ip rq)) (\<lambda>k.
        loaded_row (get_repository_row k))))) (\<lambda>r.
     thenp (send_task ''app.workers.tasks.cleanup_repository_workspace'' [uuid_str (repo_id r)])
       (ret (repository_schema_of r, ''/api/v1/repositories/'' @ uuid_str (repo_id r)))))"

definition sync_repository_answer ::
  "'r http_env \<Rightarrow> string \<Rightarrow> request \<Rightarrow> user \<Rightarrow> uuid \<Rightarrow> string option \<Rightarrow> (repository_schema \<times> agent_run_schema) session" where
  "sync_repository_answer env ctx rq u i ref = commit_or_rollback
     (bindp (bad_request_on_input_error (sync_repository (he_ingest env) (user_id u) i ref
         (get_correlation_id ctx) (client_ip rq))) (\<lambda>(i, k).
      bindp (loaded_row (get_repository_row i)) (\<lambda>r.
      bindp (loaded_row (get_run_row k)) (\<lambda>q. ret (repository_schema_of r, agent_run_schema_of q)))))"

definition sync_repository_route ::
  "'r http_env \<Rightarrow> string \<Rightarrow> request \<Rightarrow> uuid \<Rightarrow> string option \<Rightarrow> ('r world, repository_schema \<times> agent_run_schema) py" where
  "sync_repository_route env ctx rq i ref =
     bindp (get_current_user env rq) (\<lambda>u.
     bindp (on_db (sync_repository_answer env ctx rq u i ref)) (\<lambda>(r, q).
     thenp (enqueue_ingestion (rp_id r) (ra_id q)) (ret (r, q))))"

definition list_repository_files_route ::
  "'r http_env \<Rightarrow> request \<Rightarrow> uuid \<Rightarrow> ('r world, repository_file_schema list) py" where
  "list_repository_files_route env rq i =
     bindp (get_current_user env rq) (\<lambda>u.
     on_db (bindp (require_repository (user_id u) i) (\<lambda>r. case repo_latest_revision_id r of
         None \<Rightarrow> ret []
       | Some v \<Rightarrow> bindp (files_for_revision v) (\<lambda>fs. ret (map repository_file_schema_of fs)))))"

section \<open>Runs and indexes\<close>

definition get_run_route :: "'r http_env \<Rightarrow> request \<Rightarrow> uuid \<Rightarrow> ('r world, agent_run_schema) py" where
  "get_run_route env rq rid =
     bindp (get_current_user env rq) (\<lambda>u.
     bindp (on_db (require_run (user_id u) rid)) (\<lambda>r. ret (agent_run_schema_of r)))"

definition list_run_events_route :: "'r http_env \<Rightarrow> request \<Rightarrow> uuid \<Rightarrow> ('r world, agent_run_event_schema list) py" where
  "list_run_events_route env rq rid =
     bindp (get_current_user env rq) (\<lambda>u.
     on_db (bindp (require_run (user_id u) rid) (\<lambda>r.
       bindp (events_for_run (run_id r)) (\<lambda>es. ret (map agent_run_event_schema_of es)))))"

definition enqueue_indexing :: "uuid \<Rightarrow> uuid \<Rightarrow> ('r world, unit) py" where
  "enqueue_indexing repository_id rid =
     send_task ''app.workers.tasks.index_repository'' [uuid_str repository_id, uuid_str rid]"

definition index_repository_route :: "'r http_env \<Rightarrow> string \<Rightarrow> request \<Rightarrow> uuid \<Rightarrow> ('r world, uuid \<times> uuid) py" where
  "index_repository_route env ctx rq i =
     bindp (get_current_user env rq) (\<lambda>u.
     bindp (on_db (commit_or_rollback (create_index_run (index_env.truncate (he_search env)) (user_id u) i
         (get_correlation_id ctx) (client_ip rq)))) (\<lambda>(r, run, created).
     thenp (if created then enqueue_indexing r run else ret ()) (ret (run, r))))"

definition index_status_route :: "'r http_env \<Rightarrow> request \<Rightarrow> uuid \<Rightarrow> ('r world, index_status) py" where
  "index_status_route env rq i =
     bindp (get_current_user env rq) (\<lambda>u. on_db (get_index_status (user_id u) i))"

text \<open>The bounds FastAPI checks before the endpoint runs.\<close>

record symbols_query =
  sq_revision_id :: "uuid option"
  sq_symbol_type :: "string option"
  sq_name :: "string option"
  sq_path :: "string option"
  sq_limit :: nat
  sq_offset :: nat

definition at_most :: "nat \<Rightarrow> string option \<Rightarrow> bool" where
  "at_most n v = (case v of None \<Rightarrow> True | Some t \<Rightarrow> length t \<le> n)"

definition valid_symbols_query :: "symbols_query \<Rightarrow> bool" where
  "valid_symbols_query q \<longleftrightarrow> at_most 64 (sq_symbol_type q) \<and> at_most 512 (sq_name q) \<and> at_most 2048 (sq_path q)
     \<and> 1 \<le> sq_limit q \<and> sq_limit q \<le> 500"

definition list_symbols_route :: "'r http_env \<Rightarrow> request \<Rightarrow> uuid \<Rightarrow> symbols_query \<Rightarrow> ('r world, symbol_view list) py" where
  "list_symbols_route env rq i q =
     bindp (get_current_user env rq) (\<lambda>u.
     on_db (list_symbols (user_id u) i (sq_revision_id q) (sq_symbol_type q) (sq_name q) (sq_path q)
       (sq_limit q) (sq_offset q)))"

record search_query =
  eq_q :: string
  eq_revision_id :: "uuid option"
  eq_path_prefix :: "string option"
  eq_language :: "string option"
  eq_top_k :: int
  eq_method :: string

definition valid_search_query :: "search_query \<Rightarrow> bool" where
  "valid_search_query q \<longleftrightarrow> 1 \<le> length (eq_q q) \<and> length (eq_q q) \<le> 2000 \<and> at_most 2048 (eq_path_prefix q)
     \<and> at_most 64 (eq_language q) \<and> 1 \<le> eq_top_k q \<and> eq_top_k q \<le> 50
     \<and> eq_method q \<in> {''dense'', ''lexical'', ''hybrid''}"

text \<open>The user is resolved before the endpoint's own limit is counted.\<close>

definition search_repository_route ::
  "'r http_env \<Rightarrow> request \<Rightarrow> uuid \<Rightarrow> search_query \<Rightarrow> ('r world, search_evidence list) py" where
  "search_repository_route env rq i q =
     bindp (get_current_user env rq) (\<lambda>u.
     thenp (on_redis (enforce (he_redis env) (he_limits env) ''repository-search''
         (uuid_str (user_id u) @ '':'' @ uuid_str i) (indexing_search_rate_limit (he_settings env)) False))
       (on_db (search (he_search env) (user_id u) i (eq_q q) (eq_revision_id q) (eq_path_prefix q) (eq_language q)
         (Some (eq_top_k q)) (eq_method q))))"

section \<open>The workers\<close>

definition parsed_uuid :: "string \<Rightarrow> uuid session" where
  "parsed_uuid t = (case parse_uuid t of
       None \<Rightarrow> raise (ValueError ''badly formed hexadecimal UUID string'') | Some i \<Rightarrow> ret i)"

text \<open>The task functions of \<^verbatim>\<open>tasks.py\<close>, on the arguments of the message.\<close>

definition ingest_repository_task :: "'r http_env \<Rightarrow> string list \<Rightarrow> unit session" where
  "ingest_repository_task env args = (case args of
       [r, k] \<Rightarrow> bindp (parsed_uuid r) (\<lambda>i. bindp (parsed_uuid k) (\<lambda>rid. worker_ingest (he_ingest env) i rid))
     | _ \<Rightarrow> raise (TypeError ''arguments''))"

definition index_repository_task :: "'r http_env \<Rightarrow> string list \<Rightarrow> unit session" where
  "index_repository_task env args = (case args of
       [r, k] \<Rightarrow> bindp (parsed_uuid r) (\<lambda>i. bindp (parsed_uuid k) (\<lambda>rid.
         thenp (worker_index (index_env.truncate (he_search env)) i rid) (ret ())))
     | _ \<Rightarrow> raise (TypeError ''arguments''))"

definition cleanup_repository_workspace_task :: "'r http_env \<Rightarrow> string list \<Rightarrow> unit session" where
  "cleanup_repository_workspace_task env args = (case args of
       [r] \<Rightarrow> bindp (parsed_uuid r) (\<lambda>i. cleanup_repository_workspace (he_ingest env) i)
     | _ \<Rightarrow> raise (TypeError ''arguments''))"

text \<open>\<^verbatim>\<open>ping\<close> and \<^verbatim>\<open>cleanup_stale_artifacts\<close> touch nothing.\<close>

definition registered_tasks :: "'r http_env \<Rightarrow> (string \<times> (string list \<Rightarrow> unit session)) list" where
  "registered_tasks env = [
     (''app.workers.tasks.ping'', \<lambda>args. ret ()),
     (''app.workers.tasks.cleanup_stale_artifacts'', \<lambda>args. ret ()),
     (''app.workers.tasks.ingest_repository'', ingest_repository_task env),
     (''app.workers.tasks.cleanup_repository_workspace'', cleanup_repository_workspace_task env)]"

text \<open>A worker looks the name of a message up and discards a message whose name it does not know.\<close>

definition consume :: "'r http_env \<Rightarrow> string \<times> string list \<Rightarrow> unit session" where
  "consume env task = (case map_of (registered_tasks env) (fst task) of None \<Rightarrow> ret () | Some f \<Rightarrow> f (snd task))"

section \<open>Identifiers are read back\<close>

lemma length_hex_width [simp]: "length (hex_width w n) = w"
  by (induction w arbitrary: n) simp_all

lemma hex_width_chars: "set (hex_width w n) \<subseteq> set ''0123456789abcdef''"
proof (induction w arbitrary: n)
  case (Suc w)
  have "hex_digit n \<in> set ''0123456789abcdef''" unfolding hex_digit_def by (rule nth_mem) simp
  with Suc show ?case by simp
qed simp

lemma parse_hex_append: "parse_hex a xs = Some b \<Longrightarrow> parse_hex a (xs @ ys) = parse_hex b ys"
  by (induction xs arbitrary: a) (auto split: option.splits)

lemma parse_hex_width: "parse_hex a (hex_width w n) = Some (a * 16 ^ w + n mod 16 ^ w)"
proof (induction w arbitrary: n)
  case (Suc w)
  have "n mod (16 * 16 ^ w) = 16 * (n div 16 mod 16 ^ w) + n mod 16" by (rule mod_mult2_eq)
  then show ?case by (simp add: parse_hex_append [OF Suc] hex_value_digit algebra_simps)
qed simp

lemma hex_chars_value:
  assumes "set s \<subseteq> set ''0123456789abcdef''" "c \<in> set s"
  shows "hex_value c \<noteq> None" "c \<notin> {CHR ''_'', CHR ''x'', CHR ''X'', CHR ''-'', CHR ''+'', CHR ''{'', CHR ''}'', CHR ''u''}"
    "\<not> is_space c"
  using assms by (auto simp: hex_value_def is_digit_def is_space_def code_def)

lemma hex_groups_plain:
  "s \<noteq> [] \<Longrightarrow> (\<And>c. c \<in> set s \<Longrightarrow> hex_value c \<noteq> None \<and> c \<noteq> CHR ''_'') \<Longrightarrow> hex_groups s"
  by (induction s rule: hex_groups.induct) auto

lemma strip_by_plain: "(\<And>c. c \<in> set s \<Longrightarrow> \<not> P c) \<Longrightarrow> strip_by P s = s"
  by (simp add: strip_by_def lstrip_by_def rstrip_by_def dropWhile_eq_self_iff) (metis dropWhile_eq_self_iff hd_in_set set_rev rev_rev_ident)

lemma py_int_hex_plain:
  assumes "set s \<subseteq> set ''0123456789abcdef''" "s \<noteq> []" "parse_hex 0 s = Some n"
  shows "py_int_hex s = Some (int n)"
proof -
  note c = hex_chars_value [OF assms(1)]
  have "strip s = s" unfolding strip_def by (rule strip_by_plain) (rule c(3))
  moreover have "\<not> startswith s ''-''" "\<not> startswith s ''+''"
    using c(2) assms(2) by (cases s; auto)+
  moreover have "\<not> startswith s ''0x''" "\<not> startswith s ''0X''"
    using c(2) [of "CHR ''x''"] c(2) [of "CHR ''X''"] by (auto simp: startswith_def prefix_def)
  moreover have "hex_groups s" by (rule hex_groups_plain [OF assms(2)]) (use c in blast)
  moreover have "filter (\<lambda>c. c \<noteq> CHR ''_'') s = s" by (rule filter_True) (use c(2) in blast)
  ultimately show ?thesis using assms(3) by (simp add: py_int_hex_def Let_def)
qed

lemma remove_all_absent: "p \<noteq> [] \<Longrightarrow> hd p \<notin> set s \<Longrightarrow> remove_all p s = s"
  by (induction s) (subst remove_all.simps, auto simp: startswith_def neq_Nil_conv)+

text \<open>A UUID has 128 bits.\<close>

lemma parse_uuid_str:
  assumes "u < 2 ^ 128"
  shows "parse_uuid (uuid_str u) = Some u"
proof -
  let ?h = "hex_width 32 u"
  note chars = hex_width_chars [of 32 u] and c = hex_chars_value [OF hex_width_chars [of 32 u]]
  have parts: "set (take n ?h) \<subseteq> set ?h" "set (drop n ?h) \<subseteq> set ?h" "set (take n (drop m ?h)) \<subseteq> set ?h" for n m
    by (meson set_take_subset set_drop_subset subset_trans)+
  have in_h: "x \<in> set ?h \<or> x = CHR ''-''" if "x \<in> set (uuid_str u)" for x
    using that by (auto simp: uuid_str_def Let_def simp del: hex_width.simps dest: in_set_takeD in_set_dropD)
  then have "CHR ''u'' \<notin> set (uuid_str u)" "\<And>x. x \<in> set (uuid_str u) \<Longrightarrow> x \<notin> {CHR ''{'', CHR ''}''}"
    using c(2) by (blast, fastforce)
  then have s: "strip_by (\<lambda>c. c \<in> {CHR ''{'', CHR ''}''}) (remove_all ''uuid:'' (remove_all ''urn:'' (uuid_str u))) = uuid_str u"
    by (simp only: remove_all_absent list.sel list.distinct not_False_eq_True) (rule strip_by_plain, blast)
  have plain: "filter (\<lambda>x. x \<noteq> CHR ''-'') xs = xs" if "set xs \<subseteq> set ?h" for xs
    by (rule filter_True) (use that c(2) in blast)
  have "take 8 ?h @ take 4 (drop 8 ?h) @ take 4 (drop 12 ?h) @ take 4 (drop 16 ?h) @ drop 20 ?h = ?h"
    using append_take_drop_id [of 4 "drop 16 ?h"] append_take_drop_id [of 4 "drop 12 ?h"]
      append_take_drop_id [of 4 "drop 8 ?h"] append_take_drop_id [of 8 ?h]
    by (simp del: append_take_drop_id hex_width.simps)
  then have f: "filter (\<lambda>x. x \<noteq> CHR ''-'') (uuid_str u) = ?h"
    by (simp add: uuid_str_def Let_def plain parts del: hex_width.simps)
  have "parse_hex 0 ?h = Some u" using parse_hex_width [of 0 32 u] assms by simp
  then have "py_int_hex ?h = Some (int u)" by (intro py_int_hex_plain [OF chars]) (auto dest: arg_cong [where f = length])
  then show ?thesis unfolding parse_uuid_def Let_def s f by (simp del: hex_width.simps)
qed

section \<open>Endpoints that touch only their part of the world\<close>

lemma on_db_eq_Inr: "on_db m w = (Inr x, w') \<longleftrightarrow> (\<exists>s. m (w_db w) = (Inr x, s) \<and> w' = w\<lparr>w_db := s\<rparr>)"
  by (auto simp: on_db_def split: prod.splits)

lemma on_db_world [simp]: "w_redis (snd (on_db m w)) = w_redis w" "w_tasks (snd (on_db m w)) = w_tasks w"
  by (simp_all add: on_db_def split: prod.split)

lemma on_redis_world [simp]: "w_db (snd (on_redis m w)) = w_db w" "w_tasks (snd (on_redis m w)) = w_tasks w"
  by (simp_all add: on_redis_def split: prod.split)

text \<open>What the current user says of a request, and what the check leaves.\<close>

lemma get_current_user_Inr:
  assumes "get_current_user env rq w = (Inr u, w')"
  shows "\<exists>scheme token cl. he_bearer env rq = Some (scheme, token) \<and> casefold scheme = ''bearer''
    \<and> decode_access_token env token = Inr (Some cl) \<and> cl_user_id cl = user_id u
    \<and> u \<in> set (users (w_db w)) \<and> user_is_active u \<and> w_db w' = w_db w \<and> w_tasks w' = w_tasks w"
proof -
  obtain scheme token cl where t: "he_bearer env rq = Some (scheme, token)" "casefold scheme = ''bearer''"
      "decode_access_token env token = Inr (Some cl)"
    using assms by (auto simp: get_current_user_def bindp_eq_Inr split: option.splits prod.splits if_splits)
  obtain s where u: "user_by_id (cl_user_id cl) (w_db w) = (Inr (Some u), s)" "user_is_active u"
      "thenp (on_redis (enforce (he_redis env) (he_limits env) ''authenticated'' (uuid_str (user_id u))
        (authenticated_api_rate_limit (he_settings env)) False)) (ret u) (w\<lparr>w_db := s\<rparr>) = (Inr u, w')"
    using assms t by (auto simp: get_current_user_def bindp_eq_Inr thenp_eq_Inr on_db_eq_Inr
        split: option.splits if_splits)
  have s: "s = w_db w" "u \<in> set (users (w_db w)) \<and> user_id u = cl_user_id cl" using found_by_id [OF u(1)] by auto
  have "w_db w' = w_db w \<and> w_tasks w' = w_tasks w"
    using u(3) s(1) by (auto simp: thenp_eq_Inr on_redis_def split: prod.splits)
  then show ?thesis using t u(2) s(2) by auto
qed

lemma get_current_user_frame: "w_db (snd (get_current_user env rq w)) = w_db w \<and> w_tasks (snd (get_current_user env rq w)) = w_tasks w"
proof -
  have user: "snd (user_by_id uid s) = s" for uid s by (simp add: user_by_id_def)
  have "preserves (\<lambda>v. w_db v = w_db w \<and> w_tasks v = w_tasks w) (get_current_user env rq)"
    unfolding get_current_user_def
    by (intro pres preservesI) (auto simp: on_db_def on_redis_def user_by_id_def intro!: pres split: prod.split)
  from presD [OF this] show ?thesis by simp
qed

lemma decode_access_token_Inr:
  assumes "decode_access_token env token = Inr (Some cl)"
  shows "\<exists>payload sub. he_jwt_decode env token (settings.secret_key (he_settings env))
        (settings.access_token_algorithm (he_settings env)) = Some payload
    \<and> dict_get payload ''type'' = Some (JStr ''access'')
    \<and> dict_get payload ''sub'' = Some sub \<and> parse_uuid (claim_str env sub) = Some (cl_user_id cl)"
  using assms by (auto simp: decode_access_token_def split: option.splits if_splits)

end
