(* ===== verification/Platform.thy ===== *)
theory Platform
  imports Endpoints "HOL-Library.AList"
begin

text \<open>
  What the services stand on: the process environment and the settings built from it
  (\<^verbatim>\<open>app/core/config.py\<close>, \<^verbatim>\<open>_git_env\<close>), the options of the database engine and its health
  check (\<^verbatim>\<open>app/services/database.py\<close>), the rows of \<^verbatim>\<open>system_metadata\<close>, log lines
  (\<^verbatim>\<open>app/core/logging.py\<close>), the start and the stop of the application
  (\<^verbatim>\<open>app/core/lifespan.py\<close>), the configuration of Celery, paging and the bounds of requests.
\<close>

section \<open>The process environment\<close>

type_synonym environ = "string \<rightharpoonup> string"

text \<open>\<^verbatim>\<open>os.environ[key] = value\<close> refuses what the C environment cannot hold.\<close>

definition environ_ok :: "string \<Rightarrow> string \<Rightarrow> bool" where
  "environ_ok k v \<longleftrightarrow> k \<noteq> [] \<and> CHR ''='' \<notin> set k \<and> CHR 0x00 \<notin> set k \<and> CHR 0x00 \<notin> set v"

definition environ_set :: "string \<times> string \<Rightarrow> (environ, unit) py" where
  "environ_set kv = (\<lambda>m. if environ_ok (fst kv) (snd kv) then (Inr (), m(fst kv \<mapsto> snd kv))
     else (Inl (ValueError ''embedded null byte or illegal name''), m))"

definition environ_pop :: "string \<Rightarrow> (environ, unit) py" where
  "environ_pop k = modify (\<lambda>m. m(k := None))"

text \<open>The variables of \<^verbatim>\<open>git\<close>: a copy of the environment with every prompt switched off.\<close>

definition git_env :: "environ \<Rightarrow> environ" where
  "git_env env = env(''GIT_TERMINAL_PROMPT'' \<mapsto> ''0'', ''GIT_ASKPASS'' \<mapsto> ''echo'', ''GCM_INTERACTIVE'' \<mapsto> ''Never'')"

lemma git_never_prompts:
  "git_env env ''GIT_TERMINAL_PROMPT'' = Some ''0'' \<and> git_env env ''GIT_ASKPASS'' = Some ''echo''
   \<and> (k \<notin> {''GIT_TERMINAL_PROMPT'', ''GIT_ASKPASS'', ''GCM_INTERACTIVE''} \<longrightarrow> git_env env k = env k)"
  by (simp add: git_env_def)

text \<open>
  \<^verbatim>\<open>build_settings_from_env\<close> sets variables, builds the settings and puts the variables back.
  \<open>build\<close> is the constructor of the library, which reads the environment.
\<close>

definition upper_char :: "char \<Rightarrow> char" where
  "upper_char c = (if is_lower_ascii c then char_of (code c - 32) else c)"

definition settings_values :: "(string \<times> string) list \<Rightarrow> (string \<times> string) list" where
  "settings_values overrides = AList.updates
     (map (\<lambda>(k, v). ''CODEPILOT_'' @ map upper_char k) overrides) (map snd overrides)
     [(''CODEPILOT_APP_NAME'', ''CodePilot''), (''CODEPILOT_APP_VERSION'', ''0.1.0'')]"

definition restore_variable :: "string \<times> string option \<Rightarrow> (environ, unit) py" where
  "restore_variable kv = (case snd kv of None \<Rightarrow> environ_pop (fst kv) | Some v \<Rightarrow> environ_set (fst kv, v))"

definition build_settings_from_env ::
  "(environ \<Rightarrow> exn + 'c) \<Rightarrow> (string \<times> string) list \<Rightarrow> (environ, 'c) py" where
  "build_settings_from_env build overrides =
     (let vals = settings_values overrides in
      bindp (gets (\<lambda>m. map (\<lambda>(k, v). (k, m k)) vals)) (\<lambda>previous.
      finallyp (thenp (forp vals environ_set) (bindp (gets build) lift_res))
        (forp previous restore_variable)))"

lemma restores:
  assumes "\<And>k v. env k = Some v \<Longrightarrow> environ_ok k v"
  shows "forp (map (\<lambda>(k, v). (k, env k)) vals) restore_variable m
     = (Inr (), (\<lambda>k. if k \<in> fst ` set vals then env k else m k))"
proof (induction vals arbitrary: m)
  case (Cons kv vals)
  have "restore_variable (fst kv, env (fst kv)) m = (Inr (), m(fst kv := env (fst kv)))"
    using assms by (auto simp: restore_variable_def environ_pop_def environ_set_def modify_def split: option.split)
  then show ?case by (auto simp: thenp_def bindp_def Cons fun_eq_iff split: prod.split)
qed (simp add: ret_def)

lemma sets_only_named: "preserves (\<lambda>m. \<forall>k. k \<notin> fst ` set vals \<longrightarrow> m k = env k) (forp vals environ_set)"
  by (rule preserves_forp) (force simp: preserves_def environ_set_def)

text \<open>
  Whatever fails, a variable that cannot be set or settings that cannot be built, the
  environment afterwards is the one before.
\<close>

theorem environment_restored:
  assumes "\<And>k v. env k = Some v \<Longrightarrow> environ_ok k v"
  shows "snd (build_settings_from_env build overrides env) = env"
proof -
  let ?vals = "settings_values overrides"
  let ?body = "thenp (forp ?vals environ_set) (bindp (gets build) lift_res)"
  have "preserves (\<lambda>m. \<forall>k. k \<notin> fst ` set ?vals \<longrightarrow> m k = env k) ?body"
    by (intro pres sets_only_named)
  from presD [OF this, of env] have "\<forall>k. k \<notin> fst ` set ?vals \<longrightarrow> snd (?body env) k = env k" by simp
  then have "(\<lambda>k. if k \<in> fst ` set ?vals then env k else snd (?body env) k) = env" by (auto simp: fun_eq_iff)
  then show ?thesis using restores [of env ?vals "snd (?body env)", OF assms]
    by (simp add: build_settings_from_env_def Let_def bindp_def gets_def finallyp_def split: prod.split)
      (auto split: prod.splits)
qed

section \<open>The database engine\<close>

text \<open>\<^verbatim>\<open>connect_args\<close>: the statement timeout in milliseconds, as text, and the command timeout.\<close>

record connect_args =
  ca_statement_timeout :: string
  ca_command_timeout :: int

datatype engine_options =
    NullPool
  | QueuePool int int int "connect_args option"

text \<open>\<^verbatim>\<open>backend\<close> is the back end SQLAlchemy finds in the URL, or why it cannot read it.\<close>

definition engine_kwargs :: "settings \<Rightarrow> exn + string \<Rightarrow> exn + engine_options" where
  "engine_kwargs s backend = bindr backend (\<lambda>name.
     if name = ''sqlite'' then Inr NullPool
     else Inr (QueuePool (database_pool_size s) (database_max_overflow s) (database_pool_timeout_seconds s)
       (if name = ''postgresql'' \<and> database_statement_timeout_ms s > 0
        then Some \<lparr>ca_statement_timeout = int_str (database_statement_timeout_ms s),
          ca_command_timeout = database_connect_timeout_seconds s\<rparr>
        else None)))"

lemma command_timeout_is_connect_timeout:
  "engine_kwargs s (Inr ''postgresql'') = Inr (QueuePool n m t (Some a)) \<Longrightarrow>
   ca_command_timeout a = database_connect_timeout_seconds s"
  by (auto simp: engine_kwargs_def split: if_split_asm)

text \<open>
  \<^verbatim>\<open>asyncio.wait_for\<close>: the answer when it comes in time. A ping is the time it takes and what it
  raises or returns; exceptions are known by the names of their classes.
\<close>

definition wait_for :: "rat \<Rightarrow> rat \<times> (string + unit) \<Rightarrow> string + unit" where
  "wait_for timeout answer = (if fst answer > timeout then Inl ''TimeoutError'' else snd answer)"

definition database_healthcheck :: "settings \<Rightarrow> rat \<times> (string + unit) \<Rightarrow> dependency_state \<times> string" where
  "database_healthcheck s answer = healthcheck (wait_for (database_health_timeout_seconds s) answer)"

definition redis_ping :: "settings \<Rightarrow> rat \<times> (string + unit) \<Rightarrow> string + unit" where
  "redis_ping s answer = wait_for (redis_health_timeout_seconds s) answer"

definition redis_healthcheck :: "settings \<Rightarrow> rat \<times> (string + unit) \<Rightarrow> dependency_state \<times> string" where
  "redis_healthcheck s answer = healthcheck (redis_ping s answer)"

lemma slow_dependency_degraded:
  "database_healthcheck s (t, r) = (DepReady, d) \<Longrightarrow> t \<le> database_health_timeout_seconds s \<and> r = Inr ()"
  "redis_healthcheck s (t, r) = (DepReady, d) \<Longrightarrow> t \<le> redis_health_timeout_seconds s \<and> r = Inr ()"
  by (auto simp: database_healthcheck_def redis_healthcheck_def redis_ping_def healthcheck_def wait_for_def
      split: sum.split_asm if_split_asm)

text \<open>The states of a dependency are ordered, and the report is its worst check.\<close>

instantiation dependency_state :: linorder
begin

definition less_eq_dependency_state :: "dependency_state \<Rightarrow> dependency_state \<Rightarrow> bool" where
  "less_eq_dependency_state a b \<longleftrightarrow> a = DepDegraded \<or> b = DepReady"

definition less_dependency_state :: "dependency_state \<Rightarrow> dependency_state \<Rightarrow> bool" where
  "less_dependency_state a b \<longleftrightarrow> a = DepDegraded \<and> b = DepReady"

instance
proof
  fix x y z :: dependency_state
  show "x < y \<longleftrightarrow> x \<le> y \<and> \<not> y \<le> x" "x \<le> x" "x \<le> y \<or> y \<le> x"
    by (cases x; cases y; simp add: less_eq_dependency_state_def less_dependency_state_def)+
  show "x \<le> y \<Longrightarrow> y \<le> z \<Longrightarrow> x \<le> z" "x \<le> y \<Longrightarrow> y \<le> x \<Longrightarrow> x = y"
    by (cases x; cases y; cases z; simp add: less_eq_dependency_state_def)+
qed

end

lemma readiness_is_worst_check:
  "hr_status (build_readiness_payload s p) = Min (dc_status ` snd ` set (hr_checks (build_readiness_payload s p)))"
proof -
  have min: "min a b = (if a = DepReady \<and> b = DepReady then DepReady else DepDegraded)" for a b :: dependency_state
    by (cases a; cases b) (simp_all add: min_def less_eq_dependency_state_def)
  show ?thesis
    by (auto simp: build_readiness_payload_def Let_def min split: prod.split)
qed

section \<open>System metadata\<close>

record system_metadata =
  sm_id :: uuid
  sm_metadata_key :: string
  sm_metadata_value :: json_object

text \<open>The rows of the table and the UUIDs drawn; a session over them.\<close>

record metadata_db =
  md_rows :: "system_metadata list"
  md_next_uuid :: uuid

definition metadata_get :: "string \<Rightarrow> (metadata_db, system_metadata option) py" where
  "metadata_get key = (\<lambda>s. (scalar_one_or_none (filter (\<lambda>r. sm_metadata_key r = key) (md_rows s)), s))"

text \<open>\<^verbatim>\<open>flush\<close> inserts the new row, which the unique constraint on the key may refuse.\<close>

definition metadata_upsert :: "string \<Rightarrow> json_object \<Rightarrow> (metadata_db, system_metadata) py" where
  "metadata_upsert key v = bindp (metadata_get key) (\<lambda>found. case found of
       None \<Rightarrow> (\<lambda>s. let r = \<lparr>sm_id = md_next_uuid s, sm_metadata_key = key, sm_metadata_value = v\<rparr> in
         if key \<in> sm_metadata_key ` set (md_rows s) then (Inl (IntegrityError ''system_metadata''), s)
         else (Inr r, \<lparr>md_rows = md_rows s @ [r], md_next_uuid = Suc (md_next_uuid s)\<rparr>))
     | Some r \<Rightarrow> thenp (modify (\<lambda>s. s\<lparr>md_rows := update_where (\<lambda>q. sm_metadata_key q = key)
           (\<lambda>q. q\<lparr>sm_metadata_value := v\<rparr>) (md_rows s)\<rparr>))
         (ret (r\<lparr>sm_metadata_value := v\<rparr>)))"

text \<open>What the table promises: a map from keys to values.\<close>

definition metadata_map :: "metadata_db \<Rightarrow> string \<rightharpoonup> json_object" where
  "metadata_map s = map_of (map (\<lambda>r. (sm_metadata_key r, sm_metadata_value r)) (md_rows s))"

definition metadata_ok :: "metadata_db \<Rightarrow> bool" where
  "metadata_ok s \<longleftrightarrow> distinct (map sm_metadata_key (md_rows s))"

lemma metadata_lookup:
  assumes "metadata_ok s"
  shows "\<exists>found. metadata_get key s = (Inr found, s) \<and> map_option sm_metadata_value found = metadata_map s key
    \<and> (found = None \<longleftrightarrow> key \<notin> sm_metadata_key ` set (md_rows s)) \<and> (\<forall>r. found = Some r \<longrightarrow> sm_metadata_key r = key)"
proof (cases "key \<in> sm_metadata_key ` set (md_rows s)")
  case True
  then obtain r where r: "r \<in> set (md_rows s)" "sm_metadata_key r = key" by blast
  have "filter (\<lambda>q. sm_metadata_key q = key) (md_rows s) = [r]"
    using filter_unique_column [of sm_metadata_key "md_rows s" r] assms r by (simp add: metadata_ok_def)
  moreover have "metadata_map s key = Some (sm_metadata_value r)"
    unfolding metadata_map_def using assms r by (intro map_of_is_SomeI) (auto simp: metadata_ok_def comp_def)
  ultimately show ?thesis using True r by (simp add: metadata_get_def)
next
  case False
  then have "filter (\<lambda>q. sm_metadata_key q = key) (md_rows s) = []" "metadata_map s key = None"
    by (auto simp: filter_empty_conv metadata_map_def map_of_eq_None_iff)
  with False show ?thesis by (simp add: metadata_get_def)
qed

lemma map_of_update_where:
  "k \<in> sm_metadata_key ` set rs \<Longrightarrow>
   map_of (map (\<lambda>r. (sm_metadata_key r, sm_metadata_value r))
     (update_where (\<lambda>q. sm_metadata_key q = k) (\<lambda>q. q\<lparr>sm_metadata_value := v\<rparr>) rs))
   = (map_of (map (\<lambda>r. (sm_metadata_key r, sm_metadata_value r)) rs))(k \<mapsto> v)"
proof (induction rs)
  case (Cons r rs)
  show ?case
  proof (cases "k \<in> sm_metadata_key ` set rs")
    case True
    then show ?thesis using Cons.IH by (auto simp: update_where_def fun_eq_iff)
  next
    case False
    then have "update_where (\<lambda>q. sm_metadata_key q = k) (\<lambda>q. q\<lparr>sm_metadata_value := v\<rparr>) rs = rs"
      by (auto simp: update_where_def intro!: map_idI)
    then show ?thesis using Cons.prems False by (auto simp: update_where_def fun_eq_iff)
  qed
qed simp

lemma map_of_snoc: "k \<notin> fst ` set xs \<Longrightarrow> map_of (xs @ [(k, v)]) = (map_of xs)(k \<mapsto> v)"
  by (induction xs) auto

text \<open>
  The table of system metadata implements a map: an upsert never fails, keeps one row per key,
  answers with the value and changes the map at that key only.
\<close>

theorem metadata_refines_map:
  assumes "metadata_ok s"
  shows "\<exists>r t. metadata_upsert key v s = (Inr r, t) \<and> metadata_ok t \<and> sm_metadata_key r = key
    \<and> sm_metadata_value r = v \<and> metadata_map t = (metadata_map s)(key \<mapsto> v)"
proof -
  obtain found where f: "metadata_get key s = (Inr found, s)" "found = None \<longleftrightarrow> key \<notin> sm_metadata_key ` set (md_rows s)"
    "\<forall>r. found = Some r \<longrightarrow> sm_metadata_key r = key"
    using metadata_lookup [OF assms] by blast
  show ?thesis
  proof (cases found)
    case None
    then have "key \<notin> sm_metadata_key ` set (md_rows s)" using f(2) by blast
    then show ?thesis using None f(1) assms
      by (simp add: metadata_upsert_def bindp_def Let_def metadata_ok_def metadata_map_def map_of_snoc image_image del: map_of_append)
  next
    case (Some r)
    have keys: "map sm_metadata_key (update_where P (\<lambda>q. q\<lparr>sm_metadata_value := v\<rparr>) rs) = map sm_metadata_key rs" for P rs
      by (rule map_update_where) simp
    show ?thesis using f assms Some map_of_update_where [of key "md_rows s" v]
      by (simp add: metadata_upsert_def bindp_def thenp_def modify_def ret_def metadata_ok_def keys metadata_map_def)
  qed
qed

section \<open>Log lines\<close>

text \<open>
  A log record: the attributes \<^verbatim>\<open>JsonFormatter\<close> reads by name, and the other entries of
  \<^verbatim>\<open>__dict__\<close>, their values already turned into JSON (\<^verbatim>\<open>default=str\<close>). \<open>lr_exception\<close> is the
  formatted traceback, when there is one.
\<close>

record log_record =
  lr_levelname :: string
  lr_name :: string
  lr_message :: string
  lr_dict :: "(string \<times> json) list"
  lr_exception :: "string option"

definition log_record_attributes :: "string list" where
  "log_record_attributes = [''name'', ''msg'', ''args'', ''levelname'', ''levelno'', ''pathname'', ''filename'', ''module'',
     ''exc_info'', ''exc_text'', ''stack_info'', ''lineno'', ''funcName'', ''created'', ''msecs'', ''relativeCreated'',
     ''thread'', ''threadName'', ''processName'', ''process'', ''message'']"

definition add_extra :: "string \<times> json \<Rightarrow> json_object \<Rightarrow> json_object" where
  "add_extra kv payload =
     (if startswith (fst kv) ''_'' \<or> fst kv \<in> set log_record_attributes \<or> dict_get payload (fst kv) \<noteq> None
      then payload else dict_set payload (fst kv) (snd kv))"

definition log_payload :: "string \<Rightarrow> string \<Rightarrow> log_record \<Rightarrow> json_object" where
  "log_payload now ctx r =
     (let payload = fold add_extra (lr_dict r)
        [(''timestamp'', JStr now), (''level'', JStr (lr_levelname r)), (''logger'', JStr (lr_name r)),
         (''message'', JStr (lr_message r)), (''correlation_id'', JStr (get_correlation_id ctx))]
      in case lr_exception r of None \<Rightarrow> payload | Some t \<Rightarrow> dict_set payload ''exception'' (JStr t))"

text \<open>\<^verbatim>\<open>json.dumps\<close> with the separators between items and after keys as parameters.\<close>

fun dumps_with :: "string \<Rightarrow> string \<Rightarrow> (rat \<Rightarrow> string) \<Rightarrow> json \<Rightarrow> string" where
  "dumps_with sep colon repr (JArr vs) = ''['' @ join sep (map (dumps_with sep colon repr) vs) @ '']''"
| "dumps_with sep colon repr (JObj kvs) =
     ''{'' @ join sep (map (\<lambda>(k, v). dump_string k @ colon @ dumps_with sep colon repr v) kvs) @ ''}''"
| "dumps_with sep colon repr v = dumps_json repr v"

definition format_record :: "(rat \<Rightarrow> string) \<Rightarrow> string \<Rightarrow> string \<Rightarrow> log_record \<Rightarrow> string" where
  "format_record repr now ctx r = dumps_with '', '' '': '' repr (JObj (log_payload now ctx r))"

lemma dumps_with_compact: "dumps_with '','' '':'' repr v = dumps_json repr v"
proof (induction repr v rule: dumps_json.induct)
  case (6 repr vs)
  then have "map (dumps_with '','' '':'' repr) vs = map (dumps_json repr) vs" by simp
  then show ?case by (simp only: dumps_with.simps dumps_json.simps)
next
  case (7 repr kvs)
  then have "map (\<lambda>(k, v). dump_string k @ '':'' @ dumps_with '','' '':'' repr v) kvs
      = map (\<lambda>(k, v). dump_string k @ '':'' @ dumps_json repr v) kvs"
    by (intro map_cong) auto
  then show ?case by (simp only: dumps_with.simps dumps_json.simps)
qed simp_all

lemma printable_dumps_with:
  assumes "\<And>x. printable (repr x)" "printable sep" "printable colon"
  shows "printable (dumps_with sep colon repr v)"
  using assms
proof (induction sep colon repr v rule: dumps_with.induct)
  case (1 sep colon repr vs)
  then have "printable (join sep (map (dumps_with sep colon repr) vs))"
    by (intro printable_join) (auto simp: list_all_iff)
  then show ?case by (simp add: code_def)
next
  case (2 sep colon repr kvs)
  then have "printable (join sep (map (\<lambda>(k, v). dump_string k @ colon @ dumps_with sep colon repr v) kvs))"
    by (intro printable_join) (fastforce simp: list_all_iff printable_dump_string)+
  then show ?case by (simp add: code_def)
qed (auto simp: code_def printable_dump_string printable_int_str)

lemma extras_keep:
  "dict_get payload k \<noteq> None \<Longrightarrow> dict_get (fold add_extra kvs payload) k = dict_get payload k"
proof (induction kvs arbitrary: payload)
  case (Cons kv kvs)
  have "dict_get (add_extra kv payload) k = dict_get payload k"
    using Cons.prems by (auto simp: add_extra_def dict_get_set)
  then show ?case using Cons by simp
qed simp


text \<open>A message with a line break, and extra fields that claim another level and logger.\<close>

definition forged_record :: log_record where
  "forged_record = \<lparr>lr_levelname = ''ERROR'', lr_name = ''app'', lr_message = ''a'' @ [CHR 0x0A] @ ''b'',
     lr_dict = [(''level'', JStr ''INFO''), (''logger'', JStr ''root''), (''environment'', JStr [CHR 0x22])],
     lr_exception = None\<rparr>"


section \<open>Start and stop of the application\<close>

text \<open>
  \<^verbatim>\<open>app.state\<close>: the settings and the container, of which only the open connections matter, and
  the messages logged so far.
\<close>

record app_container =
  ac_settings :: settings
  ac_database_open :: bool
  ac_redis_open :: bool

record app_state =
  as_settings :: "settings option"
  as_container :: "app_container option"
  as_log :: "string list"

text \<open>
  \<^verbatim>\<open>build_container\<close> makes both pools; \<open>backend\<close> and \<open>client\<close> are what SQLAlchemy and redis-py
  find in their URLs, or raise.
\<close>

definition build_container :: "settings \<Rightarrow> exn + string \<Rightarrow> exn + unit \<Rightarrow> exn + app_container" where
  "build_container s backend client = bindr (engine_kwargs s backend) (\<lambda>options. bindr client (\<lambda>_.
     Inr \<lparr>ac_settings = s, ac_database_open = True, ac_redis_open = True\<rparr>))"

definition log_info :: "string \<Rightarrow> (app_state, unit) py" where
  "log_info m = modify (\<lambda>a. a\<lparr>as_log := as_log a @ [m]\<rparr>)"

text \<open>\<open>aclose\<close> and \<open>engine_dispose\<close> are what the libraries' calls raise or return.\<close>

definition close_redis :: "exn + unit \<Rightarrow> (app_state, unit) py" where
  "close_redis aclose = thenp (lift_res aclose)
     (modify (\<lambda>a. a\<lparr>as_container := map_option (\<lambda>c. c\<lparr>ac_redis_open := False\<rparr>) (as_container a)\<rparr>))"

definition dispose_database :: "exn + unit \<Rightarrow> (app_state, unit) py" where
  "dispose_database engine_dispose = thenp (lift_res engine_dispose)
     (modify (\<lambda>a. a\<lparr>as_container := map_option (\<lambda>c. c\<lparr>ac_database_open := False\<rparr>) (as_container a)\<rparr>))"

text \<open>The requests served between start and stop are the coroutine \<open>serve\<close>.\<close>

definition lifespan ::
  "exn + unit \<Rightarrow> exn + unit \<Rightarrow> exn + string \<Rightarrow> exn + unit \<Rightarrow> exn + settings \<Rightarrow> (app_state, unit) py \<Rightarrow> (app_state, unit) py" where
  "lifespan aclose engine_dispose backend client config serve =
     bindp (lift_res config) (\<lambda>s.
     thenp (modify (\<lambda>a. a\<lparr>as_settings := Some s\<rparr>))
     (bindp (lift_res (build_container s backend client)) (\<lambda>c.
     thenp (modify (\<lambda>a. a\<lparr>as_container := Some c\<rparr>))
     (thenp (log_info ''startup'')
     (finallyp serve
        (thenp (close_redis aclose) (thenp (dispose_database engine_dispose) (log_info ''shutdown''))))))))"

definition opened :: "(app_container \<Rightarrow> bool) \<Rightarrow> app_state \<Rightarrow> bool" where
  "opened pool a = (case as_container a of None \<Rightarrow> False | Some c \<Rightarrow> pool c)"

text \<open>What \<^verbatim>\<open>serve\<close> starts from once the application has started.\<close>

definition started :: "settings \<Rightarrow> app_state \<Rightarrow> app_state" where
  "started s a = a\<lparr>as_settings := Some s,
     as_container := Some \<lparr>ac_settings = s, ac_database_open = True, ac_redis_open = True\<rparr>,
     as_log := as_log a @ [''startup'']\<rparr>"

lemma lifespan_started:
  assumes "engine_kwargs s backend = Inr options"
  shows "lifespan aclose engine_dispose backend (Inr ()) (Inr s) serve a = finallyp serve
     (thenp (close_redis aclose) (thenp (dispose_database engine_dispose) (log_info ''shutdown''))) (started s a)"
  by (simp add: lifespan_def bindp_def thenp_def modify_def log_info_def build_container_def assms started_def)

text \<open>
  The application releases both pools when it stops, also after a failure while it served;
  but when closing Redis fails, the database engine is left open and no shutdown is logged.
\<close>

theorem shutdown_releases:
  assumes "engine_kwargs s backend = Inr options"
  shows "(\<not> opened ac_redis_open (snd (lifespan (Inr ()) (Inr ()) backend (Inr ()) (Inr s) serve a))
    \<and> \<not> opened ac_database_open (snd (lifespan (Inr ()) (Inr ()) backend (Inr ()) (Inr s) serve a)))
    \<and> (snd (lifespan (Inl e) engine_dispose backend (Inr ()) (Inr s) serve a) = snd (serve (started s a)))"
  unfolding lifespan_started [OF assms]
  by (auto simp: finallyp_def close_redis_def dispose_database_def log_info_def thenp_def bindp_def modify_def opened_def
      split: prod.split option.split)

section \<open>Celery\<close>

record celery_conf =
  cc_name :: string
  cc_broker :: string
  cc_backend :: string
  cc_default_queue :: string
  cc_time_limit :: int
  cc_soft_time_limit :: int
  cc_acks_late :: bool
  cc_acks_on_failure_or_timeout :: bool
  cc_reject_on_worker_lost :: bool
  cc_prefetch_multiplier :: int
  cc_result_expires :: int
  cc_visibility_timeout :: int
  cc_beat_schedule :: "(string \<times> string \<times> rat) list"
  cc_tasks :: "string list"

definition build_celery_app :: "settings \<Rightarrow> celery_conf" where
  "build_celery_app s = \<lparr>cc_name = ''codepilot'', cc_broker = redis_url s, cc_backend = redis_url s,
     cc_default_queue = ''codepilot'', cc_time_limit = celery_task_time_limit_seconds s,
     cc_soft_time_limit = celery_task_soft_time_limit_seconds s, cc_acks_late = True,
     cc_acks_on_failure_or_timeout = True, cc_reject_on_worker_lost = True,
     cc_prefetch_multiplier = celery_worker_prefetch_multiplier s,
     cc_result_expires = celery_result_expires_seconds s, cc_visibility_timeout = celery_task_time_limit_seconds s,
     cc_beat_schedule = [(''cleanup-stale-artifacts'', ''app.workers.tasks.cleanup_stale_artifacts'', 3600)],
     cc_tasks = [''app.workers.tasks.ping'', ''app.workers.tasks.cleanup_stale_artifacts'',
       ''app.workers.tasks.ingest_repository'', ''app.workers.tasks.cleanup_repository_workspace'']\<rparr>"

text \<open>
  The workers of the model know exactly the configured tasks; the schedule names one of them;
  and a message becomes visible again only when its task has been stopped.
\<close>

lemma celery_app_consistent:
  "cc_tasks (build_celery_app s) = map fst (registered_tasks env)"
  "list_all (\<lambda>(name, task, every). task \<in> set (cc_tasks (build_celery_app s))) (cc_beat_schedule (build_celery_app s))"
  "cc_time_limit (build_celery_app s) \<le> cc_visibility_timeout (build_celery_app s)"
  by (simp_all add: build_celery_app_def registered_tasks_def)

section \<open>Paging, bounds and constant answers\<close>

text \<open>What pydantic checks before an endpoint runs; an absent parameter has its default.\<close>

definition pagination_params :: "int option \<Rightarrow> int option \<Rightarrow> (int \<times> int) option" where
  "pagination_params limit offset =
     (let l = (case limit of None \<Rightarrow> 50 | Some n \<Rightarrow> n); k = (case offset of None \<Rightarrow> 0 | Some n \<Rightarrow> n)
      in if 1 \<le> l \<and> l \<le> 100 \<and> 0 \<le> k then Some (l, k) else None)"

definition valid_create_request :: "string \<Rightarrow> string option \<Rightarrow> bool" where
  "valid_create_request clone_url ref \<longleftrightarrow> 1 \<le> length clone_url \<and> length clone_url \<le> 2048
     \<and> (case ref of None \<Rightarrow> True | Some r \<Rightarrow> length r \<le> 255)"

definition valid_sync_request :: "string option \<Rightarrow> bool" where
  "valid_sync_request ref \<longleftrightarrow> (case ref of None \<Rightarrow> True | Some r \<Rightarrow> length r \<le> 255)"

definition live :: "string" where
  "live = ''ok''"

definition version :: "settings \<Rightarrow> string \<times> string" where
  "version s = (app_version s, environment s)"

definition ready :: "app_container \<Rightarrow> rat \<times> (string + unit) \<Rightarrow> rat \<times> (string + unit) \<Rightarrow>
    string + http_answer \<Rightarrow> string + http_answer \<Rightarrow> health_response" where
  "ready c database redis qdrant ollama = build_readiness_payload (ac_settings c)
     \<lparr>pr_postgres = wait_for (database_health_timeout_seconds (ac_settings c)) database,
      pr_redis = redis_ping (ac_settings c) redis, pr_qdrant = qdrant, pr_ollama = ollama\<rparr>"

lemma ready_in_time:
  assumes "hr_status (ready c (t1, r1) (t2, r2) q ol) = DepReady"
  shows "t1 \<le> database_health_timeout_seconds (ac_settings c) \<and> t2 \<le> redis_health_timeout_seconds (ac_settings c)"
  using assms
  by (auto simp: ready_def build_readiness_payload_def healthcheck_def wait_for_def redis_ping_def Let_def
      split: if_split_asm sum.split_asm prod.split_asm)

end
