(* ===== verification/Api.thy ===== *)
theory Api
  imports Endpoints
begin

text \<open>
  What the endpoints guarantee to their callers, across the layers they join: who counts as
  authenticated, what a session opens, what a request without the right token, owner or quota
  can change, and what becomes of the tasks that a request sends.
\<close>

section \<open>Properties\<close>

text \<open>
  C11: nobody is authenticated without an access token: when the dependency returns a user, the
  request bore a token that PyJWT accepts under the server's secret and algorithm, whose type
  is access and whose subject is that user; the account exists and is active. Neither the
  database nor the queue has changed.
\<close>

theorem current_user_authentic:
  assumes "get_current_user env rq w = (Inr u, w')"
  shows "\<exists>scheme token payload sub. he_bearer env rq = Some (scheme, token) \<and> casefold scheme = ''bearer''
    \<and> he_jwt_decode env token (settings.secret_key (he_settings env))
        (settings.access_token_algorithm (he_settings env)) = Some payload
    \<and> dict_get payload ''type'' = Some (JStr ''access'') \<and> dict_get payload ''sub'' = Some sub
    \<and> parse_uuid (claim_str env sub) = Some (user_id u) \<and> u \<in> set (users (w_db w)) \<and> user_is_active u
    \<and> w_db w' = w_db w \<and> w_tasks w' = w_tasks w"
  using get_current_user_Inr [OF assms] decode_access_token_Inr by metis

text \<open>The CSRF check passes exactly for a header that repeats the cookie.\<close>

definition csrf_matches :: "'r http_env \<Rightarrow> request \<Rightarrow> bool" where
  "csrf_matches env rq = (case (map_of (rq_cookies rq) (csrf_cookie_name (he_settings env)), header rq ''x-csrf-token'') of
       (Some c, Some h) \<Rightarrow> c \<noteq> [] \<and> c = h \<and> list_all is_ascii c
     | _ \<Rightarrow> False)"

lemma validate_csrf_iff: "validate_csrf env rq = Inr () \<longleftrightarrow> csrf_matches env rq"
  by (auto simp: validate_csrf_def csrf_matches_def Let_def compare_digest_def split: option.splits if_splits)

text \<open>
  C25: a request without a CSRF header that repeats the cookie changes no session: \<^verbatim>\<open>refresh\<close>
  and \<^verbatim>\<open>logout\<close> stop before anything is counted, read or written, and \<^verbatim>\<open>logout-all\<close> raises
  with every row as it was.
\<close>

theorem csrf_required:
  assumes "\<not> csrf_matches env rq"
  shows "\<exists>e. refresh_route env ctx rq w = (Inl e, w) \<and> logout_route env ctx rq w = (Inl e, w)
    \<and> (\<exists>e' w'. logout_all_route env ctx rq w = (Inl e', w') \<and> w_db w' = w_db w \<and> w_tasks w' = w_tasks w)"
proof -
  obtain e where e: "validate_csrf env rq = Inl e"
    using assms validate_csrf_iff [of env rq] by (cases "validate_csrf env rq") auto
  obtain r v where v: "get_current_user env rq w = (r, v)" by fastforce
  then have "w_db v = w_db w" "w_tasks v = w_tasks w" using get_current_user_frame [of env rq w] by simp_all
  moreover have "\<exists>e'. logout_all_route env ctx rq w = (Inl e', v)"
    using v e by (cases r) (auto simp: logout_all_route_def)
  moreover have "refresh_route env ctx rq w = (Inl e, w)" "logout_route env ctx rq w = (Inl e, w)"
    using e by (simp_all add: refresh_route_def logout_route_def)
  ultimately show ?thesis by blast
qed

text \<open>
  The contract of a gate in front of an endpoint: whatever it decides, it changes neither
  the database nor the queue.
\<close>

locale gate =
  fixes admit :: "('r world, unit) py"
  assumes leaves_rows: "w_db (snd (admit w)) = w_db w \<and> w_tasks (snd (admit w)) = w_tasks w"
begin

lemma refused: "fst (admit w) = Inl e \<Longrightarrow> fst (thenp admit m w) = Inl e \<and> w_db (snd (thenp admit m w)) = w_db w
    \<and> w_tasks (snd (thenp admit m w)) = w_tasks w"
  using leaves_rows [of w] by (cases "admit w") (simp add: thenp_def bindp_def)

end

interpretation auth_gate: gate "limit_auth env rq scope limit" for env rq scope limit
  by unfold_locales (simp add: limit_auth_def)

interpretation csrf_gate: gate "lift_res (validate_csrf env rq)" for env rq
  by unfold_locales simp

text \<open>
  A refused client costs nothing: when the rate limit of registration or login refuses a
  request, or Redis is down and the limits fail closed, the endpoint raises that error and no
  password is hashed or checked: the database, with its clocks and secrets, is as before.
\<close>

theorem limited_request_changes_nothing:
  assumes "fst (limit_auth env rq ''register'' (registration_rate_limit (he_settings env)) w) = Inl e"
    and "fst (limit_auth env rq ''login'' (login_rate_limit (he_settings env)) w) = Inl e'"
  shows "fst (register_route env ctx rq email password display_name w) = Inl e
    \<and> w_db (snd (register_route env ctx rq email password display_name w)) = w_db w
    \<and> fst (login_route env ctx rq email password w) = Inl e'
    \<and> w_db (snd (login_route env ctx rq email password w)) = w_db w"
  unfolding register_route_def login_route_def
  using auth_gate.refused [OF assms(1)] auth_gate.refused [OF assms(2)] by blast


section \<open>Requests of one user about the rows of another\<close>

lemma hidden_repository:
  assumes "\<not> (\<exists>r \<in> set (repositories s). repo_id r = i \<and> repo_owner_id r = own \<and> repo_deleted_at r = None)"
  shows "repository_owned_by_id own i s = (Inr None, s)"
proof -
  have "filter (\<lambda>r. repo_id r = i \<and> repo_owner_id r = own \<and> repo_deleted_at r = None) (repositories s) = []"
    using assms by (auto simp: filter_empty_conv)
  then show ?thesis by (simp add: repository_owned_by_id_def)
qed

lemma hidden_run:
  assumes "\<not> (\<exists>r \<in> set (runs s). run_id r = k \<and> run_owner_id r = own)"
  shows "run_owned_by_id own k s = (Inr None, s)"
proof -
  have "filter (\<lambda>r. run_id r = k \<and> run_owner_id r = own) (runs s) = []"
    using assms by (auto simp: filter_empty_conv)
  then show ?thesis by (simp add: run_owned_by_id_def)
qed

lemma rollback_self [simp]: "rollback s s = s"
  by (simp add: rollback_def)

lemma require_none: "lookup s = (Inr None, t) \<Longrightarrow> require lookup s = (Inl (AppErr not_found), t)"
  by (simp add: require_def)


text \<open>The same for the runs of another user.\<close>

theorem api_hides_foreign_runs:
  assumes "get_current_user env rq w = (Inr u, w')"
    and "\<not> (\<exists>r \<in> set (runs (w_db w)). run_id r = k \<and> run_owner_id r = user_id u)"
  shows "get_run_route env rq k w = (Inl (AppErr not_found), w')
    \<and> list_run_events_route env rq k w = (Inl (AppErr not_found), w')"
proof -
  have "require (run_owned_by_id (user_id u) k) (w_db w') = (Inl (AppErr not_found), w_db w')"
    using get_current_user_Inr [OF assms(1)] assms(2) by (intro require_none hidden_run) auto
  then show ?thesis
    by (simp add: get_run_route_def list_run_events_route_def assms(1) require_run_def on_db_def)
qed

section \<open>The tasks a request sends\<close>

lemma consume_ingestion:
  assumes "r < 2 ^ 128" "k < 2 ^ 128"
  shows "consume env (''app.workers.tasks.ingest_repository'', [uuid_str r, uuid_str k]) = worker_ingest (he_ingest env) r k"
  by (simp add: consume_def registered_tasks_def ingest_repository_task_def parsed_uuid_def parse_uuid_str [OF assms(1)]
      parse_uuid_str [OF assms(2)] bindp_def ret_def)

lemma loaded_row_Inr: "loaded_row lookup s = (Inr r, t) \<Longrightarrow> lookup s = (Inr (Some r), t)"
  by (auto simp: loaded_row_def bindp_eq_Inr split: option.split_asm)

lemma get_repository_row_Inr:
  "get_repository_row i s = (Inr (Some r), t) \<Longrightarrow> t = s \<and> r \<in> set (repositories s) \<and> repo_id r = i"
  by (auto simp: get_repository_row_def dest!: scalars_first_in)

lemma get_run_row_Inr:
  "get_run_row i s = (Inr (Some r), t) \<Longrightarrow> t = s \<and> r \<in> set (runs s) \<and> run_id r = i"
  by (auto simp: get_run_row_def dest!: scalars_first_in)

text \<open>The rows an answer shows are stored as shown.\<close>

lemma create_answer_rows:
  assumes "create_repository_answer env ctx rq u clone_url ref s = (Inr (r, Some q), t)"
  shows "r \<in> repository_schema_of ` set (repositories t) \<and> q \<in> agent_run_schema_of ` set (runs t)"
proof -
  obtain i k s1 s2 row run where row: "loaded_row (get_repository_row i) s1 = (Inr row, s2)" "r = repository_schema_of row"
    and run: "loaded_row (get_run_row k) s2 = (Inr run, t)" "q = agent_run_schema_of run"
    using assms by (auto simp: create_repository_answer_def commit_or_rollback_def bindp_eq_Inr
        split: prod.split_asm sum.split_asm option.split_asm)
  have "row \<in> set (repositories t)" "run \<in> set (runs t)"
    using get_repository_row_Inr [OF loaded_row_Inr [OF row(1)]] get_run_row_Inr [OF loaded_row_Inr [OF run(1)]] by auto
  then show ?thesis using row(2) run(2) by blast
qed

lemma sync_answer_rows:
  assumes "sync_repository_answer env ctx rq u i ref s = (Inr (r, q), t)"
  shows "r \<in> repository_schema_of ` set (repositories t) \<and> q \<in> agent_run_schema_of ` set (runs t)"
proof -
  obtain i k s1 s2 row run where row: "loaded_row (get_repository_row i) s1 = (Inr row, s2)" "r = repository_schema_of row"
    and run: "loaded_row (get_run_row k) s2 = (Inr run, t)" "q = agent_run_schema_of run"
    using assms by (auto simp: sync_repository_answer_def commit_or_rollback_def bindp_eq_Inr
        split: prod.split_asm sum.split_asm)
  have "row \<in> set (repositories t)" "run \<in> set (runs t)"
    using get_repository_row_Inr [OF loaded_row_Inr [OF row(1)]] get_run_row_Inr [OF loaded_row_Inr [OF run(1)]] by auto
  then show ?thesis using row(2) run(2) by blast
qed

lemma sync_request_runs:
  assumes "sync_repository_route env ctx rq i ref w = (Inr (r, q), w')" "rp_id r < 2 ^ 128" "ra_id q < 2 ^ 128"
  shows "\<exists>task. w_tasks w' = w_tasks w @ [task] \<and> consume env task = worker_ingest (he_ingest env) (rp_id r) (ra_id q)"
proof -
  obtain u v where u: "get_current_user env rq w = (Inr u, v)"
    and "bindp (on_db (sync_repository_answer env ctx rq u i ref)) (\<lambda>(r, q).
      thenp (enqueue_ingestion (rp_id r) (ra_id q)) (ret (r, q))) v = (Inr (r, q), w')"
    using assms(1) unfolding sync_repository_route_def bindp_eq_Inr by blast
  then have "w_tasks w' = w_tasks v @ [(''app.workers.tasks.ingest_repository'', [uuid_str (rp_id r), uuid_str (ra_id q)])]"
    by (auto simp: bindp_eq_Inr thenp_eq_Inr on_db_eq_Inr enqueue_ingestion_def send_task_def)
  then show ?thesis using get_current_user_Inr [OF u] consume_ingestion [OF assms(2,3)] by auto
qed

text \<open>
  C22: a request to ingest reaches the service: when the creation of a repository answers with a
  run, the rows of both are stored as answered, exactly one task is added to the queue, and
  the worker that takes it runs the ingestion of that repository and that run: the identifiers
  survive the message.
\<close>

theorem ingestion_request_runs:
  assumes "create_repository_route env ctx rq clone_url ref w = (Inr (r, Some q), w')"
    and "rp_id r < 2 ^ 128" "ra_id q < 2 ^ 128"
  shows "r \<in> repository_schema_of ` set (repositories (w_db w')) \<and> q \<in> agent_run_schema_of ` set (runs (w_db w'))
    \<and> (\<exists>task. w_tasks w' = w_tasks w @ [task]
        \<and> consume env task = worker_ingest (he_ingest env) (rp_id r) (ra_id q))"
proof -
  obtain u v where u: "get_current_user env rq w = (Inr u, v)"
    and "bindp (on_db (create_repository_answer env ctx rq u clone_url ref)) (\<lambda>(r, run).
      thenp (case run of None \<Rightarrow> ret () | Some q \<Rightarrow> enqueue_ingestion (rp_id r) (ra_id q)) (ret (r, run))) v
      = (Inr (r, Some q), w')"
    using assms(1) unfolding create_repository_route_def bindp_eq_Inr by blast
  then obtain s where s: "create_repository_answer env ctx rq u clone_url ref (w_db v) = (Inr (r, Some q), s)"
    and db: "w_db w' = s"
    and tasks: "w_tasks w' = w_tasks v @ [(''app.workers.tasks.ingest_repository'', [uuid_str (rp_id r), uuid_str (ra_id q)])]"
    by (auto simp: bindp_eq_Inr thenp_eq_Inr on_db_eq_Inr enqueue_ingestion_def send_task_def)
  then show ?thesis
    using create_answer_rows [OF s] get_current_user_Inr [OF u] consume_ingestion [OF assms(2,3)] by auto
qed

text \<open>
  A request to index is never carried out: no worker knows the name of the task it sends, so
  that whoever takes it changes nothing. (Until then the run stays queued.)
\<close>

theorem index_request_never_runs:
  assumes "index_repository_route env ctx rq i w = (Inr (k, r), w')"
  shows "\<exists>sent. w_tasks w' = w_tasks w @ sent \<and> list_all (\<lambda>task. consume env task = ret ()) sent"
proof -
  obtain u v where u: "get_current_user env rq w = (Inr u, v)"
    and "bindp (on_db (commit_or_rollback (create_index_run (index_env.truncate (he_search env)) (user_id u) i
         (get_correlation_id ctx) (client_ip rq)))) (\<lambda>(r, run, created).
       thenp (if created then enqueue_indexing r run else ret ()) (ret (run, r))) v = (Inr (k, r), w')"
    using assms unfolding index_repository_route_def bindp_eq_Inr by blast
  then have "w_tasks w' = w_tasks v
      \<or> w_tasks w' = w_tasks v @ [(''app.workers.tasks.index_repository'', [uuid_str r, uuid_str k])]"
    by (auto simp: bindp_eq_Inr thenp_eq_Inr on_db_eq_Inr enqueue_indexing_def send_task_def split: if_split_asm)
  moreover have "consume env (''app.workers.tasks.index_repository'', args) = ret ()" for args
    by (simp add: consume_def registered_tasks_def)
  ultimately show ?thesis using get_current_user_Inr [OF u]
    by (elim disjE) (auto intro: exI [of _ "[]"])
qed

section \<open>What a session opens\<close>

text \<open>
  The documented behaviour of PyJWT for an access token that has not expired: decoding gives
  back the claims, with times in whole seconds.
\<close>

definition decodes_claims :: "'r http_env \<Rightarrow> access_payload \<Rightarrow> bool" where
  "decodes_claims env p =
     (case he_jwt_decode env (jwt_encode (he_auth env) p (settings.secret_key (he_settings env))
             (settings.access_token_algorithm (he_settings env)))
           (settings.secret_key (he_settings env)) (settings.access_token_algorithm (he_settings env)) of
        None \<Rightarrow> False
      | Some payload \<Rightarrow> dict_get payload ''sub'' = Some (JStr (pay_sub p))
          \<and> dict_get payload ''type'' = Some (JStr (pay_type p))
          \<and> dict_get payload ''exp'' = Some (JInt (pay_exp p div 1000000)))"

text \<open>The two records of settings agree on the key and the algorithm of access tokens.\<close>

definition same_keys :: "'r http_env \<Rightarrow> bool" where
  "same_keys env \<longleftrightarrow> auth_env.secret_key (he_auth env) = settings.secret_key (he_settings env)
     \<and> auth_env.access_token_algorithm (he_auth env) = settings.access_token_algorithm (he_settings env)"

lemma decode_issued:
  assumes "decodes_claims env p" "pay_type p = ''access''" "pay_sub p = uuid_str uid" "uid < 2 ^ 128"
    and "he_timestamp env (JInt (pay_exp p div 1000000)) \<noteq> None"
  shows "\<exists>cl. cl_user_id cl = uid \<and> decode_access_token env (jwt_encode (he_auth env) p (settings.secret_key (he_settings env))
      (settings.access_token_algorithm (he_settings env))) = Inr (Some cl)"
  using assms(1,2,3,5) parse_uuid_str [OF assms(4)]
  by (auto simp: decodes_claims_def decode_access_token_def claim_str_def split: option.splits)

lemma session_answer_Inr:
  assumes "session_answer env operation w = (Inr (sr, cookies), w')"
  obtains res t where "operation (w_db w) = (Inr res, t)" "users (w_db w') = users t"
    "sr = session_response_of res" "w_redis w' = w_redis w"
proof -
  obtain res v where v: "on_db operation w = (Inr res, v)"
    and r: "bindp (on_db (set_session_cookies env res)) (\<lambda>cookies. ret (session_response_of res, cookies)) v = (Inr (sr, cookies), w')"
    using assms unfolding session_answer_def bindp_eq_Inr by blast
  have "users (w_db w') = users (w_db v)" "w_redis w' = w_redis v" "sr = session_response_of res"
    using r by (auto simp: bindp_eq_Inr on_db_eq_Inr set_session_cookies_def generate_csrf_token_def draw_secret_def Let_def)
  then show thesis using v that by (auto simp: on_db_eq_Inr)
qed

text \<open>What \<open>commit_auth_operation\<close> and the mapping of errors return is what the operation returned.\<close>

lemma committed_Inr: "commit_auth_operation m s = (Inr x, t) \<Longrightarrow> m s = (Inr x, t)"
  by (auto simp: commit_auth_operation_def split: prod.split_asm sum.split_asm)

lemma register_endpoint_Inr:
  "register_endpoint env e p n cid ip ua s = (Inr x, t) \<Longrightarrow> register env e p n cid ip ua s = (Inr x, t)"
  by (auto simp: register_endpoint_def catch_def intro!: committed_Inr
      split: prod.split_asm sum.split_asm exn.split_asm)

lemma limited_Inr:
  assumes "thenp (limit_auth env rq scope limit) m w = (Inr x, w')"
  obtains v where "w_db v = w_db w" "m v = (Inr x, w')"
proof -
  obtain v where v: "limit_auth env rq scope limit w = (Inr (), v)" "m v = (Inr x, w')"
    using assms unfolding thenp_eq_Inr by auto
  then have "w_db v = w_db w" using auth_gate.leaves_rows [of env rq scope limit w] by simp
  then show thesis using v(2) by (rule that)
qed

text \<open>Each of the three endpoints that answer with a session runs one call of the service.\<close>

lemma session_routes:
  assumes "(Inr (sr, cookies), w') \<in> {register_route env ctx rq email password name w,
      login_route env ctx rq email password w, refresh_route env ctx rq w}"
    and ok: "sessions_ok (w_db w)"
  obtains res t where "issued (he_auth env) res t" "users (w_db w') = users t" "distinct (map user_id (users t))"
    "sr = session_response_of res"
proof -
  have "\<exists>v operation c. w_db v = w_db w \<and> session_answer env operation v = (Inr (sr, cookies), w')
      \<and> (\<forall>s. auth_exec (he_auth env) c s = snd (operation s))
      \<and> (\<forall>res s t. operation s = (Inr res, t) \<longrightarrow> issued (he_auth env) res t)"
    (is "\<exists>v operation c. ?answer v operation c")
  proof -
    let ?ip = "client_ip rq" and ?ua = "user_agent rq" and ?cid = "get_correlation_id ctx"
    from assms(1) consider
        "register_route env ctx rq email password name w = (Inr (sr, cookies), w')"
      | "login_route env ctx rq email password w = (Inr (sr, cookies), w')"
      | "refresh_route env ctx rq w = (Inr (sr, cookies), w')"
      by auto
    then show ?thesis
    proof cases
      case 1
      then obtain v where "w_db v = w_db w"
        "session_answer env (register_endpoint (he_auth env) email password name ?cid ?ip ?ua) v = (Inr (sr, cookies), w')"
        unfolding register_route_def by (rule limited_Inr)
      then have "?answer v (register_endpoint (he_auth env) email password name ?cid ?ip ?ua)
          (CallRegister email password name ?cid ?ip ?ua)"
        using issued_register register_endpoint_Inr by fastforce
      then show ?thesis by blast
    next
      case 2
      then obtain v where "w_db v = w_db w"
        "session_answer env (commit_auth_operation (login (he_auth env) email password ?cid ?ip ?ua)) v = (Inr (sr, cookies), w')"
        unfolding login_route_def by (elim limited_Inr) (metis that)
      then have "?answer v (commit_auth_operation (login (he_auth env) email password ?cid ?ip ?ua))
          (CallLogin email password ?cid ?ip ?ua)"
        using issued_login committed_Inr by fastforce
      then show ?thesis by blast
    next
      case 3
      then obtain v where v: "w_db v = w_db w" and r: "(case refresh_cookie env rq of None \<Rightarrow> raise invalid_session
          | Some raw \<Rightarrow> session_answer env (commit_auth_operation (rotate_token (he_auth env) raw ?cid ?ip ?ua))) v
          = (Inr (sr, cookies), w')"
        unfolding refresh_route_def thenp_eq_Inr [of "lift_res _"] by (auto elim: limited_Inr simp: lift_res_def)
      obtain raw where "refresh_cookie env rq = Some raw" using r by (cases "refresh_cookie env rq") simp_all
      then have "?answer v (commit_auth_operation (rotate_token (he_auth env) raw ?cid ?ip ?ua))
          (CallRefresh raw ?cid ?ip ?ua)"
        using v r issued_rotate committed_Inr by fastforce
      then show ?thesis by blast
    qed
  qed
  then obtain v operation c where v: "w_db v = w_db w" and a: "session_answer env operation v = (Inr (sr, cookies), w')"
    and c: "\<And>s. auth_exec (he_auth env) c s = snd (operation s)"
    and i: "\<And>res s t. operation s = (Inr res, t) \<Longrightarrow> issued (he_auth env) res t"
    by blast
  obtain res t where t: "operation (w_db v) = (Inr res, t)" "users (w_db w') = users t" "sr = session_response_of res"
    by (rule session_answer_Inr [OF a])
  have "sessions_ok (auth_exec (he_auth env) c (w_db w))"
    using kept_auth_exec [OF kept_self [OF ok]] by (simp add: kept_def)
  then have "sessions_ok t" using c t(1) v by simp
  then show thesis using that i [OF t(1)] t by (simp add: sessions_ok_def users_ok_def)
qed

lemma get_current_user_known:
  assumes "he_bearer env rq = Some (scheme, token)" "casefold scheme = ''bearer''"
    and "decode_access_token env token = Inr (Some cl)" "distinct (map user_id (users (w_db w)))"
    and "u \<in> set (users (w_db w))" "user_id u = cl_user_id cl" "user_is_active u"
    and "fst (enforce (he_redis env) (he_limits env) ''authenticated'' (uuid_str (user_id u))
      (authenticated_api_rate_limit (he_settings env)) False (w_redis w)) = Inr ()"
  shows "fst (get_current_user env rq w) = Inr u"
proof -
  have "user_by_id (cl_user_id cl) (w_db w) = (Inr (Some u), w_db w)"
    using assms(4,5,6) filter_unique_column [of user_id "users (w_db w)" u] by (simp add: user_by_id_def)
  then have "on_db (user_by_id (cl_user_id cl)) w = (Inr (Some u), w)" by (simp add: on_db_def)
  moreover have "\<exists>v. on_redis (enforce (he_redis env) (he_limits env) ''authenticated'' (uuid_str (user_id u))
      (authenticated_api_rate_limit (he_settings env)) False) w = (Inr (), v)"
    by (rule exI, rule on_redis_app) (subst surjective_pairing, simp only: assms(8))
  ultimately show ?thesis using assms(1,2,3,7) by (elim exE) (simp add: get_current_user_def)
qed

text \<open>
  C10: a session opens the API: the access token that registration, login or a refresh answers
  with identifies, in the next request, exactly the account the answer shows, as long as
  PyJWT decodes what it encoded and the account's request quota is not used up.
\<close>

theorem session_opens_api:
  assumes "(Inr (sr, cookies), w') \<in> {register_route env ctx rq email password name w,
      login_route env ctx rq email password w, refresh_route env ctx rq w}"
    and "sessions_ok (w_db w)" "same_keys env" "ur_id (sr_user sr) < 2 ^ 128"
    and jwt: "\<And>p. pay_exp p = sr_expires_at sr \<Longrightarrow> pay_type p = ''access'' \<Longrightarrow>
      pay_sub p = uuid_str (ur_id (sr_user sr)) \<Longrightarrow> decodes_claims env p"
    and "he_timestamp env (JInt (sr_expires_at sr div 1000000)) \<noteq> None"
    and "he_bearer env rq2 = Some (''Bearer'', sr_access_token sr)"
    and "fst (enforce (he_redis env) (he_limits env) ''authenticated'' (uuid_str (ur_id (sr_user sr)))
      (authenticated_api_rate_limit (he_settings env)) False (w_redis w')) = Inr ()"
  shows "fst (me_route env rq2 w') = Inr (sr_user sr)"
proof -
  obtain res t where i: "issued (he_auth env) res t" and t: "users (w_db w') = users t" "distinct (map user_id (users t))"
    and sr: "sr = session_response_of res" using session_routes [OF assms(1,2)] .
  obtain p where p: "res_access_token res = jwt_encode (he_auth env) p (settings.secret_key (he_settings env))
        (settings.access_token_algorithm (he_settings env))"
    "pay_sub p = uuid_str (user_id (res_user res))" "pay_type p = ''access''" "pay_exp p = res_access_expires_at res"
    using i assms(3) by (auto simp: issued_def same_keys_def)
  have shown: "sr_user sr = user_response_of (res_user res)" "sr_access_token sr = res_access_token res"
      "sr_expires_at sr = res_access_expires_at res" "ur_id (sr_user sr) = user_id (res_user res)"
    using sr by (simp_all add: session_response_of_def user_response_of_def)
  have "decodes_claims env p" "he_timestamp env (JInt (pay_exp p div 1000000)) \<noteq> None"
    using jwt [of p] assms(6) p(2,3,4) shown(3,4) by simp_all
  from decode_issued [OF this(1) p(3,2) _ this(2)] obtain cl where
    cl: "cl_user_id cl = user_id (res_user res)" "decode_access_token env (res_access_token res) = Inr (Some cl)"
    using assms(4) shown(4) p(1) by auto
  have u: "res_user res \<in> set (users (w_db w'))" "user_is_active (res_user res)" "distinct (map user_id (users (w_db w')))"
    using i t by (simp_all add: issued_def)
  have "casefold ''Bearer'' = ''bearer''" by code_simp
  then have "fst (get_current_user env rq2 w') = Inr (res_user res)"
    using get_current_user_known [OF assms(7) _ _ u(3,1) _ u(2)] cl assms(8) shown(2,4) by simp
  then show ?thesis using shown(1)
    by (cases "get_current_user env rq2 w'") (simp add: me_route_def)
qed

section \<open>Concrete requests\<close>

text \<open>
  The settings are the defaults; requests carry their token in the \<^verbatim>\<open>authorization\<close> header,
  and the stand-in for PyJWT decodes a subject into claims of the access token it issues.
\<close>

definition sample_http_env :: "counters http_env" where
  "sample_http_env = \<lparr>he_settings = default_settings\<lparr>settings.secret_key := ''k''\<rparr>, he_auth = sample_env,
     he_limits = sample_limits_env, he_ingest = sample_ingest_env, he_search = sample_search_env,
     he_redis = counting_client False,
     he_jwt_decode = (\<lambda>t key alg. if t = [] then None
       else Some [(''sub'', JStr t), (''type'', JStr ''access''), (''exp'', JInt 902)]),
     he_bearer = (\<lambda>rq. map_option (\<lambda>h. (take 6 h, drop 7 h)) (header rq ''authorization'')),
     he_timestamp = (\<lambda>v. case v of JInt n \<Rightarrow> Some (n * 1000000) | _ \<Rightarrow> None), he_str = (\<lambda>v. [])\<rparr>"

definition bearer_request :: "string \<Rightarrow> request" where
  "bearer_request token = \<lparr>rq_headers = [(''authorization'', ''Bearer '' @ token)], rq_cookies = [], rq_client = None\<rparr>"

definition sample_world :: "int \<Rightarrow> db \<Rightarrow> counters world" where
  "sample_world n s = \<lparr>w_db = s, w_redis = (\<lambda>_. n, \<lambda>_. True), w_tasks = []\<rparr>"

lemma sample_env_fields [simp]:
  "he_auth sample_http_env = sample_env" "he_redis sample_http_env = counting_client False"
  "he_limits sample_http_env = sample_limits_env" "he_search sample_http_env = sample_search_env"
  "he_ingest sample_http_env = sample_ingest_env"
  "he_bearer sample_http_env (bearer_request t) = Some (''Bearer'', t)"
  by (simp_all add: sample_http_env_def bearer_request_def header_def)

lemma sample_settings:
  "he_settings sample_http_env = default_settings\<lparr>settings.secret_key := ''k''\<rparr>"
  by (simp add: sample_http_env_def)

lemma enforce_counting:
  "enforce (counting_client False) env scope identity limit fail_closed (n, ttl) =
     (let k = rate_key env scope identity in
      (if n k + 1 > limit then Inl rate_limited else Inr (),
       (n(k := n k + 1), if n k = 0 then ttl(k := True) else ttl)))"
  by (simp add: enforce_def counting_client_def counting_incr_def counting_expire_def rate_key_def
      bindp_def thenp_def catch_def Let_def ret_def raise_def)

lemma uuid_str_nonempty [simp]: "uuid_str u \<noteq> []"
  by (simp add: uuid_str_def Let_def)

text \<open>A user identified by a token.\<close>

lemma sample_token_decoded:
  "t \<noteq> [] \<Longrightarrow> parse_uuid t = Some i \<Longrightarrow>
   decode_access_token sample_http_env t = Inr (Some \<lparr>cl_user_id = i, cl_role = ''user'', cl_expires_at = 902000000\<rparr>)"
  by (simp add: decode_access_token_def sample_http_env_def dict_get_def claim_str_def)

lemma sample_identified:
  assumes "users s = [sample_user]"
  obtains w' where "get_current_user sample_http_env (bearer_request (uuid_str 0)) (sample_world 0 s) = (Inr sample_user, w')"
    "w_db w' = s"
proof -
  have d: "decode_access_token sample_http_env (uuid_str 0) = Inr (Some \<lparr>cl_user_id = 0, cl_role = ''user'', cl_expires_at = 902000000\<rparr>)"
    by (rule sample_token_decoded) (simp_all add: parse_uuid_str)
  have "casefold ''Bearer'' = ''bearer''" by code_simp
  then have "fst (get_current_user sample_http_env (bearer_request (uuid_str 0)) (sample_world 0 s)) = Inr sample_user"
    by (intro get_current_user_known [OF _ _ d])
      (simp_all add: assms sample_world_def enforce_counting Let_def sample_settings default_settings_def)
  then show thesis using that get_current_user_frame [of sample_http_env "bearer_request (uuid_str 0)" "sample_world 0 s"]
    by (cases "get_current_user sample_http_env (bearer_request (uuid_str 0)) (sample_world 0 s)") (simp add: sample_world_def)
qed


lemma current_user_authentic_witness:
  "\<exists>token. he_bearer sample_http_env (bearer_request (uuid_str 0)) = Some (''Bearer'', token)
     \<and> parse_uuid token = Some (user_id sample_user)"
proof -
  obtain w' where w: "get_current_user sample_http_env (bearer_request (uuid_str 0)) (sample_world 0 sample_db) = (Inr sample_user, w')"
    by (rule sample_identified [of sample_db]) simp_all
  from current_user_authentic [OF w] show ?thesis
    by (auto simp: sample_http_env_def claim_str_def dict_get_def bearer_request_def header_def)
qed

definition forged_request :: request where
  "forged_request = \<lparr>rq_headers = [(''x-csrf-token'', ''b'')], rq_cookies = [(''codepilot_csrf'', ''a'')], rq_client = None\<rparr>"

lemma csrf_required_witness:
  "w_db (snd (refresh_route sample_http_env ''c'' forged_request (sample_world 0 sample_db))) = sample_db"
proof -
  have "\<not> csrf_matches sample_http_env forged_request"
    by (simp add: csrf_matches_def forged_request_def header_def sample_settings default_settings_def)
  from csrf_required [OF this, of "''c''" "sample_world 0 sample_db"] show ?thesis by (auto simp: sample_world_def)
qed

lemma limited_request_changes_nothing_witness:
  "fst (login_route sample_http_env ''c'' forged_request ''a@b.io'' ''pw'' (sample_world 100 sample_db)) = Inl rate_limited
   \<and> w_db (snd (login_route sample_http_env ''c'' forged_request ''a@b.io'' ''pw'' (sample_world 100 sample_db))) = sample_db"
  using limited_request_changes_nothing [of sample_http_env forged_request "sample_world 100 sample_db" rate_limited rate_limited
      "''c''" "''a@b.io''" "''pw''" "''A''"]
  by (simp add: limit_auth_def on_redis_def sample_world_def enforce_counting Let_def sample_settings default_settings_def)


lemma api_hides_foreign_runs_witness:
  "\<exists>w'. get_run_route sample_http_env (bearer_request (uuid_str 0)) 7 (sample_world 0 sample_db) = (Inl (AppErr not_found), w')"
proof -
  obtain w' where w: "get_current_user sample_http_env (bearer_request (uuid_str 0)) (sample_world 0 sample_db) = (Inr sample_user, w')"
    by (rule sample_identified [of sample_db]) simp_all
  from api_hides_foreign_runs [OF w, of 7] show ?thesis
    by (auto simp: sample_world_def sample_db_def empty_db_def)
qed


definition unindexed_db :: db where
  "unindexed_db = (sample_index_db [])\<lparr>runs := []\<rparr>"

lemma unindexed_request:
  "fst (create_index_run sample_index_env 0 1 cid ip unindexed_db) = Inr (1, 10, True)"
  by (simp add: create_index_run_def new_index_run_def repository_owned_by_id_def active_for_repository_def desc_by_def unindexed_db_def
      insert_run_def exists_run_def add_row_def index_event_def next_sequence_def insert_event_def exists_user_def opt_ref_def Let_def
      cong: weak_congs)

lemma index_request_never_runs_witness:
  "\<exists>w' sent. index_repository_route sample_http_env ''c'' (bearer_request (uuid_str 0)) 1 (sample_world 0 unindexed_db) = (Inr (10, 1), w')
     \<and> w_tasks w' = sent \<and> list_all (\<lambda>task. consume sample_http_env task = ret ()) sent"
proof -
  obtain v where v: "get_current_user sample_http_env (bearer_request (uuid_str 0)) (sample_world 0 unindexed_db) = (Inr sample_user, v)"
    "w_db v = unindexed_db"
    by (rule sample_identified [of unindexed_db]) (simp_all add: unindexed_db_def)
  have env: "index_env.truncate sample_search_env = sample_index_env"
    by (simp add: sample_search_env_def index_env.defs)
  obtain t where t: "create_index_run sample_index_env 0 1 (get_correlation_id ''c'') (client_ip (bearer_request (uuid_str 0)))
      unindexed_db = (Inr (1, 10, True), t)"
    using unindexed_request by (metis surjective_pairing)
  have "\<exists>w'. index_repository_route sample_http_env ''c'' (bearer_request (uuid_str 0)) 1 (sample_world 0 unindexed_db) = (Inr (10, 1), w')"
    by (simp add: index_repository_route_def v t env on_db_def commit_or_rollback_def enqueue_indexing_def send_task_def
        del: One_nat_def)
  then obtain w' where w': "index_repository_route sample_http_env ''c'' (bearer_request (uuid_str 0)) 1 (sample_world 0 unindexed_db)
      = (Inr (10, 1), w')" by blast
  from index_request_never_runs [OF w'] w' show ?thesis by (auto simp: sample_world_def)
qed

definition fresh_db :: db where
  "fresh_db = empty_db\<lparr>users := [sample_user], next_uuid := 3\<rparr>"

lemma fresh_creation:
  "\<exists>r q t. create_repository_answer sample_http_env ''c'' (bearer_request (uuid_str 0)) sample_user ''https://github.com/o/n'' None fresh_db
     = (Inr (r, Some q), t) \<and> rp_id r = 3 \<and> ra_id q = 4"
proof -
  have "\<exists>r q. fst (create_repository_answer sample_http_env ''c'' (bearer_request (uuid_str 0)) sample_user
      ''https://github.com/o/n'' None fresh_db) = Inr (r, Some q) \<and> rp_id r = 3 \<and> ra_id q = 4"
    by (simp add: create_repository_answer_def commit_or_rollback_def bad_request_on_input_error_def create_repository_def
        sample_ingest_env_def sample_url validate_git_ref_def repository_by_owner_url_def fresh_db_def empty_db_def
        insert_new_repository_def insert_repository_def create_run_def insert_run_def exists_run_def add_row_def add_event_def
        next_sequence_def insert_event_def exists_user_def opt_ref_def repository_audit_def insert_audit_log_def
        loaded_row_def get_repository_row_def get_run_row_def repository_schema_of_def agent_run_schema_of_def
        Let_def cong: weak_congs)
  then show ?thesis by (metis prod.collapse)
qed

lemma ingestion_request_runs_witness:
  "\<exists>r q w' task. create_repository_route sample_http_env ''c'' (bearer_request (uuid_str 0)) ''https://github.com/o/n'' None
       (sample_world 0 fresh_db) = (Inr (r, Some q), w')
     \<and> w_tasks w' = [task] \<and> consume sample_http_env task = worker_ingest sample_ingest_env 3 4"
proof -
  obtain v where v: "get_current_user sample_http_env (bearer_request (uuid_str 0)) (sample_world 0 fresh_db) = (Inr sample_user, v)"
    "w_db v = fresh_db"
    by (rule sample_identified [of fresh_db]) (simp_all add: fresh_db_def)
  obtain r q t where t: "create_repository_answer sample_http_env ''c'' (bearer_request (uuid_str 0)) sample_user
      ''https://github.com/o/n'' None fresh_db = (Inr (r, Some q), t)" "rp_id r = 3" "ra_id q = 4"
    using fresh_creation by blast
  have "\<exists>w'. create_repository_route sample_http_env ''c'' (bearer_request (uuid_str 0)) ''https://github.com/o/n'' None
      (sample_world 0 fresh_db) = (Inr (r, Some q), w')"
    by (simp add: create_repository_route_def v t on_db_def enqueue_ingestion_def send_task_def)
  then obtain w' where w': "create_repository_route sample_http_env ''c'' (bearer_request (uuid_str 0)) ''https://github.com/o/n'' None
      (sample_world 0 fresh_db) = (Inr (r, Some q), w')" by blast
  from ingestion_request_runs [OF w'] w' t(2,3) show ?thesis by (auto simp: sample_world_def)
qed


lemma quota_left:
  assumes "\<And>k. fst (w_redis w) k \<le> c" "c < limit"
  shows "\<exists>v. limit_auth sample_http_env rq scope limit w = (Inr (), v) \<and> w_db v = w_db w \<and> (\<forall>k. fst (w_redis v) k \<le> c + 1)"
proof -
  obtain n ttl where n: "w_redis w = (n, ttl)" by fastforce
  have "n k \<le> c" for k using assms(1) [of k] n by simp
  then have "\<not> n k + 1 > limit" "(n(k' := n k' + 1)) k \<le> c + 1" for k k'
    using assms(2) by (smt (verit) fun_upd_apply)+
  then show ?thesis by (simp add: limit_auth_def on_redis_def n enforce_counting Let_def)
qed

lemma sample_login:
  "\<exists>res t. commit_auth_operation (login sample_env ''a@b.io'' ''pw'' cid ip ua) sample_db = (Inr res, t)
     \<and> res_access_expires_at res = 902000000 \<and> user_id (res_user res) = 0"
proof -
  have ttl: "auth_env.access_token_ttl_seconds sample_env = 900" by (simp add: sample_env_def)
  have ids: "tok_id (sample_token i h r p) = i" for i h r p by (simp add: sample_token_def)
  have rows: "audit_logs sample_db = []" "next_uuid sample_db = 4" by (simp_all add: sample_db_def empty_db_def)
  have "normalize_email ''a@b.io'' = ''a@b.io''" by code_simp
  then have "\<exists>res. fst (login sample_env ''a@b.io'' ''pw'' cid ip ua sample_db) = Inr res
      \<and> res_access_expires_at res = 902000000 \<and> user_id (res_user res) = 0"
    by (simp add: login_def user_by_email_def set_user_def audit_state new_session_def generate_refresh_token_def
        insert_refresh_token_def add_row_def create_access_token_eq draw_secret_def exists_user_def opt_ref_def Let_def
        ttl rows ids seconds_def cong: weak_congs)
  then show ?thesis
    by (cases "login sample_env ''a@b.io'' ''pw'' cid ip ua sample_db") (auto simp: commit_auth_operation_def)
qed

lemma session_opens_api_witness:
  "\<exists>sr cookies w'. login_route sample_http_env ''c'' forged_request ''a@b.io'' ''pw'' (sample_world 0 sample_db) = (Inr (sr, cookies), w')
     \<and> ur_id (sr_user sr) = 0
     \<and> fst (me_route sample_http_env (bearer_request (sr_access_token sr)) w') = Inr (sr_user sr)"
proof -
  let ?w = "sample_world 0 sample_db" and ?rq = forged_request
  obtain v where v: "limit_auth sample_http_env ?rq ''login'' 10 ?w = (Inr (), v)" "w_db v = w_db ?w" "\<And>k. fst (w_redis v) k \<le> 1"
    using quota_left [of ?w 0 10 ?rq "''login''"] by (auto simp: sample_world_def)
  obtain v' where v': "limit_auth sample_http_env ?rq ''password-verify'' 20 v = (Inr (), v')" "w_db v' = w_db v"
    "\<And>k. fst (w_redis v') k \<le> 2"
    using quota_left [of v 1 20 ?rq "''password-verify''"] v(3) by auto
  obtain res t where t: "commit_auth_operation (login sample_env ''a@b.io'' ''pw'' ''c'' (client_ip ?rq) (user_agent ?rq)) sample_db = (Inr res, t)"
    "res_access_expires_at res = 902000000" "user_id (res_user res) = 0"
    using sample_login by blast
  have "\<exists>cookies w'. session_answer sample_http_env (commit_auth_operation (login sample_env ''a@b.io'' ''pw''
      (get_correlation_id ''c'') (client_ip ?rq) (user_agent ?rq))) v' = (Inr (session_response_of res, cookies), w') \<and> w_redis w' = w_redis v'"
    using t(1) v(2) v'(2)
    by (simp add: session_answer_def on_db_def sample_world_def set_session_cookies_def generate_csrf_token_def draw_secret_def Let_def get_correlation_id_def)
  then obtain cookies w' where w': "session_answer sample_http_env (commit_auth_operation (login sample_env ''a@b.io'' ''pw''
      (get_correlation_id ''c'') (client_ip ?rq) (user_agent ?rq))) v' = (Inr (session_response_of res, cookies), w')"
    "w_redis w' = w_redis v'" by blast
  have l: "login_route sample_http_env ''c'' ?rq ''a@b.io'' ''pw'' ?w = (Inr (session_response_of res, cookies), w')"
    using v(1) v'(1) w'(1) by (simp add: login_route_def sample_settings default_settings_def)
  have shown: "ur_id (sr_user (session_response_of res)) = 0" "sr_expires_at (session_response_of res) = 902000000"
    using t(2,3) by (simp_all add: session_response_of_def user_response_of_def)
  obtain n ttl where n: "w_redis w' = (n, ttl)" by fastforce
  then have "\<not> 300 < n k + 1" for k using v'(3) [of k] w'(2) by simp
  then have quota: "fst (enforce (he_redis sample_http_env) (he_limits sample_http_env) ''authenticated''
      (uuid_str (ur_id (sr_user (session_response_of res)))) (authenticated_api_rate_limit (he_settings sample_http_env)) False (w_redis w')) = Inr ()"
    by (simp add: n enforce_counting Let_def sample_settings default_settings_def)
  have among: "(Inr (session_response_of res, cookies), w') \<in> {register_route sample_http_env ''c'' ?rq ''a@b.io'' ''pw'' ''A'' ?w,
      login_route sample_http_env ''c'' ?rq ''a@b.io'' ''pw'' ?w, refresh_route sample_http_env ''c'' ?rq ?w}"
    by (simp only: l insert_iff simp_thms)
  have ok: "sessions_ok (w_db ?w)" by (simp add: sample_world_def sample_db_ok)
  have keys: "same_keys sample_http_env" by (simp add: same_keys_def sample_settings default_settings_def sample_env_def)
  have jwt: "decodes_claims sample_http_env p"
    if "pay_exp p = sr_expires_at (session_response_of res)" "pay_type p = ''access''"
      "pay_sub p = uuid_str (ur_id (sr_user (session_response_of res)))" for p
    using that shown by (simp add: decodes_claims_def sample_http_env_def dict_get_def sample_env_def)
  have "he_timestamp sample_http_env (JInt (sr_expires_at (session_response_of res) div 1000000)) \<noteq> None"
    by (simp add: sample_http_env_def)
  moreover have "ur_id (sr_user (session_response_of res)) < 2 ^ 128" unfolding shown(1) by simp
  ultimately have "fst (me_route sample_http_env (bearer_request (sr_access_token (session_response_of res))) w')
      = Inr (sr_user (session_response_of res))"
    by (intro session_opens_api [OF among ok keys _ jwt _ sample_env_fields(6) quota])
  with shown(1) l show ?thesis by (intro exI conjI)
qed

end
