(* ===== verification/IngestTotal.thy ===== *)
theory IngestTotal
  imports Ingestion
begin

text \<open>
  Ingestion returns: from a database whose rows respect the keys, with a repository that is
  queued, a git that writes text and a directory that can be made, the worker never raises,
  so that its run ends as succeeded or failed. The rules are those of a Hoare logic with a
  postcondition for exceptions.
\<close>

section \<open>Triples with exceptions\<close>

text \<open>
  \<open>triple P m Q E\<close>: from a state with \<open>P\<close>, \<open>m\<close> returns a value with \<open>Q\<close> or raises an exception
  with \<open>E\<close>; when \<open>E\<close> is never true, it returns.
\<close>

named_theorems hoare

definition triple :: "('s \<Rightarrow> bool) \<Rightarrow> ('s, 'a) py \<Rightarrow> ('a \<Rightarrow> 's \<Rightarrow> bool) \<Rightarrow> (exn \<Rightarrow> 's \<Rightarrow> bool) \<Rightarrow> bool" where
  "triple P m Q E \<longleftrightarrow> (\<forall>s. P s \<longrightarrow> (case m s of (Inl e, t) \<Rightarrow> E e t | (Inr x, t) \<Rightarrow> Q x t))"

lemma tripleI: "(\<And>s r t. P s \<Longrightarrow> m s = (r, t) \<Longrightarrow> case r of Inl e \<Rightarrow> E e t | Inr x \<Rightarrow> Q x t) \<Longrightarrow> triple P m Q E"
  unfolding triple_def by (auto split: prod.split sum.splits)

lemma tripleD: "triple P m Q E \<Longrightarrow> P s \<Longrightarrow> m s = (r, t) \<Longrightarrow> case r of Inl e \<Rightarrow> E e t | Inr x \<Rightarrow> Q x t"
  unfolding triple_def by (auto split: prod.splits sum.splits)

lemma triple_Inr: "(\<And>s. P s \<Longrightarrow> \<exists>x. m s = (Inr x, f s x) \<and> Q x (f s x)) \<Longrightarrow> triple P m Q E"
  unfolding triple_def by fastforce

lemma triple_conseq:
  "triple P m Q E \<Longrightarrow> (\<And>s. P' s \<Longrightarrow> P s) \<Longrightarrow> (\<And>x t. Q x t \<Longrightarrow> Q' x t) \<Longrightarrow> (\<And>e t. E e t \<Longrightarrow> E' e t) \<Longrightarrow> triple P' m Q' E'"
  unfolding triple_def by (auto split: prod.splits sum.splits) blast+

lemma triple_ret [hoare]: "(\<And>s. P s \<Longrightarrow> Q x s) \<Longrightarrow> triple P (ret x) Q E"
  by (simp add: triple_def ret_def)

lemma triple_raise [hoare]: "(\<And>s. P s \<Longrightarrow> E e s) \<Longrightarrow> triple P (raise e) Q E"
  by (simp add: triple_def raise_def)

lemma triple_bindp [hoare]: "triple P m R E \<Longrightarrow> (\<And>x. triple (R x) (f x) Q E) \<Longrightarrow> triple P (bindp m f) Q E"
  unfolding triple_def bindp_def by (fastforce split: prod.splits sum.splits)

lemma triple_thenp [hoare]: "triple P m R E \<Longrightarrow> (\<And>x. triple (R x) n Q E) \<Longrightarrow> triple P (thenp m n) Q E"
  unfolding thenp_def by (rule triple_bindp)

lemma triple_catch [hoare]: "triple P m Q F \<Longrightarrow> (\<And>e. triple (F e) (h e) Q E) \<Longrightarrow> triple P (catch m h) Q E"
  unfolding triple_def catch_def by (fastforce split: prod.splits sum.splits)

lemma triple_attempt [hoare]:
  "triple P m (\<lambda>x. Q (Inr x)) (\<lambda>e. Q (Inl e)) \<Longrightarrow> triple P (attempt m) Q E"
  unfolding triple_def attempt_def by (fastforce split: prod.splits sum.splits)

lemma triple_finallyp [hoare]:
  assumes "triple P m R F" "\<And>x. triple (R x) f (\<lambda>_. Q x) E" "\<And>e. triple (F e) f (\<lambda>_. E e) E"
  shows "triple P (finallyp m f) Q E"
proof (rule tripleI)
  fix s r t assume P: "P s" and r: "finallyp m f s = (r, t)"
  obtain q u where m: "m s = (q, u)" by fastforce
  obtain p v where f: "f u = (p, v)" by fastforce
  show "case r of Inl e \<Rightarrow> E e t | Inr x \<Rightarrow> Q x t"
    using r m f tripleD [OF assms(1) P m] tripleD [OF assms(2) _ f] tripleD [OF assms(3) _ f]
    by (cases q; cases p) (auto simp: finallyp_def)
qed

lemma triple_forp:
  assumes "\<And>x xs. triple (P (x # xs)) (f x) (\<lambda>_. P xs) E"
  shows "triple (P xs) (forp xs f) (\<lambda>_. P []) E"
proof (induction xs)
  case (Cons x xs)
  show ?case unfolding forp.simps by (rule triple_thenp [OF assms Cons])
next
  case Nil
  show ?case unfolding forp.simps by (rule triple_ret)
qed

section \<open>Rows that respect the keys\<close>

text \<open>
  The identifiers drawn so far are below the counter, and no two repositories, nor two
  revisions of a repository, share a key.
\<close>

definition integrity :: "db \<Rightarrow> bool" where
  "integrity s \<longleftrightarrow> distinct (map repo_id (repositories s))
     \<and> distinct (map (\<lambda>v. (rev_repository_id v, rev_commit_sha v)) (revisions s))
     \<and> (\<forall>r \<in> set (repositories s). repo_id r < next_uuid s) \<and> (\<forall>q \<in> set (runs s). run_id q < next_uuid s)
     \<and> (\<forall>v \<in> set (revisions s). rev_id v < next_uuid s) \<and> (\<forall>f \<in> set (files s). file_id f < next_uuid s)
     \<and> (\<forall>e \<in> set (events s). event_id e < next_uuid s)"

lemma integrity_empty: "integrity empty_db"
  by (simp add: integrity_def empty_db_def)

text \<open>Rows may go and the counter may grow.\<close>

lemma integrity_mono:
  assumes "integrity s" "next_uuid s \<le> next_uuid t" "repositories t = repositories s" "runs t = runs s"
    "revisions t = revisions s" "set (files t) \<subseteq> set (files s)" "events t = events s"
  shows "integrity t"
  using assms unfolding integrity_def by (metis order_less_le_trans subset_iff)

lemma preserves_integrity:
  assumes "\<And>s. next_uuid s \<le> next_uuid (snd (m s)) \<and> repositories (snd (m s)) = repositories s \<and> runs (snd (m s)) = runs s
    \<and> revisions (snd (m s)) = revisions s \<and> set (files (snd (m s))) \<subseteq> set (files s) \<and> events (snd (m s)) = events s"
  shows "preserves integrity m"
  by (rule preservesI) (use assms integrity_mono in blast)

lemma integrity_rows [pres]:
  "preserves integrity uuid4" "preserves integrity (utcnow c)" "preserves integrity (insert_audit_log a)"
  "preserves integrity (safe_rmtree w)" "preserves integrity (touch_workspace w)"
  "preserves integrity (run_process h command cwd)" "preserves integrity (modify (delete_files P))"
  "preserves integrity (modify (delete_symbols D))" "preserves integrity (modify (delete_snapshots F))"
  "preserves integrity (delete_chunks_for_repository i)"
  by (rule preserves_integrity, force simp: insert_audit_log_def add_row_app safe_rmtree_def touch_workspace_def
      run_process_def delete_files_def delete_symbols_def delete_chunks_def delete_snapshots_def
      delete_chunks_for_repository_def Let_def split: proc_outcome.split)+

lemma update_where_ids:
  assumes "\<And>r. k (f r) = k r"
  shows "map k (update_where P f rs) = map k rs"
    "(\<forall>r \<in> set (update_where P f rs). k r < (n::nat)) \<longleftrightarrow> (\<forall>r \<in> set rs. k r < n)"
  using map_update_where [of P k f rs] assms by simp (induction rs; simp add: update_where_def assms)

lemma integrity_updates [pres]:
  "(\<And>r. repo_id (f r) = repo_id r) \<Longrightarrow> preserves integrity (set_repository i f)"
  "(\<And>q. run_id (g q) = run_id q) \<Longrightarrow> preserves integrity (set_run i g)"
  "(\<And>v. rev_id (h v) = rev_id v \<and> rev_repository_id (h v) = rev_repository_id v \<and> rev_commit_sha (h v) = rev_commit_sha v)
    \<Longrightarrow> preserves integrity (set_revision i h)"
proof -
  show "preserves integrity (set_repository i f)" if "\<And>r. repo_id (f r) = repo_id r"
    by (rule preservesI) (simp add: set_repository_def integrity_def update_where_ids that)
  show "preserves integrity (set_run i g)" if "\<And>q. run_id (g q) = run_id q"
    by (rule preservesI) (simp add: set_run_def integrity_def update_where_ids that)
  show "preserves integrity (set_revision i h)"
    if "\<And>v. rev_id (h v) = rev_id v \<and> rev_repository_id (h v) = rev_repository_id v \<and> rev_commit_sha (h v) = rev_commit_sha v"
  proof (rule preservesI)
    have keys: "map (\<lambda>v. (rev_repository_id v, rev_commit_sha v)) (update_where P h rs)
        = map (\<lambda>v. (rev_repository_id v, rev_commit_sha v)) rs" for P rs
      by (rule map_update_where) (simp add: that)
    show "integrity s \<Longrightarrow> integrity (snd (set_revision i h s))" for s
      by (simp add: set_revision_def integrity_def update_where_ids keys that)
  qed
qed

text \<open>A row inserted under an identifier that has been drawn.\<close>

definition drawn :: "uuid \<Rightarrow> db \<Rightarrow> bool" where
  "drawn i s \<longleftrightarrow> integrity s \<and> i < next_uuid s"

lemma integrity_uuid4 [pres]: "(\<And>i. preserves (drawn i) (f i)) \<Longrightarrow> preserves integrity (bindp uuid4 f)"
proof (rule preservesI)
  fix s assume f: "\<And>i. preserves (drawn i) (f i)" and s: "integrity s"
  have "drawn (next_uuid s) (s\<lparr>next_uuid := Suc (next_uuid s)\<rparr>)"
    using integrity_mono [OF s] by (simp add: drawn_def)
  from presD [OF f this] show "integrity (snd (bindp uuid4 f s))" by (simp add: drawn_def)
qed

lemma drawn_inserts [pres]:
  "preserves (drawn i) (utcnow c)"
  "repo_id r = i \<Longrightarrow> preserves (drawn i) (insert_repository r)" "run_id q = i \<Longrightarrow> preserves (drawn i) (insert_run q)"
  "rev_id v = i \<Longrightarrow> preserves (drawn i) (insert_revision v)" "file_id f = i \<Longrightarrow> preserves (drawn i) (insert_file f)"
  "event_id e = i \<Longrightarrow> preserves (drawn i) (insert_event e)"
  by (rule preservesI, simp add: drawn_def integrity_def insert_repository_def insert_run_def insert_revision_def
      insert_file_def insert_event_def add_row_app less_Suc_eq)+

lemma integrity_event [pres]: "preserves integrity (add_event clock rid ty msg)"
  unfolding add_event_def by (intro pres) simp

lemma drawn_safe: "preserves integrity m \<Longrightarrow> (\<And>s. next_uuid s \<le> next_uuid (snd (m s))) \<Longrightarrow> preserves (drawn i) m"
  by (rule preservesI) (metis drawn_def order_less_le_trans presD)

lemma drawn_event [pres]: "preserves (drawn i) (add_event clock rid ty msg)"
  by (rule drawn_safe [OF integrity_event]) (simp add: add_event_def next_sequence_app insert_event_def add_row_app)

lemma integrity_inserts [pres]:
  "preserves integrity (upsert_revision env i sha ref)"
  "preserves integrity (replace_for_revision v fs)"
  "preserves integrity (create_run env own r ref)"
  "preserves integrity (insert_new_repository env own n ref)"
  unfolding upsert_revision_def replace_for_revision_def create_run_def insert_new_repository_def Let_def
  by (intro pres; simp add: file_row_def)+

lemma integrity_clone_commands [pres]: "preserves integrity (run_clone_commands h dir cs)"
proof (induction cs)
  case (Cons c cs)
  then show ?case unfolding run_clone_commands.simps by (intro pres) simp_all
qed (simp only: run_clone_commands.simps preserves_ret)

lemma integrity_clone_handler [pres]: "preserves integrity (clone_handler dir e)"
  by (cases e) (simp_all add: clone_handler_def pres)

lemma integrity_resolve [pres]: "preserves integrity (resolve_commit_sha h dir)"
  unfolding resolve_commit_sha_def Let_def by (intro pres)

lemma integrity_clone [pres]: "preserves integrity (clone_repository h url ref parent)"
proof -
  have "preserves integrity (bindp uuid4 (\<lambda>i. m i))" if "\<And>i. preserves integrity (m i)" for m :: "uuid \<Rightarrow> clone_result session"
    by (rule preserves_bindp) (intro pres that)+
  then show ?thesis unfolding clone_repository_def Let_def by (intro preserves_if preserves_raise) (assumption | rule preserves_catch | intro pres)+
qed

lemma integrity_stages [pres]:
  "preserves integrity (transition i t)"
  "preserves integrity (fail_run env i rid v c m)"
  "preserves integrity (repository_audit env action result cid ip actor i)"
  unfolding transition_def fail_run_def
  by (intro pres; simp)+ (simp add: repository_audit_def, rule preserves_bindp; intro pres)

lemma integrity_finish [pres]:
  "preserves integrity (finish_run env i rid v scan)" "preserves integrity (after_clone env i clone ref)"
  unfolding finish_run_def after_clone_def by (intro pres; simp)+

lemma integrity_scan [pres]: "preserves integrity (scan_and_store env i rid v w)"
  unfolding scan_and_store_def by (intro pres; simp)

lemma integrity_ingest_workspace [pres]: "preserves integrity (ingest_workspace env i rid ref clone)"
  unfolding ingest_workspace_def by (intro pres; simp)

lemma integrity_ingestion [pres]:
  "preserves integrity (ingest env i rid)"
  "preserves integrity (create_repository env own url ref cid ip)"
  "preserves integrity (sync_repository env own i ref cid ip)"
  "preserves integrity (mark_deleting env own i cid ip)"
  "preserves integrity (delete_workspace_and_mark_deleted env i)"
  unfolding ingest_def create_repository_def sync_repository_def mark_deleting_def
    delete_workspace_and_mark_deleted_def Let_def
  by (intro pres; simp)+

section \<open>The stages return\<close>

text \<open>During an ingestion: the run and the revisions named are stored, and the repository has the status given.\<close>

definition ingesting :: "uuid \<Rightarrow> uuid \<Rightarrow> repo_state \<Rightarrow> uuid set \<Rightarrow> db \<Rightarrow> bool" where
  "ingesting i rid st V s \<longleftrightarrow> integrity s \<and> rid \<in> run_id ` set (runs s)
     \<and> (\<exists>r \<in> set (repositories s). repo_id r = i \<and> repo_status r = st) \<and> V \<subseteq> rev_id ` set (revisions s)"

lemma highest_sequence_ge: "e \<in> set (events s) \<Longrightarrow> event_sequence e \<le> highest_sequence (event_run_id e) s"
proof -
  assume "e \<in> set (events s)"
  then have e: "event_sequence e \<in> set (map event_sequence (run_events (event_run_id e) s))"
    by (auto simp: run_events_def)
  then obtain n ns where "map event_sequence (run_events (event_run_id e) s) = n # ns"
    by (cases "map event_sequence (run_events (event_run_id e) s)") auto
  with e show ?thesis unfolding highest_sequence_def by (simp only: list.case) (intro Max_ge; simp)
qed

lemma add_event_returns:
  assumes "integrity s" "rid \<in> run_id ` set (runs s)"
  shows "\<exists>t. add_event clock rid ty msg s = (Inr (), t) \<and> integrity t \<and> runs t = runs s \<and> repositories t = repositories s
    \<and> revisions t = revisions s \<and> files t = files s"
proof -
  have "next_uuid s \<notin> event_id ` set (events s)" using assms(1) by (auto simp: integrity_def)
  moreover have "(rid, highest_sequence rid s + 1) \<notin> (\<lambda>q. (event_run_id q, event_sequence q)) ` set (events s)"
    using highest_sequence_ge [of _ s] by fastforce
  ultimately obtain t where t: "add_event clock rid ty msg s = (Inr (), t)" "runs t = runs s"
      "repositories t = repositories s" "revisions t = revisions s" "files t = files s"
    using assms(2) by (simp add: add_event_def next_sequence_app insert_event_def add_row_app exists_run_def image_iff)
  then show ?thesis using presD [OF integrity_event assms(1), of clock rid ty msg] by simp
qed

lemma triple_steps [hoare]:
  "triple (ingesting i rid st V) (utcnow c) (\<lambda>_. ingesting i rid st V) E"
  "triple (ingesting i rid st V) (add_event clock rid ty msg) (\<lambda>_. ingesting i rid st V) E"
  "(\<And>q. run_id (g q) = run_id q) \<Longrightarrow> triple (ingesting i rid st V) (set_run k g) (\<lambda>_. ingesting i rid st V) E"
  "(\<And>v. rev_id (h v) = rev_id v \<and> rev_repository_id (h v) = rev_repository_id v \<and> rev_commit_sha (h v) = rev_commit_sha v)
    \<Longrightarrow> triple (ingesting i rid st V) (set_revision v h) (\<lambda>_. ingesting i rid st V) E"
  "triple (ingesting i rid st V) (modify (delete_files P)) (\<lambda>_. ingesting i rid st V) E"
  "triple (ingesting i rid st V) (safe_rmtree w) (\<lambda>_. ingesting i rid st V) E"
proof -
  have same: "triple (ingesting i rid st V) m (\<lambda>_. ingesting i rid st V) E"
    if "preserves integrity m" "\<And>s. \<exists>x t. m s = (Inr x, t) \<and> run_id ` set (runs t) = run_id ` set (runs s)
      \<and> repositories t = repositories s \<and> rev_id ` set (revisions t) = rev_id ` set (revisions s)" for m :: "'a session" and E
  proof (rule tripleI)
    fix s r t assume s: "ingesting i rid st V s" and m: "m s = (r, t)"
    have "integrity t" using presD [OF that(1), of s] s m by (simp add: ingesting_def)
    then show "case r of Inl e \<Rightarrow> E e t | Inr x \<Rightarrow> ingesting i rid st V t"
      using that(2) [of s] s m by (auto simp: ingesting_def)
  qed
  show "triple (ingesting i rid st V) (utcnow c) (\<lambda>_. ingesting i rid st V) E" by (rule same) (intro pres, simp)
  show "triple (ingesting i rid st V) (set_run k g) (\<lambda>_. ingesting i rid st V) E" if "\<And>q. run_id (g q) = run_id q"
    by (rule same) (intro pres that, simp add: set_run_def, metis map_update_where set_map that)
  show "triple (ingesting i rid st V) (set_revision v h) (\<lambda>_. ingesting i rid st V) E"
    if "\<And>v. rev_id (h v) = rev_id v \<and> rev_repository_id (h v) = rev_repository_id v \<and> rev_commit_sha (h v) = rev_commit_sha v"
    by (rule same) (intro pres that, simp add: set_revision_def, metis map_update_where set_map that)
  show "triple (ingesting i rid st V) (modify (delete_files P)) (\<lambda>_. ingesting i rid st V) E"
    by (rule same) (intro pres, simp add: delete_files_def delete_symbols_def delete_chunks_def Let_def)
  show "triple (ingesting i rid st V) (safe_rmtree w) (\<lambda>_. ingesting i rid st V) E"
    by (rule same) (intro pres, simp add: safe_rmtree_def)
  show "triple (ingesting i rid st V) (add_event clock rid ty msg) (\<lambda>_. ingesting i rid st V) E"
    by (rule tripleI) (use add_event_returns [of _ rid clock ty msg] in \<open>fastforce simp: ingesting_def\<close>)
qed

lemma triple_set_repository:
  assumes "\<And>r. repo_id (f r) = repo_id r" "\<And>r. repo_status r = st \<Longrightarrow> repo_status (f r) = st'"
  shows "triple (ingesting i rid st V) (set_repository i f) (\<lambda>_. ingesting i rid st' V) E"
proof (rule tripleI)
  fix s r t assume s: "ingesting i rid st V s" and m: "set_repository i f s = (r, t)"
  have t: "t = s\<lparr>repositories := update_where (\<lambda>r. repo_id r = i) f (repositories s)\<rparr>" "r = Inr ()"
    using m by (auto simp: set_repository_def)
  have "integrity t" using presD [OF integrity_updates(1), of f s i] assms(1) s m by (simp add: ingesting_def)
  moreover obtain q where "q \<in> set (repositories s)" "repo_id q = i" "repo_status q = st"
    using s by (auto simp: ingesting_def)
  then have "f q \<in> set (repositories t) \<and> repo_id (f q) = i \<and> repo_status (f q) = st'"
    using assms by (force simp: t(1) update_where_def)
  ultimately show "case r of Inl e \<Rightarrow> E e t | Inr x \<Rightarrow> ingesting i rid st' V t"
    using s by (auto simp: ingesting_def t)
qed

lemma triple_transition:
  assumes "target \<in> set (allowed_state_transitions st)"
  shows "triple (ingesting i rid st V) (transition i target) (\<lambda>_. ingesting i rid target V) E"
proof (rule tripleI)
  fix s r t assume s: "ingesting i rid st V s" and m: "transition i target s = (r, t)"
  obtain q where q: "q \<in> set (repositories s)" "repo_id q = i" "repo_status q = st" "distinct (map repo_id (repositories s))"
    using s by (auto simp: ingesting_def integrity_def)
  then have "set_repository i (\<lambda>q. q\<lparr>repo_status := target\<rparr>) s = (r, t)"
    using m get_repository_row_found [OF q(4,1)] assms by (simp add: transition_def loaded_def bindp_def)
  from tripleD [OF triple_set_repository s this] show "case r of Inl e \<Rightarrow> E e t | Inr x \<Rightarrow> ingesting i rid target V t"
    by simp
qed

lemma triple_upsert:
  "triple (ingesting i rid st {}) (upsert_revision env i sha ref) (\<lambda>v. ingesting i rid st {v}) E"
proof (rule tripleI)
  fix s r t assume s: "ingesting i rid st {} s" and m: "upsert_revision env i sha ref s = (r, t)"
  have t: "integrity t" using presD [OF integrity_inserts(1), of s env i sha ref] s m by (simp add: ingesting_def)
  have keys: "distinct (map (\<lambda>v. (rev_repository_id v, rev_commit_sha v)) (revisions s))"
    and fresh: "next_uuid s \<notin> rev_id ` set (revisions s)" and repo: "i \<in> repo_id ` set (repositories s)"
    using s by (auto simp: ingesting_def integrity_def)
  have rows: "filter (\<lambda>v. (rev_repository_id v, rev_commit_sha v) = (i, sha)) (revisions s)
      = filter (\<lambda>v. rev_repository_id v = i \<and> rev_commit_sha v = sha) (revisions s)"
    by simp
  consider "filter (\<lambda>v. rev_repository_id v = i \<and> rev_commit_sha v = sha) (revisions s) = []"
    | v where "v \<in> set (revisions s)" "filter (\<lambda>v. rev_repository_id v = i \<and> rev_commit_sha v = sha) (revisions s) = [v]"
    using filter_unique_column_cases [OF keys, of "(i, sha)"] unfolding rows by metis
  then show "case r of Inl e \<Rightarrow> E e t | Inr v \<Rightarrow> ingesting i rid st {v} t"
  proof cases
    case 1
    then have "(i, sha) \<notin> (\<lambda>q. (rev_repository_id q, rev_commit_sha q)) ` set (revisions s)"
      by (auto simp: filter_empty_conv)
    with 1 fresh repo m s t show ?thesis
      by (auto simp: upsert_revision_def revision_by_repository_commit_def insert_revision_def add_row_app bindp_def thenp_def
          ingesting_def)
  next
    case 2
    with m s show ?thesis by (auto simp: upsert_revision_def revision_by_repository_commit_def bindp_def ingesting_def)
  qed
qed

text \<open>While the files of a revision are stored, the paths to come are not there yet.\<close>

definition storing :: "uuid \<Rightarrow> uuid \<Rightarrow> repo_state \<Rightarrow> uuid \<Rightarrow> scanned_file list \<Rightarrow> db \<Rightarrow> bool" where
  "storing i rid st v fs s \<longleftrightarrow> ingesting i rid st {v} s \<and> distinct (map sf_normalized_path fs)
     \<and> (\<forall>f \<in> set (files s). file_revision_id f = v \<longrightarrow> file_normalized_path f \<notin> sf_normalized_path ` set fs)"

lemma triple_store_file:
  "triple (storing i rid st v (f # fs)) (bindp uuid4 (\<lambda>k. insert_file (file_row k v f))) (\<lambda>_. storing i rid st v fs) E"
proof (rule tripleI)
  fix s r t assume s: "storing i rid st v (f # fs) s" and m: "bindp uuid4 (\<lambda>k. insert_file (file_row k v f)) s = (r, t)"
  have "preserves integrity (bindp uuid4 (\<lambda>k. insert_file (file_row k v f)))" by (intro pres) (simp add: file_row_def)
  then have "integrity t" using presD [where I = integrity and s = s] s m by (fastforce simp: storing_def ingesting_def)
  moreover have "next_uuid s \<notin> file_id ` set (files s)" using s by (auto simp: storing_def ingesting_def integrity_def)
  moreover have "(v, sf_normalized_path f) \<notin> (\<lambda>q. (file_revision_id q, file_normalized_path q)) ` set (files s)"
    using s by (auto simp: storing_def)
  ultimately show "case r of Inl e \<Rightarrow> E e t | Inr x \<Rightarrow> storing i rid st v fs t"
    using m s by (auto simp: insert_file_def add_row_app file_row_def storing_def ingesting_def)
qed

lemma triple_replace:
  assumes "distinct (map sf_normalized_path fs)"
  shows "triple (ingesting i rid st {v}) (replace_for_revision v fs) (\<lambda>_. ingesting i rid st {v}) E"
proof -
  have delete: "triple (ingesting i rid st {v}) (modify (delete_files (\<lambda>f. file_revision_id f = v)))
      (\<lambda>_. storing i rid st v fs) E"
  proof (rule tripleI)
    fix s r t assume s: "ingesting i rid st {v} s" and m: "modify (delete_files (\<lambda>f. file_revision_id f = v)) s = (r, t)"
    have "ingesting i rid st {v} t" using tripleD [OF triple_steps(5) s m] m by (auto simp: modify_def)
    then show "case r of Inl e \<Rightarrow> E e t | Inr x \<Rightarrow> storing i rid st v fs t"
      using m assms by (auto simp: storing_def modify_def delete_files_def delete_symbols_def delete_chunks_def Let_def)
  qed
  have store: "triple (storing i rid st v fs) (forp fs (\<lambda>f. bindp uuid4 (\<lambda>k. insert_file (file_row k v f))))
      (\<lambda>_. storing i rid st v []) E"
    by (rule triple_forp) (rule triple_store_file)
  show ?thesis unfolding replace_for_revision_def
    by (rule triple_thenp [OF delete], rule triple_conseq [OF store]) (simp_all add: storing_def)
qed

lemma triple_fail_run [hoare]:
  "triple (ingesting i rid st V) (fail_run env i rid v c m) (\<lambda>_ _. True) E"
proof -
  let ?I = "ingesting i rid Failed V"
  have rev: "triple ?I (case v of None \<Rightarrow> ret () | Some v \<Rightarrow> set_revision v (\<lambda>q. q\<lparr>rev_status := Failed,
      rev_error_code := Some c, rev_error_summary := Some m\<rparr>)) (\<lambda>_. ?I) E"
    by (cases v) (simp_all add: triple_ret triple_steps(4))
  have status: "triple (ingesting i rid st V) (set_repository i (\<lambda>q. q\<lparr>repo_status := Failed\<rparr>)) (\<lambda>_. ?I) E"
    by (rule triple_set_repository) simp_all
  have "triple (ingesting i rid st V) (fail_run env i rid v c m) (\<lambda>_. ?I) E"
    unfolding fail_run_def
    by (rule triple_thenp [OF status], rule triple_bindp [OF triple_steps(1)], rule triple_thenp [OF triple_steps(3)], simp,
        rule triple_thenp [OF rev], rule triple_steps(2))
  then show ?thesis by (rule triple_conseq) simp_all
qed

lemma triple_on_clone_failure [hoare]:
  "(\<exists>c m. e = CloneFailureError c m) \<Longrightarrow> triple (ingesting i rid st V) (on_clone_failure env i rid v e) (\<lambda>_ _. True) E"
  by (auto simp: on_clone_failure_def intro: triple_fail_run)

section \<open>The clone and the scan fail as clone failures\<close>

text \<open>
  Git writes text, and the parent directory can be made; a tree is one a file system can hold, and its
  ignore file is text.
\<close>

definition git_works :: "host \<Rightarrow> bool" where
  "git_works h \<longleftrightarrow> host_mkdir_ok h \<and> (\<forall>n command cwd. host_proc h n command cwd \<noteq> ProcUndecodable)"

definition scannable :: "ingest_env \<Rightarrow> bool" where
  "scannable env \<longleftrightarrow> (\<forall>w. wf_tree (ing_tree env w)
     \<and> load_codepilotignore (ing_scan env) (ing_tree env w) \<noteq> Inl (ValueError ''codec''))"

definition text_errors :: "exn set" where
  "text_errors = {TimeoutExpired} \<union> range OSError \<union> {e. \<exists>c m. e = CloneFailureError c m}"

lemma clone_raises_text_errors:
  assumes "git_works h"
  shows "raises_only text_errors (clone_body h ws url ref)"
proof -
  have run: "raises_only text_errors (run_process h c cwd)" for c cwd
    using assms by (auto simp: raises_only_def run_process_def Let_def text_errors_def git_works_def split: proc_outcome.splits)
  have commands: "raises_only text_errors (run_clone_commands h ws cs)" for cs
  proof (induction cs)
    case (Cons c cs)
    then show ?case unfolding run_clone_commands.simps touch_workspace_def
      by (intro exns run) (simp_all add: text_errors_def)
  qed (simp only: run_clone_commands.simps raises_only_basic)
  have "raises_only text_errors (resolve_commit_sha h ws)"
    unfolding resolve_commit_sha_def Let_def resolution_failed_def
    by (intro exns run) (simp_all add: text_errors_def)
  with commands show ?thesis unfolding clone_body_def by (intro exns)
qed

lemma clone_handler_text:
  "e \<in> text_errors \<Longrightarrow> clone_handler ws e s = (r, t) \<Longrightarrow> \<exists>c m. r = Inl (CloneFailureError c m)"
  by (auto simp: text_errors_def clone_handler_def safe_rmtree_def)

lemma clone_fails_as_clone_failure:
  assumes "git_works h" "clone_repository h url ref parent s = (Inl e, t)"
  shows "\<exists>c m. e = CloneFailureError c m"
proof -
  let ?ws = "parent @ ''/repo-'' @ hex_width 32 (next_uuid s)"
  let ?s1 = "s\<lparr>next_uuid := Suc (next_uuid s)\<rparr>"
  have c: "catch (clone_body h ?ws url ref) (clone_handler ?ws) ?s1 = (Inl e, t)"
    using assms unfolding clone_body_def by (simp add: clone_repository_def Let_def git_works_def)
  obtain q u where b: "clone_body h ?ws url ref ?s1 = (q, u)" by fastforce
  with c obtain e' where "q = Inl e'" "clone_handler ?ws e' u = (Inl e, t)" by (cases q) auto
  moreover from this have "e' \<in> text_errors"
    using raises_onlyD [OF clone_raises_text_errors [OF assms(1)]] b by blast
  ultimately show ?thesis using clone_handler_text by fastforce
qed

lemma scan_fails_as_clone_failure:
  assumes "scannable env" "scan_repository (ing_scan env) (ing_tree env w) = Inl e"
  shows "\<exists>c m. e = CloneFailureError c m"
proof -
  have step: "scan_step se ps rel a acc = Inl e \<Longrightarrow> \<exists>c m. e = CloneFailureError c m" for se ps rel a acc
    by (auto simp: scan_step_def clone_failure_def Let_def split: if_splits option.splits)
  have "scan_entries se ps xs acc = Inl e \<Longrightarrow> \<exists>c m. e = CloneFailureError c m" for se ps xs acc
    by (induction se ps xs acc rule: scan_entries.induct) (auto split: sum.splits dest: step)
  moreover have "load_codepilotignore se tree = Inl e \<Longrightarrow> e = ValueError ''codec''" for se tree
    by (auto simp: load_codepilotignore_def split: option.splits)
  ultimately show ?thesis using assms by (auto simp: scan_repository_def scannable_def split: sum.splits)
qed

section \<open>The ingestion returns\<close>

definition clone_failed :: "uuid \<Rightarrow> uuid \<Rightarrow> repo_state \<Rightarrow> exn \<Rightarrow> db \<Rightarrow> bool" where
  "clone_failed i rid st e s \<longleftrightarrow> (\<exists>c m. e = CloneFailureError c m) \<and> (\<exists>V. ingesting i rid st V s)"

lemma triple_clone:
  assumes "git_works h"
  shows "triple (ingesting i rid st {}) (clone_repository h url ref parent) (\<lambda>_. ingesting i rid st {}) (clone_failed i rid st)"
proof (rule tripleI)
  fix s r t assume s: "ingesting i rid st {} s" and m: "clone_repository h url ref parent s = (r, t)"
  have "rows_of t = rows_of s" using clone_repository_facts [OF m] by simp
  note rows = rows_of_fields [OF this]
  have "integrity t" using presD [OF integrity_clone, of s h url ref parent] s m by (simp add: ingesting_def)
  with s have "ingesting i rid st {} t" by (simp add: ingesting_def rows)
  then show "case r of Inl e \<Rightarrow> clone_failed i rid st e t | Inr x \<Rightarrow> ingesting i rid st {} t"
    using clone_fails_as_clone_failure [OF assms] m by (cases r) (auto simp: clone_failed_def)
qed

lemma triple_finish: "triple (ingesting i rid Scanning V) (finish_run env i rid v scan) (\<lambda>_ _. True) E"
proof -
  have "triple (ingesting i rid Scanning V) (finish_run env i rid v scan) (\<lambda>_. ingesting i rid ReadyForIndexing V) E"
    unfolding finish_run_def
    by (rule triple_thenp [OF triple_transition], simp add: allowed_state_transitions_def,
        rule triple_bindp [OF triple_steps(1)], rule triple_thenp [OF triple_steps(3)], simp, rule triple_steps(2))
  then show ?thesis by (rule triple_conseq) simp_all
qed

lemma triple_scan_and_store:
  assumes "scannable env"
  shows "triple (ingesting i rid Scanning {v}) (scan_and_store env i rid v w) (\<lambda>_ _. True) (clone_failed i rid Scanning)"
proof -
  let ?I = "ingesting i rid Scanning {v}"
  let ?scan = "scan_repository (ing_scan env) (ing_tree env w)"
  have scan: "triple ?I (lift_res ?scan) (\<lambda>res s. distinct (map sf_normalized_path (scan_files res)) \<and> ?I s) (clone_failed i rid Scanning)"
    using scan_fails_as_clone_failure [OF assms, of w] scan_paths_distinct [of "ing_tree env w" "ing_scan env"] assms
    by (intro tripleI) (auto simp: lift_res_def clone_failed_def scannable_def split: sum.split)
  have rest: "triple (\<lambda>s. distinct (map sf_normalized_path (scan_files res)) \<and> ?I s)
      (thenp (replace_for_revision v (scan_files res)) n) Q E"
    if "triple ?I n Q E" for res and n :: "unit session" and Q E
  proof (cases "distinct (map sf_normalized_path (scan_files res))")
    case True
    have "triple ?I (thenp (replace_for_revision v (scan_files res)) n) Q E"
      by (rule triple_thenp [OF triple_replace [OF True] that])
    then show ?thesis by (rule triple_conseq) simp_all
  qed (simp add: triple_def)
  show ?thesis unfolding scan_and_store_def
    by (rule triple_bindp [OF triple_steps(1)], rule triple_thenp [OF triple_steps(4)], simp,
        rule triple_thenp [OF triple_steps(2)], rule triple_bindp [OF scan], rule rest,
        rule triple_bindp [OF triple_steps(1)], rule triple_thenp [OF triple_steps(4)], simp,
        rule triple_thenp [OF triple_set_repository [where st' = Scanning]], simp, simp, rule triple_finish)
qed

lemma triple_after_clone:
  "triple (ingesting i rid Cloning {}) (after_clone env i clone ref) (\<lambda>v. ingesting i rid Scanning {v}) E"
  unfolding after_clone_def
  by (rule triple_thenp [OF triple_transition triple_upsert]) (simp add: allowed_state_transitions_def)

lemma triple_handled: "triple (clone_failed i rid st e) (on_clone_failure env i rid v e) (\<lambda>_ _. True) E"
proof (rule tripleI)
  fix s r t assume s: "clone_failed i rid st e s" and m: "on_clone_failure env i rid v e s = (r, t)"
  then obtain V where "ingesting i rid st V s" "\<exists>c m. e = CloneFailureError c m" by (auto simp: clone_failed_def)
  from tripleD [OF triple_on_clone_failure [OF this(2)] this(1) m]
  show "case r of Inl e' \<Rightarrow> E e' t | Inr x \<Rightarrow> True" .
qed

lemma triple_ingest_workspace:
  assumes "scannable env"
  shows "triple (ingesting i rid Cloning {}) (ingest_workspace env i rid ref clone) (\<lambda>_ _. True) (\<lambda>_ _. False)"
proof -
  let ?Q = "\<lambda>r s. case r of Inl e \<Rightarrow> False | Inr v \<Rightarrow> ingesting i rid Scanning {v} s"
  have cloned: "triple (ingesting i rid Cloning {}) (attempt (after_clone env i clone ref)) ?Q (\<lambda>_ _. False)"
    by (rule triple_attempt) (simp add: triple_after_clone)
  have "triple (?Q r) (case r of Inl e \<Rightarrow> on_clone_failure env i rid None e
      | Inr v \<Rightarrow> catch (scan_and_store env i rid v (clone_workspace clone)) (on_clone_failure env i rid (Some v)))
      (\<lambda>_ _. True) (\<lambda>_ _. False)" for r
  proof (cases r)
    case (Inr v)
    then show ?thesis by simp (rule triple_catch [OF triple_scan_and_store [OF assms] triple_handled])
  qed (simp add: triple_def)
  then show ?thesis unfolding ingest_workspace_def by (rule triple_bindp [OF cloned])
qed

lemma triple_tidy: "triple P (safe_rmtree w) (\<lambda>_ _. True) E"
  by (simp add: triple_def safe_rmtree_def)

lemma triple_ingest:
  assumes "git_works (ing_host env)" "scannable env"
  shows "triple (ingesting i rid Queued {}) (ingest env i rid) (\<lambda>_ _. True) (\<lambda>_ _. False)"
proof -
  let ?never = "\<lambda>(_::exn) (_::db). False" and ?done = "\<lambda>(_::unit) (_::db). True"
  let ?C = "\<lambda>r s. case r of Inl e \<Rightarrow> clone_failed i rid Cloning e s | Inr (c :: clone_result) \<Rightarrow> ingesting i rid Cloning {} s"
  have clone: "triple (ingesting i rid Cloning {}) (attempt (clone_repository (ing_host env) url ref parent)) ?C ?never" for url ref parent
    by (rule triple_attempt) (simp add: triple_clone [OF assms(1)])
  have handled: "triple (?C r) (case r of Inl e \<Rightarrow> on_clone_failure env i rid None e
      | Inr clone \<Rightarrow> finallyp (ingest_workspace env i rid ref clone) (safe_rmtree (clone_workspace clone))) ?done ?never" for r ref
  proof (cases r)
    case (Inr c)
    have "triple (\<lambda>s. False) (safe_rmtree w) (\<lambda>_ _. False) ?never" for w by (simp add: triple_def)
    then show ?thesis unfolding Inr sum.case
      by (rule triple_finallyp [OF triple_ingest_workspace [OF assms(2)] triple_tidy])
  qed (simp add: triple_handled)
  have body: "triple (ingesting i rid Queued {}) (bindp (utcnow (ing_clock env)) (\<lambda>now.
         thenp (set_run rid (\<lambda>q. q\<lparr>run_status := RunRunning, run_started_at := Some now\<rparr>))
         (thenp (add_event (ing_clock env) rid ''started'' ''Repository ingestion started'')
         (thenp (transition i Cloning)
         (bindp (attempt (clone_repository (ing_host env) url ref (ing_workspace_root env))) (\<lambda>c.
          case c of
            Inl e \<Rightarrow> on_clone_failure env i rid None e
          | Inr clone \<Rightarrow> finallyp (ingest_workspace env i rid ref clone)
                           (safe_rmtree (clone_workspace clone)))))))) ?done ?never" for url ref
    by (rule triple_bindp [OF triple_steps(1)], rule triple_thenp [OF triple_steps(3)], simp,
        rule triple_thenp [OF triple_steps(2)], rule triple_thenp [OF triple_transition],
        simp add: allowed_state_transitions_def, rule triple_bindp [OF clone handled])
  show ?thesis
  proof (rule tripleI)
    fix s r t assume s: "ingesting i rid Queued {} s" and m: "ingest env i rid s = (r, t)"
    obtain q where q: "q \<in> set (repositories s)" "repo_id q = i" "distinct (map repo_id (repositories s))"
      using s by (auto simp: ingesting_def integrity_def)
    have repo: "get_repository_row i s = (Inr (Some q), s)" using get_repository_row_found [OF q(3,1)] q(2) by simp
    obtain k where "k \<in> set (runs s)" "run_id k = rid" using s by (auto simp: ingesting_def)
    then have "filter (\<lambda>r. run_id r = rid) (runs s) \<noteq> []" by (auto simp: filter_empty_conv)
    then obtain k' where "get_run_row rid s = (Inr (Some k'), s)"
      by (cases "filter (\<lambda>r. run_id r = rid) (runs s)") (simp_all add: get_run_row_def)
    then show "case r of Inl e \<Rightarrow> ?never e t | Inr x \<Rightarrow> ?done x t"
      using m repo tripleD [OF body s] by (simp add: ingest_def bindp_def [of "get_repository_row i"] bindp_def [of "get_run_row rid"] Let_def)
  qed
qed

text \<open>
  An ingestion of a queued repository always returns, and has then settled: git and the scan
  may fail in any way they report, and every unique constraint holds when a row is inserted.
\<close>

theorem ingestion_returns:
  assumes "integrity s" "git_works (ing_host env)" "scannable env"
    and "r \<in> set (repositories s)" "repo_status r = Queued" "rid \<in> run_id ` set (runs s)"
  shows "\<exists>t. worker_ingest env (repo_id r) rid s = (Inr (), t) \<and> ended (repo_id r) rid t"
proof -
  have "ingesting (repo_id r) rid Queued {} s" using assms by (auto simp: ingesting_def)
  moreover obtain q t where m: "ingest env (repo_id r) rid s = (q, t)" by fastforce
  ultimately have "q = Inr ()" using tripleD [OF triple_ingest [OF assms(2,3)]] by (cases q) fastforce+
  with m show ?thesis using returnsD [OF ingest_ends] by (auto simp: worker_ingest_def commit_or_rollback_def)
qed

end
