(* ===== verification/System.thy ===== *)
theory System
  imports Api IngestTotal
begin

text \<open>
  The whole system: the endpoints of the API and the workers as one transition system over
  the database, Redis and the queue. Requests and tasks interleave in any order; a task may
  be delivered again; Redis keys may expire or be lost at any time.
\<close>

section \<open>What the pipeline leaves of accounts, and the reverse\<close>

text \<open>No index has ever been stored.\<close>

definition unindexed :: "db \<Rightarrow> bool" where
  "unindexed s \<longleftrightarrow> snapshots s = [] \<and> chunks s = [] \<and> symbols s = []"

text \<open>
  The frame of ingestion, cleanup and index requests: accounts and tokens stay, rows of
  repositories and runs are never removed, and nothing is indexed.
\<close>

definition pipeline_frame :: "db \<Rightarrow> db \<Rightarrow> bool" where
  "pipeline_frame s t \<longleftrightarrow> auth_same s t
     \<and> repo_id ` set (repositories s) \<subseteq> repo_id ` set (repositories t)
     \<and> run_id ` set (runs s) \<subseteq> run_id ` set (runs t)
     \<and> (unindexed s \<longrightarrow> unindexed t)"

lemma auth_same_refl: "auth_same s s"
  by (simp add: auth_same_def)

lemma auth_same_trans: "auth_same s t \<Longrightarrow> auth_same t u \<Longrightarrow> auth_same s u"
  unfolding auth_same_def by (metis order_less_le_trans order_trans)

lemma pipeline_frame_refl: "pipeline_frame s s"
  by (simp add: pipeline_frame_def auth_same_refl)

lemma pipeline_frame_trans: "pipeline_frame s t \<Longrightarrow> pipeline_frame t u \<Longrightarrow> pipeline_frame s u"
  unfolding pipeline_frame_def using auth_same_trans by (meson subset_trans)

lemma preserves_frame: "(\<And>s. pipeline_frame s (snd (m s))) \<Longrightarrow> preserves (pipeline_frame b) m"
  by (rule preservesI) (erule pipeline_frame_trans)

lemma frame_updates:
  "pipeline_frame s (s\<lparr>next_uuid := Suc (next_uuid s)\<rparr>)" "pipeline_frame s (s\<lparr>ticks := n\<rparr>)"
  "pipeline_frame s (s\<lparr>procs_run := n\<rparr>)" "pipeline_frame s (s\<lparr>workspaces := w\<rparr>)"
  "pipeline_frame s (s\<lparr>revisions := vs\<rparr>)" "pipeline_frame s (s\<lparr>files := fs\<rparr>)"
  "pipeline_frame s (s\<lparr>events := es\<rparr>)" "pipeline_frame s (s\<lparr>repositories := repositories s @ rs\<rparr>)"
  "pipeline_frame s (s\<lparr>runs := runs s @ qs\<rparr>)"
  by (auto simp: pipeline_frame_def auth_same_def unindexed_def)

lemma frame_rows [pres]:
  "preserves (pipeline_frame b) uuid4" "preserves (pipeline_frame b) (utcnow c)"
  "preserves (pipeline_frame b) (set_revision i h)" "preserves (pipeline_frame b) (insert_repository r)"
  "preserves (pipeline_frame b) (insert_run n)" "preserves (pipeline_frame b) (insert_revision v)"
  "preserves (pipeline_frame b) (insert_file x)" "preserves (pipeline_frame b) (insert_event e)"
  "preserves (pipeline_frame b) (safe_rmtree w)"
  by (rule preserves_frame, simp add: frame_updates pipeline_frame_refl set_revision_def insert_repository_def
      insert_run_def insert_revision_def insert_file_def insert_event_def add_row_app safe_rmtree_def)+

lemma frame_set_row [pres]:
  "(\<And>r. repo_id (f r) = repo_id r) \<Longrightarrow> preserves (pipeline_frame b) (set_repository i f)"
  "(\<And>r. run_id (g r) = run_id r) \<Longrightarrow> preserves (pipeline_frame b) (set_run i g)"
proof -
  have ids: "repo_id ` set (update_where P f rs) = repo_id ` set rs" if "\<And>r. repo_id (f r) = repo_id r"
    for P and f :: "repository \<Rightarrow> repository" and rs
    by (metis set_map map_update_where that)
  have run_ids: "run_id ` set (update_where P g qs) = run_id ` set qs" if "\<And>r. run_id (g r) = run_id r"
    for P and g :: "agent_run \<Rightarrow> agent_run" and qs
    by (metis set_map map_update_where that)
  show "preserves (pipeline_frame b) (set_repository i f)" if "\<And>r. repo_id (f r) = repo_id r"
    by (rule preserves_frame)
      (simp add: set_repository_def pipeline_frame_def auth_same_def unindexed_def ids that)
  show "preserves (pipeline_frame b) (set_run i g)" if "\<And>r. run_id (g r) = run_id r"
    by (rule preserves_frame)
      (simp add: set_run_def pipeline_frame_def auth_same_def unindexed_def run_ids that)
qed

lemma frame_deletions [pres]:
  "preserves (pipeline_frame b) (modify (delete_files P))"
  "preserves (pipeline_frame b) (modify (delete_symbols Q))"
  "preserves (pipeline_frame b) (modify (delete_snapshots R))"
  "preserves (pipeline_frame b) (delete_chunks_for_repository i)"
  by (rule preserves_frame, simp add: delete_files_def delete_symbols_def delete_snapshots_def
      delete_chunks_for_repository_def delete_chunks_def Let_def pipeline_frame_def auth_same_def unindexed_def)+

lemma frame_audit [pres]: "preserves (pipeline_frame b) (repository_audit env action result cid ip actor i)"
  by (rule preserves_frame)
    (auto simp: repository_audit_def insert_audit_log_def add_row_app bindp_def pipeline_frame_def auth_same_def
      unindexed_def)

lemma frame_processes [pres]:
  "preserves (pipeline_frame b) (run_process h c cwd)" "preserves (pipeline_frame b) (touch_workspace w)"
  by (rule preserves_frame, simp add: frame_updates pipeline_frame_refl run_process_def touch_workspace_def
      Let_def split: proc_outcome.split)+

lemma frame_clone_commands [pres]: "preserves (pipeline_frame b) (run_clone_commands h dir cs)"
proof (induction cs)
  case (Cons c cs)
  then show ?case unfolding run_clone_commands.simps by (intro pres) simp_all
qed (simp only: run_clone_commands.simps preserves_ret)

lemma frame_clone_handler [pres]: "preserves (pipeline_frame b) (clone_handler dir e)"
  by (cases e) (simp_all add: clone_handler_def pres)

lemma frame_clone [pres]: "preserves (pipeline_frame b) (clone_repository h url ref parent)"
  unfolding clone_repository_def resolve_commit_sha_def Let_def by (intro pres; simp)

lemma frame_steps [pres]:
  "preserves (pipeline_frame b) (add_event clock rid ty msg)"
  "preserves (pipeline_frame b) (index_event clock rid ty msg)"
  "preserves (pipeline_frame b) (transition i t)"
  unfolding add_event_def index_event_def transition_def by (intro pres; simp)+

lemma frame_stages [pres]:
  "preserves (pipeline_frame b) (fail_run env i rid v c m)"
  "preserves (pipeline_frame b) (upsert_revision env i sha ref)"
  "preserves (pipeline_frame b) (replace_for_revision vid fs)"
  "preserves (pipeline_frame b) (finish_run env i rid vid scan)"
  "preserves (pipeline_frame b) (create_run env own r ref)"
  "preserves (pipeline_frame b) (insert_new_repository env own n ref)"
  unfolding fail_run_def upsert_revision_def replace_for_revision_def finish_run_def create_run_def
    insert_new_repository_def Let_def
  by (intro pres; simp)+

lemma frame_after_clone [pres]: "preserves (pipeline_frame b) (after_clone env i clone ref)"
  unfolding after_clone_def by (intro pres; simp)

lemma frame_scan_and_store [pres]: "preserves (pipeline_frame b) (scan_and_store env i rid v w)"
  unfolding scan_and_store_def by (intro pres; simp)

lemma frame_ingest_workspace [pres]: "preserves (pipeline_frame b) (ingest_workspace env i rid ref clone)"
  unfolding ingest_workspace_def by (intro pres; simp)

lemma frame_new_index_run [pres]: "preserves (pipeline_frame b) (new_index_run ienv own r v cid ip)"
  unfolding new_index_run_def by (intro pres)

lemma frame_pipeline [pres]:
  "preserves (pipeline_frame b) (ingest env i rid)"
  "preserves (pipeline_frame b) (create_repository env own url ref cid ip)"
  "preserves (pipeline_frame b) (sync_repository env own i ref cid ip)"
  "preserves (pipeline_frame b) (mark_deleting env own i cid ip)"
  "preserves (pipeline_frame b) (delete_workspace_and_mark_deleted env i)"
  "preserves (pipeline_frame b) (cleanup_repository i)"
  "preserves (pipeline_frame b) (create_index_run ienv own i cid ip)"
  unfolding ingest_def create_repository_def sync_repository_def mark_deleting_def
    delete_workspace_and_mark_deleted_def cleanup_repository_def create_index_run_def Let_def
  by (intro pres; simp)+

lemma commit_frame:
  assumes "\<And>b. preserves (pipeline_frame b) m"
  shows "preserves (pipeline_frame b) (commit_or_rollback m)"
proof (rule preserves_frame)
  fix s
  obtain r t where t: "m s = (r, t)" by fastforce
  have f: "pipeline_frame s t" using preservesD [OF assms pipeline_frame_refl t] .
  then have "pipeline_frame s (rollback s t)"
    by (simp add: pipeline_frame_def auth_same_def rollback_def unindexed_def)
  with f t show "pipeline_frame s (snd (commit_or_rollback m s))"
    by (cases r) (simp_all add: commit_or_rollback_def)
qed

lemma frame_tasks [pres]:
  "preserves (pipeline_frame b) (worker_ingest env i rid)"
  "preserves (pipeline_frame b) (cleanup_repository_workspace env i)"
  unfolding worker_ingest_def cleanup_repository_workspace_def
  by (rule commit_frame, intro pres)+

text \<open>The frame of the session endpoints: only accounts, tokens, audit rows and counters change.\<close>

definition session_frame :: "db \<Rightarrow> db \<Rightarrow> bool" where
  "session_frame s t \<longleftrightarrow> events t = events s \<and> runs t = runs s \<and> repositories t = repositories s
     \<and> files t = files s \<and> revisions t = revisions s \<and> next_uuid s \<le> next_uuid t
     \<and> snapshots t = snapshots s \<and> chunks t = chunks s \<and> symbols t = symbols s"

lemma session_frame_refl: "session_frame s s"
  by (simp add: session_frame_def)

lemma preserves_session: "(\<And>s. session_frame s (snd (m s))) \<Longrightarrow> preserves (session_frame b) m"
  by (rule preservesI) (simp add: session_frame_def, meson order_trans)

lemma session_rows [pres]:
  "preserves (session_frame b) uuid4" "preserves (session_frame b) (utcnow c)"
  "preserves (session_frame b) (draw_secret f)" "preserves (session_frame b) (insert_user u)"
  "preserves (session_frame b) (insert_refresh_token r)" "preserves (session_frame b) (insert_audit_log l)"
  "preserves (session_frame b) (set_user i g)" "preserves (session_frame b) (set_token i h)"
  "preserves (session_frame b) (revoke_family i now)" "preserves (session_frame b) (revoke_all i now)"
  by (rule preserves_session, simp add: session_frame_def insert_user_def insert_refresh_token_def
      insert_audit_log_def add_row_app set_user_def set_token_def revoke_family_def revoke_all_def revoke_where_def)+

lemma session_steps [pres]:
  "preserves (session_frame b) (audit env action result cid ip actor details)"
  "preserves (session_frame b) (create_access_token env uid role)"
  "preserves (session_frame b) (generate_refresh_token env)"
  "preserves (session_frame b) (hash_password env pw)"
  "preserves (session_frame b) (generate_csrf_token env)"
  unfolding audit_def create_access_token_def generate_refresh_token_def hash_password_def generate_csrf_token_def Let_def
  by (intro pres)+

lemma session_new [pres]:
  "preserves (session_frame b) (new_session env u ua)"
  "preserves (session_frame b) (exchange_token env now c u cid ip ua)"
  unfolding new_session_def exchange_token_def by (intro pres)+

lemma session_operations [pres]:
  "preserves (session_frame b) (register env email pw name cid ip ua)"
  "preserves (session_frame b) (login env email pw cid ip ua)"
  "preserves (session_frame b) (rotate_token env tok cid ip ua)"
  "preserves (session_frame b) (logout env tok cid ip)"
  "preserves (session_frame b) (logout_all env uid cid ip)"
  unfolding register_def login_def rotate_token_def logout_def logout_all_def Let_def
  by (intro pres)+

lemma commit_session:
  assumes "preserves (session_frame b) m"
  shows "preserves (session_frame b) (commit_auth_operation m)" "preserves (session_frame b) (commit_or_rollback m)"
proof -
  have "session_frame b (snd (commit_auth_operation m s)) \<and> session_frame b (snd (commit_or_rollback m s))"
    if "session_frame b s" for s
  proof (cases "m s")
    case (Pair r t)
    have "session_frame b t" using preservesD [OF assms that Pair] .
    moreover from this have "session_frame b (rollback s t)" using that by (simp add: session_frame_def rollback_def)
    ultimately show ?thesis using Pair by (cases r) (simp_all add: commit_auth_operation_def commit_or_rollback_def)
  qed
  then show "preserves (session_frame b) (commit_auth_operation m)" "preserves (session_frame b) (commit_or_rollback m)"
    by (simp_all add: preserves_def)
qed

lemma session_register_endpoint [pres]:
  "preserves (session_frame b) (register_endpoint env email pw name cid ip ua)"
  unfolding register_endpoint_def
  by (rule preserves_catch) (intro commit_session pres, auto intro: pres split: exn.splits)

text \<open>The keys and identifiers of the rows, which \<open>IngestTotal\<close> relies on.\<close>

lemma integrity_index_event [pres]:
  "preserves integrity (index_event clock rid ty msg)" "preserves (drawn i) (index_event clock rid ty msg)"
proof -
  show integrity: "preserves integrity (index_event clock rid ty msg)" for clock rid ty msg
    unfolding index_event_def by (intro pres) simp
  show "preserves (drawn i) (index_event clock rid ty msg)"
    by (rule drawn_safe [OF integrity]) (simp add: index_event_def next_sequence_app insert_event_def add_row_app)
qed

lemma integrity_index_requests [pres]:
  "preserves integrity (new_index_run ienv own r v cid ip)" "preserves integrity (cleanup_repository i)"
  unfolding new_index_run_def cleanup_repository_def Let_def by (intro pres; simp)+

lemma integrity_create_index_run [pres]: "preserves integrity (create_index_run ienv own i cid ip)"
  unfolding create_index_run_def Let_def by (intro pres)

lemma integrity_commit:
  assumes "preserves integrity m" "\<And>b. preserves (pipeline_frame b) m"
  shows "preserves integrity (commit_or_rollback m)"
proof (rule preservesI)
  fix s assume s: "integrity s"
  obtain r t where m: "m s = (r, t)" by fastforce
  have "pipeline_frame s t" using preservesD [OF assms(2) pipeline_frame_refl m] .
  then have "integrity (rollback s t)"
    by (intro integrity_mono [OF s]) (auto simp: pipeline_frame_def auth_same_def rollback_def)
  moreover have "integrity t" using presD [OF assms(1) s] m by simp
  ultimately show "integrity (snd (commit_or_rollback m s))" using m by (cases r) (simp_all add: commit_or_rollback_def)
qed

section \<open>The system\<close>

text \<open>A request names an endpoint and its parameters.\<close>

datatype api_call =
    Register string string string
  | Login string string
  | Refresh
  | Logout
  | LogoutAll
  | Me
  | CreateRepository string "string option"
  | ListRepositories
  | GetRepository uuid
  | DeleteRepository uuid
  | SyncRepository uuid "string option"
  | ListFiles uuid
  | GetRun uuid
  | ListRunEvents uuid
  | IndexRepository uuid
  | IndexStatus uuid
  | ListSymbols uuid symbols_query
  | SearchRepository uuid search_query

fun handle :: "'r http_env \<Rightarrow> string \<Rightarrow> request \<Rightarrow> api_call \<Rightarrow> 'r world \<Rightarrow> 'r world" where
  "handle env ctx rq (Register email password name) w = snd (register_route env ctx rq email password name w)"
| "handle env ctx rq (Login email password) w = snd (login_route env ctx rq email password w)"
| "handle env ctx rq Refresh w = snd (refresh_route env ctx rq w)"
| "handle env ctx rq Logout w = snd (logout_route env ctx rq w)"
| "handle env ctx rq LogoutAll w = snd (logout_all_route env ctx rq w)"
| "handle env ctx rq Me w = snd (me_route env rq w)"
| "handle env ctx rq (CreateRepository url ref) w = snd (create_repository_route env ctx rq url ref w)"
| "handle env ctx rq ListRepositories w = snd (list_repositories_route env rq w)"
| "handle env ctx rq (GetRepository i) w = snd (get_repository_route env rq i w)"
| "handle env ctx rq (DeleteRepository i) w = snd (delete_repository_route env ctx rq i w)"
| "handle env ctx rq (SyncRepository i ref) w = snd (sync_repository_route env ctx rq i ref w)"
| "handle env ctx rq (ListFiles i) w = snd (list_repository_files_route env rq i w)"
| "handle env ctx rq (GetRun k) w = snd (get_run_route env rq k w)"
| "handle env ctx rq (ListRunEvents k) w = snd (list_run_events_route env rq k w)"
| "handle env ctx rq (IndexRepository i) w = snd (index_repository_route env ctx rq i w)"
| "handle env ctx rq (IndexStatus i) w = snd (index_status_route env rq i w)"
| "handle env ctx rq (ListSymbols i q) w = snd (list_symbols_route env rq i q w)"
| "handle env ctx rq (SearchRepository i q) w = snd (search_repository_route env rq i q w)"

text \<open>
  A request passes the middleware, which draws its identifier; a worker takes any task, which
  stays in the queue when it is to be delivered again; Redis may change for any reason.
\<close>

inductive system_step :: "'r http_env \<Rightarrow> 'r world \<Rightarrow> 'r world \<Rightarrow> bool" for env where
  request: "system_step env w (handle env (request_id rq w) rq call (drawn_uuid w))"
| deliver: "task \<in> set (w_tasks w) \<Longrightarrow> set rest \<subseteq> set (w_tasks w) \<Longrightarrow>
    system_step env w (w\<lparr>w_db := snd (consume env task (w_db w)), w_tasks := rest\<rparr>)"
| redis: "system_step env w (w\<lparr>w_redis := r\<rparr>)"

inductive_cases system_stepE: "system_step env w v"

section \<open>The invariant of the system\<close>

text \<open>A message of the queue is for a task the API sends, about rows that exist.\<close>

definition task_ok :: "db \<Rightarrow> string \<times> string list \<Rightarrow> bool" where
  "task_ok s task \<longleftrightarrow> (\<exists>i \<in> repo_id ` set (repositories s).
     task = (''app.workers.tasks.cleanup_repository_workspace'', [uuid_str i])
     \<or> (\<exists>k \<in> run_id ` set (runs s).
          fst task \<in> {''app.workers.tasks.ingest_repository'', ''app.workers.tasks.index_repository''}
          \<and> snd task = [uuid_str i, uuid_str k]))"

definition system_ok :: "refresh_token list \<Rightarrow> 'r world \<Rightarrow> bool" where
  "system_ok ts w \<longleftrightarrow> kept ts (w_db w) \<and> numbered (w_db w) \<and> unindexed (w_db w) \<and> integrity (w_db w)
     \<and> list_all (task_ok (w_db w)) (w_tasks w)"

text \<open>What every transaction of the system does to the database.\<close>

definition sound :: "db \<Rightarrow> db \<Rightarrow> bool" where
  "sound s t \<longleftrightarrow> (\<forall>ts. kept ts s \<longrightarrow> kept ts t) \<and> (numbered s \<longrightarrow> numbered t) \<and> (unindexed s \<longrightarrow> unindexed t)
     \<and> (integrity s \<longrightarrow> integrity t)
     \<and> repo_id ` set (repositories s) \<subseteq> repo_id ` set (repositories t) \<and> run_id ` set (runs s) \<subseteq> run_id ` set (runs t)"

lemma sound_refl: "sound s s"
  by (simp add: sound_def)

lemma sound_trans: "sound s t \<Longrightarrow> sound t u \<Longrightarrow> sound s u"
  unfolding sound_def by (meson subset_trans)

lemma sound_pipeline:
  assumes "\<And>b. preserves (pipeline_frame b) m" "preserves numbered m" "preserves integrity m"
  shows "sound s (snd (m s))"
proof -
  have f: "pipeline_frame s (snd (m s))" using presD [OF assms(1) pipeline_frame_refl] .
  then have "kept ts (snd (m s))" if "kept ts s" for ts
    using that by (auto simp: pipeline_frame_def intro: kept_same)
  with f presD [OF assms(2)] presD [OF assms(3)] show ?thesis by (simp add: sound_def pipeline_frame_def)
qed

lemma sound_session:
  assumes "preserves (session_frame s) m" "\<And>ts. preserves (kept ts) m"
  shows "sound s (snd (m s))"
proof -
  have f: "session_frame s (snd (m s))" using presD [OF assms(1) session_frame_refl] .
  then have "integrity s \<Longrightarrow> integrity (snd (m s))"
    using integrity_mono [of s "snd (m s)"] by (simp add: session_frame_def)
  with f show ?thesis
    using presD [where I = "kept _", OF assms(2)] numbered_frame [of "snd (m s)" s]
    by (simp add: sound_def session_frame_def unindexed_def)
qed

lemma task_ok_mono: "task_ok s x \<Longrightarrow> sound s t \<Longrightarrow> task_ok t x"
  unfolding task_ok_def sound_def by blast

lemma system_ok_db:
  assumes "system_ok ts w" "sound (w_db w) s"
  shows "system_ok ts (w\<lparr>w_db := s\<rparr>)"
proof -
  have "task_ok s x" if "x \<in> set (w_tasks w)" for x
    using that assms by (auto simp: system_ok_def list_all_iff intro: task_ok_mono)
  with assms show ?thesis by (simp add: system_ok_def sound_def list_all_iff)
qed

lemma system_ok_redis [simp]: "system_ok ts (w\<lparr>w_redis := r\<rparr>) = system_ok ts w"
  by (simp add: system_ok_def)

text \<open>Preservation for the parts of an endpoint.\<close>

lemma system_on_redis [pres]: "preserves (system_ok ts) (on_redis m)"
  by (rule preservesI) (simp add: on_redis_def split: prod.split)

lemma system_on_db [pres]:
  assumes "\<And>s. sound s (snd (m s))"
  shows "preserves (system_ok ts) (on_db m)"
proof (rule preservesI)
  fix w assume ok: "system_ok ts w"
  obtain r t where m: "m (w_db w) = (r, t)" by fastforce
  then have "sound (w_db w) t" using assms [of "w_db w"] by simp
  then show "system_ok ts (snd (on_db m w))" using system_ok_db [OF ok] m by (simp add: on_db_def)
qed

lemma system_send:
  fixes f :: "'a \<Rightarrow> ('r world, 'c) py"
  assumes "\<And>s. sound s (snd (m s))"
    and "\<And>s x t. m s = (Inr x, t) \<Longrightarrow> list_all (task_ok t) (sent x)"
    and "\<And>x w. snd (f x w) = w\<lparr>w_tasks := w_tasks w @ sent x\<rparr>"
  shows "preserves (system_ok ts) (bindp (on_db m) f)"
proof (rule preservesI)
  fix w :: "'r world" assume ok: "system_ok ts w"
  obtain r t where m: "m (w_db w) = (r, t)" by fastforce
  have ok1: "system_ok ts (w\<lparr>w_db := t\<rparr>)"
    using system_ok_db [OF ok] assms(1) [of "w_db w"] m by simp
  show "system_ok ts (snd (bindp (on_db m) f w))"
  proof (cases r)
    case (Inl e)
    then show ?thesis using ok1 m by (simp add: bindp_def on_db_def)
  next
    case (Inr x)
    then show ?thesis
      using ok1 m assms(2) [of "w_db w" x t] assms(3) [of x "w\<lparr>w_db := t\<rparr>"]
      by (simp add: bindp_def on_db_def system_ok_def)
  qed
qed

lemma sound_same: "snd (m s) = s \<Longrightarrow> sound s (snd (m s))"
  by (simp add: sound_refl)

lemma sound_bind:
  assumes "\<And>s. sound s (snd (m s))" "\<And>x s. sound s (snd (f x s))"
  shows "sound s (snd (bindp m f s))"
proof -
  obtain r t where m: "m s = (r, t)" by fastforce
  then have "sound s t" using assms(1) [of s] by simp
  then show ?thesis using m assms(2) by (cases r) (auto simp: bindp_def intro: sound_trans)
qed


section \<open>Every endpoint keeps the invariant\<close>

text \<open>Reading changes nothing.\<close>

lemma preserves_reads [pres]:
  "preserves I (require_repository own i)" "preserves I (require_run own k)"
  "preserves I (repositories_for_owner own)" "preserves I (files_for_revision v)"
  "preserves I (events_for_run k)" "preserves I (latest_snapshot i)" "preserves I (latest_ready_snapshot i)"
  "preserves I (symbols_for_repository_revision i v ty name path limit offset)"
  "preserves I (chunks_for_repository_revision i v path_prefix language)" "preserves I (run_owned_by_id own k)"
  unfolding require_repository_def require_run_def repository_owned_by_id_def run_owned_by_id_def
    repositories_for_owner_def files_for_revision_def events_for_run_def latest_snapshot_def
    latest_ready_snapshot_def symbols_for_repository_revision_def chunks_for_repository_revision_def
  by (intro pres)+

lemma preserves_index_reads [pres]:
  "preserves I (get_index_status own i)" "preserves I (list_symbols own i rv ty name path limit offset)"
  "preserves I (loaded_row (get_repository_row i))" "preserves I (loaded_row (get_run_row k))"
  unfolding get_index_status_def list_symbols_def loaded_row_def Let_def by (intro pres)+

lemma sound_read: "(\<And>I. preserves I m) \<Longrightarrow> sound s (snd (m s))"
  using presD [where I = "\<lambda>t. t = s" and m = m and s = s] by (simp add: sound_refl)

lemma query_vector_state: "snd (query_vector env q s) = s\<lparr>ticks := Suc (ticks s)\<rparr>"
  by (simp add: query_vector_def external_def bindp_def split: sum.split list.split)

lemma query_vector_frames [pres]:
  "preserves (pipeline_frame b) (query_vector env q)" "preserves numbered (query_vector env q)"
  "preserves integrity (query_vector env q)"
  by (rule preserves_frame, simp add: query_vector_state frame_updates)
    (rule preserves_events preserves_integrity, simp add: query_vector_state)+

lemma search_frames [pres]:
  "preserves (pipeline_frame b) (search env own i q rv path_prefix language k meth)"
  "preserves numbered (search env own i q rv path_prefix language k meth)"
  "preserves integrity (search env own i q rv path_prefix language k meth)"
  unfolding search_def search_chunks_def by (intro pres)+

lemma sound_search: "sound s (snd (search env own i q rv path_prefix language k meth s))"
  by (intro sound_pipeline pres)

lemma system_current_user [pres]: "preserves (system_ok ts) (get_current_user env rq)"
  unfolding get_current_user_def by (intro pres sound_read)

lemma system_limit [pres]: "preserves (system_ok ts) (limit_auth env rq scope limit)"
  unfolding limit_auth_def by (rule system_on_redis)

lemma sound_services:
  "sound s (snd (register_endpoint env email pw name cid ip ua s))"
  "sound s (snd (commit_auth_operation (login env email pw cid ip ua) s))"
  "sound s (snd (commit_auth_operation (rotate_token env raw cid ip ua) s))"
  "sound s (snd (commit_or_rollback (logout env raw cid ip) s))"
  "sound s (snd (commit_or_rollback (logout_all env uid cid ip) s))"
proof -
  have k: "preserves (kept ts) (register_endpoint env email pw name cid ip ua)" for ts
    using kept_auth_exec [of ts _ env "CallRegister email pw name cid ip ua"] by (simp add: preserves_def)
  show "sound s (snd (register_endpoint env email pw name cid ip ua s))"
    by (intro sound_session session_register_endpoint k)
qed (intro sound_session commit_session kept_commit pres)+

lemma sound_csrf_token: "sound s (snd (set_session_cookies env res s))"
  by (rule sound_session)
    (simp_all add: set_session_cookies_def generate_csrf_token_def Let_def pres preserves_def auth_same_def
      session_frame_def, auto intro: kept_same simp: auth_same_def)

lemma system_session_answer [pres]:
  assumes "\<And>s. sound s (snd (operation s))"
  shows "preserves (system_ok ts) (session_answer env operation)"
  unfolding session_answer_def by (intro pres assms sound_csrf_token)

lemma system_session_routes [pres]:
  "preserves (system_ok ts) (register_route env ctx rq email password name)"
  "preserves (system_ok ts) (login_route env ctx rq email password)"
  "preserves (system_ok ts) (refresh_route env ctx rq)"
  "preserves (system_ok ts) (logout_route env ctx rq)"
  "preserves (system_ok ts) (logout_all_route env ctx rq)"
  "preserves (system_ok ts) (me_route env rq)"
  unfolding register_route_def login_route_def refresh_route_def logout_route_def logout_all_route_def me_route_def
  by (intro pres sound_services)+

lemma system_read_routes [pres]:
  "preserves (system_ok ts) (list_repositories_route env rq)"
  "preserves (system_ok ts) (get_repository_route env rq i)"
  "preserves (system_ok ts) (list_repository_files_route env rq i)"
  "preserves (system_ok ts) (get_run_route env rq k)"
  "preserves (system_ok ts) (list_run_events_route env rq k)"
  "preserves (system_ok ts) (index_status_route env rq i)"
  "preserves (system_ok ts) (list_symbols_route env rq i sq)"
  "preserves (system_ok ts) (search_repository_route env rq i eq)"
  unfolding list_repositories_route_def get_repository_route_def list_repository_files_route_def get_run_route_def
    list_run_events_route_def index_status_route_def list_symbols_route_def search_repository_route_def
  by (intro pres sound_read sound_search)+

lemma preserves_input_error [pres]: "preserves I m \<Longrightarrow> preserves I (bad_request_on_input_error m)"
  unfolding bad_request_on_input_error_def by (rule preserves_catch) (auto intro: pres split: exn.splits)

lemma sound_committed:
  assumes "\<And>b. preserves (pipeline_frame b) m" "preserves numbered m" "preserves integrity m"
  shows "sound s (snd (commit_or_rollback m s))"
  by (intro sound_pipeline commit_frame numbered_commit integrity_commit assms)

lemma sound_requests:
  "sound s (snd (create_repository_answer env ctx rq u url ref s))"
  "sound s (snd (sync_repository_answer env ctx rq u i ref s))"
  "sound s (snd (commit_or_rollback (bindp (mark_deleting ienv own i cid ip) (\<lambda>k. loaded_row (get_repository_row k))) s))"
  "sound s (snd (commit_or_rollback (create_index_run xenv own i cid ip) s))"
  unfolding create_repository_answer_def sync_repository_answer_def
  by (rule sound_committed; intro pres)+

text \<open>The messages a request sends are about rows its transaction has stored.\<close>

lemma new_index_run_row:
  assumes "new_index_run env own row v cid ip s = (Inr k, t)"
  shows "k \<in> run_id ` set (runs t)"
  using assms
  by (auto simp: new_index_run_def bindp_eq_Inr thenp_eq_Inr insert_run_def add_row_app index_event_def
      insert_event_def next_sequence_def split: if_split_asm)

lemma create_index_run_rows:
  assumes "create_index_run env own i cid ip s = (Inr (r, k, created), t)"
  shows "r \<in> repo_id ` set (repositories t) \<and> k \<in> run_id ` set (runs t)"
proof -
  obtain found where q: "scalar_one_or_none (filter (\<lambda>r. repo_id r = i \<and> repo_owner_id r = own
        \<and> repo_deleted_at r = None) (repositories s)) = Inr found"
    and c: "(case found of None \<Rightarrow> raise (AppErr not_found) | Some repository \<Rightarrow>
        (case repo_latest_revision_id repository of
           None \<Rightarrow> raise (AppErr (Conflict ''Repository has no revision to index''))
         | Some revision_id \<Rightarrow>
            bindp (active_for_repository (repo_id repository) (Some run_type_indexing)) (\<lambda>active. case active of
              Some run \<Rightarrow> ret (repo_id repository, run_id run, False)
            | None \<Rightarrow>
               bindp (new_index_run env own repository revision_id cid ip) (\<lambda>i.
               ret (repo_id repository, i, True))))) s = (Inr (r, k, created), t)"
    using assms unfolding create_index_run_def bindp_eq_Inr repository_owned_by_id_def by auto
  obtain row vid where row: "found = Some row" "repo_latest_revision_id row = Some vid"
    using c by (cases found; cases "repo_latest_revision_id (the found)") (auto simp: raise_def)
  obtain active s1 where active: "active_for_repository (repo_id row) (Some run_type_indexing) s = (Inr active, s1)"
    and rest: "(case active of Some run \<Rightarrow> ret (repo_id row, run_id run, False)
      | None \<Rightarrow> bindp (new_index_run env own row vid cid ip) (\<lambda>i. ret (repo_id row, i, True))) s1
      = (Inr (r, k, created), t)"
    using c row by (auto simp: bindp_eq_Inr)
  have stored: "row \<in> set (repositories s)" using q row(1) by (auto simp: scalar_one_or_none_Some filter_eq_Cons_iff)
  show ?thesis
  proof (cases active)
    case (Some run)
    then show ?thesis using rest active stored
      by (auto simp: active_for_repository_def dest!: scalars_first_in)
  next
    case None
    have s1: "s1 = s" using active by (auto simp: active_for_repository_def)
    have new: "new_index_run env own row vid cid ip s = (Inr k, t)" using rest None s1 by (auto simp: bindp_eq_Inr)
    have "pipeline_frame s t"
      using presD [where I = "pipeline_frame s", OF frame_new_index_run pipeline_frame_refl] new by (metis snd_conv)
    with new_index_run_row [OF new] rest None stored show ?thesis by (auto simp: pipeline_frame_def bindp_eq_Inr)
  qed
qed

lemma ids_of_rows:
  "r \<in> repository_schema_of ` set rs \<Longrightarrow> rp_id r \<in> repo_id ` set rs"
  "q \<in> agent_run_schema_of ` set qs \<Longrightarrow> ra_id q \<in> run_id ` set qs"
  by (auto simp: repository_schema_of_def agent_run_schema_of_def)

lemma committed_value: "commit_or_rollback m s = (Inr x, t) \<Longrightarrow> m s = (Inr x, t)"
  by (auto simp: commit_or_rollback_def split: prod.split_asm sum.split_asm)

lemma system_create [pres]: "preserves (system_ok ts) (create_repository_route env ctx rq url ref)"
  unfolding create_repository_route_def
proof (rule preserves_bindp [OF system_current_user])
  fix u
  let ?sent = "\<lambda>(r, run). case run of None \<Rightarrow> []
    | Some q \<Rightarrow> [(''app.workers.tasks.ingest_repository'', [uuid_str (rp_id r), uuid_str (ra_id q)])]"
  show "preserves (system_ok ts) (bindp (on_db (create_repository_answer env ctx rq u url ref)) (\<lambda>(r, run).
     thenp (case run of None \<Rightarrow> ret () | Some q \<Rightarrow> enqueue_ingestion (rp_id r) (ra_id q)) (ret (r, run))))"
  proof (rule system_send [where sent = ?sent, OF sound_requests(1)])
    fix s x t assume "create_repository_answer env ctx rq u url ref s = (Inr x, t)"
    then show "list_all (task_ok t) (?sent x)"
      using ids_of_rows create_answer_rows by (fastforce simp: task_ok_def split: prod.split option.split)
  qed (auto simp: enqueue_ingestion_def send_task_def split: option.split)
qed

lemma system_sync [pres]: "preserves (system_ok ts) (sync_repository_route env ctx rq i ref)"
  unfolding sync_repository_route_def
proof (rule preserves_bindp [OF system_current_user])
  fix u
  let ?sent = "\<lambda>(r, q). [(''app.workers.tasks.ingest_repository'', [uuid_str (rp_id r), uuid_str (ra_id q)])]"
  show "preserves (system_ok ts) (bindp (on_db (sync_repository_answer env ctx rq u i ref)) (\<lambda>(r, q).
     thenp (enqueue_ingestion (rp_id r) (ra_id q)) (ret (r, q))))"
  proof (rule system_send [where sent = ?sent, OF sound_requests(2)])
    fix s x t assume "sync_repository_answer env ctx rq u i ref s = (Inr x, t)"
    then show "list_all (task_ok t) (?sent x)"
      using ids_of_rows sync_answer_rows by (fastforce simp: task_ok_def split: prod.split)
  qed (auto simp: enqueue_ingestion_def send_task_def)
qed

lemma system_delete [pres]: "preserves (system_ok ts) (delete_repository_route env ctx rq i)"
  unfolding delete_repository_route_def
proof (rule preserves_bindp [OF system_current_user])
  fix u
  let ?m = "commit_or_rollback (bindp (mark_deleting (he_ingest env) (user_id u) i (get_correlation_id ctx) (client_ip rq))
      (\<lambda>k. loaded_row (get_repository_row k)))"
  let ?sent = "\<lambda>r. [(''app.workers.tasks.cleanup_repository_workspace'', [uuid_str (repo_id r)])]"
  show "preserves (system_ok ts) (bindp (on_db ?m) (\<lambda>r.
     thenp (send_task ''app.workers.tasks.cleanup_repository_workspace'' [uuid_str (repo_id r)])
       (ret (repository_schema_of r, ''/api/v1/repositories/'' @ uuid_str (repo_id r)))))"
  proof (rule system_send [where sent = ?sent, OF sound_requests(3)])
    fix s x t assume "?m s = (Inr x, t)"
    from committed_value [OF this] obtain k s' where "loaded_row (get_repository_row k) s' = (Inr x, t)"
      by (auto simp: bindp_eq_Inr)
    from get_repository_row_Inr [OF loaded_row_Inr [OF this]] show "list_all (task_ok t) (?sent x)"
      by (auto simp: task_ok_def)
  qed (auto simp: send_task_def)
qed

lemma system_index [pres]: "preserves (system_ok ts) (index_repository_route env ctx rq i)"
  unfolding index_repository_route_def
proof (rule preserves_bindp [OF system_current_user])
  fix u
  let ?m = "commit_or_rollback (create_index_run (index_env.truncate (he_search env)) (user_id u) i
      (get_correlation_id ctx) (client_ip rq))"
  let ?sent = "\<lambda>(r, k, created). if created then [(''app.workers.tasks.index_repository'', [uuid_str r, uuid_str k])] else []"
  show "preserves (system_ok ts) (bindp (on_db ?m) (\<lambda>(r, run, created).
     thenp (if created then enqueue_indexing r run else ret ()) (ret (run, r))))"
  proof (rule system_send [where sent = ?sent, OF sound_requests(4)])
    fix s x t assume "?m s = (Inr x, t)"
    from committed_value [OF this] show "list_all (task_ok t) (?sent x)"
      by (cases x) (auto simp: task_ok_def dest!: create_index_run_rows)
  qed (auto simp: enqueue_indexing_def send_task_def)
qed

lemma system_handle: "system_ok ts w \<Longrightarrow> system_ok ts (handle env ctx rq call w)"
  by (cases call; simp only: handle.simps; rule presD [where I = "system_ok ts"];
      (assumption | rule system_session_routes system_read_routes system_create system_sync system_delete system_index))

lemma system_drawn: "system_ok ts w \<Longrightarrow> system_ok ts (drawn_uuid w)"
  unfolding drawn_uuid_def
  by (rule system_ok_db) (auto simp: sound_def unindexed_def auth_same_def intro: kept_same numbered_frame [THEN iffD2] integrity_mono)

section \<open>The workers\<close>

lemma numbered_tasks: "preserves numbered (worker_ingest env i k)" "preserves numbered (cleanup_repository_workspace env i)"
  unfolding worker_ingest_def cleanup_repository_workspace_def by (rule numbered_commit; intro pres)+

lemma integrity_tasks: "preserves integrity (worker_ingest env i k)" "preserves integrity (cleanup_repository_workspace env i)"
  unfolding worker_ingest_def cleanup_repository_workspace_def by (rule integrity_commit; intro pres)+

lemma sound_tasks: "sound s (snd (worker_ingest env i k s))" "sound s (snd (cleanup_repository_workspace env i s))"
  by (intro sound_pipeline frame_tasks numbered_tasks integrity_tasks)+

lemma sound_parsed: "(\<And>i s. sound s (snd (f i s))) \<Longrightarrow> sound s (snd (bindp (parsed_uuid r) f s))"
  by (rule sound_bind) (auto simp: parsed_uuid_def sound_refl split: option.split)

lemma sound_consume: "sound s (snd (consume env task s))"
proof -
  have "sound s (snd (ingest_repository_task env args s))" for args
    unfolding ingest_repository_task_def
    by (auto simp: sound_refl split: list.split intro!: sound_parsed sound_tasks)
  moreover have "sound s (snd (cleanup_repository_workspace_task env args s))" for args
    unfolding cleanup_repository_workspace_task_def
    by (auto simp: sound_refl split: list.split intro!: sound_parsed sound_tasks)
  ultimately show ?thesis by (simp add: consume_def registered_tasks_def sound_refl)
qed

lemma system_ok_rest: "system_ok ts w \<Longrightarrow> set rest \<subseteq> set (w_tasks w) \<Longrightarrow> system_ok ts (w\<lparr>w_tasks := rest\<rparr>)"
  by (auto simp: system_ok_def list_all_iff)

lemma system_ok_step:
  assumes "system_step env w u" "system_ok ts w"
  shows "system_ok ts u"
  using assms(1)
proof cases
  case (deliver task rest)
  have "system_ok ts (w\<lparr>w_tasks := rest\<rparr>)" using system_ok_rest [OF assms(2) deliver(3)] .
  from system_ok_db [OF this, of "snd (consume env task (w_db w))"]
  have "system_ok ts (w\<lparr>w_tasks := rest\<rparr>\<lparr>w_db := snd (consume env task (w_db w))\<rparr>)"
    using sound_consume [of "w_db w" env task] by simp
  moreover have "w\<lparr>w_tasks := rest\<rparr>\<lparr>w_db := snd (consume env task (w_db w))\<rparr> = u"
    unfolding deliver(1) by (rule world.equality) simp_all
  ultimately show ?thesis by simp
qed (use assms(2) in \<open>auto intro: system_handle system_drawn\<close>)

section \<open>Reachable states\<close>

definition initial :: "'r world \<Rightarrow> bool" where
  "initial w \<longleftrightarrow> w_db w = empty_db \<and> w_tasks w = []"

lemma system_ok_initial: "initial w \<Longrightarrow> system_ok [] w"
  by (simp add: initial_def system_ok_def kept_def sessions_ok_def users_ok_def tokens_ok_def one_active_def
      evolves_def numbered_def run_events_def unindexed_def integrity_def empty_db_def)

interpretation whole: invariant_system initial "system_step env" "system_ok []" for env
  by unfold_locales (auto intro: system_ok_initial system_ok_step)

interpretation whole_from: invariant_system "system_ok ts" "system_step env" "system_ok ts" for ts env
  by unfold_locales (auto intro: system_ok_step)

text \<open>
  C1: in every state the whole system can reach from the empty one, with requests of all
  endpoints, deliveries and lost Redis keys in any order: e-mail addresses are unique; the refresh
  tokens of one login (one family) belong to one account and at most one of them is not revoked; a
  replaced token is revoked and names its replacement in its own family; the events of every run
  are numbered from 1 without a gap; and every message of the queue names a repository, and a run,
  that are stored.
\<close>

theorem system_invariant:
  assumes "initial w" "reaches (system_step env) w u"
  shows "distinct (map user_email (users (w_db u)))
    \<and> (\<forall>t \<in> set (refresh_tokens (w_db u)). \<forall>q \<in> set (refresh_tokens (w_db u)).
         tok_family_id t = tok_family_id q \<longrightarrow> tok_user_id t = tok_user_id q
           \<and> (tok_revoked_at t = None \<longrightarrow> tok_revoked_at q = None \<longrightarrow> t = q))
    \<and> (\<forall>t \<in> set (refresh_tokens (w_db u)). \<forall>i. tok_replaced_by_id t = Some i \<longrightarrow>
         tok_revoked_at t \<noteq> None
         \<and> (\<exists>q \<in> set (refresh_tokens (w_db u)). tok_id q = i \<and> tok_family_id q = tok_family_id t))
    \<and> (\<forall>k. map event_sequence (run_events k (w_db u)) = map int [1..<Suc (length (run_events k (w_db u)))])
    \<and> list_all (task_ok (w_db u)) (w_tasks u)"
proof -
  have ok: "system_ok [] u" using assms by (rule whole.safe)
  then have s: "sessions_ok (w_db u)" "numbered (w_db u)" "list_all (task_ok (w_db u)) (w_tasks u)"
    by (simp_all add: system_ok_def kept_def)
  have "one_active (refresh_tokens (w_db u))" using s(1) by (simp add: sessions_ok_def tokens_ok_def)
  then have "\<forall>t \<in> set (refresh_tokens (w_db u)). \<forall>q \<in> set (refresh_tokens (w_db u)).
      tok_family_id t = tok_family_id q \<longrightarrow> tok_user_id t = tok_user_id q
        \<and> (tok_revoked_at t = None \<longrightarrow> tok_revoked_at q = None \<longrightarrow> t = q)"
    using one_activeD sessions_ok_row [OF s(1)] by blast
  moreover have "\<forall>t \<in> set (refresh_tokens (w_db u)). \<forall>i. tok_replaced_by_id t = Some i \<longrightarrow>
      tok_revoked_at t \<noteq> None
      \<and> (\<exists>q \<in> set (refresh_tokens (w_db u)). tok_id q = i \<and> tok_family_id q = tok_family_id t)"
    using s(1) by (auto simp: sessions_ok_def tokens_ok_def link_ok_def in_family_ids split: option.splits)
  moreover have "distinct (map user_email (users (w_db u)))" using s(1) by (simp add: sessions_ok_def users_ok_def)
  ultimately show ?thesis using s(2,3) unfolding numbered_def by (intro conjI)
qed

text \<open>
  C8: whatever else the system does, a revoked refresh token stays revoked, at the time it was
  first revoked: no request, task, redelivery or loss of Redis keys makes it usable again.
\<close>

theorem revocation_is_final:
  assumes "system_ok ts w" "reaches (system_step env) w u"
    and "r \<in> set ts" "tok_revoked_at r = Some x"
  shows "\<exists>q \<in> set (refresh_tokens (w_db u)). tok_token_hash q = tok_token_hash r \<and> tok_revoked_at q = Some x"
proof -
  have "system_ok ts u" using assms(1,2) by (rule whole_from.safe)
  then have "evolves ts (refresh_tokens (w_db u))" by (simp add: system_ok_def kept_def)
  with assms(3,4) show ?thesis unfolding evolves_def by (metis option.simps(3))
qed

lemma search_unindexed:
  assumes "unindexed s" "search env own i q rv path_prefix language k meth s = (Inr out, t)"
  shows "out = []"
proof -
  have "search_chunks env j target q path_prefix language n meth s' = (Inr out', t') \<Longrightarrow> s' = s \<Longrightarrow> out' = []"
    for j target n s' out' t'
    using assms(1) by (auto simp: search_chunks_def chunks_for_repository_revision_def selected_chunks_def order_chunks_def
        unindexed_def bindp_eq_Inr)
  with assms(2) show ?thesis
    by (auto simp: search_def bindp_eq_Inr require_def repository_owned_by_id_def split: option.split_asm if_split_asm)
qed

text \<open>
  C23: search never finds anything. The API queues index requests under a name no worker knows,
  so that no reachable state has an index, and a search that answers answers with no evidence,
  whatever was registered, ingested and sent to be indexed before.
\<close>

theorem search_never_finds:
  assumes "system_ok ts w" "reaches (system_step env) w u"
    and "search_repository_route env rq i q u = (Inr found, u')"
  shows "found = []"
proof -
  have "unindexed (w_db u)" using whole_from.safe [OF assms(1,2)] by (simp add: system_ok_def)
  moreover obtain user u1 u2 x where "get_current_user env rq u = (Inr user, u1)"
    and "on_redis (enforce (he_redis env) (he_limits env) ''repository-search''
         (uuid_str (user_id user) @ '':'' @ uuid_str i) (indexing_search_rate_limit (he_settings env)) False) u1 = (Inr x, u2)"
    and "on_db (search (he_search env) (user_id user) i (eq_q q) (eq_revision_id q) (eq_path_prefix q) (eq_language q)
         (Some (eq_top_k q)) (eq_method q)) u2 = (Inr found, u')"
    using assms(3) unfolding search_repository_route_def bindp_eq_Inr thenp_eq_Inr by blast
  moreover from this have "w_db u2 = w_db u"
    using get_current_user_Inr by (fastforce simp: on_redis_def split: prod.split_asm)
  ultimately show ?thesis using search_unindexed by (auto simp: on_db_eq_Inr)
qed

section \<open>Concrete runs\<close>

lemma system_request:
  "reaches (system_step env) w (handle env (request_id rq w) rq call (drawn_uuid w))"
  by (rule reaches_step [OF reaches_refl]) (rule system_step.request)

lemma sample_drawn: "drawn_uuid (sample_world n s) = sample_world n (s\<lparr>next_uuid := Suc (next_uuid s)\<rparr>)"
  by (simp add: drawn_uuid_def sample_world_def)

lemma sample_registration:
  "\<exists>res. fst (register sample_env ''a@b.io'' ''pw'' ''A'' cid ip ua (empty_db\<lparr>next_uuid := 1\<rparr>)) = Inr res
     \<and> map user_email (users (snd (register sample_env ''a@b.io'' ''pw'' ''A'' cid ip ua (empty_db\<lparr>next_uuid := 1\<rparr>)))) = [''a@b.io'']"
proof -
  have "normalize_email ''a@b.io'' = ''a@b.io''" by code_simp
  then show ?thesis
    by (simp add: register_def user_by_email_def insert_user_def hash_password_def audit_state new_session_def
        generate_refresh_token_def insert_refresh_token_def add_row_def create_access_token_eq draw_secret_def
        exists_user_def opt_ref_def Let_def empty_db_def sample_env_def cong: weak_congs)
qed

lemma sample_registered:
  "\<exists>u. w_db (handle sample_http_env ctx forged_request (Register ''a@b.io'' ''pw'' ''A'')
       (sample_world 0 (empty_db\<lparr>next_uuid := 1\<rparr>))) = u \<and> map user_email (users u) = [''a@b.io'']"
proof -
  let ?w = "sample_world 0 (empty_db\<lparr>next_uuid := 1\<rparr>)" and ?rq = forged_request
  obtain w1 where w1: "limit_auth sample_http_env ?rq ''register'' (registration_rate_limit (he_settings sample_http_env)) ?w
      = (Inr (), w1)" "w_db w1 = empty_db\<lparr>next_uuid := 1\<rparr>"
    using quota_left [of ?w 0 "registration_rate_limit (he_settings sample_http_env)" ?rq "''register''"]
    by (auto simp: sample_world_def sample_settings default_settings_def)
  obtain res t where t: "register sample_env ''a@b.io'' ''pw'' ''A'' (get_correlation_id ctx) (client_ip ?rq) (user_agent ?rq)
      (empty_db\<lparr>next_uuid := 1\<rparr>) = (Inr res, t)" "map user_email (users t) = [''a@b.io'']"
    using sample_registration by (metis prod.collapse)
  then show ?thesis using w1
    by (simp add: register_route_def session_answer_def register_endpoint_def commit_auth_operation_def on_db_def
        set_session_cookies_def generate_csrf_token_def draw_secret_def Let_def)
qed

lemma system_invariant_witness:
  "\<exists>u. reaches (system_step sample_http_env) (sample_world 0 empty_db) u
     \<and> map user_email (users (w_db u)) = [''a@b.io''] \<and> distinct (map user_email (users (w_db u)))
     \<and> list_all (task_ok (w_db u)) (w_tasks u)"
proof -
  let ?w = "sample_world 0 empty_db" and ?call = "Register ''a@b.io'' ''pw'' ''A''"
  let ?u = "handle sample_http_env (request_id forged_request ?w) forged_request ?call (drawn_uuid ?w)"
  have r: "reaches (system_step sample_http_env) ?w ?u" by (rule system_request)
  have "initial ?w" by (simp add: initial_def sample_world_def)
  from system_invariant [OF this r] have "list_all (task_ok (w_db ?u)) (w_tasks ?u)"
      "distinct (map user_email (users (w_db ?u)))" by (simp_all only:)
  moreover have "map user_email (users (w_db ?u)) = [''a@b.io'']"
    using sample_registered by (simp add: sample_drawn empty_db_def)
  ultimately show ?thesis using r by (intro exI [of _ ?u] conjI)
qed

lemma revocation_is_final_witness:
  "\<exists>u. reaches (system_step sample_http_env) (sample_world 0 sample_db) u
     \<and> (\<exists>q \<in> set (refresh_tokens (w_db u)). tok_token_hash q = ''#old'' \<and> tok_revoked_at q = Some 5)"
proof -
  let ?w = "sample_world 0 sample_db" and ?call = "Login ''a@b.io'' ''pw''"
  let ?u = "handle sample_http_env (request_id forged_request ?w) forged_request ?call (drawn_uuid ?w)"
  have r: "reaches (system_step sample_http_env) ?w ?u" by (rule system_request)
  have ok: "system_ok (refresh_tokens sample_db) ?w"
    using kept_self [OF sample_db_ok]
    by (simp add: system_ok_def sample_world_def) (simp add: numbered_def run_events_def unindexed_def integrity_def sample_db_def empty_db_def)
  have token: "sample_token 2 ''#old'' (Some 5) (Some 3) \<in> set (refresh_tokens sample_db)"
      "tok_revoked_at (sample_token 2 ''#old'' (Some 5) (Some 3)) = Some 5"
      "tok_token_hash (sample_token 2 ''#old'' (Some 5) (Some 3)) = ''#old''"
    by (simp_all add: sample_db_def sample_token_def)
  show ?thesis
    using revocation_is_final [OF ok r token(1,2)] r unfolding token(3) by (intro exI [of _ ?u] conjI)
qed

definition requested_db :: db where
  "requested_db = unindexed_db\<lparr>next_uuid := 11\<rparr>"

lemma create_index_run_keeps: "preserves (\<lambda>t. users t = us \<and> repositories t = rs) (create_index_run env own i cid ip)"
proof -
  have new: "preserves (\<lambda>t. users t = us \<and> repositories t = rs) (new_index_run env own r vid cid ip)" for r vid
    by (rule preservesI) (simp add: new_index_run_def bindp_def thenp_def insert_run_def add_row_app index_event_def
        insert_event_def next_sequence_def)
  show ?thesis
    unfolding create_index_run_def repository_owned_by_id_def active_for_repository_def by (intro pres new)
qed

lemma requested_index:
  "\<exists>t. create_index_run sample_index_env 0 1 cid ip requested_db = (Inr (1, 11, True), t)
     \<and> users t = [sample_user] \<and> repositories t = [sample_index_repository]"
proof -
  have "fst (create_index_run sample_index_env 0 1 cid ip requested_db) = Inr (1, 11, True)"
    by (simp add: create_index_run_def new_index_run_def repository_owned_by_id_def active_for_repository_def desc_by_def
        requested_db_def unindexed_db_def insert_run_def exists_run_def add_row_def index_event_def next_sequence_def
        insert_event_def exists_user_def opt_ref_def Let_def cong: weak_congs)
  moreover have "users (snd (create_index_run sample_index_env 0 1 cid ip requested_db)) = [sample_user]
      \<and> repositories (snd (create_index_run sample_index_env 0 1 cid ip requested_db)) = [sample_index_repository]"
    by (rule presD [OF create_index_run_keeps]) (simp add: requested_db_def unindexed_db_def)
  ultimately show ?thesis by (metis prod.collapse)
qed

lemma quota_after_user:
  assumes "get_current_user sample_http_env rq w = (Inr u, w')" "\<And>k. fst (w_redis w) k \<le> c"
  shows "fst (w_redis w') k \<le> c + 1"
proof -
  obtain uid where "w' = snd (on_redis (enforce (counting_client False) sample_limits_env ''authenticated'' (uuid_str uid)
      (authenticated_api_rate_limit (he_settings sample_http_env)) False) w)"
    using assms(1)
    by (auto simp: get_current_user_def bindp_eq_Inr thenp_eq_Inr on_db_def user_by_id_def
        split: option.split_asm prod.split_asm if_split_asm) (metis snd_conv)
  moreover obtain n ttl where "w_redis w = (n, ttl)" by fastforce
  ultimately show ?thesis using assms(2) [of k]
    by (auto simp: on_redis_def enforce_counting Let_def split: prod.split)
qed

text \<open>A repository is sent to be indexed, the worker takes the message, and a search follows.\<close>

lemma search_never_finds_witness:
  "\<exists>u u'. reaches (system_step sample_http_env) (sample_world 0 unindexed_db) u
     \<and> search_repository_route sample_http_env (bearer_request (uuid_str 0)) 1
         \<lparr>eq_q = ''def'', eq_revision_id = Some 3, eq_path_prefix = None, eq_language = None, eq_top_k = 5, eq_method = ''dense''\<rparr> u
       = (Inr [], u')"
proof -
  let ?w = "sample_world 0 unindexed_db" and ?rq = "bearer_request (uuid_str 0)" and ?env = sample_http_env
  let ?q = "\<lparr>eq_q = ''def'', eq_revision_id = Some 3, eq_path_prefix = None, eq_language = None, eq_top_k = 5, eq_method = ''dense''\<rparr>"
  let ?u = "handle ?env (request_id ?rq ?w) ?rq (IndexRepository 1) (drawn_uuid ?w)"
  obtain t where t: "create_index_run sample_index_env 0 1 (get_correlation_id (request_id ?rq ?w)) (client_ip ?rq) requested_db
      = (Inr (1, 11, True), t)" and rows: "users t = [sample_user]" "repositories t = [sample_index_repository]"
    using requested_index by blast
  have drawn: "drawn_uuid ?w = sample_world 0 requested_db"
    by (simp add: sample_drawn requested_db_def unindexed_db_def)
  obtain v1 where v1: "get_current_user ?env ?rq (sample_world 0 requested_db) = (Inr sample_user, v1)" "w_db v1 = requested_db"
    by (rule sample_identified [of requested_db]) (simp_all add: requested_db_def unindexed_db_def)
  have "index_env.truncate sample_search_env = sample_index_env"
    by (simp add: sample_search_env_def index_env.defs)
  then have u: "?u = v1\<lparr>w_db := t, w_tasks := w_tasks v1 @ [(''app.workers.tasks.index_repository'', [uuid_str 1, uuid_str 11])]\<rparr>"
    unfolding drawn handle.simps index_repository_route_def
    by (simp add: v1 t on_db_def commit_or_rollback_def enqueue_indexing_def send_task_def del: One_nat_def)
  have tasks: "w_tasks v1 = []" using get_current_user_Inr [OF v1(1)] by (auto simp: sample_world_def)
  have ran: "consume ?env (''app.workers.tasks.index_repository'', args) = ret ()" for args
    by (simp add: consume_def registered_tasks_def)
  let ?d = "?u\<lparr>w_db := t, w_tasks := []\<rparr>"
  have "system_step ?env ?u ?d"
    using system_step.deliver [of "(''app.workers.tasks.index_repository'', [uuid_str 1, uuid_str 11])" ?u "[]" ?env]
    unfolding ran u by (simp add: tasks)
  moreover have "system_step ?env ?d (sample_world 0 t)"
  proof -
    have "?d\<lparr>w_redis := (\<lambda>_. 0, \<lambda>_. True)\<rparr> = sample_world 0 t"
      unfolding sample_world_def by (rule world.equality) simp_all
    then show ?thesis using system_step.redis [of ?env ?d "(\<lambda>_. 0, \<lambda>_. True)"] by (simp only:)
  qed
  ultimately have reach: "reaches (system_step ?env) ?w (sample_world 0 t)"
    using system_request [of ?env ?w ?rq "IndexRepository 1"] by (blast intro: reaches_step)
  have ok: "system_ok [] ?w"
    by (simp add: system_ok_def sample_world_def) (simp add: kept_def sessions_ok_def users_ok_def tokens_ok_def one_active_def
        evolves_def numbered_def run_events_def unindexed_def integrity_def unindexed_db_def sample_index_db_def empty_db_def
        sample_user_def sample_fields)
  have "unindexed t" using whole_from.safe [OF ok reach] by (simp add: system_ok_def sample_world_def)
  obtain v2 where v2: "get_current_user ?env ?rq (sample_world 0 t) = (Inr sample_user, v2)" "w_db v2 = t"
    by (rule sample_identified [of t]) (simp_all add: rows)
  obtain n ttl where n: "w_redis v2 = (n, ttl)" by fastforce
  have "n k \<le> 1" for k using quota_after_user [OF v2(1), of 0 k] by (simp add: n sample_world_def)
  then have quota: "\<not> 60 < n k + 1" for k by (smt (verit))
  have "\<exists>out u'. search_repository_route ?env ?rq 1 ?q (sample_world 0 t) = (Inr out, u')"
    using \<open>unindexed t\<close> quota
    by (simp add: search_repository_route_def v2 on_redis_def n enforce_counting sample_settings default_settings_def Let_def
        on_db_def search_def search_chunks_def chunks_for_repository_revision_def order_chunks_def unindexed_def require_def
        repository_owned_by_id_def rows)
  then obtain out u' where out: "search_repository_route ?env ?rq 1 ?q (sample_world 0 t) = (Inr out, u')" by blast
  from search_never_finds [OF ok reach out] reach out show ?thesis by blast
qed

end
