(* ===== verification/Spec2Isabelle.thy ===== *)
theory Spec2Isabelle
  imports RemoteUrl Auth Ingestion Parsing Chunking Embedding Search Schema Json Platform Liveness
begin

text \<open>
  A verification development for the back end of CodePilot (\<^verbatim>\<open>src/backend\<close>): a FastAPI
  application that registers users, ingests their GitHub repositories in Celery workers, parses
  and indexes the source files, and searches the index.

  \<^bold>\<open>The program and the theories\<close>

  Paths are below \<^verbatim>\<open>src/backend/app\<close>. Definitions have the names of the functions they model.

  \<^descr> \<open>Prelude\<close>, \<open>PyStr\<close>, \<open>Regex\<close>: what all parts share. \<open>exn\<close> has the errors of
    \<^verbatim>\<open>core/exceptions.py\<close> and the Python exceptions the code raises, catches or lets escape;
    \<open>('s, 'a) py\<close> is a coroutine: from a state to an exception (\<open>Inl\<close>) or a value (\<open>Inr\<close>) and
    the state after it, with \<open>catch\<close>, \<open>finallyp\<close> and loops. \<open>preserves\<close> (collection \<open>pres\<close>) and
    \<open>returns\<close> (collection \<open>rets\<close>) carry invariants and results through such programs; \<open>reaches\<close>
    and the locale \<open>invariant_system\<close> carry them to reachable states. \<open>PyStr\<close> has the string
    methods, \<open>Regex\<close> a backtracking matcher for the patterns of the parsers.
  \<^descr> \<open>Domain\<close>, \<open>Queries\<close>: \<open>db\<close> holds the rows of \<^verbatim>\<open>models/domain.py\<close> in insertion order and
    what a rollback does not take back: UUIDs drawn, clock readings, processes run, directories on disk.
    Inserts check the primary, unique and foreign keys and deletes cascade as the models declare;
    \<open>commit_or_rollback\<close> is a transaction. \<open>Queries\<close> has \<^verbatim>\<open>repositories/domain.py\<close>; the locale
    \<open>owner_scoped\<close> shows that five lookups never return a row of another owner.
  \<^descr> \<open>Auth\<close>: \<^verbatim>\<open>services/auth.py\<close>, \<^verbatim>\<open>security\<close>, \<^verbatim>\<open>services/authorization.py\<close>: registration, login,
    rotation of refresh tokens, logout. \<open>sessions_ok\<close> is the invariant of accounts and tokens,
    \<open>kept\<close> the order in which tokens evolve.
  \<^descr> \<open>RemoteUrl\<close>, \<open>Cloning\<close>, \<open>Scanner\<close>, \<open>Ingestion\<close>: \<^verbatim>\<open>services/ingestion.py\<close>: URLs, refs and the
    \<^verbatim>\<open>git\<close> command lines, the clone with its cleanup, the walk over the files with every reason for
    exclusion, and the service with its state machine, its numbered events (locale \<open>event_log\<close>)
    and its worker.
  \<^descr> \<open>Parsing\<close>, \<open>Chunking\<close>, \<open>Embedding\<close>, \<open>Indexing\<close>, \<open>IndexRuns\<close>, \<open>IndexWitnesses\<close>, \<open>Search\<close>:
    \<^verbatim>\<open>parsing/index.py\<close> and \<^verbatim>\<open>services/indexing.py\<close>: symbols, split chunks and scores, the two
    embedding providers (locales \<open>sized_embedding\<close>, \<open>embedding_provider\<close>), the index run, and
    search with its three rankings (locale \<open>ranking\<close>).
  \<^descr> \<open>Schema\<close>: the Alembic migrations as operations on a schema, and the tables SQLAlchemy
    derives from the mapped classes.
  \<^descr> \<open>Json\<close>, \<open>RedisServices\<close>: the JSON the code writes and reads, rate limits and idempotency over
    a Redis client whose commands obey the locales \<open>redis_store\<close> and \<open>redis_counter\<close>.
  \<^descr> \<open>Settings\<close>, \<open>Platform\<close>: the settings and their production checks, readiness; the process
    environment, engine options, log lines, start and stop, Celery options, \<^verbatim>\<open>system_metadata\<close>.
  \<^descr> \<open>Http\<close>, \<open>Endpoints\<close>, \<open>Api\<close>: error envelopes, middleware and their order (locale \<open>starlette\<close>
    for the layers of the framework); every endpoint of \<^verbatim>\<open>api/v1\<close> and every task of
    \<^verbatim>\<open>workers/tasks.py\<close> over a \<open>world\<close>: the database, Redis and the queue. The locale \<open>gate\<close>
    is a check in front of an operation.
  \<^descr> \<open>System\<close>: all endpoints and workers as one transition system, \<open>system_step\<close>, with its
    invariant \<open>system_ok\<close>. \<open>IngestTotal\<close> is a Hoare logic with exceptions in which ingestion
    returns, and \<open>Liveness\<close> puts both together: queued ingestions and deletions complete.

  \<^bold>\<open>How the parts interact\<close>

  A request passes the middleware, which draws its correlation id, the checks of the endpoint
  (user, CSRF, rate limit), and one transaction; then it sends a task. A worker looks the name of a
  task up, reads the identifiers back and runs the service in a transaction of its own. The
  queue, Redis and the database are shared, and \<open>System\<close> lets requests, deliveries (also
  repeated and reordered ones) and losses of Redis keys interleave in any order.

  \<^bold>\<open>What is shown\<close>

  \<^item> Invariants of every reachable state of the whole system: accounts, tokens, event numbers and
    queued messages (\<open>system_invariant\<close>); a revoked token is never usable again.
  \<^item> Progress: a worker that takes the message of a queued repository returns and its run has
    succeeded or failed; a deletion completes.
  \<^item> Sessions: one usable token per login, a replay ends the session, only a valid token
    identifies a user, CSRF, owner scoping of all endpoints.
  \<^item> Ingestion: a finished run has settled, nothing stays on disk, only safe text is accepted, no
    option is injected into \<^verbatim>\<open>git\<close>, every outcome of a clone.
  \<^item> Indexing and search: what a run writes, what splitting covers, the result of search against
    a specification, and the ways in which an index is lost, blocked or never made.
  \<^item> Refinements: idempotency against a table, search against the best chunk per path, the
    migrations against the mapped classes. Round trips: JSON, downgrade and upgrade, the
    identifiers of a message. Bounds: rate limits, retries. Termination: the parsers and the
    splitting loop return for every input.
  \<^item> Where the code does not do what it means to, the theorem states what it does.

  \<^bold>\<open>Bounds and fuel\<close>

  Loops are structural or have a measure. The reader of JSON has fuel, twice the length of the
  text, and \<open>scan_fuel\<close> shows that this is enough. A repetition in a pattern is bounded by the
  length of the text, since its body must consume. Integers are unbounded as in Python; floats
  are rationals or reals without rounding; a character is one of the first 256 code points.

  \<^bold>\<open>Parameters\<close>

  Code outside the repository is a parameter: hashing, JWTs, \<^verbatim>\<open>ast\<close>, \<^verbatim>\<open>git\<close> and other processes, the
  HTTP servers, Redis, the framework's layers, pydantic's constructor, the clock and the file
  system being cloned into. A call that may answer differently each time gets the number of the call.

  \<^bold>\<open>Not modelled\<close>

  \<^item> Concurrent transactions: each is atomic, and those of different requests and workers follow
    one another in any order. A lost race for a unique key is the \<open>IntegrityError\<close> of an insert.
  \<^item> The maximal lengths of columns, \<^verbatim>\<open>updated_at\<close> columns and log output to streams.
  \<^item> Response schemas that only repeat the fields of the records answered, the prefixes of
    routers, Alembic's \<^verbatim>\<open>env.py\<close>: lists of names without behaviour.
  \<^item> \<^verbatim>\<open>_bound_output\<close>, the output of \<^verbatim>\<open>git\<close> cut after a number of bytes: nothing reads it.
  \<^item> The web front end and the deployment files: other languages.
\<close>

end
